(* ===== verification/TX_Prelude.thy ===== *)
theory TX_Prelude
  imports Main
begin

text \<open>
  Shared vocabulary of the development.  The sources use fixed-width C++ integers:
  \<^item> \<open>uint32_t\<close> and \<open>uint64_t\<close> values are natural numbers below \<open>2 ^ 32\<close> and \<open>2 ^ 64\<close>; the
    wrap-around of C++ unsigned arithmetic is written out with \<open>u32\<close>, \<open>u64\<close>, \<open>sub32\<close> and \<open>sub64\<close>;
  \<^item> \<open>int32_t\<close> and \<open>int64_t\<close> values are integers: signed overflow is undefined behaviour in
    C++, so the component theories prove range bounds instead of giving it a meaning.
  A C++ array reached through a pointer is a function from the index to the element, so that a
  write outside the extent of the array stays visible as a change of a cell outside it.
\<close>

unbundle bit_operations_syntax

section \<open>Machine integers\<close>

type_synonym 'a arr = "int \<Rightarrow> 'a"

definition UINT32_MAX :: nat where "UINT32_MAX = 4294967295"
definition UINT64_MAX :: nat where "UINT64_MAX = 18446744073709551615"
definition INT32_MAX :: int where "INT32_MAX = 2147483647"
definition INT64_MAX :: int where "INT64_MAX = 9223372036854775807"

definition i32 :: "int \<Rightarrow> int" where "i32 x = (x + 2147483648) mod 4294967296 - 2147483648"
definition u32 :: "nat \<Rightarrow> nat" where "u32 x = x mod 4294967296"
definition u64 :: "nat \<Rightarrow> nat" where "u64 x = x mod 18446744073709551616"
definition sub32 :: "nat \<Rightarrow> nat \<Rightarrow> nat" where "sub32 a b = u32 (a + 4294967296 - b)"
definition sub64 :: "nat \<Rightarrow> nat \<Rightarrow> nat" where "sub64 a b = u64 (a + 18446744073709551616 - b)"

named_theorems wrap_simps \<open>unsigned wrap-around that does not happen\<close>

lemma u32_id [wrap_simps]: "x < 4294967296 \<Longrightarrow> u32 x = x"
  by (simp add: u32_def)

lemma u64_id [wrap_simps]: "x < 18446744073709551616 \<Longrightarrow> u64 x = x"
  by (simp add: u64_def)

lemma u32_less [simp]: "u32 x < 4294967296"
  by (simp add: u32_def)

lemma u64_less [simp]: "u64 x < 18446744073709551616"
  by (simp add: u64_def)

lemma sub32_id [wrap_simps]:
  assumes "b \<le> a" and "a < 4294967296"
  shows "sub32 a b = a - b"
proof -
  have "a + 4294967296 - b = (a - b) + 4294967296" using assms by simp
  then have "sub32 a b = (a - b) mod 4294967296" by (simp only: sub32_def u32_def mod_add_self2)
  then show ?thesis using assms by simp
qed

lemma sub64_id [wrap_simps]:
  assumes "b \<le> a" and "a < 18446744073709551616"
  shows "sub64 a b = a - b"
proof -
  have "a + 18446744073709551616 - b = (a - b) + 18446744073709551616" using assms by simp
  then have "sub64 a b = (a - b) mod 18446744073709551616"
    by (simp only: sub64_def u64_def mod_add_self2)
  then show ?thesis using assms by simp
qed

text \<open>Coordinates of a row-major position.\<close>

lemma div_coord: "b < n \<Longrightarrow> (a * n + b) div n = a"
  for a b n :: nat
  by simp

lemma mod_coord: "b < n \<Longrightarrow> (a * n + b) mod n = b"
  for a b n :: nat
  by simp

lemma coord_bound: "a < m \<Longrightarrow> b < n \<Longrightarrow> a * n + b < m * n"
  for a b m n :: nat
proof -
  assume "a < m" "b < n"
  then have "a * n + b < Suc a * n" by simp
  also have "\<dots> \<le> m * n" using \<open>a < m\<close> by (intro mult_le_mono1) simp
  finally show ?thesis .
qed

section \<open>Arithmetic modulo the size of a ring\<close>

lemma mod_ring_add: "a < n \<Longrightarrow> b < n \<Longrightarrow> (a + b) mod n = (if a + b < n then a + b else a + b - n)"
  for a b n :: nat
  by (simp add: mod_if)

lemma mod_ring_sub: "a < n \<Longrightarrow> b < n \<Longrightarrow> (a + n - b) mod n = (if b \<le> a then a - b else a + n - b)"
  for a b n :: nat
  by (auto simp: mod_if)

lemma ring_sub_add:
  fixes a d n :: nat
  assumes "a < n" "d < n"
  shows "((a + d) mod n + n - a) mod n = d"
proof (cases "a + d < n")
  case True
  then have "((a + d) mod n + n - a) mod n = (d + n) mod n" by (simp add: ac_simps)
  then show ?thesis using assms by simp
next
  case False
  then have "(a + d) mod n = a + d - n" using assms by (simp add: mod_ring_add)
  then show ?thesis using False assms by simp
qed

lemma ring_sub_sub:
  fixes a d n :: nat
  assumes "a < n" "d < n"
  shows "(a + n - (a + n - d) mod n) mod n = d"
proof (cases "d \<le> a")
  case True
  then have "(a + n - d) mod n = a - d" using assms by (simp add: mod_ring_sub)
  then have "a + n - (a + n - d) mod n = d + n" using True assms by simp
  then show ?thesis using assms by simp
next
  case False
  then have "(a + n - d) mod n = a + n - d" using assms by (simp add: mod_ring_sub)
  then show ?thesis using False assms by simp
qed

lemma ring_add_sub:
  fixes a g n :: nat
  assumes "a < n" "g < n"
  shows "(a + (g + n - a) mod n) mod n = g"
proof (cases "a \<le> g")
  case True
  then have "(g + n - a) mod n = g - a" using assms by (simp add: mod_ring_sub)
  then show ?thesis using True assms by simp
next
  case False
  then have "(g + n - a) mod n = g + n - a" using assms by (simp add: mod_ring_sub)
  then have "a + (g + n - a) mod n = g + n" using False assms by simp
  then show ?thesis using assms by simp
qed

lemma sub32_diff:
  assumes "d < 4294967296"
  shows "sub32 (u32 (b + d)) (u32 b) = d"
proof -
  have "(b + d) mod 4294967296 = (b mod 4294967296 + d) mod 4294967296" by (simp only: mod_add_left_eq)
  then show ?thesis using ring_sub_add [of "b mod 4294967296" 4294967296 d] assms
    by (simp add: sub32_def u32_def)
qed

lemma less_4_cases: "x < (4::nat) \<Longrightarrow> x = 0 \<or> x = 1 \<or> x = 2 \<or> x = 3"
  by auto

section \<open>Packing of bit fields\<close>

lemma or_push_bit_add:
  fixes a b :: nat
  assumes "a < 2 ^ n"
  shows "a OR push_bit n b = a + b * 2 ^ n"
proof -
  have "a AND push_bit n b = 0"
  proof (rule bit_eqI)
    fix k
    have "a = take_bit n a" using assms by (simp add: take_bit_nat_eq_self)
    then have "bit a k \<Longrightarrow> k < n" by (metis bit_take_bit_iff)
    then show "bit (a AND push_bit n b) k = bit 0 k" by (auto simp: bit_and_iff bit_push_bit_iff)
  qed
  then have "a OR push_bit n b = a + push_bit n b" by (simp add: disjunctive_add_eq_or)
  then show ?thesis by (simp add: push_bit_eq_mult)
qed

lemma i32_id: "- 2147483648 \<le> x \<Longrightarrow> x \<le> INT32_MAX \<Longrightarrow> i32 x = x"
  by (simp add: i32_def INT32_MAX_def)

lemma xor_right_inj: "(a XOR c = b XOR c) = (a = b)" for a b c :: int
  by (metis xor.assoc xor_self_eq xor.right_neutral)

lemma xor_left_inj: "(c XOR a = c XOR b) = (a = b)" for a b c :: nat
  by (metis xor.assoc xor_self_eq xor.left_neutral)

lemma field_inj: "a < m \<Longrightarrow> a' < m \<Longrightarrow> (a + b * m = a' + b' * m) = (a = a' \<and> b = b')"
  for a a' b b' m :: nat
  by (metis add.commute add_cancel_left_right div_mult_self1 mod_less mod_mult_self1 div_less not_less_zero)

end
