(* ===== verification/CombineSchedule.thy ===== *)
theory CombineSchedule
  imports TX_Prelude
begin

text \<open>
  The MoonEP Combine V2 schedule of \<^verbatim>\<open>src/src/moonep/common/moonep_combine_schedule.h\<close>: the constants,
  the wire records and the pure functions that both the device kernels and the host use.  All
  arguments are \<open>uint32_t\<close> (naturals); ring offsets are \<open>int32_t\<close> (integers).  Every addition,
  multiplication and subtraction carries its 32-bit wrap-around (\<open>u32\<close>, \<open>sub32\<close>).  Division by
  zero, undefined in C++, is reached only for the unsupported rank sizes 9..15.
\<close>

unbundle bit_operations_syntax

section \<open>Constants, enumerations and records\<close>

definition kMoonEpCombineV2RankCount :: nat where [simp]: "kMoonEpCombineV2RankCount = 128"
definition kMoonEpCombineV2GroupSize :: nat where [simp]: "kMoonEpCombineV2GroupSize = 8"
definition kMoonEpCombineV2StepCount :: nat where [simp]: "kMoonEpCombineV2StepCount = 8"
definition kMoonEpCombineV2CoreCount :: nat where [simp]: "kMoonEpCombineV2CoreCount = 16"
definition kMoonEpCombineV2LaneCount :: nat where [simp]: "kMoonEpCombineV2LaneCount = 2"
definition kMoonEpCombineV2QpCount :: nat where [simp]: "kMoonEpCombineV2QpCount = 32"
definition kMoonEpCombineV2FullmeshSlotCount :: nat where
  [simp]: "kMoonEpCombineV2FullmeshSlotCount = 8"
definition kMoonEpCombineV2FullmeshLogicalQpBase :: nat where
  [simp]: "kMoonEpCombineV2FullmeshLogicalQpBase = kMoonEpCombineV2QpCount"
definition kMoonEpCombineV2EpochCount :: nat where [simp]: "kMoonEpCombineV2EpochCount = 2"
definition kMoonEpCombineV2MteBlockBytes :: nat where [simp]: "kMoonEpCombineV2MteBlockBytes = 32"
definition kMoonEpCombineV2CreditTransitionCount :: nat where
  [simp]: "kMoonEpCombineV2CreditTransitionCount = kMoonEpCombineV2StepCount - 1"
definition kMoonEpCombineV2CollectiveStatusSlotCount :: nat where
  [simp]: "kMoonEpCombineV2CollectiveStatusSlotCount = 16"
definition kMoonEpCombineV2CollectiveStatusSlotBytes :: nat where
  [simp]: "kMoonEpCombineV2CollectiveStatusSlotBytes = 64"
definition kMoonEpCombineV2TokenStrideBytes :: nat where
  [simp]: "kMoonEpCombineV2TokenStrideBytes = 64"
definition kMoonEpCombineV2CreditMarker :: nat where
  [simp]: "kMoonEpCombineV2CreditMarker = 0x43524454"
definition kMoonEpCombineV2CollectiveStatusMarker :: nat where
  [simp]: "kMoonEpCombineV2CollectiveStatusMarker = 0x43535453"
definition kMoonEpCombineV2MaxMagic :: nat where
  "kMoonEpCombineV2MaxMagic = drop_bit 3 UINT64_MAX"
definition kMoonEpCombineV2InvalidPeer :: nat where
  [simp]: "kMoonEpCombineV2InvalidPeer = 4294967295"

text \<open>The credit window constants of \<^verbatim>\<open>src/src/include/comm_args.h\<close>.\<close>

definition COMBINE_CREDIT_IPC_SIGNAL_BYTES :: nat where [simp]: "COMBINE_CREDIT_IPC_SIGNAL_BYTES = 64"
definition TILEXR_MAX_RANK_SIZE :: nat where [simp]: "TILEXR_MAX_RANK_SIZE = 128"
definition CREDIT_IPC_STRIDE :: nat where [simp]: "CREDIT_IPC_STRIDE = 512"
definition CREDIT_IPC_SLOT_BYTES :: nat where
  [simp]: "CREDIT_IPC_SLOT_BYTES = TILEXR_MAX_RANK_SIZE * CREDIT_IPC_STRIDE"
definition DISPATCH_CREDIT_IPC_BYTES :: nat where
  [simp]: "DISPATCH_CREDIT_IPC_BYTES = 2 * CREDIT_IPC_SLOT_BYTES"
definition COMBINE_CREDIT_IPC_PLANE_BYTES :: nat where
  [simp]: "COMBINE_CREDIT_IPC_PLANE_BYTES = 7 * 16 * COMBINE_CREDIT_IPC_SIGNAL_BYTES"
definition COMBINE_CREDIT_IPC_BYTES :: nat where
  [simp]: "COMBINE_CREDIT_IPC_BYTES = 2 * COMBINE_CREDIT_IPC_PLANE_BYTES"
definition COMBINE_CREDIT_IPC_BASE :: nat where
  [simp]: "COMBINE_CREDIT_IPC_BASE = DISPATCH_CREDIT_IPC_BYTES"
definition CREDIT_IPC_BYTES :: nat where
  [simp]: "CREDIT_IPC_BYTES = COMBINE_CREDIT_IPC_BASE + COMBINE_CREDIT_IPC_BYTES"

definition MOONEP_COMBINE_V2_SIX_PORT :: nat where [simp]: "MOONEP_COMBINE_V2_SIX_PORT = 0"
definition MOONEP_COMBINE_V2_TWO_PORT :: nat where [simp]: "MOONEP_COMBINE_V2_TWO_PORT = 1"

datatype MoonEpCombineV2ScheduleMode =
    MOONEP_COMBINE_V2_SINGLE_RING
  | MOONEP_COMBINE_V2_BIDIRECTIONAL_RING
  | MOONEP_COMBINE_V2_SERVER_PAIR_SAME_CROSS
  | MOONEP_COMBINE_V2_SERVER_PAIR_PARITY

record MoonEpCombineV2CreditSignal =
  cs_magic :: nat
  cs_guard :: nat
  cs_marker :: nat
  cs_transitionStep :: nat
  cs_sourceRank :: nat
  cs_sourceCore :: nat
  cs_targetRank :: nat
  cs_targetCore :: nat

record MoonEpCombineV2LaneCounts =
  sixPort :: nat
  twoPort :: nat

record MoonEpCombineV2RingSegments =
  seg_first :: nat
  seg_second :: nat

record MoonEpCombineV2ScheduleCoordinate =
  sc_phase :: nat
  sc_phaseStep :: nat
  sc_round :: nat
  sc_core :: nat

section \<open>Rank sizes, steps and cores\<close>

definition MoonEpCombineV2RankSizeSupported :: "nat \<Rightarrow> bool" where
  "MoonEpCombineV2RankSizeSupported rankSize \<longleftrightarrow>
     (2 \<le> rankSize \<and> rankSize \<le> kMoonEpCombineV2GroupSize) \<or>
     rankSize = 16 \<or> rankSize = 32 \<or> rankSize = 64 \<or> rankSize = kMoonEpCombineV2RankCount"

definition MoonEpCombineV2RankValid :: "nat \<Rightarrow> nat \<Rightarrow> bool" where
  "MoonEpCombineV2RankValid rank rankSize \<longleftrightarrow>
     MoonEpCombineV2RankSizeSupported rankSize \<and> rank < rankSize"

definition MoonEpCombineV2ActiveCoreCount :: "nat \<Rightarrow> nat" where
  "MoonEpCombineV2ActiveCoreCount rankSize =
     (if rankSize \<le> kMoonEpCombineV2GroupSize then rankSize else kMoonEpCombineV2CoreCount)"

definition MoonEpCombineV2StepCount :: "nat \<Rightarrow> nat" where
  "MoonEpCombineV2StepCount rankSize =
     (if rankSize \<le> kMoonEpCombineV2GroupSize then 1 else rankSize div kMoonEpCombineV2CoreCount)"

definition MoonEpCombineV2CreditTransitionCount :: "nat \<Rightarrow> nat" where
  "MoonEpCombineV2CreditTransitionCount rankSize =
     (let stepCount = MoonEpCombineV2StepCount rankSize in
      if MoonEpCombineV2RankSizeSupported rankSize \<and> stepCount \<noteq> 0 then stepCount - 1 else 0)"

definition MoonEpCombineV2CreditRequiredBeforeStep :: "nat \<Rightarrow> nat \<Rightarrow> bool" where
  "MoonEpCombineV2CreditRequiredBeforeStep step rankSize \<longleftrightarrow>
     MoonEpCombineV2RankSizeSupported rankSize \<and> step \<noteq> 0 \<and>
     step < MoonEpCombineV2StepCount rankSize"

definition MoonEpCombineV2CreditPublishedAfterStep :: "nat \<Rightarrow> nat \<Rightarrow> bool" where
  "MoonEpCombineV2CreditPublishedAfterStep step rankSize \<longleftrightarrow>
     MoonEpCombineV2RankSizeSupported rankSize \<and>
     u32 (step + 1) < MoonEpCombineV2StepCount rankSize"

definition MoonEpCombineV2EffectivePeer :: "nat \<Rightarrow> nat \<Rightarrow> nat" where
  "MoonEpCombineV2EffectivePeer peer sourceRank =
     (if peer = kMoonEpCombineV2InvalidPeer then sourceRank else peer)"

definition MoonEpCombineV2GroupsPerHalf :: "nat \<Rightarrow> nat" where
  "MoonEpCombineV2GroupsPerHalf rankSize = rankSize div kMoonEpCombineV2CoreCount"

definition MoonEpCombineV2LocalRankSize :: "nat \<Rightarrow> nat" where
  "MoonEpCombineV2LocalRankSize rankSize =
     (if rankSize \<le> kMoonEpCombineV2GroupSize then rankSize else kMoonEpCombineV2GroupSize)"

definition MoonEpCombineV2CoreValid :: "nat \<Rightarrow> nat \<Rightarrow> bool" where
  "MoonEpCombineV2CoreValid core rankSize \<longleftrightarrow>
     MoonEpCombineV2RankSizeSupported rankSize \<and> core < MoonEpCombineV2ActiveCoreCount rankSize"

section \<open>The 128-rank group schedule\<close>

definition MoonEpCombineV2GroupMakeRank :: "nat \<Rightarrow> nat \<Rightarrow> nat \<Rightarrow> nat \<Rightarrow> nat" where
  "MoonEpCombineV2GroupMakeRank cabinet serverParity cardHalf groupInnerIndex =
     (if 2 \<le> cabinet \<or> 2 \<le> serverParity \<or> 2 \<le> cardHalf \<or>
         kMoonEpCombineV2CoreCount \<le> groupInnerIndex
      then kMoonEpCombineV2InvalidPeer
      else let server = push_bit 1 (drop_bit 2 groupInnerIndex) OR serverParity;
               card = push_bit 2 cardHalf OR (groupInnerIndex AND 3)
           in (push_bit 6 cabinet OR push_bit 3 server) OR card)"

definition MoonEpCombineV2GroupId :: "nat \<Rightarrow> nat" where
  "MoonEpCombineV2GroupId rank =
     (if rank < kMoonEpCombineV2RankCount
      then (push_bit 2 (drop_bit 6 rank) OR push_bit 1 (drop_bit 2 rank AND 1)) OR
           (drop_bit 3 rank AND 1)
      else kMoonEpCombineV2InvalidPeer)"

definition MoonEpCombineV2GroupInnerIndex :: "nat \<Rightarrow> nat" where
  "MoonEpCombineV2GroupInnerIndex rank =
     (if kMoonEpCombineV2RankCount \<le> rank then kMoonEpCombineV2InvalidPeer
      else let server = drop_bit 3 rank AND 7 in push_bit 2 (drop_bit 1 server) OR (rank AND 3))"

definition MoonEpCombineV2GroupSendDstRank :: "nat \<Rightarrow> nat \<Rightarrow> nat \<Rightarrow> nat" where
  "MoonEpCombineV2GroupSendDstRank rank step destinationInnerIndex =
     (if kMoonEpCombineV2RankCount \<le> rank \<or> kMoonEpCombineV2StepCount \<le> step \<or>
         kMoonEpCombineV2CoreCount \<le> destinationInnerIndex
      then kMoonEpCombineV2InvalidPeer
      else let sourceCabinet = drop_bit 6 rank;
               sourceParity = drop_bit 3 rank AND 1;
               sourceHalf = drop_bit 2 rank AND 1;
               t0 = step AND 1;
               t1 = drop_bit 1 step AND 1;
               t2 = drop_bit 2 step AND 1;
               interCabinet = sourceHalf XOR t2
           in MoonEpCombineV2GroupMakeRank (sourceCabinet XOR interCabinet)
                ((sourceParity XOR t1) XOR 1) (interCabinet XOR t0) destinationInnerIndex)"

definition MoonEpCombineV2GroupRecvSrcRank :: "nat \<Rightarrow> nat \<Rightarrow> nat \<Rightarrow> nat" where
  "MoonEpCombineV2GroupRecvSrcRank rank step sourceInnerIndex =
     (if kMoonEpCombineV2RankCount \<le> rank \<or> kMoonEpCombineV2StepCount \<le> step \<or>
         kMoonEpCombineV2CoreCount \<le> sourceInnerIndex
      then kMoonEpCombineV2InvalidPeer
      else let destinationCabinet = drop_bit 6 rank;
               destinationParity = drop_bit 3 rank AND 1;
               destinationHalf = drop_bit 2 rank AND 1;
               t0 = step AND 1;
               t1 = drop_bit 1 step AND 1;
               t2 = drop_bit 2 step AND 1;
               interCabinet = destinationHalf XOR t0
           in MoonEpCombineV2GroupMakeRank (destinationCabinet XOR interCabinet)
                ((destinationParity XOR t1) XOR 1) (interCabinet XOR t2) sourceInnerIndex)"

definition MoonEpCombineV2StepValid :: "nat \<Rightarrow> nat \<Rightarrow> bool" where
  "MoonEpCombineV2StepValid step rankSize \<longleftrightarrow>
     MoonEpCombineV2RankSizeSupported rankSize \<and> step < MoonEpCombineV2StepCount rankSize"

section \<open>The server-pair schedule\<close>

definition MoonEpCombineV2ServerPairRankSize :: "nat \<Rightarrow> bool" where
  "MoonEpCombineV2ServerPairRankSize rankSize \<longleftrightarrow>
     rankSize = 32 \<or> rankSize = 64 \<or> rankSize = kMoonEpCombineV2RankCount"

definition MoonEpCombineV2ServerPairPhaseStepCount :: "nat \<Rightarrow> nat" where
  "MoonEpCombineV2ServerPairPhaseStepCount rankSize =
     (if MoonEpCombineV2ServerPairRankSize rankSize then rankSize div 32 else 0)"

definition MoonEpCombineV2ServerPairRoundCount :: "nat \<Rightarrow> nat" where
  "MoonEpCombineV2ServerPairRoundCount rankSize =
     (if MoonEpCombineV2ServerPairRankSize rankSize
      then rankSize div kMoonEpCombineV2CoreCount else 0)"

definition MoonEpCombineV2ServerPairPhase :: "nat \<Rightarrow> nat \<Rightarrow> nat" where
  "MoonEpCombineV2ServerPairPhase round rankSize =
     (let phaseStepCount = MoonEpCombineV2ServerPairPhaseStepCount rankSize in
      if phaseStepCount \<noteq> 0 \<and> round < MoonEpCombineV2ServerPairRoundCount rankSize
      then round div phaseStepCount else kMoonEpCombineV2InvalidPeer)"

definition MoonEpCombineV2ServerPairPhaseStep :: "nat \<Rightarrow> nat \<Rightarrow> nat" where
  "MoonEpCombineV2ServerPairPhaseStep round rankSize =
     (let phaseStepCount = MoonEpCombineV2ServerPairPhaseStepCount rankSize in
      if phaseStepCount \<noteq> 0 \<and> round < MoonEpCombineV2ServerPairRoundCount rankSize
      then round mod phaseStepCount else kMoonEpCombineV2InvalidPeer)"

definition MoonEpCombineV2ServerPairTargetHalf ::
    "nat \<Rightarrow> nat \<Rightarrow> nat \<Rightarrow> MoonEpCombineV2ScheduleMode \<Rightarrow> nat" where
  "MoonEpCombineV2ServerPairTargetHalf sourceRank phase rankSize mode =
     (if \<not> MoonEpCombineV2ServerPairRankSize rankSize \<or>
         \<not> MoonEpCombineV2RankValid sourceRank rankSize \<or> 2 \<le> phase
      then kMoonEpCombineV2InvalidPeer
      else if mode = MOONEP_COMBINE_V2_SERVER_PAIR_PARITY
      then let sourceParity = sourceRank AND 1 in
           (if phase = 0 then sub32 1 sourceParity else sourceParity)
      else if mode \<noteq> MOONEP_COMBINE_V2_SERVER_PAIR_SAME_CROSS then kMoonEpCombineV2InvalidPeer
      else let sourceHalf = sourceRank div (rankSize div 2) in
           (if phase = 0 then sourceHalf else sub32 1 sourceHalf))"

definition MoonEpCombineV2ServerPairIndex :: "nat \<Rightarrow> nat \<Rightarrow> nat \<Rightarrow> nat" where
  "MoonEpCombineV2ServerPairIndex sourceRank phaseStep rankSize =
     (let phaseStepCount = MoonEpCombineV2ServerPairPhaseStepCount rankSize in
      if \<not> MoonEpCombineV2RankValid sourceRank rankSize \<or> phaseStepCount = 0 \<or>
         phaseStepCount \<le> phaseStep
      then kMoonEpCombineV2InvalidPeer
      else let sourceServer = sourceRank div kMoonEpCombineV2GroupSize in
           u32 (sourceServer mod phaseStepCount + phaseStep) mod phaseStepCount)"

definition MoonEpCombineV2ServerPairPeer ::
    "nat \<Rightarrow> nat \<Rightarrow> nat \<Rightarrow> nat \<Rightarrow> MoonEpCombineV2ScheduleMode \<Rightarrow> nat" where
  "MoonEpCombineV2ServerPairPeer sourceRank round core rankSize mode =
     (if \<not> MoonEpCombineV2RankValid sourceRank rankSize \<or>
         \<not> MoonEpCombineV2ServerPairRankSize rankSize \<or> kMoonEpCombineV2CoreCount \<le> core
      then kMoonEpCombineV2InvalidPeer
      else
        let phase = MoonEpCombineV2ServerPairPhase round rankSize;
            phaseStep = MoonEpCombineV2ServerPairPhaseStep round rankSize;
            targetHalf = MoonEpCombineV2ServerPairTargetHalf sourceRank phase rankSize mode;
            pairIndex = MoonEpCombineV2ServerPairIndex sourceRank phaseStep rankSize
        in if targetHalf = kMoonEpCombineV2InvalidPeer \<or> pairIndex = kMoonEpCombineV2InvalidPeer
           then kMoonEpCombineV2InvalidPeer
           else
             let phaseStepCount = MoonEpCombineV2ServerPairPhaseStepCount rankSize;
                 serversPerHalf = u32 (2 * phaseStepCount);
                 halfBase = u32 (targetHalf * serversPerHalf);
                 firstServer = u32 (halfBase + u32 (u32 (2 * pairIndex) + 1) mod serversPerHalf);
                 secondServer = u32 (halfBase + u32 (u32 (2 * pairIndex) + 2) mod serversPerHalf);
                 targetServer = (if core < kMoonEpCombineV2GroupSize then firstServer
                                 else secondServer)
             in u32 (u32 (targetServer * kMoonEpCombineV2GroupSize) +
                     core mod kMoonEpCombineV2GroupSize))"

definition invalid_coordinate :: MoonEpCombineV2ScheduleCoordinate where
  "invalid_coordinate =
     \<lparr>sc_phase = kMoonEpCombineV2InvalidPeer, sc_phaseStep = kMoonEpCombineV2InvalidPeer,
      sc_round = kMoonEpCombineV2InvalidPeer, sc_core = kMoonEpCombineV2InvalidPeer\<rparr>"

definition MoonEpCombineV2ServerPairReceive ::
    "nat \<Rightarrow> nat \<Rightarrow> nat \<Rightarrow> MoonEpCombineV2ScheduleMode \<Rightarrow> MoonEpCombineV2ScheduleCoordinate" where
  "MoonEpCombineV2ServerPairReceive destinationRank sourceRank rankSize mode =
     (if \<not> MoonEpCombineV2ServerPairRankSize rankSize \<or>
         \<not> MoonEpCombineV2RankValid destinationRank rankSize \<or>
         \<not> MoonEpCombineV2RankValid sourceRank rankSize
      then invalid_coordinate
      else
        let phaseStepCount = MoonEpCombineV2ServerPairPhaseStepCount rankSize;
            serversPerHalf = u32 (2 * phaseStepCount);
            sourceServer = sourceRank div kMoonEpCombineV2GroupSize;
            destinationServer = destinationRank div kMoonEpCombineV2GroupSize;
            destinationLocal = destinationRank mod kMoonEpCombineV2GroupSize;
            targetHalf = destinationServer div serversPerHalf;
            relativeServer = sub32 destinationServer (u32 (targetHalf * serversPerHalf));
            pairIndex = (sub32 (u32 (relativeServer + serversPerHalf)) 1 mod serversPerHalf) div 2;
            phaseStep = sub32 (u32 (pairIndex + phaseStepCount)) (sourceServer mod phaseStepCount)
                          mod phaseStepCount;
            firstServer = u32 (u32 (targetHalf * serversPerHalf) +
                               u32 (u32 (2 * pairIndex) + 1) mod serversPerHalf);
            core = (if destinationServer = firstServer then destinationLocal
                    else u32 (kMoonEpCombineV2GroupSize + destinationLocal));
            coordinate = (\<lambda>phase. \<lparr>sc_phase = phase, sc_phaseStep = phaseStep,
                sc_round = u32 (u32 (phase * phaseStepCount) + phaseStep), sc_core = core\<rparr>)
        in case mode of
             MOONEP_COMBINE_V2_SERVER_PAIR_PARITY \<Rightarrow>
               coordinate (if targetHalf = (sourceRank AND 1) then 1 else 0)
           | MOONEP_COMBINE_V2_SERVER_PAIR_SAME_CROSS \<Rightarrow>
               (let sourceHalf = sourceRank div (rankSize div 2) in
                coordinate (if targetHalf = sourceHalf then 0 else 1))
           | _ \<Rightarrow> invalid_coordinate)"

definition MoonEpCombineV2ServerPairSenderCore ::
    "nat \<Rightarrow> nat \<Rightarrow> nat \<Rightarrow> MoonEpCombineV2ScheduleMode \<Rightarrow> nat" where
  "MoonEpCombineV2ServerPairSenderCore sourceRank destinationRank rankSize mode =
     sc_core (MoonEpCombineV2ServerPairReceive destinationRank sourceRank rankSize mode)"

section \<open>The ring schedules\<close>

definition MoonEpCombineV2SingleRingPeer :: "nat \<Rightarrow> nat \<Rightarrow> nat \<Rightarrow> nat \<Rightarrow> nat" where
  "MoonEpCombineV2SingleRingPeer sourceRank step core rankSize =
     (if rankSize \<le> kMoonEpCombineV2GroupSize then core
      else
        let groupsPerHalf = MoonEpCombineV2GroupsPerHalf rankSize;
            sourceGroup = (sourceRank div kMoonEpCombineV2GroupSize) mod groupsPerHalf;
            targetHalf = core div kMoonEpCombineV2GroupSize;
            targetOffset = core mod kMoonEpCombineV2GroupSize;
            distance = u32 (step + 1) mod groupsPerHalf;
            targetIndex =
              (if core < kMoonEpCombineV2GroupSize
               then u32 (sourceGroup + distance) mod groupsPerHalf
               else sub32 (u32 (sourceGroup + groupsPerHalf)) distance mod groupsPerHalf)
        in u32 (u32 (u32 (targetIndex + u32 (targetHalf * groupsPerHalf)) *
                     kMoonEpCombineV2GroupSize) + targetOffset))"

definition MoonEpCombineV2RingOffset :: "nat \<Rightarrow> int \<Rightarrow> nat \<Rightarrow> nat" where
  "MoonEpCombineV2RingOffset position offset ringSize =
     (if 0 \<le> offset then u32 (position + nat offset) mod ringSize
      else sub32 (u32 (position + ringSize)) (nat (- offset)) mod ringSize)"

definition MoonEpCombineV2BidirectionalOffset :: "nat \<Rightarrow> nat \<Rightarrow> nat \<Rightarrow> bool \<Rightarrow> int" where
  "MoonEpCombineV2BidirectionalOffset step lane ringSize sameHalf =
     (let ordinal = u32 (u32 (step * kMoonEpCombineV2GroupSize) + lane) in
      if sameHalf
      then (if u32 (ordinal + 1) = ringSize then 0
            else let distance = int (ordinal div 2 + 1) in
                 (if ordinal AND 1 = 0 then distance else - distance))
      else if ordinal = 0 then 0
      else if ordinal = 1 then int (ringSize div 2)
      else let pairOrdinal = ordinal - 2; distance = int (pairOrdinal div 2 + 1) in
           (if pairOrdinal AND 1 = 0 then distance else - distance))"

definition MoonEpCombineV2BidirectionalScheduleEnabled ::
    "nat \<Rightarrow> MoonEpCombineV2ScheduleMode \<Rightarrow> bool" where
  "MoonEpCombineV2BidirectionalScheduleEnabled rankSize mode \<longleftrightarrow>
     (mode = MOONEP_COMBINE_V2_BIDIRECTIONAL_RING \<or>
      mode = MOONEP_COMBINE_V2_SERVER_PAIR_SAME_CROSS \<or>
      mode = MOONEP_COMBINE_V2_SERVER_PAIR_PARITY) \<and>
     (rankSize = kMoonEpCombineV2GroupSize \<or> 16 \<le> rankSize)"

definition MoonEpCombineV2ServerPairScheduleEnabled ::
    "nat \<Rightarrow> MoonEpCombineV2ScheduleMode \<Rightarrow> bool" where
  "MoonEpCombineV2ServerPairScheduleEnabled rankSize mode \<longleftrightarrow>
     (mode = MOONEP_COMBINE_V2_SERVER_PAIR_SAME_CROSS \<or>
      mode = MOONEP_COMBINE_V2_SERVER_PAIR_PARITY) \<and>
     MoonEpCombineV2ServerPairRankSize rankSize"

definition MoonEpCombineV2BidirectionalPeer :: "nat \<Rightarrow> nat \<Rightarrow> nat \<Rightarrow> nat \<Rightarrow> nat" where
  "MoonEpCombineV2BidirectionalPeer sourceRank step core rankSize =
     (if rankSize = kMoonEpCombineV2GroupSize
      then (if u32 (core + 1) = rankSize then kMoonEpCombineV2InvalidPeer
            else MoonEpCombineV2RingOffset sourceRank
                   (MoonEpCombineV2BidirectionalOffset step core rankSize True) rankSize)
      else
        let halfRankCount = rankSize div 2;
            sourceHalf = sourceRank div halfRankCount;
            targetHalf = core div kMoonEpCombineV2GroupSize;
            lane = core mod kMoonEpCombineV2GroupSize;
            ordinal = u32 (u32 (step * kMoonEpCombineV2GroupSize) + lane);
            sameHalf = (sourceHalf = targetHalf)
        in if sameHalf \<and> u32 (ordinal + 1) = halfRankCount then kMoonEpCombineV2InvalidPeer
           else let targetLocal = MoonEpCombineV2RingOffset (sourceRank mod halfRankCount)
                      (MoonEpCombineV2BidirectionalOffset step lane halfRankCount sameHalf)
                      halfRankCount
                in u32 (u32 (targetHalf * halfRankCount) + targetLocal))"

definition MoonEpCombineV2Peer ::
    "nat \<Rightarrow> nat \<Rightarrow> nat \<Rightarrow> nat \<Rightarrow> MoonEpCombineV2ScheduleMode \<Rightarrow> nat" where
  "MoonEpCombineV2Peer sourceRank step core rankSize mode =
     (if MoonEpCombineV2ServerPairScheduleEnabled rankSize mode
      then MoonEpCombineV2ServerPairPeer sourceRank step core rankSize mode
      else if MoonEpCombineV2BidirectionalScheduleEnabled rankSize mode
      then MoonEpCombineV2BidirectionalPeer sourceRank step core rankSize
      else MoonEpCombineV2SingleRingPeer sourceRank step core rankSize)"

definition MoonEpCombineV2NextStep :: "nat \<Rightarrow> nat \<Rightarrow> nat" where
  "MoonEpCombineV2NextStep step stepCount =
     (if u32 (step + 1) = stepCount then 0 else u32 (step + 1))"

definition MoonEpCombineV2SingleRingSuccessor :: "nat \<Rightarrow> nat \<Rightarrow> nat \<Rightarrow> nat" where
  "MoonEpCombineV2SingleRingSuccessor sourceRank core rankSize =
     (if rankSize \<le> kMoonEpCombineV2GroupSize then sourceRank
      else
        let halfRankCount = rankSize div 2;
            groupsPerHalf = MoonEpCombineV2GroupsPerHalf rankSize;
            halfBase = u32 (sourceRank div halfRankCount * halfRankCount);
            groupInHalf = (sourceRank mod halfRankCount) div kMoonEpCombineV2GroupSize;
            successorGroup =
              (if core < kMoonEpCombineV2GroupSize
               then sub32 (u32 (groupInHalf + groupsPerHalf)) 1 mod groupsPerHalf
               else u32 (groupInHalf + 1) mod groupsPerHalf)
        in u32 (u32 (halfBase + u32 (successorGroup * kMoonEpCombineV2GroupSize)) +
                sourceRank mod kMoonEpCombineV2GroupSize))"

definition MoonEpCombineV2Successor ::
    "nat \<Rightarrow> nat \<Rightarrow> nat \<Rightarrow> nat \<Rightarrow> MoonEpCombineV2ScheduleMode \<Rightarrow> nat" where
  "MoonEpCombineV2Successor sourceRank step core rankSize mode =
     (if \<not> MoonEpCombineV2BidirectionalScheduleEnabled rankSize mode \<or>
         rankSize \<le> kMoonEpCombineV2GroupSize
      then MoonEpCombineV2SingleRingSuccessor sourceRank core rankSize
      else
        let halfRankCount = rankSize div 2;
            sourceHalf = sourceRank div halfRankCount;
            targetHalf = core div kMoonEpCombineV2GroupSize;
            lane = core mod kMoonEpCombineV2GroupSize;
            sameHalf = (sourceHalf = targetHalf);
            nextStep = MoonEpCombineV2NextStep step (MoonEpCombineV2StepCount rankSize);
            currentOffset = MoonEpCombineV2BidirectionalOffset step lane halfRankCount sameHalf;
            nextOffset = MoonEpCombineV2BidirectionalOffset nextStep lane halfRankCount sameHalf;
            targetLocal = MoonEpCombineV2RingOffset (sourceRank mod halfRankCount) currentOffset
                            halfRankCount;
            successorLocal = MoonEpCombineV2RingOffset targetLocal (- nextOffset) halfRankCount
        in u32 (u32 (sourceHalf * halfRankCount) + successorLocal))"

section \<open>The receive side\<close>

definition MoonEpCombineV2SingleRingReceiveStep :: "nat \<Rightarrow> nat \<Rightarrow> nat \<Rightarrow> nat" where
  "MoonEpCombineV2SingleRingReceiveStep destinationRank sourceRank rankSize =
     (if rankSize \<le> kMoonEpCombineV2GroupSize then 0
      else
        let groupsPerHalf = MoonEpCombineV2GroupsPerHalf rankSize;
            halfRankCount = rankSize div 2;
            destinationIndex = (destinationRank div kMoonEpCombineV2GroupSize) mod groupsPerHalf;
            sourceIndex = (sourceRank div kMoonEpCombineV2GroupSize) mod groupsPerHalf;
            delta =
              (if destinationRank < halfRankCount
               then sub32 (u32 (destinationIndex + groupsPerHalf)) sourceIndex mod groupsPerHalf
               else sub32 (u32 (sourceIndex + groupsPerHalf)) destinationIndex mod groupsPerHalf);
            distance = (if delta = 0 then groupsPerHalf else delta)
        in sub32 distance 1)"

definition MoonEpCombineV2ReceiveStep ::
    "nat \<Rightarrow> nat \<Rightarrow> nat \<Rightarrow> MoonEpCombineV2ScheduleMode \<Rightarrow> nat" where
  "MoonEpCombineV2ReceiveStep destinationRank sourceRank rankSize mode =
     (if MoonEpCombineV2ServerPairScheduleEnabled rankSize mode
      then sc_round (MoonEpCombineV2ServerPairReceive destinationRank sourceRank rankSize mode)
      else if \<not> MoonEpCombineV2BidirectionalScheduleEnabled rankSize mode \<or>
              rankSize \<le> kMoonEpCombineV2GroupSize
      then MoonEpCombineV2SingleRingReceiveStep destinationRank sourceRank rankSize
      else
        let halfRankCount = rankSize div 2;
            sourceLocal = sourceRank mod halfRankCount;
            destinationLocal = destinationRank mod halfRankCount;
            clockwise = sub32 (u32 (destinationLocal + halfRankCount)) sourceLocal
                          mod halfRankCount;
            counterClockwise = (if clockwise = 0 then 0 else sub32 halfRankCount clockwise);
            distance = (if clockwise < counterClockwise then clockwise else counterClockwise);
            sameHalf = (destinationRank div halfRankCount = sourceRank div halfRankCount)
        in if sameHalf
           then (if distance = 0 then sub32 (MoonEpCombineV2StepCount rankSize) 1
                 else (distance - 1) div 4)
           else if distance = halfRankCount div 2 then 0
           else distance div 4)"

definition MoonEpCombineV2SourceForCore :: "nat \<Rightarrow> nat \<Rightarrow> nat \<Rightarrow> nat" where
  "MoonEpCombineV2SourceForCore core sourceIndex rankSize =
     u32 (core + u32 (sourceIndex * MoonEpCombineV2ActiveCoreCount rankSize))"

text \<open>The early-returning loops run over the list of the values the loop variable takes.\<close>

definition MoonEpCombineV2SenderCore ::
    "nat \<Rightarrow> nat \<Rightarrow> nat \<Rightarrow> MoonEpCombineV2ScheduleMode \<Rightarrow> nat" where
  "MoonEpCombineV2SenderCore sourceRank destinationRank rankSize mode =
     (if \<not> MoonEpCombineV2RankValid sourceRank rankSize \<or>
         \<not> MoonEpCombineV2RankValid destinationRank rankSize \<or> sourceRank = destinationRank
      then kMoonEpCombineV2InvalidPeer
      else if MoonEpCombineV2ServerPairScheduleEnabled rankSize mode
      then MoonEpCombineV2ServerPairSenderCore sourceRank destinationRank rankSize mode
      else
        let activeCoreCount = MoonEpCombineV2ActiveCoreCount rankSize;
            stepCount = MoonEpCombineV2StepCount rankSize
        in case List.find
                  (\<lambda>core. list_ex (\<lambda>step. MoonEpCombineV2Peer sourceRank step core rankSize mode =
                                          destinationRank) [0..<stepCount])
                  [0..<activeCoreCount] of
             None \<Rightarrow> kMoonEpCombineV2InvalidPeer
           | Some core \<Rightarrow> core)"

fun receive_source_loop :: "(nat \<Rightarrow> nat) \<Rightarrow> nat \<Rightarrow> nat \<Rightarrow> nat \<Rightarrow> nat list \<Rightarrow> nat" where
  "receive_source_loop receiveStep step receiverCore matchedCount [] =
     kMoonEpCombineV2InvalidPeer"
| "receive_source_loop receiveStep step receiverCore matchedCount (sourceRank # rest) =
     (if receiveStep sourceRank \<noteq> step
      then receive_source_loop receiveStep step receiverCore matchedCount rest
      else if matchedCount = receiverCore then sourceRank
      else receive_source_loop receiveStep step receiverCore (u32 (matchedCount + 1)) rest)"

definition MoonEpCombineV2ReceiveSource ::
    "nat \<Rightarrow> nat \<Rightarrow> nat \<Rightarrow> nat \<Rightarrow> MoonEpCombineV2ScheduleMode \<Rightarrow> nat" where
  "MoonEpCombineV2ReceiveSource destinationRank step receiverCore rankSize mode =
     (if \<not> MoonEpCombineV2RankValid destinationRank rankSize \<or>
         \<not> MoonEpCombineV2StepValid step rankSize \<or>
         \<not> MoonEpCombineV2CoreValid receiverCore rankSize
      then kMoonEpCombineV2InvalidPeer
      else receive_source_loop
             (\<lambda>sourceRank. MoonEpCombineV2ReceiveStep destinationRank sourceRank rankSize mode)
             step receiverCore 0 [0..<rankSize])"

fun receive_core_loop :: "(nat \<Rightarrow> nat) \<Rightarrow> nat \<Rightarrow> nat \<Rightarrow> nat \<Rightarrow> nat list \<Rightarrow> nat" where
  "receive_core_loop receiveStep step sourceRank receiverCore [] = kMoonEpCombineV2InvalidPeer"
| "receive_core_loop receiveStep step sourceRank receiverCore (candidate # rest) =
     (if receiveStep candidate \<noteq> step
      then receive_core_loop receiveStep step sourceRank receiverCore rest
      else if candidate = sourceRank then receiverCore
      else receive_core_loop receiveStep step sourceRank (u32 (receiverCore + 1)) rest)"

definition MoonEpCombineV2ReceiveCore ::
    "nat \<Rightarrow> nat \<Rightarrow> nat \<Rightarrow> nat \<Rightarrow> MoonEpCombineV2ScheduleMode \<Rightarrow> nat" where
  "MoonEpCombineV2ReceiveCore destinationRank sourceRank step rankSize mode =
     (if \<not> MoonEpCombineV2RankValid destinationRank rankSize \<or>
         \<not> MoonEpCombineV2RankValid sourceRank rankSize \<or>
         \<not> MoonEpCombineV2StepValid step rankSize \<or>
         MoonEpCombineV2ReceiveStep destinationRank sourceRank rankSize mode \<noteq> step
      then kMoonEpCombineV2InvalidPeer
      else receive_core_loop
             (\<lambda>candidate. MoonEpCombineV2ReceiveStep destinationRank candidate rankSize mode)
             step sourceRank 0 [0..<rankSize])"

fun transfer_core_loop :: "(nat \<Rightarrow> nat) \<Rightarrow> nat \<Rightarrow> nat \<Rightarrow> nat list \<Rightarrow> nat" where
  "transfer_core_loop peerOf destinationRank matchedCore [] = matchedCore"
| "transfer_core_loop peerOf destinationRank matchedCore (core # rest) =
     (if peerOf core \<noteq> destinationRank
      then transfer_core_loop peerOf destinationRank matchedCore rest
      else if matchedCore \<noteq> kMoonEpCombineV2InvalidPeer then kMoonEpCombineV2InvalidPeer
      else transfer_core_loop peerOf destinationRank core rest)"

definition MoonEpCombineV2TransferCore ::
    "nat \<Rightarrow> nat \<Rightarrow> nat \<Rightarrow> nat \<Rightarrow> MoonEpCombineV2ScheduleMode \<Rightarrow> nat" where
  "MoonEpCombineV2TransferCore sourceRank destinationRank step rankSize mode =
     (if \<not> MoonEpCombineV2RankValid sourceRank rankSize \<or>
         \<not> MoonEpCombineV2RankValid destinationRank rankSize \<or>
         \<not> MoonEpCombineV2StepValid step rankSize
      then kMoonEpCombineV2InvalidPeer
      else transfer_core_loop
             (\<lambda>core. MoonEpCombineV2EffectivePeer
                       (MoonEpCombineV2Peer sourceRank step core rankSize mode) sourceRank)
             destinationRank kMoonEpCombineV2InvalidPeer
             [0..<MoonEpCombineV2ActiveCoreCount rankSize])"

end
