(* ===== verification/TransferSchedule.thy ===== *)
theory TransferSchedule
  imports TX_Prelude
begin

text \<open>
  The contract every peer schedule of the repository has to meet, as a locale.  A schedule gives
  each source rank a peer for every slot (a step or group and a core or lane); it is correct when
  the slots of a source enumerate the destinations exactly once and the destination can compute
  the slot of a source (\<open>slot_of\<close>).  The consequences the clients use are proved here once; the
  interpretations are in the theories of the schedules.
\<close>

locale transfer_schedule =
  fixes ranks :: "'r set"
    and slots :: "'s set"
    and dests :: "'r \<Rightarrow> 'r set"
    and peer :: "'r \<Rightarrow> 's \<Rightarrow> 'r option"
    and slot_of :: "'r \<Rightarrow> 'r \<Rightarrow> 's"
  assumes peer_dest: "s \<in> ranks \<Longrightarrow> t \<in> slots \<Longrightarrow> peer s t = Some d \<Longrightarrow> d \<in> dests s"
    and slot_valid: "s \<in> ranks \<Longrightarrow> d \<in> dests s \<Longrightarrow> slot_of s d \<in> slots"
    and peer_slot: "s \<in> ranks \<Longrightarrow> d \<in> dests s \<Longrightarrow> peer s (slot_of s d) = Some d"
    and slot_peer: "s \<in> ranks \<Longrightarrow> t \<in> slots \<Longrightarrow> peer s t = Some d \<Longrightarrow> slot_of s d = t"
begin

text \<open>Every destination is served by exactly one slot.\<close>

lemma served_once:
  assumes "s \<in> ranks" and "d \<in> dests s"
  shows "\<exists>!t. t \<in> slots \<and> peer s t = Some d"
proof
  show "slot_of s d \<in> slots \<and> peer s (slot_of s d) = Some d"
    using assms by (simp add: slot_valid peer_slot)
next
  fix t assume "t \<in> slots \<and> peer s t = Some d"
  then show "t = slot_of s d" using slot_peer [OF assms(1)] by blast
qed

text \<open>The used slots and the destinations are in bijection.\<close>

lemma slot_of_bij:
  assumes "s \<in> ranks"
  shows "bij_betw (slot_of s) (dests s) {t \<in> slots. peer s t \<noteq> None}"
proof (rule bij_betw_byWitness [where f' = "\<lambda>t. the (peer s t)"])
  show "\<forall>d\<in>dests s. the (peer s (slot_of s d)) = d"
    using assms by (simp add: peer_slot)
  show "\<forall>t\<in>{t \<in> slots. peer s t \<noteq> None}. slot_of s (the (peer s t)) = t"
    using assms slot_peer by fastforce
  show "slot_of s ` dests s \<subseteq> {t \<in> slots. peer s t \<noteq> None}"
    using assms slot_valid peer_slot by auto
  show "(\<lambda>t. the (peer s t)) ` {t \<in> slots. peer s t \<noteq> None} \<subseteq> dests s"
    using assms peer_dest by fastforce
qed

lemma peer_inj:
  assumes "s \<in> ranks" and "t \<in> slots" and "t' \<in> slots"
    and "peer s t = Some d" and "peer s t' = Some d"
  shows "t = t'"
  using slot_peer [OF assms(1,2,4)] slot_peer [OF assms(1,3,5)] by simp

lemma card_used_slots:
  assumes "s \<in> ranks"
  shows "card {t \<in> slots. peer s t \<noteq> None} = card (dests s)"
  using bij_betw_same_card [OF slot_of_bij [OF assms]] by simp

end

end
