(* ===== verification/CombinePeers.thy ===== *)
theory CombinePeers
  imports CombineSchedule TransferSchedule
begin

text \<open>
  Correctness of the Combine V2 peer schedules: for every supported rank size and mode the slots
  (step, core) of a source reach every rank exactly once, and the receive side computes the same
  step and core.
\<close>

section \<open>Unwrapped views on the valid domain\<close>

lemma supported_cases:
  assumes "MoonEpCombineV2RankSizeSupported R"
  obtains (small) "2 \<le> R" "R \<le> 8"
    | (large) G where "G = 1 \<or> G = 2 \<or> G = 4 \<or> G = 8" "R = 16 * G"
proof -
  from assms consider "2 \<le> R \<and> R \<le> 8" | "R = 16 * 1" | "R = 16 * 2" | "R = 16 * 4" | "R = 16 * 8"
    by (auto simp: MoonEpCombineV2RankSizeSupported_def)
  then show thesis
    by cases (use small in blast, (rule large [rotated], assumption, simp)+)
qed

definition half_size :: "nat \<Rightarrow> bool" where
  "half_size G \<longleftrightarrow> G = 1 \<or> G = 2 \<or> G = 4 \<or> G = 8"

lemma half_size_bounds: "half_size G \<Longrightarrow> 0 < G \<and> G \<le> 8"
  by (auto simp: half_size_def)

lemmas combine_consts = kMoonEpCombineV2GroupSize_def kMoonEpCombineV2CoreCount_def
  kMoonEpCombineV2InvalidPeer_def kMoonEpCombineV2RankCount_def kMoonEpCombineV2StepCount_def

lemma SingleRingPeer_eq:
  assumes G: "half_size G" and "src < 16 * G" "st < G" "c < 16"
  shows "MoonEpCombineV2SingleRingPeer src st c (16 * G) =
    ((if c < 8 then ((src div 8) mod G + (st + 1) mod G) mod G
      else ((src div 8) mod G + G - (st + 1) mod G) mod G) + c div 8 * G) * 8 + c mod 8"
proof -
  have b: "0 < G" "G \<le> 8" using half_size_bounds [OF G] by auto
  define sg where "sg = (src div 8) mod G"
  define d where "d = (st + 1) mod G"
  have sg: "sg < G" and d: "d < G" using b by (simp_all add: sg_def d_def)
  have h: "c div 8 * G \<le> 8"
  proof -
    have "c div 8 \<le> 1" using \<open>c < 16\<close> by simp
    then have "c div 8 * G \<le> 1 * G" by (rule mult_le_mono1)
    then show ?thesis using b by linarith
  qed
  define ti where "ti = (if c < 8 then (sg + d) mod G else (sg + G - d) mod G)"
  have ti: "ti < G" using b by (simp add: ti_def)
  have e1: "u32 (st + 1) mod G = d" using b \<open>st < G\<close> by (simp add: wrap_simps d_def)
  have e2: "(if c < 8 then u32 (sg + d) mod G else sub32 (u32 (sg + G)) d mod G) = ti"
    using b sg d by (simp add: wrap_simps ti_def)
  have e3: "(16 * G \<le> 8) = False" "16 * G div 16 = G" using b by auto
  have "MoonEpCombineV2SingleRingPeer src st c (16 * G) =
      u32 (u32 (u32 (ti + u32 (c div 8 * G)) * 8) + c mod 8)"
    by (simp only: MoonEpCombineV2SingleRingPeer_def MoonEpCombineV2GroupsPerHalf_def Let_def
        combine_consts e3 if_False sg_def [symmetric] e1 e2)
  also have "\<dots> = (ti + c div 8 * G) * 8 + c mod 8" using ti b h by (simp add: wrap_simps)
  finally show ?thesis by (simp only: ti_def sg_def d_def)
qed

lemma SingleRingReceiveStep_eq:
  assumes G: "half_size G" and "src < 16 * G" "dst < 16 * G"
  shows "MoonEpCombineV2SingleRingReceiveStep dst src (16 * G) =
    (let di = (dst div 8) mod G; si = (src div 8) mod G;
         delta = (if dst < 8 * G then (di + G - si) mod G else (si + G - di) mod G)
     in (if delta = 0 then G else delta) - 1)"
proof -
  have b: "0 < G" "G \<le> 8" using half_size_bounds [OF G] by auto
  define si where "si = (src div 8) mod G"
  define di where "di = (dst div 8) mod G"
  have si: "si < G" and di: "di < G" using b by (simp_all add: si_def di_def)
  define delta where "delta = (if dst < 8 * G then (di + G - si) mod G else (si + G - di) mod G)"
  have delta: "delta < G" using b by (simp add: delta_def)
  have e1: "(if dst < 8 * G then sub32 (u32 (di + G)) si mod G else sub32 (u32 (si + G)) di mod G) = delta"
    using b si di by (simp add: wrap_simps delta_def)
  have e3: "(16 * G \<le> 8) = False" "16 * G div 16 = G" "16 * G div 2 = 8 * G" using b by auto
  have "MoonEpCombineV2SingleRingReceiveStep dst src (16 * G) = sub32 (if delta = 0 then G else delta) 1"
    by (simp only: MoonEpCombineV2SingleRingReceiveStep_def MoonEpCombineV2GroupsPerHalf_def Let_def
        combine_consts e3 if_False si_def [symmetric] di_def [symmetric] e1)
  also have "\<dots> = (if delta = 0 then G else delta) - 1" using b delta by (simp add: wrap_simps)
  finally show ?thesis by (simp only: Let_def delta_def si_def di_def)
qed

text \<open>A rank of the two-half layout is \<open>(group + half * G) * 8 + offset\<close>.\<close>

lemma ring_rank_coords:
  fixes g G h off d :: nat
  assumes "g < G" "h < 2" "off < 8" and d: "d = (g + h * G) * 8 + off"
  shows "d div 8 mod G = g" "d mod 8 = off" "d div (8 * G) = h" "d < 16 * G"
    "(d < 8 * G) = (h = 0)"
proof -
  have e: "d div 8 = g + h * G" unfolding d using assms(3) by (rule div_coord)
  show "d div 8 mod G = g" unfolding e using assms by simp
  show "d mod 8 = off" unfolding d using assms(3) by (rule mod_coord)
  have "d div (8 * G) = d div 8 div G" by (simp add: div_mult2_eq)
  also have "\<dots> = h" unfolding e using assms by simp
  finally show h: "d div (8 * G) = h" .
  have "h * G \<le> G" using assms(2) by (cases h) auto
  then have "g + h * G + 1 \<le> 2 * G" using assms(1) by linarith
  then show "d < 16 * G" using d assms(3) by simp
  show "(d < 8 * G) = (h = 0)"
  proof
    assume "h = 0" then show "d < 8 * G" using assms by simp
  next
    assume "d < 8 * G" then show "h = 0" using h by simp
  qed
qed

lemma ring_rank_obtain:
  fixes d G :: nat
  assumes "d < 16 * G"
  obtains g h off where "g < G" "h < 2" "off < 8" "d = (g + h * G) * 8 + off"
proof -
  have G: "0 < G" using assms by (cases G) auto
  have 1: "d div 8 mod G < G" using G by simp
  have 2: "d div 8 div G < 2"
  proof -
    have "d div 8 < 2 * G" using assms by simp
    then show ?thesis by (simp add: less_mult_imp_div_less)
  qed
  have "d = (d div 8 mod G + d div 8 div G * G) * 8 + d mod 8" by simp
  then show thesis by (rule that [OF 1 2, rotated]) simp
qed

lemma single_ring_step_peer:
  assumes G: "half_size G" and "src < 16 * G" "st < G" "c < 16"
  defines "d \<equiv> MoonEpCombineV2SingleRingPeer src st c (16 * G)"
  shows "d < 16 * G" "MoonEpCombineV2SingleRingReceiveStep d src (16 * G) = st"
    "d div (8 * G) * 8 + d mod 8 = c"
proof -
  have b: "0 < G" "G \<le> 8" using half_size_bounds [OF G] by auto
  define sg where "sg = (src div 8) mod G"
  define dd where "dd = (st + 1) mod G"
  have sg: "sg < G" and dd: "dd < G" using b by (simp_all add: sg_def dd_def)
  have ddv: "dd = (if st + 1 = G then 0 else st + 1)" using \<open>st < G\<close> by (simp add: dd_def mod_if)
  define ti where "ti = (if c < 8 then (sg + dd) mod G else (sg + G - dd) mod G)"
  have ti: "ti < G" using b by (simp add: ti_def)
  have d: "d = (ti + c div 8 * G) * 8 + c mod 8"
    unfolding d_def using SingleRingPeer_eq [OF assms(1-4)] by (simp add: ti_def sg_def dd_def)
  have h: "c div 8 < 2" using \<open>c < 16\<close> by simp
  note coords = ring_rank_coords [OF ti h _ d, simplified]
  show dr: "d < 16 * G" by (rule coords(4))
  show "d div (8 * G) * 8 + d mod 8 = c" using coords(2,3) by simp
  have c8: "(d < 8 * G) = (c < 8)" using coords(5) by (simp add: div_eq_0_iff)
  have "(if c < 8 then (ti + G - sg) mod G else (sg + G - ti) mod G) = dd"
    by (simp add: ti_def ring_sub_add [OF sg dd] ring_sub_sub [OF sg dd])
  then have "MoonEpCombineV2SingleRingReceiveStep d src (16 * G) = (if dd = 0 then G else dd) - 1"
    using SingleRingReceiveStep_eq [OF G \<open>src < 16 * G\<close> dr]
    by (simp only: Let_def sg_def [symmetric] coords(1) c8)
  then show "MoonEpCombineV2SingleRingReceiveStep d src (16 * G) = st" using ddv by auto
qed

lemma single_ring_peer_step:
  assumes G: "half_size G" and "src < 16 * G" "d < 16 * G"
  defines "st \<equiv> MoonEpCombineV2SingleRingReceiveStep d src (16 * G)"
  shows "st < G" "MoonEpCombineV2SingleRingPeer src st (d div (8 * G) * 8 + d mod 8) (16 * G) = d"
proof -
  have b: "0 < G" "G \<le> 8" using half_size_bounds [OF G] by auto
  define sg where "sg = (src div 8) mod G"
  have sg: "sg < G" using b by (simp add: sg_def)
  obtain g h off where g: "g < G" and h: "h < 2" and off: "off < 8"
    and d: "d = (g + h * G) * 8 + off"
    using ring_rank_obtain [OF \<open>d < 16 * G\<close>] .
  note coords = ring_rank_coords [OF g h off d]
  define delta where "delta = (if h = 0 then (g + G - sg) mod G else (sg + G - g) mod G)"
  have delta: "delta < G" using b by (simp add: delta_def)
  have st: "st = (if delta = 0 then G else delta) - 1"
    unfolding st_def SingleRingReceiveStep_eq [OF G assms(2,3)]
    by (simp only: Let_def delta_def sg_def coords)
  show stb: "st < G" unfolding st using delta b by auto
  have dd: "(st + 1) mod G = delta" unfolding st using delta b by auto
  have c: "d div (8 * G) * 8 + d mod 8 = h * 8 + off" by (simp only: coords)
  have cb: "h * 8 + off < 16" using h off by simp
  have "(h * 8 + off < 8) = (h = 0)" using h off by (cases h) auto
  then have "(if h * 8 + off < 8 then (sg + delta) mod G else (sg + G - delta) mod G) = g"
    by (simp add: delta_def ring_add_sub [OF sg g] ring_sub_sub [OF sg g])
  then show "MoonEpCombineV2SingleRingPeer src st (d div (8 * G) * 8 + d mod 8) (16 * G) = d"
    unfolding c SingleRingPeer_eq [OF G assms(2) stb cb] dd sg_def [symmetric]
      div_coord [OF off] mod_coord [OF off] by (simp only: d)
qed

section \<open>The bidirectional ring\<close>

text \<open>
  The clockwise distance that the ordinal-th transfer of a source covers on a ring of \<open>N\<close> ranks,
  and the ordinal that serves a given clockwise distance.
\<close>

definition bidir_cw :: "nat \<Rightarrow> nat \<Rightarrow> bool \<Rightarrow> nat" where
  "bidir_cw k N same =
     (if same then (if k + 1 = N then 0 else if even k then k div 2 + 1 else N - (k div 2 + 1))
      else if k = 0 then 0 else if k = 1 then N div 2
      else if even k then k div 2 else N - k div 2)"

definition bidir_ordinal :: "nat \<Rightarrow> nat \<Rightarrow> bool \<Rightarrow> nat" where
  "bidir_ordinal cw N same =
     (if same then (if cw = 0 then N - 1 else if cw \<le> N div 2 then 2 * (cw - 1)
                    else 2 * (N - cw - 1) + 1)
      else if cw = 0 then 0 else if cw = N div 2 then 1
      else if cw < N div 2 then 2 * cw else 2 * (N - cw) + 1)"

lemma bidir_cw_less: "0 < G \<Longrightarrow> k < 8 * G \<Longrightarrow> bidir_cw k (8 * G) same < 8 * G"
  by (auto simp: bidir_cw_def)

lemma bidir_ordinal_less: "0 < G \<Longrightarrow> cw < 8 * G \<Longrightarrow> bidir_ordinal cw (8 * G) same < 8 * G"
  by (auto simp: bidir_ordinal_def)

lemma bidir_ordinal_cw: "0 < G \<Longrightarrow> k < 8 * G \<Longrightarrow> bidir_ordinal (bidir_cw k (8 * G) same) (8 * G) same = k"
proof (cases "even k")
  case True
  assume "0 < G" "k < 8 * G"
  from True obtain j where "k = 2 * j" by (elim evenE)
  then show ?thesis using \<open>0 < G\<close> \<open>k < 8 * G\<close>
    by (auto simp: bidir_ordinal_def bidir_cw_def)
next
  case False
  assume "0 < G" "k < 8 * G"
  from False obtain j where "k = 2 * j + 1" by (elim oddE)
  then show ?thesis using \<open>0 < G\<close> \<open>k < 8 * G\<close>
    by (auto simp: bidir_ordinal_def bidir_cw_def)
qed

lemma bidir_cw_ordinal: "0 < G \<Longrightarrow> cw < 8 * G \<Longrightarrow> bidir_cw (bidir_ordinal cw (8 * G) same) (8 * G) same = cw"
  by (auto simp: bidir_ordinal_def bidir_cw_def)

lemma and_one_eq_0: "((k::nat) AND 1 = 0) = even k"
  by (simp add: and_one_eq even_iff_mod_2_eq_zero)

lemma RingOffset_bidir:
  assumes "0 < G" "G \<le> 8" "p < 8 * G" and k: "k = st * 8 + lane" "k < 8 * G"
  shows "MoonEpCombineV2RingOffset p (MoonEpCombineV2BidirectionalOffset st lane (8 * G) same) (8 * G)
    = (p + bidir_cw k (8 * G) same) mod (8 * G)"
proof -
  have o: "u32 (u32 (st * 8) + lane) = k" using assms by (simp add: wrap_simps)
  have o1: "u32 (k + 1) = k + 1" using assms by (simp add: wrap_simps)
  define off where "off = MoonEpCombineV2BidirectionalOffset st lane (8 * G) same"
  have off: "off = (if same then (if k + 1 = 8 * G then 0
                       else if even k then int (k div 2 + 1) else - int (k div 2 + 1))
      else if k = 0 then 0 else if k = 1 then int (8 * G div 2)
      else if even k then int (k div 2) else - int (k div 2))"
    unfolding off_def MoonEpCombineV2BidirectionalOffset_def Let_def combine_consts o o1 and_one_eq_0
    by auto
  show ?thesis
  proof (cases "0 \<le> off")
    case True
    then have "nat off = bidir_cw k (8 * G) same"
      using assms(1) k(2) unfolding off bidir_cw_def by (auto split: if_splits)
    moreover have "bidir_cw k (8 * G) same < 8 * G" using assms by (intro bidir_cw_less)
    ultimately show ?thesis using True assms
      by (simp add: MoonEpCombineV2RingOffset_def off_def [symmetric] wrap_simps)
  next
    case False
    then have n: "8 * G - nat (- off) = bidir_cw k (8 * G) same" "nat (- off) \<le> 4 * G" "0 < nat (- off)"
      using assms(1) k(2) unfolding off bidir_cw_def by (auto split: if_splits) presburger+
    have "sub32 (u32 (p + 8 * G)) (nat (- off)) = p + 8 * G - nat (- off)"
      using n assms by (simp add: wrap_simps)
    also have "\<dots> = p + bidir_cw k (8 * G) same" using n by simp
    finally show ?thesis using False
      by (simp add: MoonEpCombineV2RingOffset_def off_def [symmetric])
  qed
qed

lemma EffectivePeer_bidir:
  assumes G: "half_size G" and "src < 16 * G" "st < G" "c < 16"
  shows "MoonEpCombineV2EffectivePeer (MoonEpCombineV2BidirectionalPeer src st c (16 * G)) src =
    c div 8 * (8 * G) + (src mod (8 * G) +
      bidir_cw (st * 8 + c mod 8) (8 * G) (src div (8 * G) = c div 8)) mod (8 * G)"
proof -
  have b: "0 < G" "G \<le> 8" using half_size_bounds [OF G] by auto
  define k where "k = st * 8 + c mod 8"
  define same where "same = (src div (8 * G) = c div 8)"
  have k: "k < 8 * G" using coord_bound [OF \<open>st < G\<close>, of "c mod 8" 8] by (simp add: k_def mult.commute)
  have u1: "u32 (u32 (st * 8) + c mod 8) = k" using k b by (simp add: wrap_simps k_def)
  have u2: "u32 (k + 1) = k + 1" using k b by (simp add: wrap_simps)
  define tl where "tl = (src mod (8 * G) + bidir_cw k (8 * G) same) mod (8 * G)"
  have tl: "tl < 8 * G" using b by (simp add: tl_def)
  have h: "c div 8 * (8 * G) \<le> 64"
  proof -
    have "c div 8 \<le> 1" using \<open>c < 16\<close> by simp
    then have "c div 8 * (8 * G) \<le> 1 * (8 * G)" by (rule mult_le_mono1)
    then show ?thesis using b by linarith
  qed
  have ro: "MoonEpCombineV2RingOffset (src mod (8 * G))
      (MoonEpCombineV2BidirectionalOffset st (c mod 8) (8 * G) same) (8 * G) = tl"
    using RingOffset_bidir [OF b _ k_def k, of "src mod (8 * G)" same] b by (simp add: tl_def)
  have e: "16 * G div 2 = 8 * G" "(16 * G = 8) = False" by (simp, presburger)
  have "MoonEpCombineV2BidirectionalPeer src st c (16 * G) =
      (if same \<and> k + 1 = 8 * G then 4294967295 else u32 (u32 (c div 8 * (8 * G)) + tl))"
    by (simp only: MoonEpCombineV2BidirectionalPeer_def Let_def combine_consts e if_False u1 u2
        same_def [symmetric] ro)
  also have "\<dots> = (if same \<and> k + 1 = 8 * G then 4294967295 else c div 8 * (8 * G) + tl)"
  proof -
    have 1: "u32 (c div 8 * (8 * G)) = c div 8 * (8 * G)" using h by (intro u32_id) linarith
    have 2: "u32 (c div 8 * (8 * G) + tl) = c div 8 * (8 * G) + tl"
      using h tl b by (intro u32_id) linarith
    show ?thesis by (simp only: 1 2)
  qed
  finally have p: "MoonEpCombineV2BidirectionalPeer src st c (16 * G) = \<dots>" .
  show ?thesis
  proof (cases "same \<and> k + 1 = 8 * G")
    case True
    then have "bidir_cw k (8 * G) same = 0" by (simp add: bidir_cw_def)
    then have "tl = src mod (8 * G)" by (simp add: tl_def)
    moreover have "c div 8 = src div (8 * G)" using True by (simp add: same_def)
    moreover have "src div (8 * G) * (8 * G) + src mod (8 * G) = src" by (rule div_mult_mod_eq)
    ultimately have s: "c div 8 * (8 * G) + tl = src" by (simp only:)
    have "MoonEpCombineV2BidirectionalPeer src st c (16 * G) = 4294967295"
      unfolding p using True by simp
    then have "MoonEpCombineV2EffectivePeer (MoonEpCombineV2BidirectionalPeer src st c (16 * G)) src = src"
      by (simp add: MoonEpCombineV2EffectivePeer_def)
    also have "\<dots> = c div 8 * (8 * G) + tl" by (simp only: s)
    finally show ?thesis by (simp only: tl_def k_def same_def)
  next
    case False
    then have "MoonEpCombineV2BidirectionalPeer src st c (16 * G) = c div 8 * (8 * G) + tl"
      using p by (simp only: if_False)
    moreover have "c div 8 * (8 * G) + tl \<noteq> 4294967295" using h tl b by linarith
    ultimately show ?thesis
      by (simp only: MoonEpCombineV2EffectivePeer_def combine_consts if_False
          tl_def k_def [symmetric] same_def [symmetric])
  qed
qed

lemma bidir_ordinal_step:
  assumes "0 < G" "cw < 8 * G"
  defines "dist \<equiv> (if cw < (if cw = 0 then 0 else 8 * G - cw) then cw
                     else if cw = 0 then 0 else 8 * G - cw)"
  shows "bidir_ordinal cw (8 * G) True div 8 = (if dist = 0 then G - 1 else (dist - 1) div 4)"
    and "bidir_ordinal cw (8 * G) False div 8 = (if dist = 4 * G then 0 else dist div 4)"
proof -
  have d8: "(2 * x) div 8 = x div 4" "(2 * x + 1) div 8 = x div 4" for x :: nat by presburger+
  show "bidir_ordinal cw (8 * G) True div 8 = (if dist = 0 then G - 1 else (dist - 1) div 4)"
  proof (cases "cw = 0")
    case True
    then show ?thesis using assms(1) by (simp add: bidir_ordinal_def dist_def)
  next
    case False
    then show ?thesis using assms d8 unfolding bidir_ordinal_def dist_def by auto
  qed
  show "bidir_ordinal cw (8 * G) False div 8 = (if dist = 4 * G then 0 else dist div 4)"
    using assms d8 unfolding bidir_ordinal_def dist_def by auto
qed

lemma ReceiveStep_bidir:
  assumes G: "half_size G" and "src < 16 * G" "d < 16 * G"
    and mode: "MoonEpCombineV2BidirectionalScheduleEnabled (16 * G) mode"
      "\<not> MoonEpCombineV2ServerPairScheduleEnabled (16 * G) mode"
  shows "MoonEpCombineV2ReceiveStep d src (16 * G) mode =
    bidir_ordinal ((d mod (8 * G) + 8 * G - src mod (8 * G)) mod (8 * G)) (8 * G)
      (d div (8 * G) = src div (8 * G)) div 8"
proof -
  have b: "0 < G" "G \<le> 8" using half_size_bounds [OF G] by auto
  define N where "N = 8 * G"
  have N: "0 < N" "N \<le> 64" using b by (auto simp: N_def)
  define dl where "dl = d mod N"
  define sl where "sl = src mod N"
  have dl: "dl < N" and sl: "sl < N" using N by (auto simp: dl_def sl_def)
  define cw where "cw = (dl + N - sl) mod N"
  have cw: "cw < N" using N by (simp add: cw_def)
  have u1: "sub32 (u32 (dl + N)) sl mod N = cw" using dl sl N by (simp add: wrap_simps cw_def)
  have u2: "sub32 N cw = N - cw" using cw N by (simp add: wrap_simps)
  have u3: "sub32 G 1 = G - 1" using b by (simp add: wrap_simps)
  have e: "16 * G div 2 = N" "(16 * G \<le> 8) = False" "16 * G div 16 = G" "N div 2 = 4 * G"
    using b by (auto simp: N_def)
  define dist where "dist = (if cw < (if cw = 0 then 0 else N - cw) then cw
                               else if cw = 0 then 0 else N - cw)"
  have "MoonEpCombineV2ReceiveStep d src (16 * G) mode =
      (if d div N = src div N then (if dist = 0 then G - 1 else (dist - 1) div 4)
       else if dist = 4 * G then 0 else dist div 4)"
    by (simp only: MoonEpCombineV2ReceiveStep_def MoonEpCombineV2StepCount_def Let_def combine_consts
        mode if_False simp_thms e u1 u2 u3 dl_def [symmetric] sl_def [symmetric] dist_def)
  also have "\<dots> = bidir_ordinal cw N (d div N = src div N) div 8"
    using bidir_ordinal_step [OF b(1), of cw, folded N_def, OF cw, folded dist_def]
    by (cases "d div N = src div N") simp_all
  finally show ?thesis by (simp only: cw_def dl_def sl_def N_def)
qed

section \<open>The server-pair schedule\<close>

definition pair_size :: "nat \<Rightarrow> bool" where
  "pair_size P \<longleftrightarrow> P = 1 \<or> P = 2 \<or> P = 4"

lemma pair_size_bounds: "pair_size P \<Longrightarrow> 0 < P \<and> P \<le> 4"
  by (auto simp: pair_size_def)

definition pair_mode :: "MoonEpCombineV2ScheduleMode \<Rightarrow> bool" where
  "pair_mode mode \<longleftrightarrow> mode = MOONEP_COMBINE_V2_SERVER_PAIR_SAME_CROSS \<or>
     mode = MOONEP_COMBINE_V2_SERVER_PAIR_PARITY"

text \<open>The half of the destinations a source serves in its phase 0.\<close>

definition pair_half0 :: "nat \<Rightarrow> nat \<Rightarrow> MoonEpCombineV2ScheduleMode \<Rightarrow> nat" where
  "pair_half0 src P mode =
     (if mode = MOONEP_COMBINE_V2_SERVER_PAIR_PARITY then 1 - src mod 2 else src div (16 * P))"

lemma pair_half0_less: "src < 32 * P \<Longrightarrow> pair_half0 src P mode < 2"
  by (auto simp: pair_half0_def less_mult_imp_div_less)

lemma server_pair_guards:
  assumes "pair_size P"
  shows "MoonEpCombineV2ServerPairRankSize (32 * P)"
    "MoonEpCombineV2ServerPairPhaseStepCount (32 * P) = P"
    "MoonEpCombineV2ServerPairRoundCount (32 * P) = 2 * P"
    "MoonEpCombineV2RankSizeSupported (32 * P)"
    "MoonEpCombineV2RankValid r (32 * P) = (r < 32 * P)"
  using assms by (auto simp: pair_size_def MoonEpCombineV2ServerPairRankSize_def
      MoonEpCombineV2ServerPairPhaseStepCount_def MoonEpCombineV2ServerPairRoundCount_def
      MoonEpCombineV2RankSizeSupported_def MoonEpCombineV2RankValid_def)

lemma ServerPairTargetHalf_eq:
  assumes "pair_size P" "pair_mode mode" "src < 32 * P" "ph < 2"
  shows "MoonEpCombineV2ServerPairTargetHalf src ph (32 * P) mode =
    (if ph = 0 then pair_half0 src P mode else 1 - pair_half0 src P mode)"
proof -
  have h: "src div (16 * P) < 2" using assms(3) by (simp add: less_mult_imp_div_less)
  have e: "32 * P div 2 = 16 * P" by simp
  show ?thesis using assms(2,4) h
    by (auto simp: MoonEpCombineV2ServerPairTargetHalf_def server_pair_guards [OF assms(1)]
        assms(3) pair_mode_def pair_half0_def and_one_eq e wrap_simps Let_def)
qed

lemma ServerPairPeer_eq:
  assumes P: "pair_size P" and mode: "pair_mode mode" and "src < 32 * P" "rd < 2 * P" "c < 16"
  defines "k \<equiv> (src div 8 mod P + rd mod P) mod P"
    and "th \<equiv> (if rd < P then pair_half0 src P mode else 1 - pair_half0 src P mode)"
  shows "MoonEpCombineV2ServerPairPeer src rd c (32 * P) mode =
    (th * (2 * P) + (if c < 8 then (2 * k + 1) mod (2 * P) else (2 * k + 2) mod (2 * P))) * 8 + c mod 8"
proof -
  note g = server_pair_guards [OF P]
  have b: "0 < P" "P \<le> 4" using pair_size_bounds [OF P] by auto
  have k: "k < P" using b by (simp add: k_def)
  have th: "th < 2" using pair_half0_less [OF \<open>src < 32 * P\<close>, of mode] by (auto simp: th_def)
  have ph: "MoonEpCombineV2ServerPairPhase rd (32 * P) = rd div P"
    "MoonEpCombineV2ServerPairPhaseStep rd (32 * P) = rd mod P"
    using b \<open>rd < 2 * P\<close>
    by (simp_all add: MoonEpCombineV2ServerPairPhase_def MoonEpCombineV2ServerPairPhaseStep_def g Let_def)
  have ph2: "rd div P < 2" using \<open>rd < 2 * P\<close> by (simp add: less_mult_imp_div_less)
  have ph0: "(rd div P = 0) = (rd < P)" using b by (simp add: div_eq_0_iff)
  have t: "MoonEpCombineV2ServerPairTargetHalf src (rd div P) (32 * P) mode = th"
    using ServerPairTargetHalf_eq [OF P mode \<open>src < 32 * P\<close> ph2] by (simp add: ph0 th_def)
  have rm: "rd mod P < P" "src div 8 mod P < P" using b by simp_all
  have i: "MoonEpCombineV2ServerPairIndex src (rd mod P) (32 * P) = k"
  proof -
    have 1: "\<not> P \<le> rd mod P" using rm by linarith
    have 2: "u32 (src div 8 mod P + rd mod P) = src div 8 mod P + rd mod P"
      using rm b by (intro u32_id) linarith
    show ?thesis using b(1) 1 2 \<open>src < 32 * P\<close>
      by (simp add: MoonEpCombineV2ServerPairIndex_def g Let_def k_def)
  qed
  have nz: "(th = 4294967295) = False" "(k = 4294967295) = False" using th k b by auto
  have u: "u32 (2 * P) = 2 * P" "u32 (2 * k) = 2 * k" "u32 (2 * k + 1) = 2 * k + 1"
    "u32 (2 * k + 2) = 2 * k + 2" using k b by (simp_all add: wrap_simps)
  have tb: "th * (2 * P) \<le> 8"
  proof -
    have "th * (2 * P) \<le> 1 * (2 * P)" using th by (intro mult_le_mono1) simp
    then show ?thesis using b by linarith
  qed
  define s where "s = (if c < 8 then (2 * k + 1) mod (2 * P) else (2 * k + 2) mod (2 * P))"
  have s: "s < 2 * P" using b by (simp add: s_def)
  have u2: "u32 (th * (2 * P)) = th * (2 * P)" using tb by (intro u32_id) linarith
  have u3: "(if c < 8 then u32 (th * (2 * P) + (2 * k + 1) mod (2 * P))
      else u32 (th * (2 * P) + (2 * k + 2) mod (2 * P))) = th * (2 * P) + s"
  proof -
    have "u32 (th * (2 * P) + s) = th * (2 * P) + s" using tb s b by (intro u32_id) linarith
    then show ?thesis by (simp add: s_def split: if_splits)
  qed
  have "MoonEpCombineV2ServerPairPeer src rd c (32 * P) mode =
      u32 (u32 ((th * (2 * P) + s) * 8) + c mod 8)"
  proof -
    have "(16 \<le> c) = False" "(src < 32 * P) = True" using \<open>src < 32 * P\<close> \<open>c < 16\<close> by auto
    then show ?thesis
      by (simp only: MoonEpCombineV2ServerPairPeer_def Let_def combine_consts g ph t i nz u u2 u3
          simp_thms if_False)
  qed
  also have "\<dots> = (th * (2 * P) + s) * 8 + c mod 8"
  proof -
    have a: "th * (2 * P) + s < 16" using tb s b by linarith
    have 1: "u32 ((th * (2 * P) + s) * 8) = (th * (2 * P) + s) * 8"
      using mult_less_mono1 [OF a, of 8] by (intro u32_id) simp
    have 2: "u32 ((th * (2 * P) + s) * 8 + c mod 8) = (th * (2 * P) + s) * 8 + c mod 8"
      using coord_bound [OF a, of "c mod 8" 8] by (intro u32_id) simp
    show ?thesis by (simp only: 1 2)
  qed
  finally show ?thesis by (simp only: s_def)
qed

text \<open>The receive side, on the coordinates of the destination.\<close>

definition pair_round :: "nat \<Rightarrow> nat \<Rightarrow> nat \<Rightarrow> MoonEpCombineV2ScheduleMode \<Rightarrow> nat" where
  "pair_round d src P mode =
     (let ds = d div 8; th = ds div (2 * P); rel = ds mod (2 * P);
          k = ((rel + 2 * P - 1) mod (2 * P)) div 2
      in (if th = pair_half0 src P mode then 0 else 1) * P + (k + P - src div 8 mod P) mod P)"

definition pair_core :: "nat \<Rightarrow> nat \<Rightarrow> nat" where
  "pair_core d P =
     (let ds = d div 8; rel = ds mod (2 * P); k = ((rel + 2 * P - 1) mod (2 * P)) div 2
      in if rel = (2 * k + 1) mod (2 * P) then d mod 8 else 8 + d mod 8)"

lemma ServerPairReceive_eq:
  assumes P: "pair_size P" and mode: "pair_mode mode" and "src < 32 * P" "d < 32 * P"
  shows "sc_round (MoonEpCombineV2ServerPairReceive d src (32 * P) mode) = pair_round d src P mode"
    "sc_core (MoonEpCombineV2ServerPairReceive d src (32 * P) mode) = pair_core d P"
proof -
  note g = server_pair_guards [OF P]
  have b: "0 < P" "P \<le> 4" using pair_size_bounds [OF P] by auto
  define ds where "ds = d div 8"
  have ds: "ds < 4 * P" using \<open>d < 32 * P\<close> by (simp add: ds_def less_mult_imp_div_less)
  define th where "th = ds div (2 * P)"
  define rel where "rel = ds mod (2 * P)"
  have th: "th < 2" using ds by (simp add: th_def less_mult_imp_div_less)
  have rel: "rel < 2 * P" using b by (simp add: rel_def)
  have dsq: "th * (2 * P) + rel = ds" by (simp only: th_def rel_def div_mult_mod_eq)
  define k where "k = ((rel + 2 * P - 1) mod (2 * P)) div 2"
  have k: "k < P"
  proof -
    have "(rel + 2 * P - 1) mod (2 * P) < P * 2" using b by (simp add: mult.commute)
    then show ?thesis unfolding k_def by (rule less_mult_imp_div_less)
  qed
  define ss where "ss = src div 8 mod P"
  have ss: "ss < P" using b by (simp add: ss_def)
  define f where "f = (2 * k + 1) mod (2 * P)"
  have f: "f < 2 * P" using b by (simp add: f_def)
  define ps where "ps = (k + P - ss) mod P"
  have ps: "ps < P" using b by (simp add: ps_def)
  have u: "u32 (2 * P) = 2 * P" "u32 (th * (2 * P)) = th * (2 * P)" "u32 (rel + 2 * P) = rel + 2 * P"
    "u32 (2 * k) = 2 * k" "u32 (2 * k + 1) = 2 * k + 1" "u32 (k + P) = k + P"
    "u32 (th * (2 * P) + f) = th * (2 * P) + f" "u32 (8 + d mod 8) = 8 + d mod 8"
    using b rel k ds dsq f by (intro u32_id; linarith)+
  have s1: "sub32 ds (th * (2 * P)) = rel"
  proof -
    have "sub32 ds (th * (2 * P)) = ds - th * (2 * P)"
      using ds dsq b by (intro sub32_id) linarith+
    then show ?thesis using dsq by linarith
  qed
  have s2: "sub32 (rel + 2 * P) 1 = rel + 2 * P - 1" using rel b by (intro sub32_id) linarith+
  have s3: "sub32 (k + P) ss = k + P - ss" using k b ss by (intro sub32_id) linarith+
  have eqf: "(ds = th * (2 * P) + f) = (rel = f)" using dsq by linarith
  have h0: "(th = (src AND 1)) = (th \<noteq> 1 - src mod 2)"
  proof -
    have "src mod 2 = 0 \<or> src mod 2 = 1" "th = 0 \<or> th = 1" using th by auto
    then show ?thesis by (auto simp: and_one_eq)
  qed
  define ph where "ph = (if th = pair_half0 src P mode then 0 else 1 :: nat)"
  have c: "u32 (u32 (ph * P) + ps) = ph * P + ps"
    using ps b by (simp add: wrap_simps ph_def)
  have e: "32 * P div 2 = 16 * P" by simp
  have v: "(src < 32 * P) = True" "(d < 32 * P) = True" using assms(3,4) by auto
  have p1: "mode = MOONEP_COMBINE_V2_SERVER_PAIR_PARITY \<Longrightarrow> (if th = (src AND 1) then 1 else 0) = ph"
    unfolding h0 by (simp add: ph_def pair_half0_def)
  have p2: "mode = MOONEP_COMBINE_V2_SERVER_PAIR_SAME_CROSS \<Longrightarrow>
      (if th = src div (16 * P) then 0 else 1) = ph"
    by (simp add: ph_def pair_half0_def)
  define cr where "cr = (if rel = f then d mod 8 else 8 + d mod 8)"
  have cases: "mode = MOONEP_COMBINE_V2_SERVER_PAIR_PARITY \<or> mode = MOONEP_COMBINE_V2_SERVER_PAIR_SAME_CROSS"
    using mode by (auto simp: pair_mode_def)
  have main: "MoonEpCombineV2ServerPairReceive d src (32 * P) mode =
      \<lparr>sc_phase = ph, sc_phaseStep = ps, sc_round = ph * P + ps, sc_core = cr\<rparr>"
    using cases
  proof
    assume m: "mode = MOONEP_COMBINE_V2_SERVER_PAIR_PARITY"
    show ?thesis
      by (simp only: MoonEpCombineV2ServerPairReceive_def Let_def combine_consts g v simp_thms if_False
          u ds_def [symmetric] th_def [symmetric] s1 s2 k_def [symmetric] ss_def [symmetric] s3
          ps_def [symmetric] f_def [symmetric] eqf cr_def [symmetric] m
          MoonEpCombineV2ScheduleMode.case p1 [OF m] c)
  next
    assume m: "mode = MOONEP_COMBINE_V2_SERVER_PAIR_SAME_CROSS"
    show ?thesis
      by (simp only: MoonEpCombineV2ServerPairReceive_def Let_def combine_consts g v simp_thms if_False
          u ds_def [symmetric] th_def [symmetric] s1 s2 k_def [symmetric] ss_def [symmetric] s3
          ps_def [symmetric] f_def [symmetric] eqf cr_def [symmetric] m e
          MoonEpCombineV2ScheduleMode.case p2 [OF m] c)
  qed
  show "sc_round (MoonEpCombineV2ServerPairReceive d src (32 * P) mode) = pair_round d src P mode"
    unfolding main pair_round_def Let_def ph_def ps_def k_def th_def rel_def ds_def ss_def by simp
  show "sc_core (MoonEpCombineV2ServerPairReceive d src (32 * P) mode) = pair_core d P"
    unfolding main pair_core_def Let_def cr_def f_def k_def rel_def ds_def by simp
qed

lemma pair_index_first: "k < P \<Longrightarrow> (((2 * k + 1) mod (2 * P) + 2 * P - 1) mod (2 * P)) div 2 = k"
  for k P :: nat
  by simp

lemma pair_index_second:
  fixes k P :: nat
  assumes "k < P"
  shows "(((2 * k + 2) mod (2 * P) + 2 * P - 1) mod (2 * P)) div 2 = k"
    and "(2 * k + 2) mod (2 * P) \<noteq> (2 * k + 1) mod (2 * P)"
proof -
  have "(((2 * k + 2) mod (2 * P) + 2 * P - 1) mod (2 * P)) div 2 = k \<and>
      (2 * k + 2) mod (2 * P) \<noteq> (2 * k + 1) mod (2 * P)"
  proof (cases "k + 1 = P")
    case True
    then have m: "(2 * k + 2) mod (2 * P) = 0" "(2 * k + 1) mod (2 * P) = 2 * k + 1" by auto
    show ?thesis unfolding m using True by simp
  next
    case False
    then have m: "(2 * k + 2) mod (2 * P) = 2 * k + 2" "(2 * k + 1) mod (2 * P) = 2 * k + 1"
      using assms by auto
    have "2 * k + 2 + 2 * P - 1 = (2 * k + 1) + 2 * P" by simp
    then have "(2 * k + 2 + 2 * P - 1) mod (2 * P) = 2 * k + 1"
      using assms by (simp only: mod_add_self2) simp
    then show ?thesis unfolding m by simp
  qed
  then show "(((2 * k + 2) mod (2 * P) + 2 * P - 1) mod (2 * P)) div 2 = k"
    and "(2 * k + 2) mod (2 * P) \<noteq> (2 * k + 1) mod (2 * P)" by auto
qed

lemma server_pair_round_peer:
  assumes P: "pair_size P" and mode: "pair_mode mode" and "src < 32 * P" "rd < 2 * P" "c < 16"
  defines "d \<equiv> MoonEpCombineV2ServerPairPeer src rd c (32 * P) mode"
  shows "d < 32 * P" "pair_round d src P mode = rd" "pair_core d P = c"
proof -
  have b: "0 < P" "P \<le> 4" using pair_size_bounds [OF P] by auto
  define k where "k = (src div 8 mod P + rd mod P) mod P"
  have k: "k < P" using b by (simp add: k_def)
  define h0 where "h0 = pair_half0 src P mode"
  have h0: "h0 < 2" using pair_half0_less [OF \<open>src < 32 * P\<close>] by (simp add: h0_def)
  define th where "th = (if rd < P then h0 else 1 - h0)"
  have th: "th < 2" using h0 by (auto simp: th_def)
  define s where "s = (if c < 8 then (2 * k + 1) mod (2 * P) else (2 * k + 2) mod (2 * P))"
  have s: "s < 2 * P" using b by (simp add: s_def)
  have d: "d = (th * (2 * P) + s) * 8 + c mod 8"
    unfolding d_def ServerPairPeer_eq [OF assms(1-5)] by (simp only: s_def k_def th_def h0_def)
  have ds: "d div 8 = th * (2 * P) + s" "d mod 8 = c mod 8"
    unfolding d by (rule div_coord, simp, rule mod_coord, simp)
  have dc: "d div 8 div (2 * P) = th" "d div 8 mod (2 * P) = s"
    unfolding ds using s by (rule div_coord, rule mod_coord)
  have "th * (2 * P) + s < 2 * (2 * P)" using th s by (rule coord_bound)
  then have "d < 2 * (2 * P) * 8" unfolding d by (rule coord_bound) simp
  then show "d < 32 * P" by simp
  have ki: "((s + 2 * P - 1) mod (2 * P)) div 2 = k" and kc: "(s = (2 * k + 1) mod (2 * P)) = (c < 8)"
    using pair_index_first [OF k] pair_index_second [OF k] by (auto simp: s_def)
  have "c mod 8 = (if c < 8 then c else c - 8)" using \<open>c < 16\<close> by (simp add: mod_if)
  then show "pair_core d P = c" using \<open>c < 16\<close>
    unfolding pair_core_def Let_def dc ds(2) ki kc by simp
  have ps: "(k + P - src div 8 mod P) mod P = rd mod P"
    unfolding k_def using b by (intro ring_sub_add) simp_all
  have "1 - h0 \<noteq> h0" by presburger
  then have "(th = h0) = (rd < P)" by (simp add: th_def)
  moreover have "rd mod P = (if rd < P then rd else rd - P)" using \<open>rd < 2 * P\<close> by (simp add: mod_if)
  ultimately show "pair_round d src P mode = rd"
    unfolding pair_round_def Let_def dc ki ps h0_def [symmetric] by simp
qed

lemma server_pair_peer_round:
  assumes P: "pair_size P" and mode: "pair_mode mode" and "src < 32 * P" "d < 32 * P"
  shows "pair_round d src P mode < 2 * P" "pair_core d P < 16"
    "MoonEpCombineV2ServerPairPeer src (pair_round d src P mode) (pair_core d P) (32 * P) mode = d"
proof -
  have b: "0 < P" "P \<le> 4" using pair_size_bounds [OF P] by auto
  define ds where "ds = d div 8"
  have dsb: "ds < 2 * (2 * P)" using \<open>d < 32 * P\<close> by (simp add: ds_def less_mult_imp_div_less)
  define th where "th = ds div (2 * P)"
  define s where "s = ds mod (2 * P)"
  have th: "th < 2" unfolding th_def using dsb by (rule less_mult_imp_div_less)
  have s: "s < 2 * P" using b by (simp add: s_def)
  define k where "k = ((s + 2 * P - 1) mod (2 * P)) div 2"
  have k: "k < P"
  proof -
    have "(s + 2 * P - 1) mod (2 * P) < P * 2" using b by (simp add: mult.commute)
    then show ?thesis unfolding k_def by (rule less_mult_imp_div_less)
  qed
  have sk: "s = (2 * k + 1) mod (2 * P) \<or> s = (2 * k + 2) mod (2 * P)"
  proof (cases "s = 0")
    case True
    then have "k = ((2 * P - 1) mod (2 * P)) div 2" by (simp only: k_def add_0)
    then have "k = (2 * P - 1) div 2" using b by simp
    moreover have "(2 * P - 1) div 2 = P - 1" using b by linarith
    ultimately have "2 * k + 2 = 2 * P" using b by simp
    then show ?thesis using True by simp
  next
    case False
    then have "s + 2 * P - 1 = (s - 1) + 2 * P" by simp
    then have "(s + 2 * P - 1) mod (2 * P) = s - 1" using s by (simp only: mod_add_self2) simp
    then have "k = (s - 1) div 2" by (simp only: k_def)
    then have "s = 2 * k + 1 \<or> s = 2 * k + 2" using False by presburger
    then show ?thesis using s by auto
  qed
  define h0 where "h0 = pair_half0 src P mode"
  have h0: "h0 < 2" using pair_half0_less [OF \<open>src < 32 * P\<close>] by (simp add: h0_def)
  define ps where "ps = (k + P - src div 8 mod P) mod P"
  have ps: "ps < P" using b by (simp add: ps_def)
  have rd: "pair_round d src P mode = (if th = h0 then 0 else 1) * P + ps"
    by (simp only: pair_round_def Let_def ds_def [symmetric] th_def [symmetric] s_def [symmetric]
        k_def [symmetric] ps_def [symmetric] h0_def [symmetric])
  show r: "pair_round d src P mode < 2 * P" unfolding rd using ps by simp
  have m8: "d mod 8 < 8" by simp
  have c: "pair_core d P = (if s = (2 * k + 1) mod (2 * P) then d mod 8 else 8 + d mod 8)"
    by (simp only: pair_core_def Let_def ds_def [symmetric] s_def [symmetric] k_def [symmetric])
  have "d mod 8 < 16" "8 + d mod 8 < 16" using m8 by linarith+
  then show cb: "pair_core d P < 16" unfolding c by (simp only: split: if_split) simp
  have "(src div 8 mod P + ps) mod P = k" unfolding ps_def using b k by (intro ring_add_sub) simp_all
  moreover have "pair_round d src P mode mod P = ps" unfolding rd using ps by simp
  ultimately have kk: "(src div 8 mod P + pair_round d src P mode mod P) mod P = k" by simp
  have tt: "(if pair_round d src P mode < P then h0 else 1 - h0) = th"
  proof (cases "th = h0")
    case True
    then show ?thesis unfolding rd using ps by simp
  next
    case False
    then have "1 - h0 = th" using th h0 by linarith
    then show ?thesis unfolding rd using False by simp
  qed
  have ss: "(if pair_core d P < 8 then (2 * k + 1) mod (2 * P) else (2 * k + 2) mod (2 * P)) = s"
  proof (cases "s = (2 * k + 1) mod (2 * P)")
    case True
    then have "pair_core d P = d mod 8" unfolding c by (rule if_P)
    then show ?thesis using m8 True by simp
  next
    case False
    then have "pair_core d P = 8 + d mod 8" "(2 * k + 2) mod (2 * P) = s"
      using sk by (simp_all only: c if_False simp_thms)
    then show ?thesis by simp
  qed
  have cm: "pair_core d P mod 8 = d mod 8" unfolding c by simp
  have "MoonEpCombineV2ServerPairPeer src (pair_round d src P mode) (pair_core d P) (32 * P) mode =
      (th * (2 * P) + s) * 8 + d mod 8"
    unfolding ServerPairPeer_eq [OF assms(1-3) r cb] kk h0_def [symmetric] tt ss cm ..
  also have "\<dots> = d" by (simp only: th_def s_def div_mult_mod_eq ds_def)
  finally show "MoonEpCombineV2ServerPairPeer src (pair_round d src P mode) (pair_core d P) (32 * P) mode = d" .
qed

end
