(* ===== verification/CombineReceive.thy ===== *)
theory CombineReceive
  imports CombinePeers
begin

text \<open>
  The Combine V2 schedule as a whole: the five cases of rank size and mode are put together, the
  schedule is shown to be a \<open>transfer_schedule\<close>, and the receive enumerations
  (\<open>ReceiveSource\<close>, \<open>ReceiveCore\<close>, \<open>TransferCore\<close>, \<open>SenderCore\<close>) are shown to be its inverses.
\<close>

section \<open>The slot of a destination\<close>

text \<open>The core with which a source reaches a destination.\<close>

definition combine_slot_core ::
    "nat \<Rightarrow> nat \<Rightarrow> nat \<Rightarrow> MoonEpCombineV2ScheduleMode \<Rightarrow> nat" where
  "combine_slot_core src d R mode =
     (if MoonEpCombineV2ServerPairScheduleEnabled R mode then pair_core d (R div 32)
      else if MoonEpCombineV2BidirectionalScheduleEnabled R mode then
        (if R = 8 then bidir_ordinal ((d + 8 - src) mod 8) 8 True
         else let N = R div 2 in
           d div N * 8 + bidir_ordinal ((d mod N + N - src mod N) mod N) N (d div N = src div N) mod 8)
      else if R \<le> 8 then d
      else d div (R div 2) * 8 + d mod 8)"

definition combine_peer ::
    "nat \<Rightarrow> MoonEpCombineV2ScheduleMode \<Rightarrow> nat \<Rightarrow> nat \<times> nat \<Rightarrow> nat" where
  "combine_peer R mode src slot =
     MoonEpCombineV2EffectivePeer (MoonEpCombineV2Peer src (fst slot) (snd slot) R mode) src"

definition combine_slot ::
    "nat \<Rightarrow> MoonEpCombineV2ScheduleMode \<Rightarrow> nat \<Rightarrow> nat \<Rightarrow> nat \<times> nat" where
  "combine_slot R mode src d =
     (MoonEpCombineV2ReceiveStep d src R mode, combine_slot_core src d R mode)"

definition combine_slots :: "nat \<Rightarrow> (nat \<times> nat) set" where
  "combine_slots R =
     {..<MoonEpCombineV2StepCount R} \<times> {..<MoonEpCombineV2ActiveCoreCount R}"

lemma combine_cases:
  assumes "MoonEpCombineV2RankSizeSupported R"
  obtains (tiny) "2 \<le> R" "R \<le> 8" "\<not> MoonEpCombineV2BidirectionalScheduleEnabled R mode"
      "\<not> MoonEpCombineV2ServerPairScheduleEnabled R mode"
    | (eight) "R = 8" "MoonEpCombineV2BidirectionalScheduleEnabled R mode"
      "\<not> MoonEpCombineV2ServerPairScheduleEnabled R mode"
    | (single) G where "half_size G" "R = 16 * G"
      "\<not> MoonEpCombineV2BidirectionalScheduleEnabled R mode"
      "\<not> MoonEpCombineV2ServerPairScheduleEnabled R mode"
    | (bidir) G where "half_size G" "R = 16 * G"
      "MoonEpCombineV2BidirectionalScheduleEnabled R mode"
      "\<not> MoonEpCombineV2ServerPairScheduleEnabled R mode"
    | (pair) P where "pair_size P" "R = 32 * P" "pair_mode mode"
      "MoonEpCombineV2ServerPairScheduleEnabled R mode"
proof (cases "MoonEpCombineV2ServerPairScheduleEnabled R mode")
  case True
  then have "pair_mode mode" and "R = 32 * 1 \<or> R = 32 * 2 \<or> R = 32 * 4"
    by (auto simp: MoonEpCombineV2ServerPairScheduleEnabled_def pair_mode_def
        MoonEpCombineV2ServerPairRankSize_def)
  then show thesis using True pair [of 1] pair [of 2] pair [of 4] by (auto simp: pair_size_def)
next
  case np: False
  show thesis
  proof (cases "MoonEpCombineV2BidirectionalScheduleEnabled R mode")
    case True
    then have "R = 8 \<or> 16 \<le> R" by (simp add: MoonEpCombineV2BidirectionalScheduleEnabled_def)
    then show thesis using assms
      by (elim supported_cases disjE) (use True np eight bidir in \<open>auto simp: half_size_def\<close>)
  next
    case False
    from assms show thesis
      by (elim supported_cases) (use False np tiny single in \<open>auto simp: half_size_def\<close>)
  qed
qed

lemma large_counts:
  assumes "0 < G"
  shows "MoonEpCombineV2StepCount (16 * G) = G" "MoonEpCombineV2ActiveCoreCount (16 * G) = 16"
  using assms by (auto simp: MoonEpCombineV2StepCount_def MoonEpCombineV2ActiveCoreCount_def)

lemma pair_counts:
  assumes "0 < P"
  shows "MoonEpCombineV2StepCount (32 * P) = 2 * P" "MoonEpCombineV2ActiveCoreCount (32 * P) = 16"
  using large_counts [of "2 * P"] assms by simp_all

lemma small_counts:
  assumes "R \<le> 8"
  shows "MoonEpCombineV2StepCount R = 1" "MoonEpCombineV2ActiveCoreCount R = R"
  using assms by (auto simp: MoonEpCombineV2StepCount_def MoonEpCombineV2ActiveCoreCount_def)

lemma EffectivePeer_valid: "p < 4294967295 \<Longrightarrow> MoonEpCombineV2EffectivePeer p src = p"
  by (simp add: MoonEpCombineV2EffectivePeer_def)

section \<open>The eight-rank bidirectional ring\<close>

lemma EffectivePeer_eight:
  assumes "src < 8" "c < 8"
  shows "MoonEpCombineV2EffectivePeer (MoonEpCombineV2BidirectionalPeer src 0 c 8) src =
    (src + bidir_cw c 8 True) mod 8"
proof (cases "c = 7")
  case True
  then show ?thesis using assms
    by (simp add: MoonEpCombineV2EffectivePeer_def MoonEpCombineV2BidirectionalPeer_def bidir_cw_def u32_def)
next
  case False
  then have "u32 (c + 1) \<noteq> 8" using assms by (simp add: wrap_simps)
  then have "MoonEpCombineV2BidirectionalPeer src 0 c 8 = (src + bidir_cw c 8 True) mod 8"
    using RingOffset_bidir [of 1 src c 0 c True] assms
    by (simp add: MoonEpCombineV2BidirectionalPeer_def)
  moreover have "(src + bidir_cw c 8 True) mod 8 < 4294967295"
    by (rule less_trans [where y = 8]) simp_all
  ultimately show ?thesis by (simp add: EffectivePeer_valid)
qed

lemma eight_round_trip:
  assumes "src < 8"
  shows "c < 8 \<Longrightarrow> bidir_ordinal (((src + bidir_cw c 8 True) mod 8 + 8 - src) mod 8) 8 True = c"
    and "d < 8 \<Longrightarrow> bidir_ordinal ((d + 8 - src) mod 8) 8 True < 8"
    and "d < 8 \<Longrightarrow> (src + bidir_cw (bidir_ordinal ((d + 8 - src) mod 8) 8 True) 8 True) mod 8 = d"
proof -
  show "c < 8 \<Longrightarrow> bidir_ordinal (((src + bidir_cw c 8 True) mod 8 + 8 - src) mod 8) 8 True = c"
    using ring_sub_add [OF assms, of "bidir_cw c 8 True"] bidir_cw_less [of 1 c True]
      bidir_ordinal_cw [of 1 c True] by simp
  show "d < 8 \<Longrightarrow> bidir_ordinal ((d + 8 - src) mod 8) 8 True < 8"
    using bidir_ordinal_less [of 1 "(d + 8 - src) mod 8" True] by simp
  show "d < 8 \<Longrightarrow> (src + bidir_cw (bidir_ordinal ((d + 8 - src) mod 8) 8 True) 8 True) mod 8 = d"
    using bidir_cw_ordinal [of 1 "(d + 8 - src) mod 8" True] ring_add_sub [OF assms, of d] by simp
qed

section \<open>The large bidirectional ring\<close>

text \<open>The ordinal with which a source serves a destination of the half \<open>d div N\<close>.\<close>

definition bidir_slot :: "nat \<Rightarrow> nat \<Rightarrow> nat \<Rightarrow> nat" where
  "bidir_slot src d N =
     bidir_ordinal ((d mod N + N - src mod N) mod N) N (d div N = src div N)"

lemma bidir_slot_of_peer:
  assumes "0 < G" "k < 8 * G" and d: "d = h * (8 * G) + (src mod (8 * G) +
      bidir_cw k (8 * G) (src div (8 * G) = h)) mod (8 * G)"
  shows "bidir_slot src d (8 * G) = k" "d div (8 * G) = h"
proof -
  define N where "N = 8 * G"
  have N: "0 < N" "k < N" using assms by (auto simp: N_def)
  define cw where "cw = bidir_cw k N (src div N = h)"
  have cw: "cw < N" unfolding cw_def N_def using assms(1,2) by (rule bidir_cw_less)
  have dd: "d = h * N + (src mod N + cw) mod N" using d by (simp only: N_def cw_def)
  have m: "(src mod N + cw) mod N < N" "src mod N < N" using N by simp_all
  have dv: "d div N = h" "d mod N = (src mod N + cw) mod N"
    unfolding dd using m(1) by (rule div_coord, rule mod_coord)
  show "d div (8 * G) = h" using dv by (simp only: N_def)
  have "(d mod N + N - src mod N) mod N = cw"
    unfolding dv using m(2) cw by (rule ring_sub_add)
  then have "bidir_slot src d N = bidir_ordinal cw N (h = src div N)"
    by (simp only: bidir_slot_def dv)
  also have "\<dots> = k" unfolding cw_def N_def
    using bidir_ordinal_cw [OF assms(1,2)] by (simp only: eq_commute [of h])
  finally show "bidir_slot src d (8 * G) = k" by (simp only: N_def)
qed

lemma bidir_peer_of_slot:
  assumes "0 < G"
  shows "bidir_slot src d (8 * G) < 8 * G"
    "d div (8 * G) * (8 * G) + (src mod (8 * G) +
       bidir_cw (bidir_slot src d (8 * G)) (8 * G) (src div (8 * G) = d div (8 * G))) mod (8 * G) = d"
proof -
  define N where "N = 8 * G"
  have N: "0 < N" using assms by (auto simp: N_def)
  define cw where "cw = (d mod N + N - src mod N) mod N"
  have cw: "cw < N" using N by (simp add: cw_def)
  have m: "d mod N < N" "src mod N < N" using N by simp_all
  have s: "bidir_slot src d N = bidir_ordinal cw N (src div N = d div N)"
    by (simp only: bidir_slot_def cw_def eq_commute [of "d div N"])
  show "bidir_slot src d (8 * G) < 8 * G"
    using bidir_ordinal_less [OF assms cw [unfolded N_def]] s [unfolded N_def] by simp
  have "bidir_cw (bidir_slot src d N) N (src div N = d div N) = cw"
    unfolding s unfolding N_def using assms cw [unfolded N_def] by (rule bidir_cw_ordinal)
  moreover have "(src mod N + cw) mod N = d mod N" unfolding cw_def using m(2,1) by (rule ring_add_sub)
  ultimately have "d div N * N + (src mod N +
      bidir_cw (bidir_slot src d N) N (src div N = d div N)) mod N = d" by simp
  then show "d div (8 * G) * (8 * G) + (src mod (8 * G) +
       bidir_cw (bidir_slot src d (8 * G)) (8 * G) (src div (8 * G) = d div (8 * G))) mod (8 * G) = d"
    by (simp only: N_def)
qed

section \<open>Both directions, in every case\<close>

lemmas combine_views = combine_peer_def combine_slot_core_def MoonEpCombineV2Peer_def
  MoonEpCombineV2ReceiveStep_def

lemma combine_slot_peer_bidir:
  assumes G: "half_size G" and "src < 16 * G" "st < G" "c < 16"
    and m: "MoonEpCombineV2BidirectionalScheduleEnabled (16 * G) mode"
      "\<not> MoonEpCombineV2ServerPairScheduleEnabled (16 * G) mode"
  defines "d \<equiv> combine_peer (16 * G) mode src (st, c)"
  shows "d < 16 * G \<and> combine_slot (16 * G) mode src d = (st, c)"
proof -
  have b: "0 < G" "G \<le> 8" using half_size_bounds [OF G] by auto
  have k: "st * 8 + c mod 8 < 8 * G"
    using coord_bound [OF \<open>st < G\<close>, of "c mod 8" 8] by (simp add: mult.commute)
  have d: "d = c div 8 * (8 * G) + (src mod (8 * G) +
      bidir_cw (st * 8 + c mod 8) (8 * G) (src div (8 * G) = c div 8)) mod (8 * G)"
    using EffectivePeer_bidir [OF assms(1-4)] m
    by (simp only: d_def combine_peer_def MoonEpCombineV2Peer_def fst_conv snd_conv if_True if_False)
  note s = bidir_slot_of_peer [OF b(1) k d]
  have "c div 8 < 2" "(src mod (8 * G) + bidir_cw (st * 8 + c mod 8) (8 * G)
      (src div (8 * G) = c div 8)) mod (8 * G) < 8 * G" using b \<open>c < 16\<close> by simp_all
  from coord_bound [OF this] have dr: "d < 16 * G" unfolding d by simp
  have e: "(16 * G = 8) = False" "16 * G div 2 = 8 * G" by (presburger, simp)
  have "combine_slot_core src d (16 * G) mode = c"
    using m by (simp only: combine_slot_core_def Let_def e if_True if_False
        bidir_slot_def [symmetric] s) simp
  moreover have "MoonEpCombineV2ReceiveStep d src (16 * G) mode = st"
    using ReceiveStep_bidir [OF G assms(2) dr m] by (simp add: bidir_slot_def [symmetric] s(1))
  ultimately show ?thesis using dr by (simp add: combine_slot_def)
qed

lemma combine_peer_slot_bidir:
  assumes G: "half_size G" and "src < 16 * G" "d < 16 * G"
    and m: "MoonEpCombineV2BidirectionalScheduleEnabled (16 * G) mode"
      "\<not> MoonEpCombineV2ServerPairScheduleEnabled (16 * G) mode"
  shows "fst (combine_slot (16 * G) mode src d) < G" "snd (combine_slot (16 * G) mode src d) < 16"
    "combine_peer (16 * G) mode src (combine_slot (16 * G) mode src d) = d"
proof -
  have b: "0 < G" "G \<le> 8" using half_size_bounds [OF G] by auto
  note s = bidir_peer_of_slot [OF b(1), where src = src and d = d]
  define k where "k = bidir_slot src d (8 * G)"
  have e: "(16 * G = 8) = False" "16 * G div 2 = 8 * G" by (presburger, simp)
  have c: "combine_slot_core src d (16 * G) mode = d div (8 * G) * 8 + k mod 8"
    using m by (simp only: combine_slot_core_def Let_def e if_True if_False
        bidir_slot_def [symmetric] k_def)
  have r: "MoonEpCombineV2ReceiveStep d src (16 * G) mode = k div 8"
    using ReceiveStep_bidir [OF G assms(2,3) m] by (simp only: bidir_slot_def [symmetric] k_def)
  have h: "d div (8 * G) < 2" using \<open>d < 16 * G\<close> by (simp add: less_mult_imp_div_less)
  have rb: "k div 8 < G" using s(1) by (simp add: k_def less_mult_imp_div_less)
  have cb: "d div (8 * G) * 8 + k mod 8 < 16" using coord_bound [OF h, of "k mod 8" 8] by simp
  show "fst (combine_slot (16 * G) mode src d) < G" "snd (combine_slot (16 * G) mode src d) < 16"
    using rb cb by (simp_all only: combine_slot_def fst_conv snd_conv c r)
  have cd: "(d div (8 * G) * 8 + k mod 8) div 8 = d div (8 * G)"
      "(d div (8 * G) * 8 + k mod 8) mod 8 = k mod 8" by (rule div_coord, simp, rule mod_coord, simp)
  have "combine_peer (16 * G) mode src (combine_slot (16 * G) mode src d) =
    d div (8 * G) * (8 * G) + (src mod (8 * G) +
      bidir_cw (k div 8 * 8 + k mod 8) (8 * G) (src div (8 * G) = d div (8 * G))) mod (8 * G)"
    using EffectivePeer_bidir [OF assms(1,2) rb cb] m
    by (simp only: combine_slot_def c r combine_peer_def MoonEpCombineV2Peer_def fst_conv snd_conv
        if_True if_False cd)
  also have "\<dots> = d" using s(2) by (simp only: k_def [symmetric] div_mult_mod_eq)
  finally show "combine_peer (16 * G) mode src (combine_slot (16 * G) mode src d) = d" .
qed

lemma combine_slot_peer:
  fixes mode
  assumes "MoonEpCombineV2RankValid src R" "st < MoonEpCombineV2StepCount R"
    "c < MoonEpCombineV2ActiveCoreCount R"
  defines "d \<equiv> combine_peer R mode src (st, c)"
  shows "d < R \<and> combine_slot R mode src d = (st, c)"
proof -
  from assms(1) have sup: "MoonEpCombineV2RankSizeSupported R" and s: "src < R"
    by (auto simp: MoonEpCombineV2RankValid_def)
  from sup show ?thesis
  proof (cases rule: combine_cases [where mode = mode])
    case tiny
    then have "d = c" "st = 0" "c < R" using assms(2,3)
      by (auto simp: d_def combine_peer_def MoonEpCombineV2Peer_def small_counts
          MoonEpCombineV2SingleRingPeer_def EffectivePeer_valid)
    then show ?thesis using tiny
      by (simp add: combine_slot_def combine_slot_core_def MoonEpCombineV2ReceiveStep_def
          MoonEpCombineV2SingleRingReceiveStep_def)
  next
    case eight
    then have st: "st = 0" and c: "c < 8" using assms(2,3) by (auto simp: small_counts)
    have d: "d = (src + bidir_cw c 8 True) mod 8"
      using eight s c by (simp add: d_def combine_peer_def MoonEpCombineV2Peer_def st EffectivePeer_eight)
    then have "bidir_ordinal ((d + 8 - src) mod 8) 8 True = c"
      using eight_round_trip(1) [of src c] c s eight by (simp only:)
    then have "combine_slot_core src d R mode = c"
      using eight by (simp add: combine_slot_core_def)
    then show ?thesis using eight st d
      by (simp add: combine_slot_def MoonEpCombineV2ReceiveStep_def
          MoonEpCombineV2SingleRingReceiveStep_def)
  next
    case (single G)
    have b: "0 < G" "G \<le> 8" using half_size_bounds [OF single(1)] by auto
    have sc: "st < G" "c < 16" "src < 16 * G" using assms(2,3) s single(2) b by (simp_all add: large_counts)
    note r = single_ring_step_peer [OF single(1) sc(3,1,2)]
    have "MoonEpCombineV2SingleRingPeer src st c (16 * G) < 4294967295" using r(1) b by simp
    then have d: "d = MoonEpCombineV2SingleRingPeer src st c (16 * G)"
      using single(2-4) by (simp add: d_def combine_peer_def MoonEpCombineV2Peer_def EffectivePeer_valid)
    have e: "16 * G div 2 = 8 * G" "(16 * G \<le> 8) = False" using b by auto
    show ?thesis using single(3,4) r
      by (simp only: combine_slot_def combine_slot_core_def MoonEpCombineV2ReceiveStep_def
          d [symmetric] single(2) simp_thms if_True if_False e)
  next
    case (bidir G)
    have b: "0 < G" using half_size_bounds [OF bidir(1)] by auto
    show ?thesis
      using combine_slot_peer_bidir [OF bidir(1) _ _ _ bidir(3,4) [unfolded bidir(2)]] s assms(2,3) b
      by (simp add: d_def bidir(2) large_counts)
  next
    case (pair P)
    have b: "0 < P" "P \<le> 4" using pair_size_bounds [OF pair(1)] by auto
    have sc: "st < 2 * P" "c < 16" "src < 32 * P"
      using assms(2,3) s pair(2) b by (simp_all add: pair_counts)
    note r = server_pair_round_peer [OF pair(1,3) sc(3,1,2)]
    have "MoonEpCombineV2ServerPairPeer src st c (32 * P) mode < 4294967295" using r(1) b by simp
    then have d: "d = MoonEpCombineV2ServerPairPeer src st c (32 * P) mode"
      using pair(2,4) by (simp add: d_def combine_peer_def MoonEpCombineV2Peer_def EffectivePeer_valid)
    have e: "32 * P div 32 = P" by simp
    have "MoonEpCombineV2ReceiveStep d src R mode = st"
      using pair(4) ServerPairReceive_eq(1) [OF pair(1,3) sc(3) r(1)] r(2)
      by (simp only: MoonEpCombineV2ReceiveStep_def pair(2) if_True d)
    moreover have "combine_slot_core src d R mode = c"
      using pair(4) r(3) by (simp only: combine_slot_core_def pair(2) if_True e d)
    ultimately show ?thesis using r(1) d by (simp add: combine_slot_def pair(2))
  qed
qed

lemma combine_peer_slot:
  assumes "MoonEpCombineV2RankValid src R" "MoonEpCombineV2RankValid d R"
  shows "combine_slot R mode src d \<in> combine_slots R \<and>
    combine_peer R mode src (combine_slot R mode src d) = d"
proof -
  from assms have sup: "MoonEpCombineV2RankSizeSupported R" and s: "src < R" "d < R"
    by (auto simp: MoonEpCombineV2RankValid_def)
  from sup show ?thesis
  proof (cases rule: combine_cases [where mode = mode])
    case tiny
    then show ?thesis using s
      by (simp add: combine_slot_def combine_slots_def combine_peer_def combine_slot_core_def
          MoonEpCombineV2ReceiveStep_def MoonEpCombineV2SingleRingReceiveStep_def small_counts
          MoonEpCombineV2Peer_def MoonEpCombineV2SingleRingPeer_def EffectivePeer_valid)
  next
    case eight
    have s8: "src < 8" "d < 8" using s eight by auto
    note r = eight_round_trip(2,3) [OF s8(1,2)]
    have c: "combine_slot_core src d 8 mode = bidir_ordinal ((d + 8 - src) mod 8) 8 True"
      "MoonEpCombineV2ReceiveStep d src 8 mode = 0"
      using eight by (simp_all add: combine_slot_core_def MoonEpCombineV2ReceiveStep_def
          MoonEpCombineV2SingleRingReceiveStep_def)
    show ?thesis using r eight
      by (simp only: combine_slot_def combine_slots_def c combine_peer_def fst_conv snd_conv
          MoonEpCombineV2Peer_def if_False if_True EffectivePeer_eight [OF s8(1) r(1)])
        (simp add: small_counts)
  next
    case (single G)
    have b: "0 < G" "G \<le> 8" using half_size_bounds [OF single(1)] by auto
    have sc: "src < 16 * G" "d < 16 * G" using s single(2) by auto
    note r = single_ring_peer_step [OF single(1) sc]
    have e: "16 * G div 2 = 8 * G" "(16 * G \<le> 8) = False" using b by auto
    have c: "combine_slot_core src d (16 * G) mode = d div (8 * G) * 8 + d mod 8"
      "MoonEpCombineV2ReceiveStep d src (16 * G) mode = MoonEpCombineV2SingleRingReceiveStep d src (16 * G)"
      using single(2-4) by (simp_all only: combine_slot_core_def MoonEpCombineV2ReceiveStep_def
          simp_thms if_True if_False e)
    have "d div (8 * G) < 2" using sc(2) by (simp add: less_mult_imp_div_less)
    from coord_bound [OF this, of "d mod 8" 8] have cb: "d div (8 * G) * 8 + d mod 8 < 16" by simp
    have "d < 4294967295" using sc(2) b by simp
    then have "combine_peer (16 * G) mode src (combine_slot (16 * G) mode src d) = d"
      using single(2-4) r(2) by (simp only: combine_slot_def c combine_peer_def fst_conv snd_conv
          MoonEpCombineV2Peer_def if_False EffectivePeer_valid)
    then show ?thesis using r(1) cb b
      by (simp add: combine_slots_def single(2) combine_slot_def c large_counts)
  next
    case (bidir G)
    have b: "0 < G" using half_size_bounds [OF bidir(1)] by auto
    show ?thesis
      using combine_peer_slot_bidir [OF bidir(1) _ _ bidir(3,4) [unfolded bidir(2)], of src d] s b
      by (simp add: combine_slots_def bidir(2) large_counts mem_Times_iff)
  next
    case (pair P)
    have b: "0 < P" "P \<le> 4" using pair_size_bounds [OF pair(1)] by auto
    have sc: "src < 32 * P" "d < 32 * P" using s pair(2) by auto
    note r = server_pair_peer_round [OF pair(1,3) sc]
    have e: "32 * P div 32 = P" by simp
    have c: "combine_slot_core src d (32 * P) mode = pair_core d P"
      "MoonEpCombineV2ReceiveStep d src (32 * P) mode = pair_round d src P mode"
      using pair(2,4) ServerPairReceive_eq(1) [OF pair(1,3) sc]
      by (simp_all only: combine_slot_core_def MoonEpCombineV2ReceiveStep_def if_True e)
    have "d < 4294967295" using sc(2) b by simp
    then have "combine_peer (32 * P) mode src (combine_slot (32 * P) mode src d) = d"
      using pair(2,4) r(3) by (simp only: combine_slot_def c combine_peer_def fst_conv snd_conv
          MoonEpCombineV2Peer_def if_True EffectivePeer_valid)
    then show ?thesis using r(1,2) b
      by (simp add: combine_slots_def pair(2) combine_slot_def c pair_counts)
  qed
qed

interpretation combine: transfer_schedule
  "{r. MoonEpCombineV2RankValid r R}" "combine_slots R" "\<lambda>s. {r. MoonEpCombineV2RankValid r R}"
  "\<lambda>src slot. Some (combine_peer R mode src slot)" "combine_slot R mode"
  for R mode
proof
  fix src slot d
  assume v: "src \<in> {r. MoonEpCombineV2RankValid r R}" and "slot \<in> combine_slots R"
    and d: "Some (combine_peer R mode src slot) = Some d"
  then obtain st c where slot: "slot = (st, c)" "st < MoonEpCombineV2StepCount R"
      "c < MoonEpCombineV2ActiveCoreCount R" by (auto simp: combine_slots_def)
  have "d < R \<and> combine_slot R mode src d = slot"
    using combine_slot_peer [of src R st c mode] v d slot by auto
  then show "d \<in> {r. MoonEpCombineV2RankValid r R}" "combine_slot R mode src d = slot"
    using v by (auto simp: MoonEpCombineV2RankValid_def)
next
  fix src d
  assume "src \<in> {r. MoonEpCombineV2RankValid r R}" "d \<in> {r. MoonEpCombineV2RankValid r R}"
  then show "combine_slot R mode src d \<in> combine_slots R"
    and "Some (combine_peer R mode src (combine_slot R mode src d)) = Some d"
    using combine_peer_slot [of src R d mode] by auto
qed

section \<open>How many sources a destination receives from in a step\<close>

lemma card_by_inverse:
  assumes "\<And>c. c < n \<Longrightarrow> f c \<in> S \<and> g (f c) = c" and "\<And>s. s \<in> S \<Longrightarrow> g s < n \<and> f (g s) = s"
  shows "card S = (n :: nat)"
proof -
  have "bij_betw f {..<n} S" by (rule bij_betw_byWitness [where f' = g]) (use assms in auto)
  then show ?thesis using bij_betw_same_card by fastforce
qed

text \<open>The step of the single ring fixes the group of the source within its half.\<close>

lemma single_ring_step_iff:
  assumes "half_size G" "d < 16 * G" "st < G"
  shows "\<exists>sg<G. \<forall>src<16 * G.
    (MoonEpCombineV2SingleRingReceiveStep d src (16 * G) = st) = (src div 8 mod G = sg)"
proof -
  have b: "0 < G" using half_size_bounds [OF assms(1)] by auto
  define di where "di = d div 8 mod G"
  define dd where "dd = (st + 1) mod G"
  have bd: "di < G" "dd < G" using b by (simp_all add: di_def dd_def)
  define sg where "sg = (if d < 8 * G then (di + G - dd) mod G else (di + dd) mod G)"
  have dv: "dd = (if st + 1 = G then 0 else st + 1)" using \<open>st < G\<close> by (simp add: dd_def mod_if)
  have "(MoonEpCombineV2SingleRingReceiveStep d src (16 * G) = st) = (src div 8 mod G = sg)"
    if "src < 16 * G" for src
  proof -
    define si where "si = src div 8 mod G"
    have si: "si < G" using b by (simp add: si_def)
    define delta where "delta = (if d < 8 * G then (di + G - si) mod G else (si + G - di) mod G)"
    have delta: "delta < G" using b by (simp add: delta_def)
    have "MoonEpCombineV2SingleRingReceiveStep d src (16 * G) = (if delta = 0 then G else delta) - 1"
      using SingleRingReceiveStep_eq [OF assms(1) that assms(2)]
      by (simp only: Let_def delta_def di_def si_def)
    then have "(MoonEpCombineV2SingleRingReceiveStep d src (16 * G) = st) = (delta = dd)"
      using delta dv \<open>st < G\<close> by auto
    also have "\<dots> = (si = sg)"
    proof (cases "d < 8 * G")
      case True
      have "delta = dd \<Longrightarrow> si = sg"
        using ring_sub_sub [OF bd(1) si] True by (simp add: delta_def sg_def)
      moreover have "si = sg \<Longrightarrow> delta = dd"
        using ring_sub_sub [OF bd] True by (simp add: delta_def sg_def)
      ultimately show ?thesis by blast
    next
      case False
      have "delta = dd \<Longrightarrow> si = sg"
        using ring_add_sub [OF bd(1) si] False by (simp add: delta_def sg_def)
      moreover have "si = sg \<Longrightarrow> delta = dd"
        using ring_sub_add [OF bd] False by (simp add: delta_def sg_def)
      ultimately show ?thesis by blast
    qed
    finally show ?thesis by (simp only: si_def)
  qed
  moreover have "sg < G" using b by (simp add: sg_def)
  ultimately show ?thesis by blast
qed

lemma card_residue_sources:
  fixes P n sg w :: nat
  assumes "sg < P" "0 < w"
  shows "card {src. src < n * P * w \<and> src div w mod P = sg} = n * w"
proof (rule card_by_inverse)
  fix c assume "c < n * w"
  then have j: "c div w < n" by (simp add: less_mult_imp_div_less)
  have a: "c div w * P + sg < n * P" using coord_bound [OF j assms(1)] .
  have o: "c mod w < w" using assms(2) by simp
  define s where "s = (c div w * P + sg) * w + c mod w"
  have s: "s div w = c div w * P + sg" "s mod w = c mod w"
    unfolding s_def using o by (rule div_coord, rule mod_coord)
  have s2: "s div w div P = c div w" "s div w mod P = sg"
    unfolding s using assms(1) by (rule div_coord, rule mod_coord)
  have "s < n * P * w" unfolding s_def using a o by (rule coord_bound)
  then show "s \<in> {src. src < n * P * w \<and> src div w mod P = sg} \<and> s div w div P * w + s mod w = c"
    using s s2 by (simp only: mem_Collect_eq div_mult_mod_eq simp_thms)
next
  fix s assume "s \<in> {src. src < n * P * w \<and> src div w mod P = sg}"
  then have s: "s < n * P * w" "s div w mod P = sg" by auto
  have "s div w div P < n" using s(1) by (simp add: less_mult_imp_div_less)
  then have c: "s div w div P * w + s mod w < n * w" by (rule coord_bound) (simp add: assms(2))
  have o: "s mod w < w" using assms(2) by simp
  have "((s div w div P * w + s mod w) div w * P + sg) * w + (s div w div P * w + s mod w) mod w = s"
    unfolding div_coord [OF o] mod_coord [OF o] s(2) [symmetric] by (simp only: div_mult_mod_eq)
  then show "s div w div P * w + s mod w < n * w \<and>
    ((s div w div P * w + s mod w) div w * P + sg) * w + (s div w div P * w + s mod w) mod w = s"
    using c by blast
qed

lemma pair_round_iff:
  fixes d :: nat
  assumes "0 < P" "rd < 2 * P"
  defines "k \<equiv> ((d div 8 mod (2 * P) + 2 * P - 1) mod (2 * P)) div 2"
  assumes "k < P"
  shows "(pair_round d src P mode = rd) =
    ((d div 8 div (2 * P) = pair_half0 src P mode) = (rd < P) \<and>
     src div 8 mod P = (k + P - rd mod P) mod P)"
proof -
  define ss where "ss = src div 8 mod P"
  define th where "th = d div 8 div (2 * P)"
  define ps where "ps = (k + P - ss) mod P"
  have b: "ss < P" "ps < P" "rd mod P < P" using assms(1) by (simp_all add: ss_def ps_def)
  have "pair_round d src P mode = (if th = pair_half0 src P mode then 0 else 1) * P + ps"
    by (simp only: pair_round_def Let_def k_def ss_def th_def ps_def)
  moreover have "rd mod P = (if rd < P then rd else rd - P)" using assms(2) by (simp add: mod_if)
  ultimately have "(pair_round d src P mode = rd) = ((th = pair_half0 src P mode) = (rd < P) \<and> ps = rd mod P)"
    using b(2) by auto
  moreover have "(ps = rd mod P) = (ss = (k + P - rd mod P) mod P)"
    using ring_sub_sub [OF assms(4) b(1)] ring_sub_sub [OF assms(4) b(3)] by (auto simp: ps_def)
  ultimately show ?thesis by (simp only: th_def ss_def)
qed

lemma card_half_sources:
  fixes P h sg :: nat
  assumes "sg < P" "h < 2"
  shows "card {src. src < 32 * P \<and> src div (16 * P) = h \<and> src div 8 mod P = sg} = 16"
proof -
  have "bij_betw (\<lambda>s. h * (16 * P) + s) {s. s < 2 * P * 8 \<and> s div 8 mod P = sg}
      {src. src < 32 * P \<and> src div (16 * P) = h \<and> src div 8 mod P = sg}"
  proof (rule bij_betw_byWitness [where f' = "\<lambda>s. s mod (16 * P)"])
    have 8: "(h * (16 * P) + s) div 8 mod P = s div 8 mod P" for s
    proof -
      have "h * (16 * P) + s = s + (h * 2 * P) * 8" by simp
      then have "(h * (16 * P) + s) div 8 = s div 8 + h * 2 * P" by (simp add: div_mult_self1)
      then show ?thesis by simp
    qed
    have bd: "h * (16 * P) + s < 32 * P" if "s < 16 * P" for s
      using coord_bound [OF assms(2) that] by simp
    show "(\<lambda>s. h * (16 * P) + s) ` {s. s < 2 * P * 8 \<and> s div 8 mod P = sg}
        \<subseteq> {src. src < 32 * P \<and> src div (16 * P) = h \<and> src div 8 mod P = sg}"
      using bd 8 by auto
    show "(\<lambda>s. s mod (16 * P)) ` {src. src < 32 * P \<and> src div (16 * P) = h \<and> src div 8 mod P = sg}
        \<subseteq> {s. s < 2 * P * 8 \<and> s div 8 mod P = sg}"
    proof clarify
      fix s assume s: "s < 32 * P" "h = s div (16 * P)" "sg = s div 8 mod P"
      then have "s mod (16 * P) < 16 * P" using assms(1) by simp
      moreover have "s mod (16 * P) div 8 mod P = s div 8 mod P"
        using 8 [of "s mod (16 * P)", unfolded s(2) div_mult_mod_eq] by (rule sym)
      ultimately show "s mod (16 * P) < 2 * P * 8 \<and> s mod (16 * P) div 8 mod P = s div 8 mod P" by simp
    qed
    show "\<forall>s\<in>{s. s < 2 * P * 8 \<and> s div 8 mod P = sg}. (h * (16 * P) + s) mod (16 * P) = s"
      by (intro ballI mod_coord) simp
    show "\<forall>s\<in>{src. src < 32 * P \<and> src div (16 * P) = h \<and> src div 8 mod P = sg}.
        h * (16 * P) + s mod (16 * P) = s"
      by clarify (rule div_mult_mod_eq)
  qed
  from bij_betw_same_card [OF this] show ?thesis
    using card_residue_sources [OF assms(1), of 8 2] by simp
qed

lemma card_parity_sources:
  fixes P p sg :: nat
  assumes "sg < P" "p < 2"
  shows "card {src. src < 32 * P \<and> src mod 2 = p \<and> src div 8 mod P = sg} = 16"
proof -
  have "bij_betw (\<lambda>s. 2 * s + p) {s. s < 4 * P * 4 \<and> s div 4 mod P = sg}
      {src. src < 32 * P \<and> src mod 2 = p \<and> src div 8 mod P = sg}"
  proof (rule bij_betw_byWitness [where f' = "\<lambda>s. s div 2"])
    have 8: "(2 * s + p) div 8 = s div 4" for s using assms(2) by presburger
    show "(\<lambda>s. 2 * s + p) ` {s. s < 4 * P * 4 \<and> s div 4 mod P = sg}
        \<subseteq> {src. src < 32 * P \<and> src mod 2 = p \<and> src div 8 mod P = sg}"
      using 8 assms(2) by auto
    have 4: "s div 2 div 4 = s div 8" for s :: nat by (simp add: div_mult2_eq [symmetric])
    show "(\<lambda>s. s div 2) ` {src. src < 32 * P \<and> src mod 2 = p \<and> src div 8 mod P = sg}
        \<subseteq> {s. s < 4 * P * 4 \<and> s div 4 mod P = sg}"
      using 4 by auto
  qed (use assms(2) in auto)
  from bij_betw_same_card [OF this] show ?thesis
    using card_residue_sources [OF assms(1), of 4 4] by simp
qed

lemma half_match:
  fixes x y :: nat
  assumes "x < 2" "y < 2"
  shows "((y = x) = b) = (x = (if b then y else 1 - y))"
    and "((y = 1 - x) = b) = (x = (if b then 1 - y else y))"
  using assms unfolding less_2_cases_iff by (cases b; elim disjE; simp)+

lemma card_pair_sources:
  assumes P: "pair_size P" and mode: "pair_mode mode" and "rd < 2 * P" "d < 32 * P"
  shows "card {src. src < 32 * P \<and> pair_round d src P mode = rd} = 16"
proof -
  have b: "0 < P" using pair_size_bounds [OF P] by auto
  define th where "th = d div 8 div (2 * P)"
  have th: "th < 2" using \<open>d < 32 * P\<close> by (simp add: th_def less_mult_imp_div_less)
  define k where "k = ((d div 8 mod (2 * P) + 2 * P - 1) mod (2 * P)) div 2"
  have "(d div 8 mod (2 * P) + 2 * P - 1) mod (2 * P) < P * 2" using b by (simp add: mult.commute)
  then have k: "k < P" unfolding k_def by (rule less_mult_imp_div_less)
  define sg where "sg = (k + P - rd mod P) mod P"
  have sg: "sg < P" using b by (simp add: sg_def)
  have iff: "(pair_round d src P mode = rd) = ((th = pair_half0 src P mode) = (rd < P) \<and> src div 8 mod P = sg)"
    for src using pair_round_iff [OF b \<open>rd < 2 * P\<close> k [unfolded k_def]] by (simp only: th_def k_def sg_def)
  from mode show ?thesis unfolding pair_mode_def
  proof
    assume m: "mode = MOONEP_COMBINE_V2_SERVER_PAIR_SAME_CROSS"
    define h where "h = (if rd < P then th else 1 - th)"
    have h: "h < 2" using th by (auto simp: h_def)
    have "((th = pair_half0 src P mode) = (rd < P)) = (src div (16 * P) = h)" if "src < 32 * P" for src
    proof -
      have "pair_half0 src P mode = src div (16 * P)" "src div (16 * P) < 2"
        using that by (simp_all add: pair_half0_def m less_mult_imp_div_less)
      then show ?thesis using half_match(1) [OF _ th] by (simp only: h_def)
    qed
    then have "{src. src < 32 * P \<and> pair_round d src P mode = rd} =
        {src. src < 32 * P \<and> src div (16 * P) = h \<and> src div 8 mod P = sg}" using iff by auto
    then show ?thesis using card_half_sources [OF sg h] by simp
  next
    assume m: "mode = MOONEP_COMBINE_V2_SERVER_PAIR_PARITY"
    define q where "q = (if rd < P then 1 - th else th)"
    have q: "q < 2" using th by (auto simp: q_def)
    have "((th = pair_half0 src P mode) = (rd < P)) = (src mod 2 = q)" for src
    proof -
      have "pair_half0 src P mode = 1 - src mod 2" by (simp add: pair_half0_def m)
      then show ?thesis using half_match(2) [OF _ th, of "src mod 2"] by (simp only: q_def)
    qed
    then have "{src. src < 32 * P \<and> pair_round d src P mode = rd} =
        {src. src < 32 * P \<and> src mod 2 = q \<and> src div 8 mod P = sg}" using iff by auto
    then show ?thesis using card_parity_sources [OF sg q] by simp
  qed
qed

lemma bidir_slot_source:
  assumes "0 < G" "k < 8 * G" "h < 2" and src: "src = h * (8 * G) +
      (d mod (8 * G) + 8 * G - bidir_cw k (8 * G) (d div (8 * G) = h)) mod (8 * G)"
  shows "bidir_slot src d (8 * G) = k" "src div (8 * G) = h" "src < 16 * G"
proof -
  define N where "N = 8 * G"
  have N: "0 < N" "k < N" using assms by (auto simp: N_def)
  define cw where "cw = bidir_cw k N (d div N = h)"
  have cw: "cw < N" unfolding cw_def N_def using assms(1,2) by (rule bidir_cw_less)
  define l where "l = (d mod N + N - cw) mod N"
  have l: "l < N" "d mod N < N" using N by (simp_all add: l_def)
  have s: "src = h * N + l" using src by (simp only: N_def cw_def l_def)
  have dv: "src div N = h" "src mod N = l" unfolding s using l(1) by (rule div_coord, rule mod_coord)
  show "src div (8 * G) = h" using dv by (simp only: N_def)
  have "src < 2 * N" unfolding s using \<open>h < 2\<close> l(1) by (rule coord_bound)
  then show "src < 16 * G" by (simp add: N_def)
  have "(d mod N + N - src mod N) mod N = cw"
    unfolding dv l_def using l(2) cw by (rule ring_sub_sub)
  then have "bidir_slot src d N = bidir_ordinal cw N (d div N = h)" by (simp only: bidir_slot_def dv)
  also have "\<dots> = k" unfolding cw_def N_def using assms(1,2) by (rule bidir_ordinal_cw)
  finally show "bidir_slot src d (8 * G) = k" by (simp only: N_def)
qed

lemma bidir_source_slot:
  assumes "0 < G"
  shows "src div (8 * G) * (8 * G) + (d mod (8 * G) + 8 * G -
    bidir_cw (bidir_slot src d (8 * G)) (8 * G) (d div (8 * G) = src div (8 * G))) mod (8 * G) = src"
proof -
  define N where "N = 8 * G"
  have N: "0 < N" using assms by (auto simp: N_def)
  define cw where "cw = (d mod N + N - src mod N) mod N"
  have cw: "cw < N" using N by (simp add: cw_def)
  have m: "d mod N < N" "src mod N < N" using N by simp_all
  have "bidir_cw (bidir_slot src d N) N (d div N = src div N) = cw"
    unfolding bidir_slot_def cw_def [symmetric] unfolding N_def
    using assms cw [unfolded N_def] by (rule bidir_cw_ordinal)
  moreover have "(d mod N + N - cw) mod N = src mod N" unfolding cw_def using m by (rule ring_sub_sub)
  ultimately have "src div N * N + (d mod N + N -
      bidir_cw (bidir_slot src d N) N (d div N = src div N)) mod N = src" by simp
  then show ?thesis by (simp only: N_def)
qed

lemma card_bidir_sources:
  assumes "0 < G" "st < G"
  shows "card {src. src < 16 * G \<and> bidir_slot src d (8 * G) div 8 = st} = 16"
proof (rule card_by_inverse [where g = "\<lambda>src. src div (8 * G) * 8 + bidir_slot src d (8 * G) mod 8"
      and f = "\<lambda>c. c div 8 * (8 * G) + (d mod (8 * G) + 8 * G -
        bidir_cw (st * 8 + c mod 8) (8 * G) (d div (8 * G) = c div 8)) mod (8 * G)"])
  fix c :: nat assume "c < 16"
  then have h: "c div 8 < 2" by simp
  have k: "st * 8 + c mod 8 < 8 * G"
    using coord_bound [OF \<open>st < G\<close>, of "c mod 8" 8] by (simp add: mult.commute)
  define src where "src = c div 8 * (8 * G) + (d mod (8 * G) + 8 * G -
        bidir_cw (st * 8 + c mod 8) (8 * G) (d div (8 * G) = c div 8)) mod (8 * G)"
  note s = bidir_slot_source [OF assms(1) k h src_def]
  show "src \<in> {src. src < 16 * G \<and> bidir_slot src d (8 * G) div 8 = st} \<and>
    src div (8 * G) * 8 + bidir_slot src d (8 * G) mod 8 = c" using s by simp
next
  fix src assume "src \<in> {src. src < 16 * G \<and> bidir_slot src d (8 * G) div 8 = st}"
  then have s: "src < 16 * G" "bidir_slot src d (8 * G) div 8 = st" by auto
  define c where "c = src div (8 * G) * 8 + bidir_slot src d (8 * G) mod 8"
  have "src div (8 * G) < 2" using s(1) by (simp add: less_mult_imp_div_less)
  then have c: "c < 2 * 8" unfolding c_def by (rule coord_bound) simp
  have o: "bidir_slot src d (8 * G) mod 8 < 8" by simp
  have cd: "c div 8 = src div (8 * G)" "c mod 8 = bidir_slot src d (8 * G) mod 8"
    unfolding c_def using o by (rule div_coord, rule mod_coord)
  show "c < 16 \<and> c div 8 * (8 * G) + (d mod (8 * G) + 8 * G -
        bidir_cw (st * 8 + c mod 8) (8 * G) (d div (8 * G) = c div 8)) mod (8 * G) = src"
    using c bidir_source_slot [OF assms(1)]
    by (simp only: cd s(2) [symmetric] div_mult_mod_eq) simp
qed

lemma card_step_sources:
  assumes v: "MoonEpCombineV2RankValid d R" and st: "st < MoonEpCombineV2StepCount R"
  shows "card {src. src < R \<and> MoonEpCombineV2ReceiveStep d src R mode = st} =
    MoonEpCombineV2ActiveCoreCount R"
proof -
  from v have sup: "MoonEpCombineV2RankSizeSupported R" and d: "d < R"
    by (auto simp: MoonEpCombineV2RankValid_def)
  have small: "card {src. src < R \<and> MoonEpCombineV2ReceiveStep d src R mode = st} =
    MoonEpCombineV2ActiveCoreCount R"
    if "R \<le> 8" "\<not> MoonEpCombineV2ServerPairScheduleEnabled R mode"
    using that st by (simp add: MoonEpCombineV2ReceiveStep_def small_counts
        MoonEpCombineV2SingleRingReceiveStep_def)
  from sup show ?thesis
  proof (cases rule: combine_cases [where mode = mode])
    case tiny
    then show ?thesis using small by simp
  next
    case eight
    then show ?thesis using small by simp
  next
    case (single G)
    have b: "0 < G" using half_size_bounds [OF single(1)] by auto
    then have "st < G" using st by (simp add: single(2) large_counts)
    with single_ring_step_iff [OF single(1) d [unfolded single(2)]] obtain sg where "sg < G"
      "\<forall>src<16 * G. (MoonEpCombineV2SingleRingReceiveStep d src (16 * G) = st) = (src div 8 mod G = sg)"
      by blast
    moreover have "MoonEpCombineV2ReceiveStep d src (16 * G) mode =
        MoonEpCombineV2SingleRingReceiveStep d src (16 * G)" for src
      using single(2-4) by (simp only: MoonEpCombineV2ReceiveStep_def simp_thms if_True if_False)
    ultimately have "{src. src < R \<and> MoonEpCombineV2ReceiveStep d src R mode = st} =
        {src. src < 2 * G * 8 \<and> src div 8 mod G = sg}" by (auto simp: single(2))
    then show ?thesis using card_residue_sources [OF \<open>sg < G\<close>, of 8 2] b
      by (simp add: single(2) large_counts)
  next
    case (bidir G)
    have b: "0 < G" using half_size_bounds [OF bidir(1)] by auto
    then have "st < G" using st by (simp add: bidir(2) large_counts)
    moreover have "{src. src < R \<and> MoonEpCombineV2ReceiveStep d src R mode = st} =
        {src. src < 16 * G \<and> bidir_slot src d (8 * G) div 8 = st}"
      using ReceiveStep_bidir [OF bidir(1) _ d [unfolded bidir(2)] bidir(3,4) [unfolded bidir(2)]]
      by (auto simp: bidir(2) bidir_slot_def)
    ultimately show ?thesis using card_bidir_sources [OF b] b by (simp add: bidir(2) large_counts)
  next
    case (pair P)
    have b: "0 < P" using pair_size_bounds [OF pair(1)] by auto
    then have "st < 2 * P" using st by (simp add: pair(2) pair_counts)
    moreover have "{src. src < R \<and> MoonEpCombineV2ReceiveStep d src R mode = st} =
        {src. src < 32 * P \<and> pair_round d src P mode = st}"
      using ServerPairReceive_eq(1) [OF pair(1,3) _ d [unfolded pair(2)]] pair(4)
      by (auto simp: pair(2) MoonEpCombineV2ReceiveStep_def)
    ultimately show ?thesis using card_pair_sources [OF pair(1,3) _ d [unfolded pair(2)]] b
      by (simp add: pair(2) pair_counts)
  qed
qed

section \<open>The enumeration loops\<close>

lemma receive_source_loop_nth:
  assumes "m + length xs < 4294967296" "m \<le> rc"
  shows "receive_source_loop f st rc m xs =
    (let ys = filter (\<lambda>s. f s = st) xs in if rc - m < length ys then ys ! (rc - m) else 4294967295)"
  using assms
proof (induction xs arbitrary: m)
  case (Cons s xs)
  show ?case
  proof (cases "f s = st \<and> m < rc")
    case True
    then have "u32 (m + 1) = m + 1" using Cons.prems by (simp add: wrap_simps)
    then show ?thesis using True Cons.IH [of "m + 1"] Cons.prems
      by (auto simp: Let_def nth_Cons' diff_diff_add)
  next
    case False
    then show ?thesis using Cons.IH [of m] Cons.prems by (auto simp: Let_def)
  qed
qed simp

lemma receive_core_loop_nth:
  assumes "m + length xs < 4294967296" "distinct xs" "i < length (filter (\<lambda>s. f s = st) xs)"
  shows "receive_core_loop f st (filter (\<lambda>s. f s = st) xs ! i) m xs = m + i"
  using assms
proof (induction xs arbitrary: m i)
  case (Cons s xs)
  show ?case
  proof (cases "f s = st \<and> 0 < i")
    case True
    then have "u32 (m + 1) = m + 1" using Cons.prems by (simp add: wrap_simps)
    moreover from True obtain j where j: "i = Suc j" by (cases i) auto
    moreover have "filter (\<lambda>s. f s = st) xs ! j \<in> set xs"
      using Cons.prems True nth_mem [of j "filter (\<lambda>s. f s = st) xs"] j by auto
    then have "filter (\<lambda>s. f s = st) xs ! j \<noteq> s" using Cons.prems by auto
    ultimately show ?thesis using True Cons.IH [of "m + 1" j] Cons.prems by simp
  next
    case False
    then show ?thesis using Cons.IH [of m i] Cons.prems by auto
  qed
qed simp

lemma transfer_core_loop_unique:
  assumes "distinct xs" "c \<in> set xs" "\<And>x. x \<in> set xs \<Longrightarrow> (f x = d) = (x = c)"
  shows "transfer_core_loop f d 4294967295 xs = c"
proof -
  have none: "transfer_core_loop f d m ys = m" if "\<And>y. y \<in> set ys \<Longrightarrow> f y \<noteq> d" for m ys
    using that by (induction ys) auto
  show ?thesis using assms
  proof (induction xs)
    case (Cons x xs)
    show ?case
    proof (cases "x = c")
      case True
      then have "transfer_core_loop f d c xs = c" using Cons.prems by (intro none) auto
      then show ?thesis using True Cons.prems by simp
    next
      case False
      then show ?thesis using Cons by simp
    qed
  qed simp
qed

section \<open>The enumerations are the inverses of the schedule\<close>

lemma TransferCore_slot:
  assumes "MoonEpCombineV2RankValid src R" "MoonEpCombineV2RankValid d R"
  shows "MoonEpCombineV2TransferCore src d (MoonEpCombineV2ReceiveStep d src R mode) R mode =
    combine_slot_core src d R mode"
proof -
  define st where "st = MoonEpCombineV2ReceiveStep d src R mode"
  define c where "c = combine_slot_core src d R mode"
  have slot: "combine_slot R mode src d = (st, c)" by (simp add: combine_slot_def st_def c_def)
  have b: "st < MoonEpCombineV2StepCount R" "c < MoonEpCombineV2ActiveCoreCount R"
    "combine_peer R mode src (st, c) = d"
    using combine_peer_slot [OF assms, of mode] by (auto simp: slot combine_slots_def)
  have "(combine_peer R mode src (st, x) = d) = (x = c)" if "x < MoonEpCombineV2ActiveCoreCount R" for x
    using combine_slot_peer [OF assms(1) b(1) that, of mode] b(3) slot by auto
  then have "transfer_core_loop (\<lambda>core. combine_peer R mode src (st, core)) d 4294967295
      [0..<MoonEpCombineV2ActiveCoreCount R] = c"
    by (intro transfer_core_loop_unique) (use b(2) in auto)
  then have "transfer_core_loop (\<lambda>core. MoonEpCombineV2EffectivePeer (MoonEpCombineV2Peer src st core R mode) src)
      d 4294967295 [0..<MoonEpCombineV2ActiveCoreCount R] = c"
    by (simp only: combine_peer_def fst_conv snd_conv)
  then show ?thesis using assms b(1)
    by (simp add: MoonEpCombineV2TransferCore_def st_def [symmetric] c_def [symmetric]
        MoonEpCombineV2StepValid_def MoonEpCombineV2RankValid_def)
qed

lemma SenderCore_slot:
  assumes "MoonEpCombineV2RankValid src R" "MoonEpCombineV2RankValid d R" "src \<noteq> d"
  shows "MoonEpCombineV2SenderCore src d R mode = combine_slot_core src d R mode"
proof (cases "MoonEpCombineV2ServerPairScheduleEnabled R mode")
  case True
  from assms(1) have "MoonEpCombineV2RankSizeSupported R" by (simp add: MoonEpCombineV2RankValid_def)
  then show ?thesis
  proof (cases rule: combine_cases [where mode = mode])
    case (pair P)
    have v: "src < 32 * P" "d < 32 * P" using assms pair(2) by (auto simp: MoonEpCombineV2RankValid_def)
    show ?thesis using ServerPairReceive_eq(2) [OF pair(1,3) v] True assms
      by (simp add: MoonEpCombineV2SenderCore_def MoonEpCombineV2ServerPairSenderCore_def
          combine_slot_core_def pair(2))
  qed (use True in auto)
next
  case False
  define st where "st = MoonEpCombineV2ReceiveStep d src R mode"
  define c where "c = combine_slot_core src d R mode"
  have slot: "combine_slot R mode src d = (st, c)" by (simp add: combine_slot_def st_def c_def)
  have b: "st < MoonEpCombineV2StepCount R" "c < MoonEpCombineV2ActiveCoreCount R"
    "combine_peer R mode src (st, c) = d"
    using combine_peer_slot [OF assms(1,2), of mode] by (auto simp: slot combine_slots_def)
  have eff: "(MoonEpCombineV2Peer src y x R mode = d) = (combine_peer R mode src (y, x) = d)" for x y
  proof -
    have "d < 4294967295" using assms(2)
      by (auto simp: MoonEpCombineV2RankValid_def MoonEpCombineV2RankSizeSupported_def)
    then show ?thesis using \<open>src \<noteq> d\<close> by (auto simp: combine_peer_def MoonEpCombineV2EffectivePeer_def)
  qed
  have "list_ex (\<lambda>y. MoonEpCombineV2Peer src y x R mode = d) [0..<MoonEpCombineV2StepCount R] = (x = c)"
    if "x < MoonEpCombineV2ActiveCoreCount R" for x
  proof -
    have "x = c" if "y < MoonEpCombineV2StepCount R" "combine_peer R mode src (y, x) = d" for y
      using combine_slot_peer [OF assms(1) that(1) \<open>x < _\<close>, of mode] that(2) slot by simp
    then show ?thesis using b by (auto simp: list_ex_iff eff)
  qed
  then have "List.find (\<lambda>x. list_ex (\<lambda>y. MoonEpCombineV2Peer src y x R mode = d) [0..<MoonEpCombineV2StepCount R])
      [0..<MoonEpCombineV2ActiveCoreCount R] = Some c"
    using b(2) by (auto simp: find_Some_iff intro!: exI [of _ c])
  then show ?thesis using assms False
    by (simp add: MoonEpCombineV2SenderCore_def c_def [symmetric])
qed

text \<open>The sources of a step, in rank order: what both receive loops walk through.\<close>

definition step_sources :: "nat \<Rightarrow> nat \<Rightarrow> nat \<Rightarrow> MoonEpCombineV2ScheduleMode \<Rightarrow> nat list" where
  "step_sources d st R mode = filter (\<lambda>s. MoonEpCombineV2ReceiveStep d s R mode = st) [0..<R]"

lemma step_sources_props:
  assumes "MoonEpCombineV2RankValid d R" "st < MoonEpCombineV2StepCount R"
  shows "length (step_sources d st R mode) = MoonEpCombineV2ActiveCoreCount R"
    "distinct (step_sources d st R mode)"
    "set (step_sources d st R mode) = {s. s < R \<and> MoonEpCombineV2ReceiveStep d s R mode = st}"
proof -
  show s: "set (step_sources d st R mode) = {s. s < R \<and> MoonEpCombineV2ReceiveStep d s R mode = st}"
    by (auto simp: step_sources_def)
  show d: "distinct (step_sources d st R mode)" by (simp add: step_sources_def)
  show "length (step_sources d st R mode) = MoonEpCombineV2ActiveCoreCount R"
    using distinct_card [OF d] card_step_sources [OF assms, of mode] s by simp
qed

lemma ReceiveSource_nth:
  assumes "MoonEpCombineV2RankValid d R" "MoonEpCombineV2StepValid st R" "MoonEpCombineV2CoreValid rc R"
  shows "MoonEpCombineV2ReceiveSource d st rc R mode = step_sources d st R mode ! rc"
proof -
  have "R < 4294967296" "st < MoonEpCombineV2StepCount R" "rc < MoonEpCombineV2ActiveCoreCount R"
    using assms by (auto simp: MoonEpCombineV2RankValid_def MoonEpCombineV2RankSizeSupported_def
        MoonEpCombineV2StepValid_def MoonEpCombineV2CoreValid_def)
  then show ?thesis using assms receive_source_loop_nth [of 0 "[0..<R]" rc]
      step_sources_props(1) [OF assms(1), of st mode]
    by (simp add: MoonEpCombineV2ReceiveSource_def step_sources_def [symmetric])
qed

lemma ReceiveCore_nth:
  assumes "MoonEpCombineV2RankValid d R" "MoonEpCombineV2StepValid st R" "MoonEpCombineV2CoreValid rc R"
  shows "MoonEpCombineV2ReceiveCore d (step_sources d st R mode ! rc) st R mode = rc"
proof -
  have b: "R < 4294967296" "st < MoonEpCombineV2StepCount R" "rc < MoonEpCombineV2ActiveCoreCount R"
    using assms by (auto simp: MoonEpCombineV2RankValid_def MoonEpCombineV2RankSizeSupported_def
        MoonEpCombineV2StepValid_def MoonEpCombineV2CoreValid_def)
  note p = step_sources_props [OF assms(1) b(2), of mode]
  have "step_sources d st R mode ! rc \<in> set (step_sources d st R mode)"
    using b(3) p(1) by (intro nth_mem) simp
  then have "step_sources d st R mode ! rc < R"
    "MoonEpCombineV2ReceiveStep d (step_sources d st R mode ! rc) R mode = st" unfolding p(3) by auto
  then show ?thesis using assms b p(1)
      receive_core_loop_nth [of 0 "[0..<R]" rc "\<lambda>s. MoonEpCombineV2ReceiveStep d s R mode" st]
    by (simp add: MoonEpCombineV2ReceiveCore_def step_sources_def [symmetric] MoonEpCombineV2RankValid_def)
qed

section \<open>Properties of the schedule\<close>

lemmas combine_eval = u32_def sub32_def Let_def MoonEpCombineV2RankValid_def
  MoonEpCombineV2RankSizeSupported_def MoonEpCombineV2StepValid_def MoonEpCombineV2CoreValid_def
  MoonEpCombineV2StepCount_def MoonEpCombineV2ActiveCoreCount_def MoonEpCombineV2EffectivePeer_def
  MoonEpCombineV2Peer_def MoonEpCombineV2ServerPairScheduleEnabled_def
  MoonEpCombineV2ServerPairRankSize_def MoonEpCombineV2ServerPairPeer_def
  MoonEpCombineV2ServerPairPhaseStepCount_def MoonEpCombineV2ServerPairRoundCount_def
  MoonEpCombineV2ServerPairPhase_def MoonEpCombineV2ServerPairPhaseStep_def
  MoonEpCombineV2ServerPairTargetHalf_def MoonEpCombineV2ServerPairIndex_def
  MoonEpCombineV2BidirectionalScheduleEnabled_def MoonEpCombineV2BidirectionalPeer_def
  MoonEpCombineV2BidirectionalOffset_def MoonEpCombineV2RingOffset_def
  MoonEpCombineV2SingleRingPeer_def MoonEpCombineV2GroupsPerHalf_def and_one_eq

text \<open>
  C14: For every supported rank size, every mode and every source, the (step, core) slots of the
  source reach every rank exactly once (an invalid peer standing for the source itself).
\<close>

theorem combine_peer_bijective:
  assumes "MoonEpCombineV2RankValid src R"
  shows "bij_betw
    (\<lambda>(step, core). MoonEpCombineV2EffectivePeer (MoonEpCombineV2Peer src step core R mode) src)
    ({..<MoonEpCombineV2StepCount R} \<times> {..<MoonEpCombineV2ActiveCoreCount R}) {..<R}"
proof -
  have r: "{r. MoonEpCombineV2RankValid r R} = {..<R}"
    using assms by (auto simp: MoonEpCombineV2RankValid_def)
  have "bij_betw (combine_slot R mode src) {..<R} (combine_slots R)"
    using combine.slot_of_bij [of src R mode] assms unfolding r [symmetric] by simp
  then have "bij_betw (the_inv_into {..<R} (combine_slot R mode src)) (combine_slots R) {..<R}"
    by (rule bij_betw_the_inv_into)
  moreover have "the_inv_into {..<R} (combine_slot R mode src) slot = combine_peer R mode src slot"
    if "slot \<in> combine_slots R" for slot
  proof (rule the_inv_into_f_eq)
    show "inj_on (combine_slot R mode src) {..<R}"
      using combine.slot_of_bij [of src R mode] assms unfolding r [symmetric] by (simp add: bij_betw_def)
  qed (use combine_slot_peer [OF assms, of "fst slot" "snd slot" mode] that
      in \<open>auto simp: combine_slots_def\<close>)
  ultimately have "bij_betw (combine_peer R mode src) (combine_slots R) {..<R}"
    using bij_betw_cong [of "combine_slots R"] by blast
  moreover have "combine_peer R mode src = (\<lambda>(step, core).
      MoonEpCombineV2EffectivePeer (MoonEpCombineV2Peer src step core R mode) src)"
    by (auto simp: combine_peer_def)
  ultimately show ?thesis by (simp only: combine_slots_def)
qed

theorem combine_peer_bijective_witness:
  "bij_betw
    (\<lambda>(step, core). MoonEpCombineV2EffectivePeer
      (MoonEpCombineV2Peer 5 step core 64 MOONEP_COMBINE_V2_SERVER_PAIR_PARITY) 5)
    ({..<4} \<times> {..<16}) {..<64}"
  using combine_peer_bijective [of 5 64 MOONEP_COMBINE_V2_SERVER_PAIR_PARITY]
  by (simp add: MoonEpCombineV2RankValid_def MoonEpCombineV2RankSizeSupported_def
      MoonEpCombineV2StepCount_def MoonEpCombineV2ActiveCoreCount_def)

text \<open>
  C15: The receive side agrees with the send side: a destination that computes \<open>ReceiveStep\<close> and
  \<open>TransferCore\<close> for the source of a transfer gets exactly the step and the core that the source
  uses, and the source's own \<open>SenderCore\<close> gives the same core.
\<close>

theorem combine_receive_agrees:
  assumes "MoonEpCombineV2RankValid src R" "MoonEpCombineV2StepValid step R"
    "MoonEpCombineV2CoreValid core R"
    and "dst = MoonEpCombineV2EffectivePeer (MoonEpCombineV2Peer src step core R mode) src"
  shows "MoonEpCombineV2RankValid dst R \<and> MoonEpCombineV2ReceiveStep dst src R mode = step \<and>
    MoonEpCombineV2TransferCore src dst step R mode = core \<and>
    (dst \<noteq> src \<longrightarrow> MoonEpCombineV2SenderCore src dst R mode = core)"
proof -
  have b: "step < MoonEpCombineV2StepCount R" "core < MoonEpCombineV2ActiveCoreCount R"
    using assms(2,3) by (auto simp: MoonEpCombineV2StepValid_def MoonEpCombineV2CoreValid_def)
  have d: "dst = combine_peer R mode src (step, core)" by (simp add: combine_peer_def assms(4))
  note s = combine_slot_peer [OF assms(1) b, of mode, folded d]
  have v: "MoonEpCombineV2RankValid dst R" using s assms(1) by (simp add: MoonEpCombineV2RankValid_def)
  have st: "MoonEpCombineV2ReceiveStep dst src R mode = step"
    and c: "combine_slot_core src dst R mode = core" using s by (simp_all add: combine_slot_def)
  have "MoonEpCombineV2TransferCore src dst step R mode = core"
    using TransferCore_slot [OF assms(1) v, of mode] by (simp only: st c)
  moreover have "dst \<noteq> src \<longrightarrow> MoonEpCombineV2SenderCore src dst R mode = core"
    using SenderCore_slot [OF assms(1) v, of mode] c by auto
  ultimately show ?thesis using v st by blast
qed

theorem combine_receive_agrees_witness:
  "MoonEpCombineV2ReceiveStep 13 5 64 MOONEP_COMBINE_V2_SERVER_PAIR_SAME_CROSS = 0 \<and>
   MoonEpCombineV2TransferCore 5 13 0 64 MOONEP_COMBINE_V2_SERVER_PAIR_SAME_CROSS = 5 \<and>
   MoonEpCombineV2SenderCore 5 13 64 MOONEP_COMBINE_V2_SERVER_PAIR_SAME_CROSS = 5"
proof -
  have "MoonEpCombineV2EffectivePeer
      (MoonEpCombineV2Peer 5 0 5 64 MOONEP_COMBINE_V2_SERVER_PAIR_SAME_CROSS) 5 = 13"
    by (simp add: combine_eval)
  moreover have "MoonEpCombineV2RankValid 5 64" "MoonEpCombineV2StepValid 0 64"
    "MoonEpCombineV2CoreValid 5 64" by (simp_all add: combine_eval)
  ultimately show ?thesis
    using combine_receive_agrees [of 5 64 0 5 13 MOONEP_COMBINE_V2_SERVER_PAIR_SAME_CROSS] by simp
qed

text \<open>
  C16: In every step a destination receives from exactly as many sources as it has active cores,
  and \<open>ReceiveSource\<close> assigns one of them to each receiver core: it is a bijection from the
  receiver cores to the sources of the step, with \<open>ReceiveCore\<close> as its inverse.
\<close>

theorem combine_receive_source_bijective:
  assumes "MoonEpCombineV2RankValid dst R" "MoonEpCombineV2StepValid step R"
  shows "bij_betw (\<lambda>rc. MoonEpCombineV2ReceiveSource dst step rc R mode)
      {..<MoonEpCombineV2ActiveCoreCount R} {src. src < R \<and> MoonEpCombineV2ReceiveStep dst src R mode = step} \<and>
    (\<forall>rc<MoonEpCombineV2ActiveCoreCount R.
      MoonEpCombineV2ReceiveCore dst (MoonEpCombineV2ReceiveSource dst step rc R mode) step R mode = rc)"
proof -
  have b: "step < MoonEpCombineV2StepCount R" and sup: "MoonEpCombineV2RankSizeSupported R"
    using assms by (auto simp: MoonEpCombineV2StepValid_def MoonEpCombineV2RankValid_def)
  note p = step_sources_props [OF assms(1) b, of mode]
  have src: "MoonEpCombineV2ReceiveSource dst step rc R mode = step_sources dst step R mode ! rc"
    if "rc < MoonEpCombineV2ActiveCoreCount R" for rc
    using ReceiveSource_nth [OF assms] that sup by (simp add: MoonEpCombineV2CoreValid_def)
  have "bij_betw ((!) (step_sources dst step R mode)) {..<MoonEpCombineV2ActiveCoreCount R}
      {src. src < R \<and> MoonEpCombineV2ReceiveStep dst src R mode = step}"
    using bij_betw_nth [OF p(2)] p(1,3) by simp
  then have "bij_betw (\<lambda>rc. MoonEpCombineV2ReceiveSource dst step rc R mode)
      {..<MoonEpCombineV2ActiveCoreCount R} {src. src < R \<and> MoonEpCombineV2ReceiveStep dst src R mode = step}"
    using bij_betw_cong [of "{..<MoonEpCombineV2ActiveCoreCount R}"
        "\<lambda>rc. MoonEpCombineV2ReceiveSource dst step rc R mode" "(!) (step_sources dst step R mode)"] src
    by simp
  moreover have "MoonEpCombineV2ReceiveCore dst (MoonEpCombineV2ReceiveSource dst step rc R mode) step R mode = rc"
    if "rc < MoonEpCombineV2ActiveCoreCount R" for rc
    unfolding src [OF that] using assms sup that
    by (intro ReceiveCore_nth) (simp_all add: MoonEpCombineV2CoreValid_def)
  ultimately show ?thesis by blast
qed

theorem combine_receive_source_bijective_witness:
  "bij_betw (\<lambda>rc. MoonEpCombineV2ReceiveSource 3 1 rc 32 MOONEP_COMBINE_V2_BIDIRECTIONAL_RING)
    {..<16} {src. src < 32 \<and> MoonEpCombineV2ReceiveStep 3 src 32 MOONEP_COMBINE_V2_BIDIRECTIONAL_RING = 1}"
  using combine_receive_source_bijective [of 3 32 1 MOONEP_COMBINE_V2_BIDIRECTIONAL_RING]
  by (simp add: MoonEpCombineV2RankValid_def MoonEpCombineV2RankSizeSupported_def
      MoonEpCombineV2StepValid_def MoonEpCombineV2StepCount_def MoonEpCombineV2ActiveCoreCount_def)

end
