(* ===== verification/CombineGroups.thy ===== *)
theory CombineGroups
  imports CombineSchedule TransferSchedule
begin

text \<open>
  The grouped schedule for 128 ranks (\<open>GroupSendDstRank\<close>, \<open>GroupRecvSrcRank\<close>): a rank is a
  cabinet, a server parity, a card half and an inner index, a step flips the first three
  coordinates, and the inner index of the destination is the core.
\<close>

section \<open>Coordinates of a rank\<close>

definition rank_of :: "nat \<Rightarrow> nat \<Rightarrow> nat \<Rightarrow> nat \<Rightarrow> nat" where
  "rank_of cab par half inner = cab * 64 + inner div 4 * 16 + par * 8 + half * 4 + inner mod 4"

lemma MakeRank_eq:
  assumes "cab < 2" "par < 2" "half < 2" "inner < 16"
  shows "MoonEpCombineV2GroupMakeRank cab par half inner = rank_of cab par half inner"
proof -
  have "\<forall>cab\<in>{0, 1}. \<forall>par\<in>{0, 1}. \<forall>half\<in>{0, 1}. \<forall>inner\<in>set [0..<16].
      MoonEpCombineV2GroupMakeRank cab par half inner = rank_of cab par half inner"
    by (simp add: MoonEpCombineV2GroupMakeRank_def rank_of_def Let_def push_bit_eq_mult drop_bit_eq_div upt_rec)
      (simp flip: numeral_2_eq_2 numeral_3_eq_3)
  moreover have "cab \<in> {0, 1}" "par \<in> {0, 1}" "half \<in> {0, 1}" "inner \<in> set [0..<16]" using assms by auto
  ultimately show ?thesis by blast
qed

lemma rank_of_coords:
  assumes "cab < 2" "par < 2" "half < 2" "inner < 16"
  defines "r \<equiv> rank_of cab par half inner"
  shows "r < 128" "drop_bit 6 r = cab" "drop_bit 3 r AND 1 = par" "drop_bit 2 r AND 1 = half"
    "MoonEpCombineV2GroupInnerIndex r = inner"
proof -
  obtain q s where q: "inner = q * 4 + s" "q < 4" "s < 4"
    using assms(4) by (intro that [of "inner div 4" "inner mod 4"]) auto
  have r: "r = cab * 64 + q * 16 + par * 8 + half * 4 + s"
    unfolding r_def rank_of_def q(1) using q(3) by simp
  show b: "r < 128" unfolding r using assms q by linarith
  have r64: "r = cab * 64 + (q * 16 + par * 8 + half * 4 + s)"
    and r8: "r = (cab * 8 + q * 2 + par) * 8 + (half * 4 + s)"
    and r4: "r = (cab * 16 + q * 4 + par * 2 + half) * 4 + s" unfolding r by simp_all
  have 64: "r div 64 = cab" unfolding r64 using assms q by (intro div_coord) simp
  have 8: "r div 8 = cab * 8 + q * 2 + par" unfolding r8 using assms q by (intro div_coord) simp
  have 4: "r div 4 = cab * 16 + q * 4 + par * 2 + half" and m: "r mod 4 = s"
    unfolding r4 using q(3) by (rule div_coord, rule mod_coord)
  show "drop_bit 6 r = cab" by (simp add: drop_bit_eq_div 64)
  show "drop_bit 3 r AND 1 = par"
    using mod_coord [OF assms(2), of "cab * 4 + q"] by (simp add: drop_bit_eq_div 8 and_one_eq ac_simps)
  show "drop_bit 2 r AND 1 = half"
    using mod_coord [OF assms(3), of "cab * 8 + q * 2 + par"]
    by (simp add: drop_bit_eq_div 4 and_one_eq ac_simps)
  have m8: "drop_bit 3 r AND 7 = q * 2 + par"
    using mod_coord [of "q * 2 + par" 8 cab] q assms(2) take_bit_eq_mask [of 3 "r div 8", symmetric]
    by (simp add: drop_bit_eq_div 8 mask_eq_exp_minus_1 take_bit_eq_mod ac_simps)
  have s3: "r AND 3 = s"
    using take_bit_eq_mask [of 2 r, symmetric] m by (simp add: mask_eq_exp_minus_1 take_bit_eq_mod)
  have "MoonEpCombineV2GroupInnerIndex r = push_bit 2 q OR s"
  proof -
    have "drop_bit 1 (q * 2 + par) = q" using assms(2) by (simp add: drop_bit_eq_div)
    then show ?thesis using b by (simp only: MoonEpCombineV2GroupInnerIndex_def Let_def m8 s3
          kMoonEpCombineV2RankCount_def not_le [symmetric] if_False)
  qed
  also have "\<dots> = q * 4 + s"
  proof -
    have "\<forall>q\<in>{0,1,2,3}. \<forall>s\<in>{0,1,2,3}. push_bit 2 q OR s = q * 4 + (s::nat)"
      by (simp add: push_bit_eq_mult)
    moreover have "q \<in> {0,1,2,3}" "s \<in> {0,1,2,3}" using q by auto
    ultimately show ?thesis by blast
  qed
  finally show "MoonEpCombineV2GroupInnerIndex r = inner" by (simp add: q(1))
qed

lemma rank_of_obtain:
  assumes "r < 128"
  obtains cab par half inner where "cab < 2" "par < 2" "half < 2" "inner < 16" "r = rank_of cab par half inner"
proof -
  define a where "a = r div 4"
  define b where "b = a div 2"
  define c where "c = b div 2"
  define d where "d = c div 4"
  have e: "r = 4 * a + r mod 4" "a = 2 * b + a mod 2" "b = 2 * c + b mod 2" "c = 4 * d + c mod 4"
    by (simp_all add: a_def b_def c_def d_def)
  have m: "r mod 4 < 4" "a mod 2 < 2" "b mod 2 < 2" "c mod 4 < 4" by simp_all
  have "r = rank_of d (b mod 2) (a mod 2) (c mod 4 * 4 + r mod 4)"
    unfolding rank_of_def div_coord [OF m(1)] mod_coord [OF m(1)] using e by linarith
  moreover have "d < 2" "c mod 4 * 4 + r mod 4 < 16" using e m assms by linarith+
  ultimately show thesis using that m by blast
qed

section \<open>The step is the difference of the coordinates\<close>

lemma bits_of_step:
  assumes "(st::nat) < 8"
  obtains t0 t1 t2 where "t0 < 2" "t1 < 2" "t2 < 2" "st = t0 + 2 * t1 + 4 * t2"
    "st AND 1 = t0" "drop_bit 1 st AND 1 = t1" "drop_bit 2 st AND 1 = t2"
proof (rule that [of "st mod 2" "st div 2 mod 2" "st div 4 mod 2"])
  have "st div 4 < 2" "st div 4 = st div 2 div 2" using assms by (simp_all flip: div_mult2_eq)
  moreover have "st = 2 * (st div 2) + st mod 2" "st div 2 = 2 * (st div 2 div 2) + st div 2 mod 2"
    by (simp_all only: mult_div_mod_eq)
  ultimately show "st = st mod 2 + 2 * (st div 2 mod 2) + 4 * (st div 4 mod 2)" by (simp only: mod_less)
qed (simp_all add: and_one_eq drop_bit_eq_div)

lemma xor_bits: "x < 2 \<Longrightarrow> y < 2 \<Longrightarrow> x XOR y = (x + y) mod (2::nat)"
  by (auto simp: less_2_cases_iff)

lemma xor_bits_less: "x < 2 \<Longrightarrow> y < 2 \<Longrightarrow> x XOR y < (2::nat)"
  by (simp add: xor_bits)

text \<open>Send and receive on the coordinates.\<close>

lemma GroupSend_eq:
  assumes "cab < 2" "par < 2" "half < 2" "inner < 16" "i < 16" "t0 < 2" "t1 < 2" "t2 < 2"
    and st: "st < 8" "st AND 1 = t0" "drop_bit 1 st AND 1 = t1" "drop_bit 2 st AND 1 = t2"
  shows "MoonEpCombineV2GroupSendDstRank (rank_of cab par half inner) st i =
      rank_of (cab XOR (half XOR t2)) (par XOR t1 XOR 1) (half XOR t2 XOR t0) i"
    and "MoonEpCombineV2GroupRecvSrcRank (rank_of cab par half inner) st i =
      rank_of (cab XOR (half XOR t0)) (par XOR t1 XOR 1) (half XOR t0 XOR t2) i"
  using rank_of_coords [OF assms(1-4)] assms
  by (simp_all add: MoonEpCombineV2GroupSendDstRank_def MoonEpCombineV2GroupRecvSrcRank_def Let_def
      MakeRank_eq xor_bits_less xor.assoc)

lemma group_recv_send:
  assumes "r < 128" "st < 8" "i < 16"
  defines "d \<equiv> MoonEpCombineV2GroupSendDstRank r st i"
  shows "d < 128" "MoonEpCombineV2GroupRecvSrcRank d st (MoonEpCombineV2GroupInnerIndex r) = r"
    "MoonEpCombineV2GroupInnerIndex d = i"
proof -
  obtain cab par half inner where c: "cab < 2" "par < 2" "half < 2" "inner < 16"
    and r: "r = rank_of cab par half inner" using rank_of_obtain [OF assms(1)] .
  obtain t0 t1 t2 where t: "t0 < 2" "t1 < 2" "t2 < 2" "st AND 1 = t0" "drop_bit 1 st AND 1 = t1"
    "drop_bit 2 st AND 1 = t2" using bits_of_step [OF assms(2)] .
  define cab' where "cab' = cab XOR (half XOR t2)"
  define par' where "par' = par XOR t1 XOR 1"
  define half' where "half' = half XOR t2 XOR t0"
  have b: "cab' < 2" "par' < 2" "half' < 2" using c t
    by (simp_all add: cab'_def par'_def half'_def xor_bits_less)
  have d: "d = rank_of cab' par' half' i"
    unfolding d_def r cab'_def par'_def half'_def using GroupSend_eq(1) [OF c assms(3) t(1-3) assms(2) t(4-6)] .
  show "d < 128" "MoonEpCombineV2GroupInnerIndex d = i"
    unfolding d using rank_of_coords [OF b assms(3)] by auto
  have e: "cab' XOR (half' XOR t0) = cab" "par' XOR t1 XOR 1 = par" "half' XOR t0 XOR t2 = half"
    unfolding half'_def cab'_def par'_def using c(1-3) t(1-3) unfolding less_2_cases_iff
    by (elim disjE; simp)+
  show "MoonEpCombineV2GroupRecvSrcRank d st (MoonEpCombineV2GroupInnerIndex r) = r"
    unfolding d r rank_of_coords(5) [OF c]
    using GroupSend_eq(2) [OF b assms(3) c(4) t(1-3) assms(2) t(4-6)]
    by (simp only: e)
qed

text \<open>The step with which a source serves a destination.\<close>

definition group_slot :: "nat \<Rightarrow> nat \<Rightarrow> nat \<times> nat" where
  "group_slot r d =
     (let inter = drop_bit 6 r XOR drop_bit 6 d;
          t0 = inter XOR (drop_bit 2 d AND 1);
          t1 = (drop_bit 3 r AND 1) XOR (drop_bit 3 d AND 1) XOR 1;
          t2 = (drop_bit 2 r AND 1) XOR inter
      in (t0 + 2 * t1 + 4 * t2, MoonEpCombineV2GroupInnerIndex d))"

lemma group_slot_send:
  assumes "r < 128" "st < 8" "i < 16"
  shows "group_slot r (MoonEpCombineV2GroupSendDstRank r st i) = (st, i)"
proof -
  obtain cab par half inner where c: "cab < 2" "par < 2" "half < 2" "inner < 16"
    and r: "r = rank_of cab par half inner" using rank_of_obtain [OF assms(1)] .
  obtain t0 t1 t2 where t: "t0 < 2" "t1 < 2" "t2 < 2" "st = t0 + 2 * t1 + 4 * t2" "st AND 1 = t0"
    "drop_bit 1 st AND 1 = t1" "drop_bit 2 st AND 1 = t2" using bits_of_step [OF assms(2)] .
  have b: "cab XOR (half XOR t2) < 2" "par XOR t1 XOR 1 < 2" "half XOR t2 XOR t0 < 2" using c t
    by (simp_all add: xor_bits_less)
  have "(cab XOR (cab XOR (half XOR t2))) XOR (half XOR t2 XOR t0) = t0"
    "par XOR (par XOR t1 XOR 1) XOR 1 = t1" "half XOR (cab XOR (cab XOR (half XOR t2))) = t2"
    using c t(1-3) unfolding less_2_cases_iff by (elim disjE; simp)+
  then show ?thesis unfolding r GroupSend_eq(1) [OF c assms(3) t(1-3) assms(2) t(5-7)]
    unfolding group_slot_def rank_of_coords [OF c] rank_of_coords [OF b assms(3)] Let_def
    by (simp only: t(4))
qed

lemma group_send_slot:
  assumes "r < 128" "d < 128"
  shows "fst (group_slot r d) < 8" "snd (group_slot r d) < 16"
    "MoonEpCombineV2GroupSendDstRank r (fst (group_slot r d)) (snd (group_slot r d)) = d"
proof -
  obtain cab par half inner where c: "cab < 2" "par < 2" "half < 2" "inner < 16"
    and r: "r = rank_of cab par half inner" using rank_of_obtain [OF assms(1)] .
  obtain cab' par' half' inner' where c': "cab' < 2" "par' < 2" "half' < 2" "inner' < 16"
    and d: "d = rank_of cab' par' half' inner'" using rank_of_obtain [OF assms(2)] .
  define t0 where "t0 = (cab XOR cab') XOR half'"
  define t1 where "t1 = par XOR par' XOR 1"
  define t2 where "t2 = half XOR (cab XOR cab')"
  have t: "t0 < 2" "t1 < 2" "t2 < 2" using c c' by (simp_all add: t0_def t1_def t2_def xor_bits_less)
  define st where "st = t0 + 2 * t1 + 4 * t2"
  have s: "group_slot r d = (st, inner')"
    by (simp only: group_slot_def r d rank_of_coords [OF c] rank_of_coords [OF c'] Let_def
        t0_def t1_def t2_def st_def)
  have st: "st < 8" using t by (simp add: st_def)
  have bits: "st AND 1 = t0" "drop_bit 1 st AND 1 = t1" "drop_bit 2 st AND 1 = t2"
    unfolding st_def using t unfolding less_2_cases_iff
    by (elim disjE; simp add: drop_bit_eq_div and_one_eq)+
  show "fst (group_slot r d) < 8" "snd (group_slot r d) < 16" using s st c' by simp_all
  have "cab XOR (half XOR t2) = cab'" "par XOR t1 XOR 1 = par'" "half XOR t2 XOR t0 = half'"
    unfolding t0_def t1_def t2_def using c c' unfolding less_2_cases_iff by (elim disjE; simp)+
  then show "MoonEpCombineV2GroupSendDstRank r (fst (group_slot r d)) (snd (group_slot r d)) = d"
    unfolding s fst_conv snd_conv
    unfolding r GroupSend_eq(1) [OF c c'(4) t st bits] by (simp only: d)
qed

interpretation groups: transfer_schedule
  "{..<128}" "{..<8} \<times> {..<16}" "\<lambda>s. {..<128}"
  "\<lambda>r slot. Some (MoonEpCombineV2GroupSendDstRank r (fst slot) (snd slot))" group_slot
  using group_recv_send(1) group_slot_send group_send_slot by unfold_locales (auto simp: mem_Times_iff)

text \<open>
  C21: On 128 ranks the grouped schedule reaches every rank exactly once from every source, and
  the receive side of the same step names the source back, from the source's inner index.
\<close>

theorem combine_group_schedule:
  assumes "r < kMoonEpCombineV2RankCount"
  shows "(\<forall>d<kMoonEpCombineV2RankCount. \<exists>!slot. slot \<in> {..<kMoonEpCombineV2StepCount} \<times> {..<kMoonEpCombineV2CoreCount} \<and>
      MoonEpCombineV2GroupSendDstRank r (fst slot) (snd slot) = d) \<and>
    (\<forall>st<kMoonEpCombineV2StepCount. \<forall>i<kMoonEpCombineV2CoreCount.
      MoonEpCombineV2GroupRecvSrcRank (MoonEpCombineV2GroupSendDstRank r st i) st
        (MoonEpCombineV2GroupInnerIndex r) = r)"
  using groups.served_once [of r] group_recv_send(2) [of r] assms by simp

theorem combine_group_schedule_witness:
  "MoonEpCombineV2GroupRecvSrcRank (MoonEpCombineV2GroupSendDstRank 77 5 9) 5
    (MoonEpCombineV2GroupInnerIndex 77) = 77"
  using combine_group_schedule [of 77] by simp

end
