(* ===== verification/CombineCredits.thy ===== *)
theory CombineCredits
  imports CombineSchedule
begin

text \<open>
  The control words of Combine V2, from the second half of
  \<^verbatim>\<open>src/src/moonep/common/moonep_combine_schedule.h\<close>: tokens, guards, credit signals, the indices
  of the IPC control regions, the split of rows over the two lanes and of a copy over a ring.
  \<open>uint32_t\<close> and \<open>uint64_t\<close> values are naturals with their wrap-around written out.
\<close>



unbundle bit_operations_syntax

section \<open>Definitions\<close>

definition MoonEpCombineV2MagicValid :: "nat \<Rightarrow> bool" where
  "MoonEpCombineV2MagicValid magic \<longleftrightarrow> magic \<noteq> 0 \<and> magic \<le> kMoonEpCombineV2MaxMagic"

definition MoonEpCombineV2Epoch :: "nat \<Rightarrow> nat" where
  "MoonEpCombineV2Epoch magic = u32 (magic AND 1)"

definition MoonEpCombineV2Qp :: "nat \<Rightarrow> nat \<Rightarrow> nat" where
  "MoonEpCombineV2Qp core lane =
     (if lane = MOONEP_COMBINE_V2_SIX_PORT then core else u32 (kMoonEpCombineV2CoreCount + core))"

definition MoonEpCombineV2SameServer :: "nat \<Rightarrow> nat \<Rightarrow> nat \<Rightarrow> bool" where
  "MoonEpCombineV2SameServer lhs rhs localRankSize \<longleftrightarrow>
     0 < localRankSize \<and> localRankSize \<le> kMoonEpCombineV2FullmeshSlotCount \<and>
     lhs div localRankSize = rhs div localRankSize"

definition MoonEpCombineV2LocalSlot :: "nat \<Rightarrow> nat \<Rightarrow> nat" where
  "MoonEpCombineV2LocalSlot rank localRankSize =
     (if localRankSize = 0 \<or> kMoonEpCombineV2FullmeshSlotCount < localRankSize
      then kMoonEpCombineV2InvalidPeer else rank mod localRankSize)"

definition MoonEpCombineV2FullmeshLogicalQp :: "nat \<Rightarrow> nat \<Rightarrow> nat" where
  "MoonEpCombineV2FullmeshLogicalQp peer localRankSize =
     (let slot = MoonEpCombineV2LocalSlot peer localRankSize in
      if slot = kMoonEpCombineV2InvalidPeer then slot
      else u32 (kMoonEpCombineV2FullmeshLogicalQpBase + slot))"

definition MoonEpCombineV2ExpectedDoneCount :: "nat \<Rightarrow> nat \<Rightarrow> nat \<Rightarrow> nat" where
  "MoonEpCombineV2ExpectedDoneCount source destination localRankSize =
     (if source = destination then 0
      else if MoonEpCombineV2SameServer source destination localRankSize then 1
      else kMoonEpCombineV2LaneCount)"

definition MoonEpCombineV2DoneLaneRequired :: "nat \<Rightarrow> nat \<Rightarrow> nat \<Rightarrow> nat \<Rightarrow> bool" where
  "MoonEpCombineV2DoneLaneRequired source destination lane localRankSize \<longleftrightarrow>
     lane < MoonEpCombineV2ExpectedDoneCount source destination localRankSize"

definition MoonEpCombineV2LaneForPosition :: "nat \<Rightarrow> nat" where
  "MoonEpCombineV2LaneForPosition position =
     (if position AND 3 = 3 then MOONEP_COMBINE_V2_TWO_PORT else MOONEP_COMBINE_V2_SIX_PORT)"

definition MoonEpCombineV2ControlWqesPerLane :: "nat \<Rightarrow> nat \<Rightarrow> bool \<Rightarrow> nat" where
  "MoonEpCombineV2ControlWqesPerLane step stepCount finalBatch = (if finalBatch then 2 else 0)"

definition MoonEpCombineV2BatchLaneCounts ::
    "nat \<Rightarrow> nat \<Rightarrow> nat \<Rightarrow> nat \<Rightarrow> bool \<Rightarrow> MoonEpCombineV2LaneCounts" where
  "MoonEpCombineV2BatchLaneCounts logicalRows sequencePhase step stepCount finalBatch =
     (let firstTwoPort = sub32 3 (sequencePhase AND 3) AND 3;
          twoPort' = (if logicalRows \<le> firstTwoPort then 0
                      else u32 (1 + sub32 (sub32 logicalRows 1) firstTwoPort div 4));
          control = MoonEpCombineV2ControlWqesPerLane step stepCount finalBatch
      in \<lparr>sixPort = u32 (sub32 logicalRows twoPort' + control), twoPort = u32 (twoPort' + control)\<rparr>)"

definition MoonEpCombineV2SplitRingCopy :: "nat \<Rightarrow> nat \<Rightarrow> nat \<Rightarrow> MoonEpCombineV2RingSegments" where
  "MoonEpCombineV2SplitRingCopy absoluteHead count ringEntries =
     (let ringIndex = (if ringEntries = 0 then 0 else absoluteHead mod ringEntries);
          untilEnd = sub32 ringEntries ringIndex;
          first = (if count < untilEnd then count else untilEnd)
      in if ringEntries = 0 then \<lparr>seg_first = 0, seg_second = 0\<rparr>
         else \<lparr>seg_first = first, seg_second = sub32 count first\<rparr>)"

definition MoonEpCombineV2NextCqTarget :: "nat \<Rightarrow> bool \<Rightarrow> nat" where
  "MoonEpCombineV2NextCqTarget cqTail finalBatch = (if finalBatch then u32 (cqTail + 1) else cqTail)"

definition MoonEpCombineV2CompletionCount :: "bool \<Rightarrow> nat" where
  "MoonEpCombineV2CompletionCount finalBatch = (if finalBatch then 1 else 0)"

definition MoonEpCombineV2CqTargetReached :: "nat \<Rightarrow> nat \<Rightarrow> bool" where
  "MoonEpCombineV2CqTargetReached cqTail cqTarget \<longleftrightarrow> cqTail = cqTarget"

text \<open>The quotient \<open>nvS / topK\<close> is only reached for positive operands, where C++ and HOL agree.\<close>

definition MoonEpCombineV2ShapeValid :: "int \<Rightarrow> int \<Rightarrow> int \<Rightarrow> int \<Rightarrow> bool" where
  "MoonEpCombineV2ShapeValid bs h topK nvS \<longleftrightarrow>
     0 < bs \<and> 0 < h \<and> 0 < topK \<and> topK \<le> 32 \<and> 0 < nvS \<and> bs \<le> nvS div topK \<and> nvS \<le> INT32_MAX"

definition MoonEpCombineV2ReduceInputStrideElements :: "nat \<Rightarrow> nat" where
  "MoonEpCombineV2ReduceInputStrideElements tileElements =
     (let bytes = u32 (tileElements * 2) in
      u32 (sub32 (u32 (bytes + kMoonEpCombineV2MteBlockBytes)) 1 div kMoonEpCombineV2MteBlockBytes *
           kMoonEpCombineV2MteBlockBytes) div 2)"

definition MoonEpCombineV2DestinationValid :: "int \<Rightarrow> nat \<Rightarrow> nat \<Rightarrow> bool" where
  "MoonEpCombineV2DestinationValid encodedDestination slots rankSize \<longleftrightarrow>
     MoonEpCombineV2RankSizeSupported rankSize \<and> slots \<noteq> 0 \<and>
     (encodedDestination = -1 \<or>
      (0 \<le> encodedDestination \<and> nat encodedDestination < u64 (rankSize * slots)))"

definition MoonEpCombineV2CollectiveStatusGuard :: "nat \<Rightarrow> nat \<Rightarrow> nat" where
  "MoonEpCombineV2CollectiveStatusGuard magic stageId =
     (magic XOR u64 (push_bit 32 kMoonEpCombineV2CollectiveStatusMarker)) XOR stageId"

definition MoonEpCombineV2CreditGuard ::
    "nat \<Rightarrow> nat \<Rightarrow> nat \<Rightarrow> nat \<Rightarrow> nat \<Rightarrow> nat \<Rightarrow> nat" where
  "MoonEpCombineV2CreditGuard magic transitionStep sourceRank sourceCore targetRank targetCore =
     (let route = (((sourceRank OR u64 (push_bit 7 sourceCore)) OR u64 (push_bit 11 targetRank)) OR
                   u64 (push_bit 18 targetCore)) OR u64 (push_bit 22 transitionStep)
      in (magic XOR u64 (push_bit 32 kMoonEpCombineV2CreditMarker)) XOR route)"

definition MoonEpCombineV2CreditMatches ::
    "MoonEpCombineV2CreditSignal \<Rightarrow> nat \<Rightarrow> nat \<Rightarrow> nat \<Rightarrow> nat \<Rightarrow> nat \<Rightarrow> nat \<Rightarrow> bool" where
  "MoonEpCombineV2CreditMatches signal magic transitionStep sourceRank sourceCore targetRank targetCore \<longleftrightarrow>
     MoonEpCombineV2MagicValid magic \<and>
     0 < transitionStep \<and> transitionStep < kMoonEpCombineV2StepCount \<and>
     sourceRank < kMoonEpCombineV2RankCount \<and> sourceCore < kMoonEpCombineV2CoreCount \<and>
     targetRank < kMoonEpCombineV2RankCount \<and> targetCore < kMoonEpCombineV2CoreCount \<and>
     cs_magic signal = magic \<and> cs_marker signal = kMoonEpCombineV2CreditMarker \<and>
     cs_transitionStep signal = transitionStep \<and>
     cs_sourceRank signal = sourceRank \<and> cs_sourceCore signal = sourceCore \<and>
     cs_targetRank signal = targetRank \<and> cs_targetCore signal = targetCore \<and>
     cs_guard signal = MoonEpCombineV2CreditGuard magic transitionStep sourceRank sourceCore
                         targetRank targetCore"

definition MoonEpCombineV2CollectiveStatusIndex :: "nat \<Rightarrow> nat \<Rightarrow> nat" where
  "MoonEpCombineV2CollectiveStatusIndex epoch stageId =
     u64 (u64 (epoch * kMoonEpCombineV2CollectiveStatusSlotCount) +
          stageId mod kMoonEpCombineV2CollectiveStatusSlotCount)"

definition MoonEpCombineV2Token :: "nat \<Rightarrow> nat \<Rightarrow> nat" where
  "MoonEpCombineV2Token magic step = u64 (push_bit 3 magic) OR step"

definition MoonEpCombineV2TokenMatches :: "nat \<Rightarrow> nat \<Rightarrow> nat \<Rightarrow> nat \<Rightarrow> bool" where
  "MoonEpCombineV2TokenMatches token magic step rankSize \<longleftrightarrow>
     MoonEpCombineV2MagicValid magic \<and> MoonEpCombineV2StepValid step rankSize \<and>
     token = MoonEpCombineV2Token magic step"

definition MoonEpCombineV2DoneIndex :: "nat \<Rightarrow> nat \<Rightarrow> nat \<Rightarrow> nat" where
  "MoonEpCombineV2DoneIndex epoch sourceRank lane =
     u64 (u64 (u64 (u64 (epoch * kMoonEpCombineV2RankCount) + sourceRank) *
               kMoonEpCombineV2LaneCount) + lane)"

definition MoonEpCombineV2CreditSignalIndex :: "nat \<Rightarrow> nat \<Rightarrow> nat \<Rightarrow> nat" where
  "MoonEpCombineV2CreditSignalIndex epoch transitionStep targetCore =
     (if kMoonEpCombineV2EpochCount \<le> epoch \<or> transitionStep = 0 \<or>
         kMoonEpCombineV2CreditTransitionCount < transitionStep \<or>
         kMoonEpCombineV2CoreCount \<le> targetCore
      then UINT64_MAX
      else u64 (u64 (sub64 (u64 (u64 (epoch * kMoonEpCombineV2CreditTransitionCount) + transitionStep)) 1 *
                     kMoonEpCombineV2CoreCount) + targetCore))"

definition MoonEpCombineV2CreditReceiveOffset :: "nat \<Rightarrow> nat \<Rightarrow> nat \<Rightarrow> nat" where
  "MoonEpCombineV2CreditReceiveOffset epoch transitionStep targetCore =
     (let index = MoonEpCombineV2CreditSignalIndex epoch transitionStep targetCore in
      if index = UINT64_MAX then UINT64_MAX
      else u64 (COMBINE_CREDIT_IPC_BASE + u64 (index * COMBINE_CREDIT_IPC_SIGNAL_BYTES)))"

definition MoonEpCombineV2FailureIndex :: "nat \<Rightarrow> nat \<Rightarrow> nat" where
  "MoonEpCombineV2FailureIndex epoch core = u64 (u64 (epoch * kMoonEpCombineV2CoreCount) + core)"

section \<open>Tokens\<close>

lemma Token_eq:
  assumes "MoonEpCombineV2MagicValid magic" "step < 8"
  shows "MoonEpCombineV2Token magic step = step + magic * 8"
proof -
  have m: "magic \<le> 2305843009213693951"
    using assms(1) by (simp add: MoonEpCombineV2MagicValid_def kMoonEpCombineV2MaxMagic_def
        UINT64_MAX_def drop_bit_eq_div)
  then have "u64 (push_bit 3 magic) = push_bit 3 magic"
    by (intro u64_id) (simp add: push_bit_eq_mult)
  then show ?thesis using or_push_bit_add [of step 3 magic] assms(2)
    by (simp add: MoonEpCombineV2Token_def or.commute)
qed

lemma StepValid_less_8: "MoonEpCombineV2StepValid step R \<Longrightarrow> step < 8"
  by (auto simp: MoonEpCombineV2StepValid_def MoonEpCombineV2StepCount_def
      MoonEpCombineV2RankSizeSupported_def split: if_splits)

text \<open>
  C22: A completion token is accepted by a waiter exactly when it carries the waiter's own magic
  and step: no token of another launch or of another step of any rank size can be mistaken for
  it, and the shifted magic never loses bits.
\<close>

theorem combine_token_unambiguous:
  assumes "MoonEpCombineV2MagicValid magic" "MoonEpCombineV2StepValid step R"
    and "MoonEpCombineV2MagicValid magic'" "MoonEpCombineV2StepValid step' R'"
  shows "MoonEpCombineV2TokenMatches (MoonEpCombineV2Token magic step) magic' step' R' =
    (magic = magic' \<and> step = step')"
  using assms StepValid_less_8 [OF assms(2)] StepValid_less_8 [OF assms(4)]
    field_inj [of step 8 step' magic magic']
  by (auto simp: MoonEpCombineV2TokenMatches_def Token_eq)

theorem combine_token_unambiguous_witness:
  "\<not> MoonEpCombineV2TokenMatches (MoonEpCombineV2Token 7 3) 7 2 64"
  using combine_token_unambiguous [of 7 3 64 7 2 64]
  by (simp add: MoonEpCombineV2MagicValid_def kMoonEpCombineV2MaxMagic_def UINT64_MAX_def
      drop_bit_eq_div MoonEpCombineV2StepValid_def MoonEpCombineV2RankSizeSupported_def
      MoonEpCombineV2StepCount_def)

section \<open>Credit guards\<close>

definition credit_route :: "nat \<Rightarrow> nat \<Rightarrow> nat \<Rightarrow> nat \<Rightarrow> nat \<Rightarrow> nat" where
  "credit_route transitionStep sourceRank sourceCore targetRank targetCore =
     sourceRank + (sourceCore + (targetRank + (targetCore + transitionStep * 16) * 128) * 16) * 128"

lemma CreditGuard_eq:
  assumes "transitionStep < 8" "sourceRank < 128" "sourceCore < 16" "targetRank < 128" "targetCore < 16"
  shows "MoonEpCombineV2CreditGuard magic transitionStep sourceRank sourceCore targetRank targetCore =
    (magic XOR u64 (push_bit 32 kMoonEpCombineV2CreditMarker)) XOR
      credit_route transitionStep sourceRank sourceCore targetRank targetCore"
proof -
  have w: "u64 (push_bit 7 sourceCore) = push_bit 7 sourceCore"
    "u64 (push_bit 11 targetRank) = push_bit 11 targetRank"
    "u64 (push_bit 18 targetCore) = push_bit 18 targetCore"
    "u64 (push_bit 22 transitionStep) = push_bit 22 transitionStep"
    using assms by (simp_all add: wrap_simps push_bit_eq_mult)
  have "sourceRank OR push_bit 7 sourceCore = sourceRank + sourceCore * 2 ^ 7"
    using assms by (intro or_push_bit_add) simp
  moreover have "(sourceRank + sourceCore * 2 ^ 7) OR push_bit 11 targetRank =
      sourceRank + sourceCore * 2 ^ 7 + targetRank * 2 ^ 11"
    using assms by (intro or_push_bit_add) simp
  moreover have "(sourceRank + sourceCore * 2 ^ 7 + targetRank * 2 ^ 11) OR push_bit 18 targetCore =
      sourceRank + sourceCore * 2 ^ 7 + targetRank * 2 ^ 11 + targetCore * 2 ^ 18"
    using assms by (intro or_push_bit_add) simp
  moreover have "(sourceRank + sourceCore * 2 ^ 7 + targetRank * 2 ^ 11 + targetCore * 2 ^ 18) OR
      push_bit 22 transitionStep =
      sourceRank + sourceCore * 2 ^ 7 + targetRank * 2 ^ 11 + targetCore * 2 ^ 18 + transitionStep * 2 ^ 22"
    using assms by (intro or_push_bit_add) simp
  moreover have "sourceRank + sourceCore * 2 ^ 7 + targetRank * 2 ^ 11 + targetCore * 2 ^ 18 +
      transitionStep * 2 ^ 22 = credit_route transitionStep sourceRank sourceCore targetRank targetCore"
    by (simp add: credit_route_def)
  ultimately show ?thesis by (simp only: MoonEpCombineV2CreditGuard_def Let_def w)
qed

lemma credit_route_inj:
  assumes "sr < 128" "sc < 16" "tr < 128" "tc < 16" "sr' < 128" "sc' < 16" "tr' < 128" "tc' < 16"
  shows "(credit_route t sr sc tr tc = credit_route t' sr' sc' tr' tc') =
    (t = t' \<and> sr = sr' \<and> sc = sc' \<and> tr = tr' \<and> tc = tc')"
  by (simp only: credit_route_def field_inj [OF assms(1,5)] field_inj [OF assms(2,6)]
      field_inj [OF assms(3,7)] field_inj [OF assms(4,8)]) blast

text \<open>
  C23: The guard word of a credit signal identifies the whole route: two credits of the same launch
  have the same guard only if they agree in transition step, source rank and core, target rank
  and core.
\<close>

theorem combine_credit_guard_injective:
  assumes "t < kMoonEpCombineV2StepCount" "sr < kMoonEpCombineV2RankCount" "sc < kMoonEpCombineV2CoreCount"
    "tr < kMoonEpCombineV2RankCount" "tc < kMoonEpCombineV2CoreCount"
    and "t' < kMoonEpCombineV2StepCount" "sr' < kMoonEpCombineV2RankCount" "sc' < kMoonEpCombineV2CoreCount"
    "tr' < kMoonEpCombineV2RankCount" "tc' < kMoonEpCombineV2CoreCount"
  shows "(MoonEpCombineV2CreditGuard magic t sr sc tr tc = MoonEpCombineV2CreditGuard magic t' sr' sc' tr' tc') =
    (t = t' \<and> sr = sr' \<and> sc = sc' \<and> tr = tr' \<and> tc = tc')"
proof -
  have "MoonEpCombineV2CreditGuard magic t sr sc tr tc =
      (magic XOR u64 (push_bit 32 kMoonEpCombineV2CreditMarker)) XOR credit_route t sr sc tr tc"
    "MoonEpCombineV2CreditGuard magic t' sr' sc' tr' tc' =
      (magic XOR u64 (push_bit 32 kMoonEpCombineV2CreditMarker)) XOR credit_route t' sr' sc' tr' tc'"
    by (rule CreditGuard_eq; use assms in simp)+
  then show ?thesis using assms by (simp only: xor_left_inj) (simp add: credit_route_inj)
qed

theorem combine_credit_guard_injective_witness:
  "MoonEpCombineV2CreditGuard 9 3 17 4 90 11 \<noteq> MoonEpCombineV2CreditGuard 9 3 90 11 17 4"
  using combine_credit_guard_injective [of 3 17 4 90 11 3 90 11 17 4 9] by simp

section \<open>Control-region indices\<close>

lemma CreditSignalIndex_eq:
  assumes "epoch < 2" "1 \<le> t" "t \<le> 7" "c < 16"
  shows "MoonEpCombineV2CreditSignalIndex epoch t c = (epoch * 7 + t - 1) * 16 + c"
proof -
  have 1: "u64 (u64 (epoch * 7) + t) = epoch * 7 + t" using assms by (simp add: wrap_simps)
  have 2: "sub64 (epoch * 7 + t) 1 = epoch * 7 + t - 1" using assms by (intro sub64_id) simp_all
  have 3: "u64 (u64 ((epoch * 7 + t - 1) * 16) + c) = (epoch * 7 + t - 1) * 16 + c"
    using assms by (simp add: wrap_simps)
  have 0: "2 \<le> epoch \<or> t = 0 \<or> 7 < t \<or> 16 \<le> c \<longleftrightarrow> False" using assms by auto
  have k: "kMoonEpCombineV2CreditTransitionCount = 7" by simp
  show ?thesis
    by (simp only: MoonEpCombineV2CreditSignalIndex_def kMoonEpCombineV2EpochCount_def k
        kMoonEpCombineV2CoreCount_def 0 if_False 1 2 3)
qed

text \<open>
  C24: The credit slots of the two epochs, of the seven transitions and of the sixteen target cores
  are pairwise disjoint cache lines inside the combine part of the credit IPC window.
\<close>

theorem combine_credit_offset_layout:
  assumes "epoch < kMoonEpCombineV2EpochCount" "1 \<le> t" "t \<le> kMoonEpCombineV2CreditTransitionCount"
    "c < kMoonEpCombineV2CoreCount"
    and "epoch' < kMoonEpCombineV2EpochCount" "1 \<le> t'" "t' \<le> kMoonEpCombineV2CreditTransitionCount"
    "c' < kMoonEpCombineV2CoreCount"
  defines "a \<equiv> MoonEpCombineV2CreditReceiveOffset epoch t c"
    and "a' \<equiv> MoonEpCombineV2CreditReceiveOffset epoch' t' c'"
  shows "COMBINE_CREDIT_IPC_BASE \<le> a \<and> a + COMBINE_CREDIT_IPC_SIGNAL_BYTES \<le> CREDIT_IPC_BYTES \<and>
    COMBINE_CREDIT_IPC_SIGNAL_BYTES dvd a \<and>
    ((epoch, t, c) = (epoch', t', c') \<or> a + COMBINE_CREDIT_IPC_SIGNAL_BYTES \<le> a' \<or>
     a' + COMBINE_CREDIT_IPC_SIGNAL_BYTES \<le> a)"
proof -
  have eq: "MoonEpCombineV2CreditReceiveOffset e s k = 131072 + ((e * 7 + s - 1) * 16 + k) * 64"
    and lt: "(e * 7 + s - 1) * 16 + k < 224"
    if "e < 2" "1 \<le> s" "s \<le> 7" "k < 16" for e s k
  proof -
    have "(e * 7 + s - 1) * 16 + k < 14 * 16" using that by (intro coord_bound) simp_all
    then show lt: "(e * 7 + s - 1) * 16 + k < 224" by simp
    have i: "MoonEpCombineV2CreditSignalIndex e s k = (e * 7 + s - 1) * 16 + k"
      using that by (rule CreditSignalIndex_eq)
    define x where "x = (e * 7 + s - 1) * 16 + k"
    have "x \<noteq> UINT64_MAX" "u64 (131072 + u64 (x * 64)) = 131072 + x * 64"
      using lt [folded x_def] by (simp_all add: UINT64_MAX_def wrap_simps)
    then show "MoonEpCombineV2CreditReceiveOffset e s k = 131072 + ((e * 7 + s - 1) * 16 + k) * 64"
      unfolding MoonEpCombineV2CreditReceiveOffset_def Let_def i x_def [symmetric] by simp
  qed
  define x where "x = (epoch * 7 + t - 1) * 16 + c"
  define x' where "x' = (epoch' * 7 + t' - 1) * 16 + c'"
  have ax: "a = 131072 + x * 64" "a' = 131072 + x' * 64" "x < 224"
    using eq [of epoch t c] eq [of epoch' t' c'] lt [of epoch t c] assms(1-8)
    by (simp_all add: a_def a'_def x_def x'_def)
  have inj: "(epoch, t, c) = (epoch', t', c')" if "x = x'"
  proof -
    have "epoch * 7 + t - 1 = epoch' * 7 + t' - 1 \<and> c = c'"
      using field_inj [of c 16 c' "epoch * 7 + t - 1" "epoch' * 7 + t' - 1"] that assms(4,8)
      by (simp add: x_def x'_def add.commute)
    moreover have "epoch * 7 + t - 1 = (t - 1) + epoch * 7" "epoch' * 7 + t' - 1 = (t' - 1) + epoch' * 7"
      using assms(2,6) by simp_all
    ultimately have "t - 1 = t' - 1 \<and> epoch = epoch' \<and> c = c'"
      using field_inj [of "t - 1" 7 "t' - 1" epoch epoch'] assms(2,3,6,7) by simp
    then show ?thesis using assms(2,6) by auto
  qed
  have "64 dvd a" unfolding ax by simp
  then show ?thesis using ax inj by (cases "x = x'"; cases "x < x'") auto
qed

theorem combine_credit_offset_layout_witness:
  "MoonEpCombineV2CreditReceiveOffset 0 7 15 + 64 \<le> MoonEpCombineV2CreditReceiveOffset 1 1 0 \<or>
   MoonEpCombineV2CreditReceiveOffset 1 1 0 + 64 \<le> MoonEpCombineV2CreditReceiveOffset 0 7 15"
  using combine_credit_offset_layout [of 0 7 15 1 1 0] by simp

end
