(* ===== verification/WqeRing.thy ===== *)
theory WqeRing
  imports TX_Prelude
begin

unbundle bit_operations_syntax

text \<open>
  Two contracts that the Combine V2 and the Dispatch queue code share, as locales: the tail of a
  send queue after a completion entry (\<open>sq_ring\<close>), and the split of a sequence of rows over two
  queue pairs with every fourth position on the second (\<open>qp_split\<close>).
\<close>

section \<open>The tail of a send queue\<close>

text \<open>
  \<open>completed\<close> takes the 32-bit tail, the number of outstanding entries, the ring index of a
  completion and the ring size, and gives the new tail.
\<close>

definition sq_advance :: "nat \<Rightarrow> nat \<Rightarrow> nat \<Rightarrow> nat" where
  "sq_advance sqTail idx n = ((idx mod n + 1) mod n + n - sqTail mod n) mod n"

lemma sq_advance_entry:
  assumes "0 < k" "k < n" "idx mod n = (t + k - 1) mod n"
  shows "sq_advance t idx n = k"
proof -
  have n: "0 < n" using assms by simp
  have "(idx mod n + 1) mod n = ((t + k - 1) mod n + 1) mod n" by (simp only: assms(3))
  also have "\<dots> = (t + k - 1 + 1) mod n" by (rule mod_add_left_eq)
  also have "t + k - 1 + 1 = t + k" using assms(1) by simp
  also have "(t + k) mod n = (t mod n + k) mod n" by (rule mod_add_left_eq [symmetric])
  finally have e: "(idx mod n + 1) mod n = (t mod n + k) mod n" .
  have "t mod n < n" using n by simp
  then show ?thesis unfolding sq_advance_def e using assms(2) by (rule ring_sub_add)
qed

text \<open>The advance as the C++ code computes it, with its unsigned wraps.\<close>

lemma sq_advance_code:
  assumes "0 < n" "n \<le> 2147483648"
  shows "sub32 (u32 (u32 (idx mod n + 1) mod n + n)) (t mod n) mod n = sq_advance t idx n"
proof -
  have b: "idx mod n < n" "(idx mod n + 1) mod n < n" "t mod n < n" using assms(1) by simp_all
  have "u32 (idx mod n + 1) = idx mod n + 1" using b assms(2) by (intro u32_id) linarith
  moreover have "u32 ((idx mod n + 1) mod n + n) = (idx mod n + 1) mod n + n"
    using b assms(2) by (intro u32_id) linarith
  moreover have "sub32 ((idx mod n + 1) mod n + n) (t mod n) = (idx mod n + 1) mod n + n - t mod n"
    using b assms(2) by (intro sub32_id) linarith+
  ultimately show ?thesis by (simp only: sq_advance_def)
qed

locale sq_ring =
  fixes completed :: "nat \<Rightarrow> nat \<Rightarrow> nat \<Rightarrow> nat \<Rightarrow> nat option"
  assumes completed_eq: "n \<le> 2147483648 \<Longrightarrow> completed t out idx n =
    (if n = 0 \<or> out = 0 \<or> n \<le> out then None
     else if sq_advance t idx n = 0 \<or> out < sq_advance t idx n then None
     else Some (u32 (t + sq_advance t idx n)))"
begin

text \<open>The completion of the \<open>k\<close>-th outstanding entry moves the tail by exactly \<open>k\<close>, also across
  the end of the ring and across the wrap of the 32-bit tail.\<close>

lemma completed_of_entry:
  assumes "n \<le> 2147483648" "n dvd 4294967296" "0 < k" "k \<le> out" "out < n"
    and "idx mod n = u32 (t + k - 1) mod n"
  shows "completed t out idx n = Some (u32 (t + k))"
proof -
  have "u32 (t + k - 1) mod n = (t + k - 1) mod n"
    using assms(2) by (simp add: u32_def mod_mod_cancel)
  then have "sq_advance t idx n = k" using assms by (intro sq_advance_entry) auto
  then show ?thesis using assms by (auto simp: completed_eq)
qed

text \<open>Whatever a completion entry holds, an accepted tail stays within the submitted entries.\<close>

lemma completed_bound:
  assumes "n \<le> 2147483648" "completed t out idx n = Some t'"
  obtains k where "0 < k" "k \<le> out" "t' = u32 (t + k)"
  using assms by (auto simp: completed_eq split: if_splits)

lemma completed_progress:
  assumes "n \<le> 2147483648" "t < 4294967296" "out < 4294967296"
    and "completed t out idx n = Some t'"
  shows "sub32 (u32 (t + out)) t' < out"
proof -
  from assms(1,4) obtain k where k: "0 < k" "k \<le> out" "t' = u32 (t + k)" by (rule completed_bound)
  have "sub32 (u32 (t + out)) (u32 (t + k)) = out - k"
    using sub32_diff [of "out - k" "t + k"] k assms(3) by simp
  then show ?thesis using k by simp
qed

end

section \<open>Two queue pairs, every fourth row on the second\<close>

definition first_qp1 :: "nat \<Rightarrow> nat" where
  "first_qp1 phase = 3 - phase mod 4"

lemma and_3_eq_mod: "(x::nat) AND 3 = x mod 4"
  using take_bit_eq_mask [of 2 x, symmetric] by (simp add: mask_eq_exp_minus_1 take_bit_eq_mod)

lemma first_qp1_code: "sub32 3 (phase AND 3) AND 3 = first_qp1 phase"
proof -
  have "phase mod 4 \<le> 3" using mod_less_divisor [of 4 phase] by linarith
  then have "sub32 3 (phase mod 4) = 3 - phase mod 4" by (intro sub32_id) simp_all
  then show ?thesis by (simp add: and_3_eq_mod first_qp1_def)
qed

definition qp1_count :: "nat \<Rightarrow> nat \<Rightarrow> nat" where
  "qp1_count n phase = (if n \<le> first_qp1 phase then 0 else 1 + (n - 1 - first_qp1 phase) div 4)"

definition qp0_index :: "nat \<Rightarrow> nat \<Rightarrow> nat" where
  "qp0_index j phase = (let f = first_qp1 phase in
     if j < f then j else f + 1 + (j - f) div 3 * 4 + (j - f) mod 3)"

lemma first_qp1_le: "first_qp1 phase \<le> 3"
  by (simp add: first_qp1_def)

lemma qp1_position: "((phase + i) mod 4 = 3) = (i mod 4 = first_qp1 phase)"
proof -
  have "phase mod 4 < 4" "i mod 4 < 4" by simp_all
  then show ?thesis unfolding first_qp1_def mod_add_eq [of phase 4 i, symmetric]
    by (elim less_4_cases [THEN disjE] disjE; simp only:) simp_all
qed

lemma qp1_count_iff: "(j < qp1_count n phase) = (first_qp1 phase + 4 * j < n)"
  unfolding qp1_count_def by auto

lemma qp1_count_le: "qp1_count n phase \<le> n"
proof -
  have "(n - 1 - first_qp1 phase) div 4 \<le> n - 1 - first_qp1 phase" by simp
  then show ?thesis unfolding qp1_count_def by auto
qed

lemma qp0_split:
  assumes "first_qp1 phase \<le> j"
  obtains q r where "r < 3" "j = first_qp1 phase + 3 * q + r"
    "qp0_index j phase = first_qp1 phase + 1 + 4 * q + r"
proof (rule that [of "(j - first_qp1 phase) mod 3" "(j - first_qp1 phase) div 3"])
  have "3 * ((j - first_qp1 phase) div 3) + (j - first_qp1 phase) mod 3 = j - first_qp1 phase"
    by (rule mult_div_mod_eq)
  then show "j = first_qp1 phase + 3 * ((j - first_qp1 phase) div 3) + (j - first_qp1 phase) mod 3"
    using assms by linarith
  show "qp0_index j phase = first_qp1 phase + 1 + 4 * ((j - first_qp1 phase) div 3) + (j - first_qp1 phase) mod 3"
    using assms by (simp add: qp0_index_def Let_def)
qed simp

lemma qp0_rows: "r < 3 \<Longrightarrow> R < 4 \<Longrightarrow> (4 * q + r < 4 * Q + R) = (3 * q + r < 3 * Q + R)"
  for q r Q R :: nat
  by (cases q Q rule: linorder_cases) auto

lemma qp1_row: "f \<le> 3 \<Longrightarrow> r < 4 \<Longrightarrow> ((f + 1 + 4 * q + r) mod 4 = f) = (r = 3)"
  for f r q :: nat
proof -
  assume "f \<le> 3" "r < 4"
  then have "f < 4" "r < 4" by simp_all
  then have "((f + 1 + r) mod 4 = f) = (r = 3)"
    by (elim less_4_cases [THEN disjE] disjE; simp only:) simp_all
  moreover have "f + 1 + 4 * q + r = (f + 1 + r) + q * 4" by simp
  ultimately show ?thesis by (simp only: mod_mult_self1)
qed

lemma qp0_index_iff: "(qp0_index j phase < n) = (j < n - qp1_count n phase)"
proof (cases "first_qp1 phase \<le> j")
  case True
  then obtain q r where j: "r < 3" "j = first_qp1 phase + 3 * q + r"
    "qp0_index j phase = first_qp1 phase + 1 + 4 * q + r" by (rule qp0_split)
  show ?thesis
  proof (cases "n \<le> first_qp1 phase")
    case True
    then show ?thesis using j by (simp add: qp1_count_def)
  next
    case False
    define Q R where "Q = (n - 1 - first_qp1 phase) div 4" and "R = (n - 1 - first_qp1 phase) mod 4"
    have "R < 4" by (simp add: R_def)
    have "4 * Q + R = n - 1 - first_qp1 phase" by (simp add: Q_def R_def)
    moreover have "qp1_count n phase = 1 + Q" using False by (simp add: qp1_count_def Q_def)
    ultimately have n: "n = first_qp1 phase + 1 + (4 * Q + R)" "n - qp1_count n phase = first_qp1 phase + (3 * Q + R)"
      using False by linarith+
    show ?thesis unfolding n(2) using qp0_rows [OF j(1) \<open>R < 4\<close>, of q Q] j(2,3) n(1) by linarith
  qed
next
  case False
  then have "qp0_index j phase = j" by (simp add: qp0_index_def Let_def)
  moreover have "j < n \<Longrightarrow> j < n - qp1_count n phase"
  proof (cases "n \<le> first_qp1 phase")
    case f: False
    define Q R where "Q = (n - 1 - first_qp1 phase) div 4" and "R = (n - 1 - first_qp1 phase) mod 4"
    have "4 * Q + R = n - 1 - first_qp1 phase" by (simp add: Q_def R_def)
    moreover have "qp1_count n phase = 1 + Q" using f by (simp add: qp1_count_def Q_def)
    ultimately show "j < n \<Longrightarrow> j < n - qp1_count n phase" using False f by linarith
  qed (simp add: qp1_count_def)
  ultimately show ?thesis by auto
qed

lemma qp0_index_bij:
  "bij_betw (\<lambda>j. qp0_index j phase) {..<n - qp1_count n phase} {i. i < n \<and> i mod 4 \<noteq> first_qp1 phase}"
proof (rule bij_betw_byWitness [where f' = "\<lambda>i. i - qp1_count i phase"])
  have g: "qp0_index j phase - qp1_count (qp0_index j phase) phase = j \<and>
      qp0_index j phase mod 4 \<noteq> first_qp1 phase" for j
  proof (cases "first_qp1 phase \<le> j")
    case True
    then obtain q r where j: "r < 3" "j = first_qp1 phase + 3 * q + r"
      "qp0_index j phase = first_qp1 phase + 1 + 4 * q + r" by (rule qp0_split)
    have "qp1_count (qp0_index j phase) phase = 1 + q" using j by (simp add: qp1_count_def)
    moreover have "(first_qp1 phase + 1 + 4 * q + r) mod 4 \<noteq> first_qp1 phase"
      using qp1_row [OF first_qp1_le, of r phase q] j(1) by simp
    ultimately show ?thesis using j by simp
  next
    case False
    then show ?thesis using first_qp1_le [of phase] by (simp add: qp0_index_def Let_def qp1_count_def)
  qed
  have h: "qp0_index (i - qp1_count i phase) phase = i" if "i mod 4 \<noteq> first_qp1 phase" for i
  proof (cases "i \<le> first_qp1 phase")
    case True
    moreover have "first_qp1 phase mod 4 = first_qp1 phase" using first_qp1_le [of phase] by simp
    ultimately have "i < first_qp1 phase" using that by (metis le_neq_implies_less)
    then show ?thesis by (simp add: qp1_count_def qp0_index_def Let_def)
  next
    case False
    define Q R where "Q = (i - 1 - first_qp1 phase) div 4" and "R = (i - 1 - first_qp1 phase) mod 4"
    have i: "i = first_qp1 phase + 1 + 4 * Q + R" "R < 4"
      using False mult_div_mod_eq [of 4 "i - 1 - first_qp1 phase"] by (simp_all add: Q_def R_def)
    have "R \<noteq> 3" using qp1_row [OF first_qp1_le i(2), of phase Q] that i(1) by simp
    moreover have "qp1_count i phase = 1 + Q" using False by (simp add: qp1_count_def Q_def)
    then have "i - qp1_count i phase = first_qp1 phase + (3 * Q + R)" using i(1) by linarith
    ultimately show ?thesis using i by (simp add: qp0_index_def Let_def)
  qed
  show "\<forall>j\<in>{..<n - qp1_count n phase}. qp0_index j phase - qp1_count (qp0_index j phase) phase = j"
    using g by blast
  show "\<forall>i\<in>{i. i < n \<and> i mod 4 \<noteq> first_qp1 phase}. qp0_index (i - qp1_count i phase) phase = i"
    using h by blast
  show "(\<lambda>j. qp0_index j phase) ` {..<n - qp1_count n phase} \<subseteq> {i. i < n \<and> i mod 4 \<noteq> first_qp1 phase}"
  proof clarify
    fix j assume "j < n - qp1_count n phase"
    then show "qp0_index j phase < n \<and> qp0_index j phase mod 4 \<noteq> first_qp1 phase"
      using g [of j] qp0_index_iff [of j phase n] by blast
  qed
  show "(\<lambda>i. i - qp1_count i phase) ` {i. i < n \<and> i mod 4 \<noteq> first_qp1 phase} \<subseteq> {..<n - qp1_count n phase}"
  proof clarify
    fix i assume "i < n" "i mod 4 \<noteq> first_qp1 phase"
    then show "i - qp1_count i phase < n - qp1_count n phase"
      using h [of i] qp0_index_iff [of "i - qp1_count i phase" phase n] by simp
  qed
qed

text \<open>The counts and positions as the C++ code computes them.\<close>

lemma qp1_count_code:
  assumes "n < 4294967296"
  shows "(if n \<le> first_qp1 phase then 0 else u32 (1 + sub32 (sub32 n 1) (first_qp1 phase) div 4)) =
    qp1_count n phase"
proof (cases "n \<le> first_qp1 phase")
  case False
  have "sub32 (sub32 n 1) (first_qp1 phase) = n - 1 - first_qp1 phase"
    using False assms by (simp add: wrap_simps)
  moreover have "(n - 1 - first_qp1 phase) div 4 \<le> n - 1" by (meson diff_le_self div_le_dividend le_trans)
  ultimately show ?thesis using False assms by (simp add: qp1_count_def wrap_simps)
qed (simp add: qp1_count_def)

lemma qp0_index_code:
  assumes "qp0_index j phase < 4294967296" "\<not> j < first_qp1 phase"
  shows "u32 (u32 (u32 (first_qp1 phase + 1) + u32 (sub32 j (first_qp1 phase) div 3 * 4)) +
    sub32 j (first_qp1 phase) mod 3) = qp0_index j phase"
proof -
  have e: "qp0_index j phase = first_qp1 phase + 1 + (j - first_qp1 phase) div 3 * 4 + (j - first_qp1 phase) mod 3"
    using assms(2) by (simp add: qp0_index_def Let_def)
  have "sub32 j (first_qp1 phase) = j - first_qp1 phase"
  proof (rule sub32_id)
    obtain q r where "r < 3" "j = first_qp1 phase + 3 * q + r"
      "qp0_index j phase = first_qp1 phase + 1 + 4 * q + r" using assms(2) by (metis not_less qp0_split)
    then show "j < 4294967296" using assms(1) by simp
  qed (use assms(2) in simp)
  then show ?thesis using assms(1) e first_qp1_le [of phase] by (simp add: wrap_simps)
qed

text \<open>
  The contract of a split: \<open>rows n phase qp\<close> rows of a batch of \<open>n\<close> go to the queue pair \<open>qp\<close>, and
  \<open>selected j phase qp\<close> is the batch position of its \<open>j\<close>-th row.
\<close>

locale qp_split =
  fixes rows :: "nat \<Rightarrow> nat \<Rightarrow> nat \<Rightarrow> nat"
    and selected :: "nat \<Rightarrow> nat \<Rightarrow> nat \<Rightarrow> nat"
  assumes rows_0: "n < 4294967296 \<Longrightarrow> rows n phase 0 = n - qp1_count n phase"
    and rows_1: "n < 4294967296 \<Longrightarrow> rows n phase 1 = qp1_count n phase"
    and selected_0: "qp0_index j phase < 4294967296 \<Longrightarrow> selected j phase 0 = qp0_index j phase"
    and selected_1: "first_qp1 phase + 4 * j < 4294967296 \<Longrightarrow> selected j phase 1 = first_qp1 phase + 4 * j"
begin

lemma rows_sum: "n < 4294967296 \<Longrightarrow> rows n phase 0 + rows n phase 1 = n"
  using qp1_count_le [of n phase] by (simp add: rows_0 rows_1 [unfolded One_nat_def])

lemma split_bij:
  assumes "n < 4294967296" "qp < 2"
  shows "bij_betw (\<lambda>j. selected j phase qp) {..<rows n phase qp}
    {i. i < n \<and> ((phase + i) mod 4 = 3) = (qp = 1)}"
proof (cases "qp = 0")
  case True
  have "selected j phase 0 = qp0_index j phase" if "j \<in> {..<n - qp1_count n phase}" for j
    using that qp0_index_iff [of j phase n] assms(1) by (intro selected_0) simp
  then show ?thesis using qp0_index_bij [of phase n] bij_betw_cong [of "{..<n - qp1_count n phase}"
        "\<lambda>j. selected j phase 0" "\<lambda>j. qp0_index j phase"]
    by (simp add: True rows_0 [OF assms(1)] qp1_position)
next
  case False
  then have qp: "qp = 1" using assms(2) by simp
  have s: "selected j phase 1 = first_qp1 phase + 4 * j" if "j < qp1_count n phase" for j
    using that assms(1) by (intro selected_1) (simp add: qp1_count_iff)
  have "bij_betw (\<lambda>j. first_qp1 phase + 4 * j) {..<qp1_count n phase} {i. i < n \<and> i mod 4 = first_qp1 phase}"
  proof (rule bij_betw_byWitness [where f' = "\<lambda>i. i div 4"])
    have i: "first_qp1 phase + 4 * (i div 4) = i" if "i mod 4 = first_qp1 phase" for i
      using that mult_div_mod_eq [of 4 i] by linarith
    show "\<forall>i\<in>{i. i < n \<and> i mod 4 = first_qp1 phase}. first_qp1 phase + 4 * (i div 4) = i" using i by blast
    show "(\<lambda>i. i div 4) ` {i. i < n \<and> i mod 4 = first_qp1 phase} \<subseteq> {..<qp1_count n phase}"
      by clarify (simp only: lessThan_iff qp1_count_iff i)
  qed (use first_qp1_le [of phase] in \<open>auto simp: qp1_count_iff\<close>)
  then show ?thesis using s bij_betw_cong [of "{..<qp1_count n phase}"
        "\<lambda>j. selected j phase 1" "\<lambda>j. first_qp1 phase + 4 * j"]
    by (simp add: qp rows_1 [OF assms(1), unfolded One_nat_def] qp1_position)
qed

end

end
