(* ===== verification/CombineWqe.thy ===== *)
theory CombineWqe
  imports CombineCredits WqeRing
begin

text \<open>
  The queue arithmetic of Combine V2, \<^verbatim>\<open>src/src/moonep/combine_v2/common/combine_v2_wqe_batch.h\<close>: batches
  that do not cross the ring end, the owner bit of a completion entry, the tail after a completion,
  the split over two queue pairs, and the tiles of the local relay.  Reference parameters of the
  C++ functions are part of the result; \<open>uint32_t\<close> and \<open>uint64_t\<close> are naturals with their wrap.
\<close>

unbundle bit_operations_syntax

section \<open>Definitions\<close>

definition kMoonEpCombineV2PayloadBatchRows :: nat where
  [simp]: "kMoonEpCombineV2PayloadBatchRows = 128"
definition kMoonEpCombineV2WqeBatchCapacity :: nat where
  [simp]: "kMoonEpCombineV2WqeBatchCapacity = kMoonEpCombineV2PayloadBatchRows"
definition kMoonEpCombineV2QpSplitPeriod :: nat where [simp]: "kMoonEpCombineV2QpSplitPeriod = 4"
definition kMoonEpCombineV2SelfRelayHalfBytes :: nat where
  [simp]: "kMoonEpCombineV2SelfRelayHalfBytes = 64 * 1024"
definition kMoonEpCombineV2SelfMaxBatchRows :: nat where [simp]: "kMoonEpCombineV2SelfMaxBatchRows = 8"
definition kMoonEpCombineV2SelfUbAlignment :: nat where [simp]: "kMoonEpCombineV2SelfUbAlignment = 32"

definition MoonEpCombineV2SelfAlignedRowBytes :: "nat \<Rightarrow> nat" where
  "MoonEpCombineV2SelfAlignedRowBytes rowBytes =
     (if rowBytes = 0 \<or> UINT64_MAX - (kMoonEpCombineV2SelfUbAlignment - 1) < rowBytes then 0
      else u64 (sub64 (u64 (rowBytes + kMoonEpCombineV2SelfUbAlignment)) 1 div
                kMoonEpCombineV2SelfUbAlignment * kMoonEpCombineV2SelfUbAlignment))"

definition MoonEpCombineV2SelfRowsPerBatch :: "nat \<Rightarrow> nat" where
  "MoonEpCombineV2SelfRowsPerBatch rowBytes =
     (let alignedRowBytes = MoonEpCombineV2SelfAlignedRowBytes rowBytes in
      if alignedRowBytes = 0 \<or> kMoonEpCombineV2SelfRelayHalfBytes < alignedRowBytes then 0
      else let rows = u32 (kMoonEpCombineV2SelfRelayHalfBytes div alignedRowBytes) in
           if rows < kMoonEpCombineV2SelfMaxBatchRows then rows else kMoonEpCombineV2SelfMaxBatchRows)"

definition MoonEpCombineV2SelfTileCount :: "nat \<Rightarrow> nat" where
  "MoonEpCombineV2SelfTileCount rowBytes =
     (if rowBytes = 0 then 0
      else u64 (rowBytes div kMoonEpCombineV2SelfRelayHalfBytes +
                (if rowBytes mod kMoonEpCombineV2SelfRelayHalfBytes = 0 then 0 else 1)))"

definition MoonEpCombineV2SelfTileBytes :: "nat \<Rightarrow> nat \<Rightarrow> nat" where
  "MoonEpCombineV2SelfTileBytes rowBytes tileIndex =
     (if MoonEpCombineV2SelfTileCount rowBytes \<le> tileIndex then 0
      else let tileOffset = u64 (tileIndex * kMoonEpCombineV2SelfRelayHalfBytes);
               remaining = sub64 rowBytes tileOffset
           in u32 (if remaining < kMoonEpCombineV2SelfRelayHalfBytes then remaining
                   else kMoonEpCombineV2SelfRelayHalfBytes))"

datatype MoonEpCombineV2SingleCqeResult =
    MOONEP_COMBINE_V2_SINGLE_CQE_NO_COMPLETION
  | MOONEP_COMBINE_V2_SINGLE_CQE_PROGRESS
  | MOONEP_COMBINE_V2_SINGLE_CQE_TARGET_REACHED
  | MOONEP_COMBINE_V2_SINGLE_CQE_ERROR
  | MOONEP_COMBINE_V2_SINGLE_CQE_INVALID_STATE

definition MoonEpCombineV2WqeBatchCount :: "nat \<Rightarrow> nat \<Rightarrow> nat \<Rightarrow> nat" where
  "MoonEpCombineV2WqeBatchCount remainingWqes sqHead sqEntryCount =
     (if remainingWqes = 0 \<or> sqEntryCount = 0 then 0
      else let ringRemaining = sub32 sqEntryCount (sqHead mod sqEntryCount);
               batchCount = (if remainingWqes < kMoonEpCombineV2WqeBatchCapacity then remainingWqes
                             else kMoonEpCombineV2WqeBatchCapacity);
               batchCount = (if ringRemaining < batchCount then ringRemaining else batchCount)
           in u32 batchCount)"

definition MoonEpCombineV2CqePollBatchCount :: "nat \<Rightarrow> nat \<Rightarrow> nat \<Rightarrow> nat" where
  "MoonEpCombineV2CqePollBatchCount cqTail cqEntryCount batchCapacity =
     (if cqEntryCount = 0 \<or> batchCapacity = 0 then 0
      else let ringRemaining = sub32 cqEntryCount (cqTail mod cqEntryCount) in
           if ringRemaining < batchCapacity then ringRemaining else batchCapacity)"

definition MoonEpCombineV2CqeOwnerReady :: "nat \<Rightarrow> nat \<Rightarrow> nat \<Rightarrow> bool" where
  "MoonEpCombineV2CqeOwnerReady cqTail cqEntryCount owner =
     (if cqEntryCount = 0 then False
      else let producerOwner = (cqTail div cqEntryCount) AND 1 in (owner AND 1) \<noteq> producerOwner)"

definition MoonEpCombineV2CompletedSqTail :: "nat \<Rightarrow> nat \<Rightarrow> nat \<Rightarrow> nat \<Rightarrow> nat option" where
  "MoonEpCombineV2CompletedSqTail sqTail outstanding cqeEntryIdx sqEntryCount =
     (if sqEntryCount = 0 \<or> outstanding = 0 \<or> sqEntryCount \<le> outstanding then None
      else let completedRingTail = u32 (cqeEntryIdx mod sqEntryCount + 1) mod sqEntryCount;
               currentRingTail = sqTail mod sqEntryCount;
               advance = sub32 (u32 (completedRingTail + sqEntryCount)) currentRingTail mod sqEntryCount
           in if advance = 0 \<or> outstanding < advance then None else Some (u32 (sqTail + advance)))"

text \<open>The result, the new tail and the detail word.\<close>

definition MoonEpCombineV2AdvanceSingleCqe ::
    "nat \<Rightarrow> nat \<Rightarrow> nat \<Rightarrow> nat \<Rightarrow> nat \<Rightarrow> nat \<Rightarrow> nat \<Rightarrow> nat \<Rightarrow> nat \<Rightarrow> MoonEpCombineV2SingleCqeResult \<times> nat \<times> nat" where
  "MoonEpCombineV2AdvanceSingleCqe cqTail cqEntryCount owner status subStatus sqTail submittedSqTail
     cqeEntryIdx sqEntryCount =
     (if cqEntryCount = 0 \<or> sqEntryCount = 0
      then (MOONEP_COMBINE_V2_SINGLE_CQE_INVALID_STATE, sqTail, 0)
      else if \<not> MoonEpCombineV2CqeOwnerReady cqTail cqEntryCount owner
      then (MOONEP_COMBINE_V2_SINGLE_CQE_NO_COMPLETION, sqTail, 0)
      else if status \<noteq> 0 \<or> subStatus \<noteq> 0
      then (MOONEP_COMBINE_V2_SINGLE_CQE_ERROR, sqTail,
            u32 (push_bit 8 (status AND 255)) OR (subStatus AND 255))
      else let outstanding = sub32 submittedSqTail sqTail in
           case MoonEpCombineV2CompletedSqTail sqTail outstanding cqeEntryIdx sqEntryCount of
             None \<Rightarrow> (MOONEP_COMBINE_V2_SINGLE_CQE_INVALID_STATE, sqTail, 0)
           | Some completedSqTail \<Rightarrow>
               (if completedSqTail = submittedSqTail then MOONEP_COMBINE_V2_SINGLE_CQE_TARGET_REACHED
                else MOONEP_COMBINE_V2_SINGLE_CQE_PROGRESS, completedSqTail, 0))"

definition MoonEpCombineV2Qp1TokenCount :: "nat \<Rightarrow> nat \<Rightarrow> nat" where
  "MoonEpCombineV2Qp1TokenCount tokenCount sequencePhase =
     (let firstQp1 = sub32 3 (sequencePhase AND 3) AND 3 in
      if tokenCount \<le> firstQp1 then 0
      else u32 (1 + sub32 (sub32 tokenCount 1) firstQp1 div kMoonEpCombineV2QpSplitPeriod))"

definition MoonEpCombineV2QpTokenCount :: "nat \<Rightarrow> nat \<Rightarrow> nat \<Rightarrow> nat" where
  "MoonEpCombineV2QpTokenCount tokenCount sequencePhase qpIdx =
     (let qp1Count = MoonEpCombineV2Qp1TokenCount tokenCount sequencePhase in
      if qpIdx = 0 then sub32 tokenCount qp1Count else if qpIdx = 1 then qp1Count else 0)"

definition MoonEpCombineV2QpSelectedIndex :: "nat \<Rightarrow> nat \<Rightarrow> nat \<Rightarrow> nat" where
  "MoonEpCombineV2QpSelectedIndex qpTokenIndex sequencePhase qpIdx =
     (let firstQp1 = sub32 3 (sequencePhase AND 3) AND 3 in
      if qpIdx = 1 then u32 (firstQp1 + u32 (qpTokenIndex * kMoonEpCombineV2QpSplitPeriod))
      else if qpIdx \<noteq> 0 then UINT32_MAX
      else if qpTokenIndex < firstQp1 then qpTokenIndex
      else let afterPrefix = sub32 qpTokenIndex firstQp1 in
           u32 (u32 (u32 (firstQp1 + 1) + u32 (afterPrefix div 3 * kMoonEpCombineV2QpSplitPeriod)) +
                afterPrefix mod 3))"

section \<open>The contracts of the shared library\<close>

lemma Qp1TokenCount_eq: "n < 4294967296 \<Longrightarrow> MoonEpCombineV2Qp1TokenCount n phase = qp1_count n phase"
  using qp1_count_code [of n phase]
  by (simp only: MoonEpCombineV2Qp1TokenCount_def first_qp1_code Let_def kMoonEpCombineV2QpSplitPeriod_def)

interpretation combine_split: qp_split MoonEpCombineV2QpTokenCount MoonEpCombineV2QpSelectedIndex
proof
  fix n phase :: nat assume n: "n < 4294967296"
  show "MoonEpCombineV2QpTokenCount n phase 0 = n - qp1_count n phase"
    "MoonEpCombineV2QpTokenCount n phase 1 = qp1_count n phase"
    using n qp1_count_le [of n phase]
    by (simp_all add: MoonEpCombineV2QpTokenCount_def Qp1TokenCount_eq sub32_id)
next
  fix j phase :: nat assume "first_qp1 phase + 4 * j < 4294967296"
  then show "MoonEpCombineV2QpSelectedIndex j phase 1 = first_qp1 phase + 4 * j"
    by (simp add: MoonEpCombineV2QpSelectedIndex_def first_qp1_code Let_def wrap_simps mult.commute)
next
  fix j phase :: nat assume "qp0_index j phase < 4294967296"
  note c = qp0_index_code [OF this]
  show "MoonEpCombineV2QpSelectedIndex j phase 0 = qp0_index j phase"
  proof (cases "j < first_qp1 phase")
    case False
    then show ?thesis using c by (simp only: MoonEpCombineV2QpSelectedIndex_def first_qp1_code Let_def
          kMoonEpCombineV2QpSplitPeriod_def zero_neq_one if_False simp_thms)
  qed (simp add: MoonEpCombineV2QpSelectedIndex_def first_qp1_code qp0_index_def Let_def)
qed

interpretation combine_sq: sq_ring MoonEpCombineV2CompletedSqTail
proof
  fix n t out idx :: nat assume n: "n \<le> 2147483648"
  show "MoonEpCombineV2CompletedSqTail t out idx n =
    (if n = 0 \<or> out = 0 \<or> n \<le> out then None
     else if sq_advance t idx n = 0 \<or> out < sq_advance t idx n then None
     else Some (u32 (t + sq_advance t idx n)))"
    using sq_advance_code [OF _ n] by (cases "n = 0") (simp_all add: MoonEpCombineV2CompletedSqTail_def Let_def)
qed

section \<open>Properties\<close>

text \<open>
  C25: The two queue pairs of a batch partition its rows: on queue pair 1 the selected index
  enumerates exactly the positions whose lane is the two-port lane, on queue pair 0 exactly the
  others, each position once, with the row counts that the batch announces.
\<close>

theorem combine_qp_split_partitions:
  assumes "n < 4294967296" "qp < 2"
  shows "bij_betw (\<lambda>j. MoonEpCombineV2QpSelectedIndex j phase qp)
    {..<MoonEpCombineV2QpTokenCount n phase qp}
    {i. i < n \<and> MoonEpCombineV2LaneForPosition (phase + i) = qp}"
proof -
  have "(MoonEpCombineV2LaneForPosition (phase + i) = qp) = (((phase + i) mod 4 = 3) = (qp = 1))" for i
    using assms(2) by (auto simp: MoonEpCombineV2LaneForPosition_def and_3_eq_mod)
  then show ?thesis using combine_split.split_bij [OF assms, of phase] by simp
qed

theorem combine_qp_split_partitions_witness:
  "bij_betw (\<lambda>j. MoonEpCombineV2QpSelectedIndex j 2 1) {..<MoonEpCombineV2QpTokenCount 10 2 1}
    {i. i < 10 \<and> MoonEpCombineV2LaneForPosition (2 + i) = 1}"
  using combine_qp_split_partitions [of 10 1 2] by simp

text \<open>
  C26: The lane counts with which a batch reserves queue entries are the numbers of rows of the
  batch on each lane plus the control entries of a final batch.
\<close>

theorem combine_batch_lane_counts:
  fixes n phase step stepCount :: nat and final :: bool
  assumes "n + 2 < 4294967296"
  defines "counts \<equiv> MoonEpCombineV2BatchLaneCounts n phase step stepCount final"
    and "control \<equiv> if final then 2 else 0"
  shows "twoPort counts = card {i. i < n \<and> MoonEpCombineV2LaneForPosition (phase + i) = MOONEP_COMBINE_V2_TWO_PORT} + control \<and>
    sixPort counts = card {i. i < n \<and> MoonEpCombineV2LaneForPosition (phase + i) = MOONEP_COMBINE_V2_SIX_PORT} + control"
proof -
  have lane: "(MoonEpCombineV2LaneForPosition (phase + i) = MOONEP_COMBINE_V2_TWO_PORT) = ((phase + i) mod 4 = 3)"
    "(MoonEpCombineV2LaneForPosition (phase + i) = MOONEP_COMBINE_V2_SIX_PORT) = ((phase + i) mod 4 \<noteq> 3)" for i
    by (auto simp: MoonEpCombineV2LaneForPosition_def and_3_eq_mod)
  have n: "n < 4294967296" using assms(1) by simp
  have c1: "card {i. i < n \<and> (phase + i) mod 4 = 3} = qp1_count n phase"
    using bij_betw_same_card [OF combine_split.split_bij [OF n, of 1 phase]]
      combine_split.rows_1 [OF n, of phase] by simp
  have c0: "card {i. i < n \<and> (phase + i) mod 4 \<noteq> 3} = n - qp1_count n phase"
    using bij_betw_same_card [OF combine_split.split_bij [OF n, of 0 phase]]
      combine_split.rows_0 [OF n, of phase] by simp
  have two: "(if n \<le> first_qp1 phase then 0 else u32 (1 + sub32 (sub32 n 1) (first_qp1 phase) div 4)) =
      qp1_count n phase"
    by (rule qp1_count_code [OF n])
  have "sub32 n (qp1_count n phase) = n - qp1_count n phase" using n qp1_count_le by (intro sub32_id)
  then show ?thesis unfolding lane c1 c0 counts_def control_def
    using assms(1) qp1_count_le [of n phase]
    unfolding MoonEpCombineV2BatchLaneCounts_def first_qp1_code Let_def two
    by (simp add: MoonEpCombineV2ControlWqesPerLane_def wrap_simps)
qed

theorem combine_batch_lane_counts_witness:
  "twoPort (MoonEpCombineV2BatchLaneCounts 6 1 0 4 True) =
    card {i. i < 6 \<and> MoonEpCombineV2LaneForPosition (1 + i) = MOONEP_COMBINE_V2_TWO_PORT} + 2"
  using combine_batch_lane_counts [of 6 1 0 4 True] by simp

text \<open>
  C20: On a ring whose size divides \<open>2 ^ 32\<close>, the completion of the \<open>k\<close>-th outstanding entry advances
  the tail by exactly \<open>k\<close>, across the end of the ring and the wrap of the 32-bit tail, and reports
  the target as reached exactly when it was the last entry submitted.
\<close>

theorem combine_advance_completes:
  assumes "0 < cqEntryCount" "MoonEpCombineV2CqeOwnerReady cqTail cqEntryCount owner"
    and "n \<le> 2147483648" "n dvd 4294967296" "0 < k" "k \<le> out" "out < n"
    and "cqeEntryIdx mod n = u32 (t + k - 1) mod n" "t < 4294967296"
  shows "MoonEpCombineV2AdvanceSingleCqe cqTail cqEntryCount owner 0 0 t (u32 (t + out)) cqeEntryIdx n =
    (if k = out then MOONEP_COMBINE_V2_SINGLE_CQE_TARGET_REACHED else MOONEP_COMBINE_V2_SINGLE_CQE_PROGRESS,
     u32 (t + k), 0)"
proof -
  have o: "out < 4294967296" using assms(3,7) by linarith
  have out: "sub32 (u32 (t + out)) t = out"
    using sub32_diff [OF o, of t] by (simp only: u32_id [OF assms(9)])
  have eq: "(u32 (t + k) = u32 (t + out)) = (k = out)"
  proof
    assume e: "u32 (t + k) = u32 (t + out)"
    have "sub32 (u32 (t + k + (out - k))) (u32 (t + k)) = out - k"
      using o by (intro sub32_diff) linarith
    moreover have "t + k + (out - k) = t + out" using assms(6) by simp
    moreover have "sub32 (u32 (t + out)) (u32 (t + out)) = 0" using sub32_diff [of 0 "t + out"] by simp
    ultimately have "out - k = 0" by (simp only: e)
    then show "k = out" using assms(6) by simp
  qed simp
  have "MoonEpCombineV2CompletedSqTail t out cqeEntryIdx n = Some (u32 (t + k))"
    using assms(3-8) by (rule combine_sq.completed_of_entry)
  moreover have "n \<noteq> 0" using assms(7) by simp
  ultimately show ?thesis using assms(1,2)
    by (simp only: MoonEpCombineV2AdvanceSingleCqe_def Let_def out) (simp add: eq)
qed

theorem combine_advance_completes_witness:
  "MoonEpCombineV2AdvanceSingleCqe 3 8 1 0 0 4294967294 1 0 8 =
    (MOONEP_COMBINE_V2_SINGLE_CQE_TARGET_REACHED, 1, 0)"
  using combine_advance_completes [of 8 3 1 8 3 3 0 4294967294]
  by (simp add: MoonEpCombineV2CqeOwnerReady_def u32_def)

lemma AdvanceSingleCqe_outcome:
  assumes "MoonEpCombineV2AdvanceSingleCqe cqTail cqEntryCount owner status subStatus t submitted idx n =
      (result, t', detail)"
  shows "(result \<noteq> MOONEP_COMBINE_V2_SINGLE_CQE_PROGRESS \<and>
      result \<noteq> MOONEP_COMBINE_V2_SINGLE_CQE_TARGET_REACHED \<and> t' = t) \<or>
    (\<exists>x. MoonEpCombineV2CompletedSqTail t (sub32 submitted t) idx n = Some x \<and> t' = x \<and>
      result = (if x = submitted then MOONEP_COMBINE_V2_SINGLE_CQE_TARGET_REACHED
                else MOONEP_COMBINE_V2_SINGLE_CQE_PROGRESS))"
  using assms unfolding MoonEpCombineV2AdvanceSingleCqe_def Let_def
  by (simp split: if_splits option.splits)

text \<open>
  C19: Whatever a completion entry contains, the tail never passes the submitted tail: an accepted
  entry strictly lowers the number of outstanding entries, every other outcome leaves the tail as
  it was, and the target is reported exactly when nothing is outstanding any more.
\<close>

theorem combine_advance_safe:
  assumes "n \<le> 2147483648" "t < 4294967296" "submitted < 4294967296"
    and "MoonEpCombineV2AdvanceSingleCqe cqTail cqEntryCount owner status subStatus t submitted idx n =
      (result, t', detail)"
  shows "if result = MOONEP_COMBINE_V2_SINGLE_CQE_PROGRESS \<or> result = MOONEP_COMBINE_V2_SINGLE_CQE_TARGET_REACHED
    then sub32 submitted t' < sub32 submitted t \<and> t' < 4294967296 \<and>
      (result = MOONEP_COMBINE_V2_SINGLE_CQE_TARGET_REACHED) = (sub32 submitted t' = 0)
    else t' = t"
proof -
  define out where "out = sub32 submitted t"
  have o: "out < 4294967296" by (simp add: out_def sub32_def)
  have s: "u32 (t + out) = submitted"
  proof (cases "t \<le> submitted")
    case True
    then have "out = submitted - t" unfolding out_def using assms(3) by (rule sub32_id)
    then show ?thesis using True assms(3) by (simp add: u32_id)
  next
    case False
    then have "out = submitted + 4294967296 - t" using assms(2,3)
      unfolding out_def sub32_def by (intro u32_id) linarith
    then have "t + out = submitted + 4294967296" using assms(2) by simp
    then show ?thesis using assms(3) by (simp add: u32_def)
  qed
  have zero: "(x = submitted) = (sub32 submitted x = 0)" if "x < 4294967296" for x
  proof (cases "x \<le> submitted")
    case True
    then show ?thesis using sub32_id [OF True assms(3)] by auto
  next
    case False
    then have "sub32 submitted x = submitted + 4294967296 - x"
      using that assms(3) unfolding sub32_def by (intro u32_id) linarith
    then show ?thesis using False that by simp
  qed
  from AdvanceSingleCqe_outcome [OF assms(4)] show ?thesis
  proof
    assume "\<exists>x. MoonEpCombineV2CompletedSqTail t (sub32 submitted t) idx n = Some x \<and> t' = x \<and>
      result = (if x = submitted then MOONEP_COMBINE_V2_SINGLE_CQE_TARGET_REACHED
                else MOONEP_COMBINE_V2_SINGLE_CQE_PROGRESS)"
    then have c: "MoonEpCombineV2CompletedSqTail t out idx n = Some t'"
      and r: "result = (if t' = submitted then MOONEP_COMBINE_V2_SINGLE_CQE_TARGET_REACHED
                else MOONEP_COMBINE_V2_SINGLE_CQE_PROGRESS)" by (auto simp: out_def)
    have "sub32 submitted t' < out" using combine_sq.completed_progress [OF assms(1,2) o c] by (simp only: s)
    moreover have b: "t' < 4294967296" using combine_sq.completed_bound [OF assms(1) c] u32_less by metis
    ultimately show ?thesis using zero [OF b] unfolding r out_def by (cases "t' = submitted") simp_all
  qed auto
qed

theorem combine_advance_safe_witness:
  "snd (MoonEpCombineV2AdvanceSingleCqe 3 8 1 5 0 7 9 0 8) = (7, 1280)"
proof -
  have "MoonEpCombineV2AdvanceSingleCqe 3 8 1 5 0 7 9 0 8 = (MOONEP_COMBINE_V2_SINGLE_CQE_ERROR, 7, 1280)"
    by (simp add: MoonEpCombineV2AdvanceSingleCqe_def MoonEpCombineV2CqeOwnerReady_def u32_def push_bit_eq_mult)
  with combine_advance_safe [OF _ _ _ this] show ?thesis by simp
qed

section \<open>Local relay tiles\<close>

lemma SelfTileCount_eq:
  assumes "rowBytes < 18446744073709551616"
  obtains q r where "rowBytes = q * 65536 + r" "r < 65536"
    "MoonEpCombineV2SelfTileCount rowBytes = (if r = 0 then q else q + 1)"
proof (rule that [of "rowBytes div 65536" "rowBytes mod 65536"])
  have "rowBytes div 65536 < 281474976710656" using assms by (intro less_mult_imp_div_less) simp
  then show "MoonEpCombineV2SelfTileCount rowBytes =
      (if rowBytes mod 65536 = 0 then rowBytes div 65536 else rowBytes div 65536 + 1)"
    by (simp add: MoonEpCombineV2SelfTileCount_def wrap_simps)
qed simp_all

lemma SelfTileBytes_eq:
  assumes "rowBytes < 18446744073709551616" "i < MoonEpCombineV2SelfTileCount rowBytes"
  shows "MoonEpCombineV2SelfTileBytes rowBytes i = min 65536 (rowBytes - i * 65536)" "i * 65536 < rowBytes"
proof -
  obtain q r where q: "rowBytes = q * 65536 + r" "r < 65536"
    "MoonEpCombineV2SelfTileCount rowBytes = (if r = 0 then q else q + 1)"
    using assms(1) by (rule SelfTileCount_eq)
  show lt: "i * 65536 < rowBytes" using assms(2) q by (cases "r = 0") simp_all
  have "u64 (i * 65536) = i * 65536" using lt assms(1) by (intro u64_id) linarith
  moreover have "sub64 rowBytes (i * 65536) = rowBytes - i * 65536" using lt assms(1) by (intro sub64_id) linarith+
  ultimately show "MoonEpCombineV2SelfTileBytes rowBytes i = min 65536 (rowBytes - i * 65536)"
    using assms(2) lt by (simp add: MoonEpCombineV2SelfTileBytes_def Let_def u32_def min_def)
qed

text \<open>
  C36: The tiles in which a row is relayed locally are non-empty, at most half the relay buffer,
  and add up to the row.
\<close>

theorem combine_self_tiles_cover_row:
  assumes "rowBytes < 18446744073709551616"
  shows "(\<Sum>i<MoonEpCombineV2SelfTileCount rowBytes. MoonEpCombineV2SelfTileBytes rowBytes i) = rowBytes \<and>
    (\<forall>i<MoonEpCombineV2SelfTileCount rowBytes. 0 < MoonEpCombineV2SelfTileBytes rowBytes i \<and>
      MoonEpCombineV2SelfTileBytes rowBytes i \<le> kMoonEpCombineV2SelfRelayHalfBytes)"
proof -
  have "(\<Sum>i<k. MoonEpCombineV2SelfTileBytes rowBytes i) = min rowBytes (k * 65536)"
    if "k \<le> MoonEpCombineV2SelfTileCount rowBytes" for k
    using that
  proof (induction k)
    case (Suc k)
    have step: "y < r \<Longrightarrow> min r y + min 65536 (r - y) = min r (65536 + y)" for y r :: nat
      by linarith
    show ?case using Suc step [of "k * 65536" rowBytes] SelfTileBytes_eq [OF assms, of k] by simp
  qed simp
  moreover have "rowBytes \<le> MoonEpCombineV2SelfTileCount rowBytes * 65536"
    using assms by (rule SelfTileCount_eq) (simp split: if_splits)
  ultimately have "(\<Sum>i<MoonEpCombineV2SelfTileCount rowBytes. MoonEpCombineV2SelfTileBytes rowBytes i) = rowBytes"
    by (simp add: min_def)
  moreover have "0 < MoonEpCombineV2SelfTileBytes rowBytes i \<and> MoonEpCombineV2SelfTileBytes rowBytes i \<le> 65536"
    if "i < MoonEpCombineV2SelfTileCount rowBytes" for i
    using SelfTileBytes_eq [OF assms that] by simp
  ultimately show ?thesis by simp
qed

theorem combine_self_tiles_cover_row_witness:
  "(\<Sum>i<MoonEpCombineV2SelfTileCount 200000. MoonEpCombineV2SelfTileBytes 200000 i) = 200000"
  using combine_self_tiles_cover_row [of 200000] by simp

section \<open>Copies into a ring\<close>

text \<open>
  C37: A copy of at most one ring length, split in two segments, writes exactly the ring slots
  that the entries \<open>head\<close>, \<open>head + 1\<close>, \<dots> belong to, in order: first up to the end of the ring, then
  from its start.
\<close>

theorem combine_split_ring_copy:
  fixes head count ringEntries :: nat
  assumes "0 < ringEntries" "ringEntries < 4294967296" "count \<le> ringEntries"
  defines "seg \<equiv> MoonEpCombineV2SplitRingCopy head count ringEntries"
  shows "map (\<lambda>i. (head + i) mod ringEntries) [0..<count] =
    [head mod ringEntries..<head mod ringEntries + seg_first seg] @ [0..<seg_second seg]"
proof -
  define r where "r = head mod ringEntries"
  define f where "f = min count (ringEntries - r)"
  have r: "r < ringEntries" using assms(1) by (simp add: r_def)
  have u: "sub32 ringEntries r = ringEntries - r" using r assms(2) by (intro sub32_id) simp_all
  have c: "sub32 count f = count - f" using assms(2,3) by (intro sub32_id) (simp_all add: f_def)
  have f: "(if count < ringEntries - r then count else ringEntries - r) = f" by (simp add: f_def)
  have n: "(ringEntries = 0) = False" using assms(1) by simp
  have seg: "seg_first seg = f" "seg_second seg = count - f"
    by (simp_all only: seg_def MoonEpCombineV2SplitRingCopy_def Let_def n if_False r_def [symmetric] u f c
        MoonEpCombineV2RingSegments.select_convs)
  have m: "(head + i) mod ringEntries = (if i < ringEntries - r then r + i else i - (ringEntries - r))"
    if "i < count" for i
  proof -
    have "(head + i) mod ringEntries = (r + i) mod ringEntries" by (simp add: r_def mod_add_left_eq)
    moreover have "i < ringEntries" using that assms(3) by simp
    ultimately show ?thesis using r by (auto simp: mod_if)
  qed
  show ?thesis
  proof (rule nth_equalityI)
    show "length (map (\<lambda>i. (head + i) mod ringEntries) [0..<count]) =
      length ([head mod ringEntries..<head mod ringEntries + seg_first seg] @ [0..<seg_second seg])"
      by (simp add: seg f_def)
    fix i assume "i < length (map (\<lambda>i. (head + i) mod ringEntries) [0..<count])"
    then show "map (\<lambda>i. (head + i) mod ringEntries) [0..<count] ! i =
      ([head mod ringEntries..<head mod ringEntries + seg_first seg] @ [0..<seg_second seg]) ! i"
      using m [of i] by (auto simp: seg nth_append r_def [symmetric] f_def)
  qed
qed

theorem combine_split_ring_copy_witness:
  "map (\<lambda>i. (6 + i) mod 8) [0..<4] = [6..<6 + 2] @ [0..<(2::nat)]"
  using combine_split_ring_copy [of 8 4 6]
  by (simp add: MoonEpCombineV2SplitRingCopy_def sub32_def u32_def)

text \<open>
  C38: A batch of queue entries is non-empty while entries remain, holds at most the batch
  capacity and the remaining entries, and never crosses the end of the ring.
\<close>

theorem combine_wqe_batch_fits:
  fixes remaining sqHead sqEntryCount :: nat
  assumes "0 < remaining" "0 < sqEntryCount" "sqEntryCount < 4294967296"
  defines "batch \<equiv> MoonEpCombineV2WqeBatchCount remaining sqHead sqEntryCount"
  shows "0 < batch \<and> batch \<le> remaining \<and> batch \<le> kMoonEpCombineV2WqeBatchCapacity \<and>
    sqHead mod sqEntryCount + batch \<le> sqEntryCount"
proof -
  have r: "sqHead mod sqEntryCount < sqEntryCount" using assms(2) by simp
  then have "sub32 sqEntryCount (sqHead mod sqEntryCount) = sqEntryCount - sqHead mod sqEntryCount"
    using assms(3) by (intro sub32_id) simp_all
  then have "batch = u32 (min (sqEntryCount - sqHead mod sqEntryCount) (min remaining 128))"
    using assms(1,2) by (simp add: batch_def MoonEpCombineV2WqeBatchCount_def Let_def min_def)
  also have "\<dots> = min (sqEntryCount - sqHead mod sqEntryCount) (min remaining 128)"
    by (intro u32_id) simp
  finally show ?thesis using r assms(1) by (simp add: min_le_iff_disj)
qed

theorem combine_wqe_batch_fits_witness:
  "MoonEpCombineV2WqeBatchCount 500 1000 1024 \<le> 24"
  using combine_wqe_batch_fits [of 500 1024 1000] by simp

end
