(* ===== verification/DispatchCommon.thy ===== *)
theory DispatchCommon
  imports TX_Prelude
begin

text \<open>
  The constants, mode predicates and destination decoding of
  \<^verbatim>\<open>src/src/moonep/dispatch/urma/common/dispatch_common.h\<close>.  A destination is one \<open>int32_t\<close> that packs
  the target rank and the slot in its buffer.
\<close>

section \<open>Definitions\<close>

definition kDispatchAivCoreCount :: nat where [simp]: "kDispatchAivCoreCount = 64"
definition kDispatchRankGroupSize :: int where [simp]: "kDispatchRankGroupSize = 64"
definition kDispatchValidationGroupWidth :: nat where [simp]: "kDispatchValidationGroupWidth = 8"
definition kDispatchDefaultGroupWidth :: nat where [simp]: "kDispatchDefaultGroupWidth = 16"

text \<open>\<open>Some\<close> is the \<open>true\<close> result with the target rank and slot.\<close>

definition DispatchDecodeDestination :: "int \<Rightarrow> int \<Rightarrow> int \<Rightarrow> (int \<times> int) option" where
  "DispatchDecodeDestination encoded capacity world =
     (if capacity \<le> 0 \<or> world \<le> 0 then None
      else if encoded < 0 then None
      else if world \<le> encoded div capacity then None
      else Some (encoded div capacity, encoded mod capacity))"

definition DispatchPayloadModeValid :: "nat \<Rightarrow> bool" where
  "DispatchPayloadModeValid mode \<longleftrightarrow> mode = 0 \<or> mode = 1"
definition DispatchPeerModeValid :: "nat \<Rightarrow> bool" where
  "DispatchPeerModeValid mode \<longleftrightarrow> mode = 0 \<or> mode = 1 \<or> mode = 2"
definition DispatchPeerModeUsesGroups :: "nat \<Rightarrow> bool" where
  "DispatchPeerModeUsesGroups mode \<longleftrightarrow> mode = 1 \<or> mode = 2"
definition DispatchPeerModeUsesCredit :: "nat \<Rightarrow> bool" where
  "DispatchPeerModeUsesCredit mode \<longleftrightarrow> mode = 2"
definition DispatchGroupWidthValid :: "nat \<Rightarrow> bool" where
  "DispatchGroupWidthValid groupWidth \<longleftrightarrow>
     groupWidth = kDispatchValidationGroupWidth \<or> groupWidth = kDispatchDefaultGroupWidth"

text \<open>
  C31: A destination decodes to the rank and slot it was packed from, for every rank of the world
  and every slot below the capacity, and nothing else decodes: no result is out of range.
\<close>

theorem dispatch_destination_round_trip:
  assumes "0 < capacity" "0 < world"
  shows "(\<forall>rank slot. 0 \<le> rank \<and> rank < world \<and> 0 \<le> slot \<and> slot < capacity \<longrightarrow>
      DispatchDecodeDestination (rank * capacity + slot) capacity world = Some (rank, slot)) \<and>
    (\<forall>encoded rank slot. DispatchDecodeDestination encoded capacity world = Some (rank, slot) \<longrightarrow>
      encoded = rank * capacity + slot \<and> 0 \<le> rank \<and> rank < world \<and> 0 \<le> slot \<and> slot < capacity)"
proof -
  have "\<not> rank * capacity + slot < 0" if "0 \<le> rank" "0 \<le> slot" for rank slot
    using that assms(1) mult_nonneg_nonneg [of rank capacity] by linarith
  then show ?thesis
    using assms by (auto simp: DispatchDecodeDestination_def pos_imp_zdiv_nonneg_iff split: if_splits)
qed

theorem dispatch_destination_round_trip_witness:
  "DispatchDecodeDestination (3 * 100 + 7) 100 8 = Some (3, 7)"
  using dispatch_destination_round_trip [of 100 8, THEN conjunct1, THEN spec, THEN spec, of 3 7] by simp

end
