(* ===== verification/DispatchSchedule.thy ===== *)
theory DispatchSchedule
  imports CombineReceive DispatchCommon
begin

text \<open>
  The URMA dispatch schedule: \<^verbatim>\<open>src/src/moonep/dispatch/urma/common/dispatch_schedule.h\<close>, and the credit words of
  \<^verbatim>\<open>dispatch_credit.h\<close>.  Ranks are \<open>int64_t\<close> (integers, \<open>-1\<close> for no peer), counts and lanes
  are unsigned (naturals with their wrap).  The operands of \<open>/\<close> and \<open>%\<close> on signed values are
  non-negative wherever they are reached, where C++ and HOL agree.
\<close>

unbundle bit_operations_syntax

section \<open>The schedule\<close>

definition kDispatchSplitRankSize :: int where [simp]: "kDispatchSplitRankSize = 128"
definition kDispatchSplitHalfRankSize :: int where [simp]: "kDispatchSplitHalfRankSize = 64"

definition DispatchContiguousRange :: "nat \<Rightarrow> nat \<Rightarrow> nat \<Rightarrow> nat \<times> nat" where
  "DispatchContiguousRange itemCount partCount part =
     (if partCount = 0 \<or> partCount \<le> part then (0, 0)
      else let itemsPerPart = itemCount div partCount;
               extraItems = itemCount mod partCount;
               prefixExtra = (if part < extraItems then part else extraItems);
               start = u64 (u64 (part * itemsPerPart) + prefixExtra)
           in (start, u64 (u64 (start + itemsPerPart) + (if part < extraItems then 1 else 0))))"

definition DispatchGroupCount :: "int \<Rightarrow> int" where
  "DispatchGroupCount rankSize =
     (if rankSize \<le> 0 then 0
      else rankSize div kDispatchRankGroupSize + (if rankSize mod kDispatchRankGroupSize = 0 then 0 else 1))"

definition DispatchTargetGroup :: "int \<Rightarrow> int \<Rightarrow> int \<Rightarrow> int" where
  "DispatchTargetGroup rank rankSize phase =
     (let groupCount = DispatchGroupCount rankSize in
      if rank < 0 \<or> rankSize \<le> rank \<or> phase < 0 \<or> groupCount \<le> phase then -1
      else (rank div kDispatchRankGroupSize + phase) mod groupCount)"

definition DispatchPeerForCore :: "int \<Rightarrow> int \<Rightarrow> int \<Rightarrow> nat \<Rightarrow> nat \<Rightarrow> nat \<Rightarrow> int" where
  "DispatchPeerForCore rank rankSize phase core coreCount workIndex =
     (if coreCount = 0 \<or> kDispatchAivCoreCount < coreCount \<or> coreCount \<le> core then -1
      else let peerOffset = u64 (core + u64 (workIndex * coreCount)) in
      if nat kDispatchRankGroupSize \<le> peerOffset then -1
      else let targetGroup = DispatchTargetGroup rank rankSize phase in
      if targetGroup < 0 then -1
      else let peer = targetGroup * kDispatchRankGroupSize + int peerOffset in
      if peer < rankSize then peer else -1)"

definition DispatchGroupedGroupCount :: "int \<Rightarrow> nat \<Rightarrow> nat" where
  "DispatchGroupedGroupCount rankSize groupWidth =
     (if rankSize \<le> 1 \<or> \<not> DispatchGroupWidthValid groupWidth then 0
      else let remotePeerCount = nat (rankSize - 1) in
           u32 (remotePeerCount div groupWidth + (if remotePeerCount mod groupWidth = 0 then 0 else 1)))"

definition DispatchSplit128RingPeer :: "int \<Rightarrow> int \<Rightarrow> int \<Rightarrow> int" where
  "DispatchSplit128RingPeer halfBase center offset =
     (let index = (center + offset + kDispatchSplitHalfRankSize) mod kDispatchSplitHalfRankSize
      in halfBase + index)"

definition DispatchGroupedPeerSplit128 :: "int \<Rightarrow> nat \<Rightarrow> nat \<Rightarrow> int" where
  "DispatchGroupedPeerSplit128 rank grp lane =
     (if rank < 0 \<or> kDispatchSplitRankSize \<le> rank \<or> 8 \<le> grp \<or> 16 \<le> lane then -1
      else
        let localHalfBase = (if rank < kDispatchSplitHalfRankSize then 0 else kDispatchSplitHalfRankSize);
            remoteHalfBase = kDispatchSplitHalfRankSize - localHalfBase;
            center = rank - localHalfBase
        in if lane < 8
           then let ordinal = u32 (u32 (grp * 8) + lane) in
                if 63 \<le> ordinal then -1
                else let distance = int (ordinal div 2 + 1);
                         offset = (if ordinal mod 2 = 0 then distance else - distance)
                     in DispatchSplit128RingPeer localHalfBase center offset
           else let remoteLane = lane - 8;
                    offset =
                      (if grp = 0
                       then (if remoteLane = 1 then kDispatchSplitHalfRankSize div 2
                             else if 2 \<le> remoteLane
                             then let ordinal = remoteLane - 2; distance = int (ordinal div 2 + 1)
                                  in if ordinal mod 2 = 0 then distance else - distance
                             else 0)
                       else let distance = int (u32 (u32 (grp * (8 div 2)) + remoteLane div 2))
                            in if remoteLane mod 2 = 0 then distance else - distance)
                in DispatchSplit128RingPeer remoteHalfBase center offset)"

definition DispatchGroupedPeer :: "int \<Rightarrow> int \<Rightarrow> nat \<Rightarrow> nat \<Rightarrow> nat \<Rightarrow> int" where
  "DispatchGroupedPeer rank rankSize grp lane groupWidth =
     (let groupCount = DispatchGroupedGroupCount rankSize groupWidth in
      if rank < 0 \<or> rankSize \<le> rank \<or> groupCount \<le> grp \<or> groupWidth \<le> lane then -1
      else if rankSize = kDispatchSplitRankSize \<and> groupWidth = 16
      then DispatchGroupedPeerSplit128 rank grp lane
      else
        let halfWidth = groupWidth div 2;
            index = (if lane < halfWidth then lane else lane - halfWidth);
            distance = u64 (u64 (u64 (grp * halfWidth) + index) + 1);
            diameter = nat rankSize div 2
        in if diameter < distance \<or> (halfWidth \<le> lane \<and> distance = diameter \<and> rankSize mod 2 = 0)
           then -1
           else if lane < halfWidth then (rank + int distance) mod rankSize
           else (rank - int distance + rankSize) mod rankSize)"

definition DispatchGroupedAssignmentCount :: "int \<Rightarrow> nat \<Rightarrow> nat" where
  "DispatchGroupedAssignmentCount rankSize groupWidth =
     u64 (DispatchGroupedGroupCount rankSize groupWidth * groupWidth)"

definition DispatchSameServer :: "int \<Rightarrow> int \<Rightarrow> int \<Rightarrow> bool" where
  "DispatchSameServer rank peer localRankSize \<longleftrightarrow>
     0 \<le> rank \<and> 0 \<le> peer \<and> 0 < localRankSize \<and> rank div localRankSize = peer div localRankSize"

definition DispatchFullmeshSlot :: "int \<Rightarrow> int \<Rightarrow> nat" where
  "DispatchFullmeshSlot peer localRankSize =
     (if peer < 0 \<or> localRankSize \<le> 0 then UINT32_MAX else u32 (nat (peer mod localRankSize)))"

definition DispatchCompletionLaneCount :: "int \<Rightarrow> int \<Rightarrow> int \<Rightarrow> nat" where
  "DispatchCompletionLaneCount rank peer localRankSize =
     (if DispatchSameServer rank peer localRankSize then 1 else 2)"

definition DispatchGroupedPeerWorkCount :: "int \<Rightarrow> nat \<Rightarrow> nat \<Rightarrow> nat" where
  "DispatchGroupedPeerWorkCount rankSize groupWidth coreCount =
     (if coreCount = 0 \<or> kDispatchAivCoreCount < coreCount then 0
      else let assignments = DispatchGroupedAssignmentCount rankSize groupWidth in
           if assignments = 0 then 0
           else u32 (assignments div coreCount + (if assignments mod coreCount = 0 then 0 else 1)))"

text \<open>The peer with the grp and lane written through the reference arguments.\<close>

definition DispatchGroupedPeerForCore ::
    "int \<Rightarrow> int \<Rightarrow> nat \<Rightarrow> nat \<Rightarrow> nat \<Rightarrow> nat \<Rightarrow> int \<times> nat \<times> nat" where
  "DispatchGroupedPeerForCore rank rankSize groupWidth core coreCount workIndex =
     (if coreCount = 0 \<or> kDispatchAivCoreCount < coreCount \<or> coreCount \<le> core
      then (-1, UINT32_MAX, UINT32_MAX)
      else let assignment = u64 (core + u64 (workIndex * coreCount)) in
      if DispatchGroupedAssignmentCount rankSize groupWidth \<le> assignment
      then (-1, UINT32_MAX, UINT32_MAX)
      else let grp = u32 (assignment div groupWidth); lane = u32 (assignment mod groupWidth)
           in (DispatchGroupedPeer rank rankSize grp lane groupWidth, grp, lane))"

definition DispatchGroupedNextCreditPeer :: "int \<Rightarrow> int \<Rightarrow> nat \<Rightarrow> nat \<Rightarrow> nat \<Rightarrow> int" where
  "DispatchGroupedNextCreditPeer rank rankSize completedGroup lane groupWidth =
     (if completedGroup = UINT32_MAX then -1
      else DispatchGroupedPeer rank rankSize (u32 (completedGroup + 1)) lane groupWidth)"

definition DispatchPeerWorkCount :: "nat \<Rightarrow> nat" where
  "DispatchPeerWorkCount coreCount =
     (if coreCount = 0 \<or> kDispatchAivCoreCount < coreCount then 0
      else 64 div coreCount + (if 64 mod coreCount = 0 then 0 else 1))"

section \<open>Credit words\<close>

definition kDispatchCreditStrideBytes :: nat where [simp]: "kDispatchCreditStrideBytes = 512"
definition kDispatchCreditGroupBits :: nat where [simp]: "kDispatchCreditGroupBits = 16"
definition kDispatchCreditGroupMask :: nat where [simp]: "kDispatchCreditGroupMask = 65535"
definition kDispatchCreditMaxMagic :: nat where
  [simp]: "kDispatchCreditMaxMagic = 18446744073709551615 div 65536"
definition kDispatchCreditPlaneBytes :: nat where
  [simp]: "kDispatchCreditPlaneBytes = CREDIT_IPC_SLOT_BYTES"
definition kDispatchCreditBytes :: nat where [simp]: "kDispatchCreditBytes = DISPATCH_CREDIT_IPC_BYTES"
definition kDispatchCreditMaxGroupCount :: nat where [simp]: "kDispatchCreditMaxGroupCount = 16"
definition kDispatchCreditSourceStrideBytes :: nat where [simp]: "kDispatchCreditSourceStrideBytes = 64"
definition kDispatchCreditSourceBytes :: nat where
  [simp]: "kDispatchCreditSourceBytes =
    kDispatchAivCoreCount * kDispatchCreditMaxGroupCount * kDispatchCreditSourceStrideBytes"

definition DispatchCreditToken :: "int \<Rightarrow> nat \<Rightarrow> nat option" where
  "DispatchCreditToken magic grp =
     (if magic \<le> 0 \<or> kDispatchCreditMaxMagic < nat magic \<or> kDispatchCreditGroupMask \<le> grp then None
      else Some (u64 (push_bit kDispatchCreditGroupBits (nat magic)) OR u64 (grp + 1)))"

definition DispatchCreditPlaneOffset :: "int \<Rightarrow> nat" where
  "DispatchCreditPlaneOffset magic =
     (if magic \<le> 0 then UINT64_MAX else u64 ((nat magic AND 1) * kDispatchCreditPlaneBytes))"

definition DispatchCreditEntryOffset :: "nat \<Rightarrow> nat" where
  "DispatchCreditEntryOffset destinationRank =
     (if TILEXR_MAX_RANK_SIZE \<le> destinationRank then UINT64_MAX
      else u64 (destinationRank * kDispatchCreditStrideBytes))"

definition DispatchCreditSourceOffset :: "nat \<Rightarrow> nat \<Rightarrow> nat" where
  "DispatchCreditSourceOffset core grp =
     (if kDispatchAivCoreCount \<le> core \<or> kDispatchCreditMaxGroupCount \<le> grp then UINT64_MAX
      else u64 (u64 (u64 (core * kDispatchCreditMaxGroupCount) + grp) * kDispatchCreditSourceStrideBytes))"

definition DispatchCreditRequired :: "nat \<Rightarrow> bool" where
  "DispatchCreditRequired grp \<longleftrightarrow> grp \<noteq> 0"

definition DispatchCreditReady :: "nat \<Rightarrow> nat \<Rightarrow> bool" where
  "DispatchCreditReady observed expected \<longleftrightarrow> expected \<noteq> 0 \<and> expected \<le> observed"

end
