(* ===== verification/DispatchPeers.thy ===== *)
theory DispatchPeers
  imports DispatchSchedule
begin

text \<open>
  Correctness of the grouped dispatch schedule: every remote rank is the peer of exactly one
  (group, lane), on the ring of any size and on the split schedule of 128 ranks, the peers of a
  group are mutual, and the work items of the cores enumerate the assignments.
\<close>

section \<open>The ring of arbitrary size\<close>

definition ring_distance :: "nat \<Rightarrow> nat \<Rightarrow> nat \<Rightarrow> int" where
  "ring_distance h g l = int (g * h + (if l < h then l else l - h) + 1)"

lemma GroupedGroupCount_bounds:
  assumes "DispatchGroupWidthValid w" "1 < R" "R \<le> 4294967296"
  shows "R - 1 \<le> int (DispatchGroupedGroupCount R w * w)"
    "int (DispatchGroupedGroupCount R w * w) < R - 1 + int w"
proof -
  define m where "m = nat (R - 1)"
  have m: "int m = R - 1" "m < 4294967296" using assms(2,3) by (auto simp: m_def)
  have w: "w = 8 \<or> w = 16" using assms(1) by (auto simp: DispatchGroupWidthValid_def)
  define q where "q = m div w"
  define r where "r = m mod w"
  have qr: "m = q * w + r" "r < w" using w by (auto simp: q_def r_def)
  have qb: "q < 4294967295" using qr(1) m(2) w by auto
  have gc: "DispatchGroupedGroupCount R w = q + (if r = 0 then 0 else 1)"
    using assms(1,2) qb by (simp add: DispatchGroupedGroupCount_def Let_def m_def [symmetric] q_def [symmetric]
        r_def [symmetric] wrap_simps)
  have "m \<le> (q + (if r = 0 then 0 else 1)) * w" "(q + (if r = 0 then 0 else 1)) * w < m + w"
    using qr w by auto
  then show "R - 1 \<le> int (DispatchGroupedGroupCount R w * w)"
    "int (DispatchGroupedGroupCount R w * w) < R - 1 + int w" unfolding gc using m by linarith+
qed

lemma GroupedPeer_ring:
  assumes w: "DispatchGroupWidthValid w" and "1 < R" "R \<le> 4294967296" "\<not> (R = 128 \<and> w = 16)"
    and "0 \<le> r" "r < R" "g < DispatchGroupedGroupCount R w" "l < w"
  defines "D \<equiv> ring_distance (w div 2) g l"
  shows "DispatchGroupedPeer r R g l w =
    (if R < 2 * D \<or> (w div 2 \<le> l \<and> 2 * D = R) then -1
     else if l < w div 2 then (r + D) mod R else (r - D) mod R)"
proof -
  define h where "h = w div 2"
  have wc: "w = 8 \<or> w = 16" using w by (auto simp: DispatchGroupWidthValid_def)
  define i where "i = (if l < h then l else l - h)"
  define n where "n = g * h + i + 1"
  have "g * w < DispatchGroupedGroupCount R w * w" using assms(7) wc by auto
  then have gb: "g * h < 4294967296"
    using GroupedGroupCount_bounds(2) [OF w assms(2,3)] assms(3) wc by (auto simp: h_def)
  have ib: "i < 16" using assms(8) wc by (auto simp: i_def h_def)
  have u: "u64 (u64 (u64 (g * h) + i) + 1) = n"
    using gb ib by (simp add: wrap_simps n_def)
  have D: "D = int n" by (simp add: D_def ring_distance_def n_def i_def h_def)
  have c1: "(nat R div 2 < n) = (R < 2 * D)" unfolding D using assms(2) by linarith
  obtain m where m: "R = int m" using assms(2) zero_le_imp_eq_int [of R] by auto
  have c2: "(n = nat R div 2 \<and> R mod 2 = 0) = (2 * D = R)" unfolding D m
    by (simp flip: of_nat_mult) presburger
  have g0: "r < 0 \<or> R \<le> r \<or> DispatchGroupedGroupCount R w \<le> g \<or> w \<le> l \<longleftrightarrow> False"
    "R = kDispatchSplitRankSize \<and> w = 16 \<longleftrightarrow> False" using assms by auto
  have "DispatchGroupedPeer r R g l w =
    (if R < 2 * D \<or> (h \<le> l \<and> 2 * D = R) then -1
     else if l < h then (r + D) mod R else (r - D + R) mod R)"
    by (simp only: DispatchGroupedPeer_def Let_def g0 if_False h_def [symmetric] i_def [symmetric] u c1 c2 D [symmetric])
  then show ?thesis by (simp add: h_def)
qed

text \<open>The slot that serves a destination on the ring.\<close>

definition ring_slot :: "int \<Rightarrow> nat \<Rightarrow> int \<Rightarrow> int \<Rightarrow> nat \<times> nat" where
  "ring_slot R w r d =
     (let h = w div 2; cw = (d - r) mod R; right = (2 * cw \<le> R);
          k = nat (if right then cw else R - cw) - 1
      in (k div h, k mod h + (if right then 0 else h)))"

lemma ring_distance_coords:
  assumes "0 < h" "l < 2 * h"
  shows "nat (ring_distance h g l) - 1 = g * h + (if l < h then l else l - h)" "0 < ring_distance h g l"
    "(g * h + (if l < h then l else l - h)) div h = g"
    "(g * h + (if l < h then l else l - h)) mod h + (if l < h then 0 else h) = l"
proof -
  define i where "i = (if l < h then l else l - h)"
  have i: "i < h" using assms by (auto simp: i_def)
  show "nat (ring_distance h g l) - 1 = g * h + (if l < h then l else l - h)" "0 < ring_distance h g l"
    by (simp_all only: ring_distance_def nat_int)
  show "(g * h + (if l < h then l else l - h)) div h = g"
    unfolding i_def [symmetric] using i by (rule div_coord)
  show "(g * h + (if l < h then l else l - h)) mod h + (if l < h then 0 else h) = l"
    unfolding i_def [symmetric] mod_coord [OF i] by (auto simp: i_def)
qed

lemma ring_slot_peer:
  assumes w: "DispatchGroupWidthValid w" and "1 < R" "R \<le> 4294967296" "\<not> (R = 128 \<and> w = 16)"
    and "0 \<le> r" "r < R" "g < DispatchGroupedGroupCount R w" "l < w"
    and p: "DispatchGroupedPeer r R g l w = d" "d \<noteq> -1"
  shows "0 \<le> d" "d < R" "d \<noteq> r" "ring_slot R w r d = (g, l)"
proof -
  define h where "h = w div 2"
  define D where "D = ring_distance h g l"
  have h: "0 < h" "l < 2 * h" using w assms(8) by (auto simp: DispatchGroupWidthValid_def h_def)
  note co = ring_distance_coords [OF h, of g, folded D_def]
  have c: "\<not> R < 2 * D" "\<not> (h \<le> l \<and> 2 * D = R)"
    and d: "d = (if l < h then (r + D) mod R else (r - D) mod R)"
    using GroupedPeer_ring [OF assms(1-8)] p by (auto simp: h_def D_def split: if_splits)
  show "0 \<le> d" "d < R" using d assms(2) by simp_all
  have Db: "0 < D" "D < R" "2 * D \<le> R" using c co(2) assms(2) by auto
  have cw: "(d - r) mod R = (if l < h then D else R - D)"
  proof (cases "l < h")
    case True
    then have "(d - r) mod R = (r + D - r) mod R" by (simp only: d if_True mod_diff_left_eq)
    then show ?thesis using True Db by simp
  next
    case False
    then have "(d - r) mod R = (r - D - r) mod R" by (simp only: d if_False mod_diff_left_eq)
    also have "\<dots> = (R - D + R * -1) mod R" by simp
    also have "\<dots> = (R - D) mod R" by (rule mod_mult_self2)
    also have "\<dots> = R - D" using Db by (intro mod_pos_pos_trivial) linarith+
    finally show ?thesis using False by simp
  qed
  show "d \<noteq> r" using cw Db by (auto split: if_splits)
  have right: "(2 * (if l < h then D else R - D) \<le> R) = (l < h)" using Db c(2) by auto
  show "ring_slot R w r d = (g, l)"
    unfolding ring_slot_def Let_def h_def [symmetric] cw right
    using co by (cases "l < h") simp_all
qed

lemma ring_peer_slot:
  assumes w: "DispatchGroupWidthValid w" and "1 < R" "R \<le> 4294967296" "\<not> (R = 128 \<and> w = 16)"
    and "0 \<le> r" "r < R" "0 \<le> d" "d < R" "d \<noteq> r"
  shows "fst (ring_slot R w r d) < DispatchGroupedGroupCount R w" "snd (ring_slot R w r d) < w"
    "DispatchGroupedPeer r R (fst (ring_slot R w r d)) (snd (ring_slot R w r d)) w = d"
proof -
  define h where "h = w div 2"
  have wc: "w = 8 \<or> w = 16" using w by (auto simp: DispatchGroupWidthValid_def)
  have h: "0 < h" "w = 2 * h" using wc by (auto simp: h_def)
  define cw where "cw = (d - r) mod R"
  have cwb: "0 < cw" "cw < R"
  proof -
    have "cw \<noteq> 0"
    proof
      assume "cw = 0"
      then have "R dvd d - r" by (simp add: cw_def mod_eq_0_iff_dvd)
      moreover have "\<bar>d - r\<bar> < R" using assms by linarith
      ultimately show False using assms(9) dvd_imp_le_int [of "d - r" R] by linarith
    qed
    moreover have "0 \<le> cw" "cw < R" using assms(2) by (simp_all add: cw_def)
    ultimately show "0 < cw" "cw < R" by auto
  qed
  define right where "right = (2 * cw \<le> R)"
  define D where "D = (if right then cw else R - cw)"
  have Db: "0 < D" "2 * D \<le> R" "\<not> right \<Longrightarrow> 2 * D < R" using cwb by (auto simp: D_def right_def)
  define k where "k = nat D - 1"
  define g where "g = k div h"
  define l where "l = k mod h + (if right then 0 else h)"
  have slot: "ring_slot R w r d = (g, l)"
    by (simp only: ring_slot_def Let_def cw_def [symmetric] right_def [symmetric] D_def [symmetric]
        h_def [symmetric] k_def [symmetric] g_def l_def)
  have km: "k mod h < h" using h by simp
  have l: "l < w" "(l < h) = right" "(if l < h then l else l - h) = k mod h"
    using km h(2) by (auto simp: l_def)
  have "k < DispatchGroupedGroupCount R w * h"
  proof -
    have "2 * (int k + 1) \<le> R" using Db by (simp add: k_def)
    moreover have "DispatchGroupedGroupCount R w * w = 2 * (DispatchGroupedGroupCount R w * h)"
      using h(2) by simp
    then have "R - 1 \<le> 2 * int (DispatchGroupedGroupCount R w * h)"
      using GroupedGroupCount_bounds(1) [OF w assms(2,3)] by (simp only: of_nat_mult of_nat_numeral)
    moreover have "x < y" if "2 * (int x + 1) \<le> R" "R - 1 \<le> 2 * int y" for x y
      using that by presburger
    ultimately show ?thesis by blast
  qed
  then have g: "g < DispatchGroupedGroupCount R w" unfolding g_def by (rule less_mult_imp_div_less)
  have D: "ring_distance (w div 2) g l = D"
  proof -
    have "g * h + k mod h = k" by (simp add: g_def)
    then show ?thesis using Db(1) by (simp add: ring_distance_def h_def [symmetric] l(3) k_def)
  qed
  show "fst (ring_slot R w r d) < DispatchGroupedGroupCount R w" "snd (ring_slot R w r d) < w"
    using g l by (simp_all add: slot)
  have "DispatchGroupedPeer r R g l w = (if right then (r + cw) mod R else (r - (R - cw)) mod R)"
    using GroupedPeer_ring [OF assms(1-6) g l(1)] Db l(2) unfolding D
    by (auto simp: h_def [symmetric] D_def split: if_splits)
  also have "\<dots> = (r + cw) mod R"
  proof -
    have "r - (R - cw) = (r + cw) + R * -1" by simp
    then show ?thesis by (simp only: mod_mult_self2 if_cancel)
  qed
  also have "\<dots> = (r + (d - r)) mod R" by (simp only: cw_def mod_add_right_eq)
  also have "\<dots> = d" using assms by simp
  finally show "DispatchGroupedPeer r R (fst (ring_slot R w r d)) (snd (ring_slot R w r d)) w = d"
    by (simp add: slot)
qed

section \<open>The split schedule of 128 ranks\<close>

lemma int_mod_ring:
  assumes "p < 64" "off = int c \<or> (off = int c - 64 \<and> 0 < c)" "c < 64"
  shows "(int p + off + 64) mod 64 = int ((p + c) mod 64)"
proof -
  have "(int p + off + 64) mod 64 = (int p + int c) mod 64" using assms(2)
  proof
    assume "off = int c"
    then show ?thesis by (simp only: mod_add_self2)
  next
    assume "off = int c - 64 \<and> 0 < c"
    then have "int p + off + 64 = int p + int c" by simp
    then show ?thesis by (simp only:)
  qed
  then show ?thesis by (simp add: zmod_int)
qed

lemma Split128_eq:
  assumes "r < 128" "g < 8" "l < 16"
  shows "DispatchGroupedPeerSplit128 (int r) g l =
    (if l < 8 \<and> g * 8 + l = 63 then -1
     else int ((if l < 8 then r div 64 else 1 - r div 64) * 64 +
            (r mod 64 + bidir_cw (g * 8 + l mod 8) 64 (l < 8)) mod 64))"
proof -
  have hb: "(if int r < 64 then 0 else 64) = int (r div 64 * 64)" "int r - int (r div 64 * 64) = int (r mod 64)"
    "64 - int (r div 64 * 64) = int ((1 - r div 64) * 64)"
    using assms(1) by (auto simp: mod_if)
  have p: "r mod 64 < 64" by simp
  have "r div 64 < 2" using assms(1) by simp
  have ring: "DispatchSplit128RingPeer (int b) (int (r mod 64)) off = int (b + (r mod 64 + c) mod 64)"
    if "off = int c \<or> (off = int c - 64 \<and> 0 < c)" "c < 64" for b off c
    using int_mod_ring [OF p that] by (simp add: DispatchSplit128RingPeer_def Let_def)
  show ?thesis
  proof (cases "l < 8")
    case True
    define k where "k = g * 8 + l"
    have k: "k < 64" using assms(2) True by (simp add: k_def)
    have u: "u32 (u32 (g * 8) + l) = k" using k by (simp add: wrap_simps k_def)
    have bc: "k \<noteq> 63 \<Longrightarrow> bidir_cw k 64 True = (if even k then k div 2 + 1 else 64 - (k div 2 + 1))"
      by (simp add: bidir_cw_def)
    have off: "(if k mod 2 = 0 then int (k div 2 + 1) else - int (k div 2 + 1)) = int (bidir_cw k 64 True) \<or>
        ((if k mod 2 = 0 then int (k div 2 + 1) else - int (k div 2 + 1)) = int (bidir_cw k 64 True) - 64 \<and>
         0 < bidir_cw k 64 True)" "bidir_cw k 64 True < 64" if "k \<noteq> 63"
      using that k unfolding bc [OF that] by (auto simp: even_iff_mod_2_eq_zero)
    have g: "int r < 0 \<or> (128::int) \<le> int r \<or> 8 \<le> g \<or> 16 \<le> l \<longleftrightarrow> False" "l mod 8 = l"
      using assms True by auto
    show ?thesis
    proof (cases "k = 63")
      case True
      then show ?thesis using \<open>l < 8\<close>
        by (simp only: DispatchGroupedPeerSplit128_def Let_def kDispatchSplitHalfRankSize_def
            kDispatchSplitRankSize_def g if_False if_True u k_def [symmetric] simp_thms) simp
    next
      case False
      then have "(63 \<le> k) = False" using k by simp
      then show ?thesis using \<open>l < 8\<close> False
        by (simp only: DispatchGroupedPeerSplit128_def Let_def kDispatchSplitHalfRankSize_def
            kDispatchSplitRankSize_def g if_False if_True u hb ring [OF off [OF False]] k_def [symmetric]
            simp_thms)
    qed
  next
    case False
    define m where "m = l - 8"
    have m: "m < 8" "l = m + 8" using False assms(3) by (auto simp: m_def)
    define k where "k = g * 8 + m"
    have k: "k < 64" "l mod 8 = m" using assms(2) m by (auto simp: k_def)
    define off where "off = (if g = 0 then (if m = 1 then 32 else if 2 \<le> m
        then (if (m - 2) mod 2 = 0 then int ((m - 2) div 2 + 1) else - int ((m - 2) div 2 + 1)) else 0)
      else (if m mod 2 = 0 then int (g * 4 + m div 2) else - int (g * 4 + m div 2)))"
    have offk: "off = (if k = 0 then 0 else if k = 1 then 32 else if even k then int (k div 2) else - int (k div 2))"
    proof -
      have kd: "k div 2 = g * 4 + m div 2" "even k = even m" by (simp_all add: k_def)
      have m2: "2 \<le> m \<Longrightarrow> (m - 2) div 2 + 1 = m div 2" "2 \<le> m \<Longrightarrow> (m - 2) mod 2 = m mod 2"
        by (simp_all add: le_div_geq le_mod_geq)
      show ?thesis
      proof (cases "g = 0")
        case True
        then have "k = m" by (simp add: k_def)
        then show ?thesis using True m2 by (simp add: off_def even_iff_mod_2_eq_zero)
      next
        case False
        then have "k \<noteq> 0" "k \<noteq> 1" by (simp_all add: k_def)
        then show ?thesis using False kd by (simp add: off_def even_iff_mod_2_eq_zero)
      qed
    qed
    have bc: "bidir_cw k 64 False = (if k = 0 then 0 else if k = 1 then 32 else if even k then k div 2 else 64 - k div 2)"
      by (simp add: bidir_cw_def)
    have o: "off = int (bidir_cw k 64 False) \<or> (off = int (bidir_cw k 64 False) - 64 \<and> 0 < bidir_cw k 64 False)"
      "bidir_cw k 64 False < 64"
      unfolding offk bc using k(1) by auto
    have u: "u32 (u32 (g * 4) + m div 2) = g * 4 + m div 2" using assms(2) m(1) by (simp add: wrap_simps)
    have "DispatchGroupedPeerSplit128 (int r) g l =
        DispatchSplit128RingPeer (int ((1 - r div 64) * 64)) (int (r mod 64)) off"
      using assms False unfolding DispatchGroupedPeerSplit128_def Let_def kDispatchSplitHalfRankSize_def hb
        m_def [symmetric] by (simp add: u off_def)
    also have "\<dots> = int ((1 - r div 64) * 64 + (r mod 64 + bidir_cw k 64 False) mod 64)"
      by (rule ring [OF o])
    finally show ?thesis using False k(2) by (simp only: k_def simp_thms if_False)
  qed
qed

definition split_slot :: "int \<Rightarrow> int \<Rightarrow> nat \<times> nat" where
  "split_slot r d =
     (let k = bidir_slot (nat r) (nat d) 64
      in (k div 8, k mod 8 + (if nat d div 64 = nat r div 64 then 0 else 8)))"

lemma split_slot_peer:
  assumes "r < 128" "g < 8" "l < 16" and d: "DispatchGroupedPeerSplit128 (int r) g l = d" "d \<noteq> -1"
  shows "0 \<le> d" "d < 128" "d \<noteq> int r" "split_slot (int r) d = (g, l)"
proof -
  define h where "h = (if l < 8 then r div 64 else 1 - r div 64)"
  have rh: "r div 64 < 2" using assms(1) by simp
  have h: "h < 2" "(r div 64 = h) = (l < 8)"
    unfolding h_def using rh by (cases "r div 64"; simp)+
  define k where "k = g * 8 + l mod 8"
  have k: "k < 8 * 8" unfolding k_def using assms(2) by (rule coord_bound) simp
  define n where "n = h * 64 + (r mod 64 + bidir_cw k 64 (r div 64 = h)) mod 64"
  have eq: "DispatchGroupedPeerSplit128 (int r) g l = (if l < 8 \<and> g * 8 + l = 63 then -1 else int n)"
    unfolding Split128_eq [OF assms(1-3)] h_def [symmetric] k_def [symmetric] n_def h(2) ..
  have nk: "\<not> (l < 8 \<and> g * 8 + l = 63)" using eq d by (metis (full_types))
  then have dn: "d = int n" using eq d(1) by (simp only: if_False)
  have k64: "k < 8 * 8" "n = h * (8 * 8) + (r mod (8 * 8) + bidir_cw k (8 * 8) (r div (8 * 8) = h)) mod (8 * 8)"
    using k by (simp_all add: n_def)
  have s: "bidir_slot r n 64 = k" "n div 64 = h"
    using bidir_slot_of_peer [of 8, OF _ k64] by simp_all
  have "n < 2 * 64" unfolding n_def by (rule coord_bound) (use h in simp_all)
  then show "0 \<le> d" "d < 128" by (simp_all add: dn)
  have kd: "k div 8 = g" "k mod 8 = l mod 8" unfolding k_def by simp_all
  have kl: "l mod 8 + (if l < 8 then 0 else 8) = l" using assms(3) le_mod_geq [of 8 l] by (cases "l < 8") simp_all
  have "(h = r div 64) = (l < 8)" using h(2) by auto
  then show sl: "split_slot (int r) d = (g, l)"
    unfolding split_slot_def Let_def dn nat_int s kd by (simp only: kl)
  show "d \<noteq> int r"
  proof
    assume "d = int r"
    then have nr: "n = r" using dn by simp
    have "bidir_slot r r 64 = 63" by (simp add: bidir_slot_def bidir_ordinal_def)
    then have "k = 63" "l < 8" using s nr h(2) by simp_all
    then show False using nk by (simp add: k_def)
  qed
qed

lemma split_peer_slot:
  assumes "r < 128" "d < 128" "d \<noteq> r"
  shows "fst (split_slot (int r) (int d)) < 8" "snd (split_slot (int r) (int d)) < 16"
    "DispatchGroupedPeerSplit128 (int r) (fst (split_slot (int r) (int d))) (snd (split_slot (int r) (int d))) = int d"
proof -
  define k where "k = bidir_slot r d 64"
  define same where "same = (d div 64 = r div 64)"
  define l where "l = k mod 8 + (if same then 0 else 8)"
  have s: "split_slot (int r) (int d) = (k div 8, l)"
    by (simp add: split_slot_def Let_def k_def same_def l_def)
  note p = bidir_peer_of_slot [of 8, where src = r and d = d, simplified, folded k_def]
  have b: "k div 8 < 8" "l < 16" "(l < 8) = same" "l mod 8 = k mod 8"
  proof -
    show "k div 8 < 8" using p(1) by (simp add: less_mult_imp_div_less)
    have "k mod 8 < 8" by simp
    then show "l < 16" "(l < 8) = same" by (auto simp: l_def)
    show "l mod 8 = k mod 8" by (simp add: l_def)
  qed
  show "fst (split_slot (int r) (int d)) < 8" "snd (split_slot (int r) (int d)) < 16"
    using b by (simp_all add: s)
  have hd: "(if same then r div 64 else 1 - r div 64) = d div 64"
  proof -
    have "r div 64 < 2" "d div 64 < 2" using assms by simp_all
    then have "r div 64 = 0 \<or> r div 64 = 1" "d div 64 = 0 \<or> d div 64 = 1" by linarith+
    then show ?thesis unfolding same_def by (elim disjE) simp_all
  qed
  have n63: "\<not> (l < 8 \<and> k div 8 * 8 + l = 63)"
  proof
    assume a: "l < 8 \<and> k div 8 * 8 + l = 63"
    then have "l = k mod 8" using b(4) by simp
    then have "k = 63" "same" using a b(3) by (auto simp: div_mult_mod_eq)
    then have "d = d div 64 * 64 + r mod 64" using p(2) by (simp add: bidir_cw_def same_def)
    moreover have "d div 64 * 64 + r mod 64 = r" using \<open>same\<close> by (simp add: same_def)
    ultimately show False using assms(3) by simp
  qed
  have "DispatchGroupedPeerSplit128 (int r) (k div 8) l =
      int (d div 64 * 64 + (r mod 64 + bidir_cw (k div 8 * 8 + k mod 8) 64 same) mod 64)"
    using Split128_eq [OF assms(1) b(1,2)] n63 by (simp only: hd b(3,4) simp_thms if_False)
  also have "\<dots> = int d" using p(2) by (simp add: same_def eq_commute [of "d div 64"])
  finally show "DispatchGroupedPeerSplit128 (int r) (fst (split_slot (int r) (int d)))
      (snd (split_slot (int r) (int d))) = int d" by (simp add: s)
qed

section \<open>The grouped schedule as a transfer schedule\<close>

definition dispatch_ranks :: "int \<Rightarrow> nat \<Rightarrow> int set" where
  "dispatch_ranks R w =
     {r. 0 \<le> r \<and> r < R \<and> 1 < R \<and> R \<le> 4294967296 \<and> DispatchGroupWidthValid w}"

definition dispatch_slot :: "int \<Rightarrow> nat \<Rightarrow> int \<Rightarrow> int \<Rightarrow> nat \<times> nat" where
  "dispatch_slot R w r d = (if R = 128 \<and> w = 16 then split_slot r d else ring_slot R w r d)"

lemma split_group_count: "DispatchGroupedGroupCount 128 16 = 8"
  by (simp add: DispatchGroupedGroupCount_def DispatchGroupWidthValid_def u32_def)

lemma dispatch_slot_peer:
  assumes "r \<in> dispatch_ranks R w" "g < DispatchGroupedGroupCount R w" "l < w"
    and "DispatchGroupedPeer r R g l w = d" "d \<noteq> -1"
  shows "d \<in> dispatch_ranks R w" "d \<noteq> r" "dispatch_slot R w r d = (g, l)"
proof -
  have v: "0 \<le> r" "r < R" "1 < R" "R \<le> 4294967296" "DispatchGroupWidthValid w"
    using assms(1) by (auto simp: dispatch_ranks_def)
  have "0 \<le> d \<and> d < R \<and> d \<noteq> r \<and> dispatch_slot R w r d = (g, l)"
  proof (cases "R = 128 \<and> w = 16")
    case True
    then have "DispatchGroupedPeerSplit128 (int (nat r)) g l = d" "nat r < 128" "g < 8" "l < 16"
      using assms v by (auto simp: DispatchGroupedPeer_def split_group_count)
    then show ?thesis using split_slot_peer [of "nat r" g l d] assms(5) True v by (simp add: dispatch_slot_def)
  next
    case False
    then show ?thesis using ring_slot_peer [OF v(5,3,4) False v(1,2) assms(2,3,4,5)]
      by (auto simp: dispatch_slot_def)
  qed
  then show "d \<in> dispatch_ranks R w" "d \<noteq> r" "dispatch_slot R w r d = (g, l)"
    using v by (auto simp: dispatch_ranks_def)
qed

lemma dispatch_peer_slot:
  assumes "r \<in> dispatch_ranks R w" "d \<in> dispatch_ranks R w" "d \<noteq> r"
  shows "fst (dispatch_slot R w r d) < DispatchGroupedGroupCount R w" "snd (dispatch_slot R w r d) < w"
    "DispatchGroupedPeer r R (fst (dispatch_slot R w r d)) (snd (dispatch_slot R w r d)) w = d"
proof -
  have v: "0 \<le> r" "r < R" "0 \<le> d" "d < R" "1 < R" "R \<le> 4294967296" "DispatchGroupWidthValid w"
    using assms(1,2) by (auto simp: dispatch_ranks_def)
  have "fst (dispatch_slot R w r d) < DispatchGroupedGroupCount R w \<and> snd (dispatch_slot R w r d) < w \<and>
    DispatchGroupedPeer r R (fst (dispatch_slot R w r d)) (snd (dispatch_slot R w r d)) w = d"
  proof (cases "R = 128 \<and> w = 16")
    case True
    then have "nat r < 128" "nat d < 128" "nat d \<noteq> nat r" using v assms(3) by auto
    from split_peer_slot [OF this] show ?thesis using True v
      by (auto simp: dispatch_slot_def split_group_count DispatchGroupedPeer_def)
  next
    case False
    show ?thesis using ring_peer_slot [OF v(7,5,6) False v(1-4) assms(3)] False
      by (auto simp: dispatch_slot_def)
  qed
  then show "fst (dispatch_slot R w r d) < DispatchGroupedGroupCount R w" "snd (dispatch_slot R w r d) < w"
    "DispatchGroupedPeer r R (fst (dispatch_slot R w r d)) (snd (dispatch_slot R w r d)) w = d" by auto
qed

interpretation dispatch: transfer_schedule
  "dispatch_ranks R w" "{..<DispatchGroupedGroupCount R w} \<times> {..<w}" "\<lambda>r. dispatch_ranks R w - {r}"
  "\<lambda>r slot. let p = DispatchGroupedPeer r R (fst slot) (snd slot) w in if p = -1 then None else Some p"
  "dispatch_slot R w"
  for R w
proof
  fix r slot d
  assume r: "r \<in> dispatch_ranks R w" and slot: "slot \<in> {..<DispatchGroupedGroupCount R w} \<times> {..<w}"
    and "(let p = DispatchGroupedPeer r R (fst slot) (snd slot) w in if p = -1 then None else Some p) = Some d"
  then have "DispatchGroupedPeer r R (fst slot) (snd slot) w = d" "d \<noteq> -1" "fst slot < DispatchGroupedGroupCount R w"
    "snd slot < w" by (auto simp: Let_def mem_Times_iff split: if_splits)
  from dispatch_slot_peer [OF r this(3,4,1,2)] show "d \<in> dispatch_ranks R w - {r}" "dispatch_slot R w r d = slot"
    by auto
next
  fix r d assume r: "r \<in> dispatch_ranks R w" and d: "d \<in> dispatch_ranks R w - {r}"
  then have "d \<in> dispatch_ranks R w" "d \<noteq> r" by auto
  note p = dispatch_peer_slot [OF r this]
  show "dispatch_slot R w r d \<in> {..<DispatchGroupedGroupCount R w} \<times> {..<w}"
    using p by (simp add: mem_Times_iff)
  have "d \<noteq> -1" using d by (auto simp: dispatch_ranks_def)
  then show "(let p = DispatchGroupedPeer r R (fst (dispatch_slot R w r d)) (snd (dispatch_slot R w r d)) w
      in if p = -1 then None else Some p) = Some d" by (simp add: Let_def p(3))
qed

section \<open>The peers of a group are mutual\<close>

lemma bidir_ordinal_mirror:
  assumes "cw < 64"
  shows "bidir_ordinal ((64 - cw) mod 64) 64 same div 8 = bidir_ordinal cw 64 same div 8"
proof (cases "cw = 0")
  case False
  have m: "(64 - cw) mod 64 = 64 - cw" "64 - cw < 8 * 8" using False assms by simp_all
  have c: "cw < 8 * 8" using assms by simp
  have "(if 64 - cw < (if 64 - cw = 0 then 0 else 64 - (64 - cw)) then 64 - cw
        else if 64 - cw = 0 then 0 else 64 - (64 - cw)) =
      (if cw < (if cw = 0 then 0 else 64 - cw) then cw else if cw = 0 then 0 else 64 - cw)"
    using False assms by auto
  then show ?thesis
    using bidir_ordinal_step [of 8 "64 - cw"] bidir_ordinal_step [of 8 cw] m c
    by (cases same) simp_all
qed simp

lemma ring_sub_mirror: "a < n \<Longrightarrow> b < n \<Longrightarrow> (a + n - b) mod n = (n - (b + n - a) mod n) mod n"
  for a b n :: nat
proof -
  assume "a < n" "b < n"
  then have "(a + n - b) mod n = (if b \<le> a then a - b else a + n - b)"
    "(b + n - a) mod n = (if a \<le> b then b - a else b + n - a)" by (intro mod_ring_sub; simp)+
  then show ?thesis using \<open>a < n\<close> \<open>b < n\<close> by (cases a b rule: linorder_cases) simp_all
qed

lemma split_slot_group_mirror:
  assumes "0 \<le> r" "0 \<le> p"
  shows "fst (split_slot p r) = fst (split_slot r p)"
proof -
  define a b where "a = nat r mod 64" and "b = nat p mod 64"
  have ab: "a < 64" "b < 64" by (simp_all add: a_def b_def)
  have "(a + 64 - b) mod 64 = (64 - (b + 64 - a) mod 64) mod 64" using ab by (rule ring_sub_mirror)
  moreover have "(b + 64 - a) mod 64 < 64" by simp
  note bidir_ordinal_mirror [OF this, of "nat r div 64 = nat p div 64"]
  moreover have "(nat p div 64 = nat r div 64) = (nat r div 64 = nat p div 64)" by auto
  ultimately show ?thesis
    by (simp only: split_slot_def Let_def bidir_slot_def a_def [symmetric] b_def [symmetric] fst_conv)
qed

lemma ring_slot_group_mirror:
  assumes "0 < R" "0 \<le> r" "r < R" "0 \<le> p" "p < R" "p \<noteq> r"
  shows "fst (ring_slot R w p r) = fst (ring_slot R w r p)"
proof -
  have mod_lt: "(b - a) mod R = (if a \<le> b then b - a else R - (a - b))"
    if "0 \<le> a" "a < R" "0 \<le> b" "b < R" for a b
  proof (cases "a \<le> b")
    case False
    have "(b - a) mod R = (b - a + R) mod R" by simp
    also have "\<dots> = b - a + R" using False that by (intro mod_pos_pos_trivial) linarith+
    finally show ?thesis using False by simp
  qed (use that in simp)
  define c where "c = (p - r) mod R"
  have m: "(r - p) mod R = R - c" "0 < c" "c < R"
    unfolding c_def mod_lt [OF assms(2-5)] mod_lt [OF assms(4,5,2,3)] using assms by auto
  have "(if 2 * (R - c) \<le> R then R - c else R - (R - c)) = (if 2 * c \<le> R then c else R - c)" by auto
  then show ?thesis by (simp only: ring_slot_def Let_def fst_conv m(1) c_def [symmetric])
qed

lemma dispatch_slot_group_mirror:
  assumes "r \<in> dispatch_ranks R w" "p \<in> dispatch_ranks R w" "p \<noteq> r"
  shows "fst (dispatch_slot R w p r) = fst (dispatch_slot R w r p)"
proof -
  have v: "0 < R" "0 \<le> r" "r < R" "0 \<le> p" "p < R" using assms(1,2) by (auto simp: dispatch_ranks_def)
  show ?thesis unfolding dispatch_slot_def
    using split_slot_group_mirror [OF v(2,4)] ring_slot_group_mirror [OF v assms(3)]
    by (cases "R = 128 \<and> w = 16") (simp_all only: simp_thms if_True if_False)
qed

section \<open>Properties\<close>

text \<open>
  C17: In the grouped schedule, for every rank size and every valid group width (the split schedule
  of 128 ranks included), every other rank is the peer of exactly one group and lane, and no slot
  names the rank itself or a rank outside the communicator.
\<close>

theorem dispatch_grouped_covers:
  assumes "0 \<le> r" "r < R" "1 < R" "R \<le> 4294967296" "DispatchGroupWidthValid w"
  shows "(\<forall>d. 0 \<le> d \<and> d < R \<and> d \<noteq> r \<longrightarrow> (\<exists>!slot.
      fst slot < DispatchGroupedGroupCount R w \<and> snd slot < w \<and>
      DispatchGroupedPeer r R (fst slot) (snd slot) w = d)) \<and>
    (\<forall>g l. DispatchGroupedPeer r R g l w = -1 \<or>
      (0 \<le> DispatchGroupedPeer r R g l w \<and> DispatchGroupedPeer r R g l w < R \<and>
       DispatchGroupedPeer r R g l w \<noteq> r))"
proof -
  have r: "r \<in> dispatch_ranks R w" using assms by (simp add: dispatch_ranks_def)
  have "\<exists>!slot. fst slot < DispatchGroupedGroupCount R w \<and> snd slot < w \<and>
      DispatchGroupedPeer r R (fst slot) (snd slot) w = d" if "0 \<le> d" "d < R" "d \<noteq> r" for d
  proof -
    have d: "d \<in> dispatch_ranks R w - {r}" "d \<noteq> -1" using that assms by (auto simp: dispatch_ranks_def)
    then show ?thesis using dispatch.served_once [OF r d(1)]
      by (simp add: Let_def mem_Times_iff) (metis (no_types, lifting) option.inject option.distinct(1))
  qed
  moreover have "DispatchGroupedPeer r R g l w = -1 \<or> (0 \<le> DispatchGroupedPeer r R g l w \<and>
      DispatchGroupedPeer r R g l w < R \<and> DispatchGroupedPeer r R g l w \<noteq> r)" for g l
  proof (cases "g < DispatchGroupedGroupCount R w \<and> l < w")
    case True
    then show ?thesis using dispatch_slot_peer(1,2) [OF r _ _ refl]
      by (auto simp: dispatch_ranks_def)
  next
    case False
    then have "DispatchGroupedPeer r R g l w = -1" by (auto simp: DispatchGroupedPeer_def Let_def)
    then show ?thesis by simp
  qed
  ultimately show ?thesis by blast
qed

theorem dispatch_grouped_covers_witness:
  "\<exists>!slot. fst slot < DispatchGroupedGroupCount 128 16 \<and> snd slot < 16 \<and>
    DispatchGroupedPeer 5 128 (fst slot) (snd slot) 16 = 70"
proof -
  have "DispatchGroupWidthValid 16" by (simp add: DispatchGroupWidthValid_def)
  then show ?thesis
    by (intro dispatch_grouped_covers [of 5 128, THEN conjunct1, THEN spec, of _ 70, THEN mp]) simp_all
qed

text \<open>
  C18: A rank that receives the credit for the next group is a rank that sends to the granting rank
  in that group: it does so on exactly one lane.  No credit goes to a rank that does not wait for it.
\<close>

theorem dispatch_credit_peer_mutual:
  assumes "0 \<le> r" "r < R" "1 < R" "R \<le> 4294967296" "DispatchGroupWidthValid w"
    and "g < 4294967295" "DispatchGroupedNextCreditPeer r R g l w = p" "p \<noteq> -1"
  shows "\<exists>!l'. l' < w \<and> DispatchGroupedPeer p R (g + 1) l' w = r"
proof -
  have r: "r \<in> dispatch_ranks R w" using assms by (simp add: dispatch_ranks_def)
  have pg: "DispatchGroupedPeer r R (g + 1) l w = p"
    using assms(6,7) by (simp add: DispatchGroupedNextCreditPeer_def UINT32_MAX_def u32_id)
  then have gl: "g + 1 < DispatchGroupedGroupCount R w" "l < w"
    using assms(8) by (auto simp: DispatchGroupedPeer_def Let_def split: if_splits)
  note p = dispatch_slot_peer [OF r gl pg assms(8)]
  have "r \<noteq> p" using p(2) by simp
  note s = dispatch_peer_slot [OF p(1) r this]
  have g: "fst (dispatch_slot R w p r) = g + 1"
    using dispatch_slot_group_mirror [OF r p(1,2)] p(3) by simp
  show ?thesis
  proof
    show "snd (dispatch_slot R w p r) < w \<and> DispatchGroupedPeer p R (g + 1) (snd (dispatch_slot R w p r)) w = r"
      using s g by simp
  next
    fix l' assume "l' < w \<and> DispatchGroupedPeer p R (g + 1) l' w = r"
    then show "l' = snd (dispatch_slot R w p r)"
      using dispatch_slot_peer(3) [OF p(1) gl(1), of l' r] assms(1) by simp
  qed
qed

theorem dispatch_credit_peer_mutual_witness:
  "\<exists>!l'. l' < 8 \<and> DispatchGroupedPeer 9 20 1 l' 8 = 4"
proof -
  have "DispatchGroupedNextCreditPeer 4 20 0 0 8 = 9"
    by (simp add: DispatchGroupedNextCreditPeer_def DispatchGroupedPeer_def DispatchGroupedGroupCount_def
        DispatchGroupWidthValid_def UINT32_MAX_def u32_def u64_def Let_def)
  with dispatch_credit_peer_mutual [of 4 20 8 0 0 9] show ?thesis
    by (simp add: DispatchGroupWidthValid_def)
qed

unbundle bit_operations_syntax

section \<open>Ranges, work items and credit words\<close>

lemma ContiguousRange_eq:
  assumes "part < n" "items < 18446744073709551616"
  shows "DispatchContiguousRange items n part =
    (part * (items div n) + min part (items mod n),
     Suc part * (items div n) + min (Suc part) (items mod n))"
proof -
  define q e where "q = items div n" and "e = items mod n"
  have n: "0 < n" using assms(1) by simp
  have it: "items = n * q + e" "e < n" using n by (simp_all add: q_def e_def)
  have "Suc part * q \<le> n * q" using assms(1) by (intro mult_le_mono1) simp
  then have b: "part * q + q + min (Suc part) e \<le> items" unfolding it(1) by simp
  then have w: "part * q < 18446744073709551616" "part * q + min part e < 18446744073709551616"
    "part * q + min part e + q < 18446744073709551616"
    "part * q + min part e + q + (if part < e then 1 else 0) < 18446744073709551616"
    using assms(2) by (auto simp: min_def split: if_splits)
  have m: "(if part < e then part else e) = min part e"
    "part * q + min part e + q + (if part < e then 1 else 0) = Suc part * q + min (Suc part) e"
    by (auto simp: min_def)
  show ?thesis
    using assms(1) n by (simp only: DispatchContiguousRange_def Let_def q_def [symmetric] e_def [symmetric] m(1)
        u64_id [OF w(1)] u64_id [OF w(2)] u64_id [OF w(3)] u64_id [OF w(4), unfolded m(2)] m(2)) simp
qed

text \<open>
  C29: The contiguous ranges of the parts, in order, are a split of all items: their concatenation
  is the sequence of the items, and the sizes of two parts differ by at most one.
\<close>

theorem dispatch_ranges_partition:
  assumes "0 < n" "items < 18446744073709551616"
  shows "concat (map (\<lambda>part. let (s, e) = DispatchContiguousRange items n part in [s..<e]) [0..<n]) = [0..<items] \<and>
    (\<forall>part<n. let (s, e) = DispatchContiguousRange items n part in
       s \<le> e \<and> items div n \<le> e - s \<and> e - s \<le> items div n + 1)"
proof -
  define q e where "q = items div n" and "e = items mod n"
  have it: "items = n * q + e" "e < n" using assms(1) by (simp_all add: q_def e_def)
  have r: "DispatchContiguousRange items n part = (part * q + min part e, Suc part * q + min (Suc part) e)"
    if "part < n" for part
    using ContiguousRange_eq [OF that assms(2)] by (simp only: q_def e_def)
  have "concat (map (\<lambda>part. let (s, e) = DispatchContiguousRange items n part in [s..<e]) [0..<k]) =
      [0..<k * q + min k e]" if "k \<le> n" for k
    using that
  proof (induction k)
    case (Suc k)
    have "k * q + min k e \<le> Suc k * q + min (Suc k) e" by (simp add: min_def)
    then have "[0..<Suc k * q + min (Suc k) e] =
        [0..<k * q + min k e] @ [k * q + min k e..<Suc k * q + min (Suc k) e]"
      by (metis le_add_diff_inverse less_eq_nat.simps(1) upt_add_eq_append)
    then show ?case using Suc r [of k] by (simp add: Let_def)
  qed simp
  from this [of n] have "concat (map (\<lambda>part. let (s, e) = DispatchContiguousRange items n part in [s..<e]) [0..<n]) =
      [0..<items]" using it by simp
  moreover have "let (s, e) = DispatchContiguousRange items n part in
       s \<le> e \<and> items div n \<le> e - s \<and> e - s \<le> items div n + 1" if "part < n" for part
    unfolding r [OF that] q_def [symmetric] Let_def prod.case
    by (cases "Suc part \<le> e") (auto simp: min_def)
  ultimately show ?thesis by blast
qed

theorem dispatch_ranges_partition_witness:
  "concat (map (\<lambda>part. let (s, e) = DispatchContiguousRange 10 4 part in [s..<e]) [0..<4]) = [0..<10]"
  by (rule dispatch_ranges_partition [of 4 10, THEN conjunct1]) simp_all

text \<open>
  C30: Credit tokens compare like pairs of launch and group: a credit is accepted exactly when it
  was written for the same launch and at least the same group, or for a later launch.
\<close>

theorem dispatch_credit_order:
  assumes "DispatchCreditToken magic grp = Some observed" "DispatchCreditToken magic' grp' = Some expected"
  shows "DispatchCreditReady observed expected =
    (magic' < magic \<or> (magic' = magic \<and> grp' \<le> grp))"
proof -
  have tok: "t = (g + 1) + nat m * 65536 \<and> 0 < m \<and> g + 1 < 65536"
    if "DispatchCreditToken m g = Some t" for m g t
  proof -
    have b: "0 < m" "nat m \<le> 281474976710655" "g + 1 < 65536"
      using that by (auto simp: DispatchCreditToken_def split: if_splits)
    have "u64 (push_bit 16 (nat m)) = push_bit 16 (nat m)" "u64 (g + 1) = g + 1"
      using b by (auto simp: push_bit_eq_mult intro!: u64_id)
    moreover have "(g + 1) OR push_bit 16 (nat m) = (g + 1) + nat m * 2 ^ 16"
      using b(3) by (intro or_push_bit_add) simp
    ultimately show ?thesis using that b by (auto simp: DispatchCreditToken_def or.commute split: if_splits)
  qed
  have lex: "(a + b * 65536 \<le> c + d * 65536) = (b < d \<or> (b = d \<and> a \<le> c))"
    if "a < 65536" "c < 65536" for a b c d :: nat
    using that by (cases b d rule: linorder_cases) auto
  note o = tok [OF assms(1)] and x = tok [OF assms(2)]
  have "DispatchCreditReady observed expected = (nat magic' < nat magic \<or> (nat magic' = nat magic \<and> grp' \<le> grp))"
    using o x lex [of "grp' + 1" "grp + 1" "nat magic'" "nat magic"] by (simp add: DispatchCreditReady_def)
  then show ?thesis using o x by auto
qed

theorem dispatch_credit_order_witness:
  "\<not> DispatchCreditReady 196611 196612"
  using dispatch_credit_order [of 3 2 196611 3 3 196612]
  by (simp add: DispatchCreditToken_def u64_def push_bit_eq_mult)

section \<open>Work items of the cores\<close>

text \<open>Item \<open>a\<close> belongs to the core \<open>a mod cc\<close> as its work item \<open>a div cc\<close>.\<close>

lemma strided_item:
  fixes a cc :: nat
  assumes "0 < cc" "a < n"
  shows "a div cc < n div cc + (if n mod cc = 0 then 0 else 1)" "a mod cc + a div cc * cc = a"
proof -
  show "a mod cc + a div cc * cc = a" by simp
  show "a div cc < n div cc + (if n mod cc = 0 then 0 else 1)"
  proof (cases "n mod cc = 0")
    case True
    then have "n = n div cc * cc" by auto
    then have "a < n div cc * cc" using assms(2) by simp
    then have "a div cc < n div cc" by (rule less_mult_imp_div_less)
    then show ?thesis by simp
  next
    case False
    have "a div cc \<le> n div cc" using assms(2) by (intro div_le_mono) simp
    then show ?thesis using False by simp
  qed
qed

lemma strided_unique: "c < cc \<Longrightarrow> c + w * cc = a \<Longrightarrow> c = a mod cc \<and> w = a div cc"
  for c cc w a :: nat
  by auto

text \<open>
  C27: The work items of the cores enumerate the assignments of the grouped schedule: every group
  and lane is executed by exactly one core, as exactly one of its work items, with the peer that
  the schedule gives it.
\<close>

theorem dispatch_core_work_covers:
  assumes "1 < R" "R \<le> 2147483648" "DispatchGroupWidthValid w" "0 < cc" "cc \<le> 64"
    and "g < DispatchGroupedGroupCount R w" "l < w"
  shows "\<exists>!item. fst item < cc \<and> snd item < DispatchGroupedPeerWorkCount R w cc \<and>
    DispatchGroupedPeerForCore r R w (fst item) cc (snd item) = (DispatchGroupedPeer r R g l w, g, l)"
proof -
  define n where "n = DispatchGroupedGroupCount R w * w"
  have wc: "w = 8 \<or> w = 16" using assms(3) by (auto simp: DispatchGroupWidthValid_def)
  have nb: "n < 2147483664"
    using GroupedGroupCount_bounds(2) [OF assms(3,1)] assms(2) wc by (auto simp: n_def)
  have n: "DispatchGroupedAssignmentCount R w = n" "n \<noteq> 0"
    using nb assms(6,7) by (simp_all add: DispatchGroupedAssignmentCount_def n_def wrap_simps)
  define a where "a = g * w + l"
  have a: "a < n" "a div w = g" "a mod w = l"
    unfolding n_def a_def using assms(6,7) by (auto intro: coord_bound)
  define k where "k = n div cc + (if n mod cc = 0 then 0 else 1)"
  have "k \<le> n + 1" unfolding k_def by (intro add_mono div_le_dividend) simp
  then have kb: "k < 4294967296" using nb by linarith
  have wk: "DispatchGroupedPeerWorkCount R w cc = k"
    using assms(4,5) n u32_id [OF kb] by (simp add: DispatchGroupedPeerWorkCount_def Let_def k_def)
  have it: "DispatchGroupedPeerForCore r R w c cc j = (if n \<le> c + j * cc then (-1, UINT32_MAX, UINT32_MAX)
      else (DispatchGroupedPeer r R ((c + j * cc) div w) ((c + j * cc) mod w) w, (c + j * cc) div w, (c + j * cc) mod w))"
    if c: "c < cc" and j: "j < k" for c j
  proof -
    have "j * cc \<le> k * 64" using j assms(5) by (intro mult_le_mono) simp_all
    then have u: "u64 (j * cc) = j * cc" "u64 (c + j * cc) = c + j * cc"
      using kb c assms(5) by (simp_all add: wrap_simps)
    have v: "u32 ((c + j * cc) div w) = (c + j * cc) div w" "u32 ((c + j * cc) mod w) = (c + j * cc) mod w"
      if "c + j * cc < n"
    proof -
      have "(c + j * cc) div w \<le> c + j * cc" "(c + j * cc) mod w \<le> c + j * cc" by simp_all
      then show "u32 ((c + j * cc) div w) = (c + j * cc) div w" "u32 ((c + j * cc) mod w) = (c + j * cc) mod w"
        using that nb by (intro u32_id; linarith)+
    qed
    have g: "cc = 0 \<or> kDispatchAivCoreCount < cc \<or> cc \<le> c \<longleftrightarrow> False" using assms(4,5) c by auto
    show ?thesis
      by (cases "n \<le> c + j * cc") (simp_all only: DispatchGroupedPeerForCore_def g if_False if_True Let_def u n(1)
          not_le v)
  qed
  show ?thesis
  proof
    show "fst (a mod cc, a div cc) < cc \<and> snd (a mod cc, a div cc) < DispatchGroupedPeerWorkCount R w cc \<and>
      DispatchGroupedPeerForCore r R w (fst (a mod cc, a div cc)) cc (snd (a mod cc, a div cc)) =
        (DispatchGroupedPeer r R g l w, g, l)"
      using strided_item [OF assms(4) a(1)] it [of "a mod cc" "a div cc"] assms(4) a
      by (simp add: wk k_def [symmetric])
  next
    fix item
    assume i: "fst item < cc \<and> snd item < DispatchGroupedPeerWorkCount R w cc \<and>
      DispatchGroupedPeerForCore r R w (fst item) cc (snd item) = (DispatchGroupedPeer r R g l w, g, l)"
    define b where "b = fst item + snd item * cc"
    have "g < 4294967295"
    proof -
      have "g * 8 \<le> g * w" using wc by auto
      then show ?thesis using a(1) nb unfolding a_def by linarith
    qed
    then have "g = b div w" "l = b mod w"
      using it [of "fst item" "snd item"] i by (auto simp: wk b_def UINT32_MAX_def split: if_splits)
    then have "b = a" by (simp add: a_def)
    then show "item = (a mod cc, a div cc)" using strided_unique [of "fst item" cc "snd item" a] i
      by (simp add: b_def prod_eq_iff)
  qed
qed

theorem dispatch_core_work_covers_witness:
  "\<exists>!item. fst item < 16 \<and> snd item < DispatchGroupedPeerWorkCount 64 16 16 \<and>
    DispatchGroupedPeerForCore 3 64 16 (fst item) 16 (snd item) = (DispatchGroupedPeer 3 64 2 5 16, 2, 5)"
  by (rule dispatch_core_work_covers)
    (simp_all add: DispatchGroupWidthValid_def DispatchGroupedGroupCount_def u32_def)

text \<open>
  C28: In the legacy schedule, over the phases, the cores and their work items, every rank of the
  communicator is named exactly once by every rank, for every number of cores.
\<close>

theorem dispatch_legacy_covers:
  assumes "0 \<le> r" "r < R" "0 < cc" "cc \<le> 64" "0 \<le> p" "p < R"
  shows "\<exists>!(phase, core, work). 0 \<le> phase \<and> phase < DispatchGroupCount R \<and> core < cc \<and>
    work < DispatchPeerWorkCount cc \<and> DispatchPeerForCore r R phase core cc work = p"
proof -
  define G where "G = DispatchGroupCount R"
  define P Q where "P = p div 64" and "Q = r div 64"
  have lt: "0 \<le> x div 64 \<and> x div 64 < G" if "0 \<le> x" "x < R" for x
  proof -
    have "x div 64 \<le> R div 64" using that by (intro zdiv_mono1) simp_all
    moreover have "R mod 64 = 0 \<Longrightarrow> x div 64 < R div 64"
      using that mult_div_mod_eq [of 64 R] mult_div_mod_eq [of 64 x] pos_mod_sign [of 64 x] by linarith
    ultimately show ?thesis using that by (auto simp: DispatchGroupCount_def G_def)
  qed
  have G: "0 \<le> P" "P < G" "0 \<le> Q" "Q < G" using lt assms by (auto simp: P_def Q_def)
  define off where "off = nat (p mod 64)"
  have off: "off < 64" "int off = p mod 64" "p = P * 64 + int off"
    by (auto simp: off_def P_def nat_less_iff)
  define k where "k = 64 div cc + (if 64 mod cc = 0 then 0 else 1)"
  have wk: "DispatchPeerWorkCount cc = k" using assms(3,4) by (simp add: DispatchPeerWorkCount_def k_def)
  have "k \<le> 64 + 1" unfolding k_def by (intro add_mono div_le_dividend) simp
  then have kb: "k \<le> 65" by simp
  have peer: "(DispatchPeerForCore r R ph c cc j = p) = ((Q + ph) mod G = P \<and> c + j * cc = off)"
    if ph: "0 \<le> ph" "ph < G" and c: "c < cc" and j: "j < k" for ph c j
  proof -
    have "j * cc \<le> 65 * 64" using j kb assms(4) by (intro mult_le_mono) simp_all
    then have u: "u64 (c + u64 (j * cc)) = c + j * cc" using c assms(4) by (simp add: wrap_simps)
    define tg where "tg = (Q + ph) mod G"
    have tg: "0 \<le> tg" using G by (simp add: tg_def)
    have t: "DispatchTargetGroup r R ph = tg"
      using ph assms(1,2) by (simp add: DispatchTargetGroup_def Let_def G_def [symmetric] tg_def Q_def)
    have "DispatchPeerForCore r R ph c cc j = (if 64 \<le> c + j * cc then -1
        else if tg * 64 + int (c + j * cc) < R then tg * 64 + int (c + j * cc) else -1)"
      using assms(3,4) c tg by (simp add: DispatchPeerForCore_def Let_def u t)
    then have "(DispatchPeerForCore r R ph c cc j = p) =
        (c + j * cc < 64 \<and> tg * 64 + int (c + j * cc) = p)" using assms(5,6) by auto
    also have "\<dots> = (tg = P \<and> c + j * cc = off)"
    proof -
      have "tg = P \<and> x = off" if "x < 64" "tg * 64 + int x = p" for x :: nat
      proof -
        have "(tg * 64 + int x) div 64 = tg" using that(1) by simp
        then have "P = tg" unfolding P_def that(2) .
        then show ?thesis using that(2) off(3) by simp
      qed
      then have "(x < 64 \<and> tg * 64 + int x = p) = (tg = P \<and> x = off)" for x using off(1,3) by metis
      then show ?thesis .
    qed
    finally show ?thesis by (simp only: tg_def)
  qed
  define ph where "ph = (P - Q) mod G"
  have ph: "0 \<le> ph" "ph < G" "(Q + ph) mod G = P"
    using G by (simp_all add: ph_def mod_add_right_eq)
  have item: "off mod cc < cc" "off div cc < k" "off mod cc + off div cc * cc = off"
    using strided_item [OF assms(3) off(1)] assms(3) by (simp_all add: k_def)
  show ?thesis
  proof (rule ex1I [of _ "(ph, off mod cc, off div cc)"])
    show "case (ph, off mod cc, off div cc) of (phase, core, work) \<Rightarrow> 0 \<le> phase \<and>
        phase < DispatchGroupCount R \<and> core < cc \<and> work < DispatchPeerWorkCount cc \<and>
        DispatchPeerForCore r R phase core cc work = p"
      using ph item peer [OF ph(1,2) item(1,2)] by (simp add: wk G_def [symmetric])
  next
    fix x assume "case x of (phase, core, work) \<Rightarrow> 0 \<le> phase \<and> phase < DispatchGroupCount R \<and>
        core < cc \<and> work < DispatchPeerWorkCount cc \<and> DispatchPeerForCore r R phase core cc work = p"
    then obtain y c j where x: "x = (y, c, j)" "0 \<le> y" "y < G" "c < cc" "j < k"
      "DispatchPeerForCore r R y c cc j = p" by (auto simp: wk G_def)
    then have e: "(Q + y) mod G = P" "c + j * cc = off" using peer by auto
    have "ph = ((Q + y) - Q) mod G" unfolding ph_def e(1) [symmetric] by (simp add: mod_diff_left_eq)
    then have "y = ph" using x(2,3) by simp
    then show "x = (ph, off mod cc, off div cc)" using strided_unique [OF x(4) e(2)] x(1) by simp
  qed
qed

theorem dispatch_legacy_covers_witness:
  "\<exists>!(phase, core, work). 0 \<le> phase \<and> phase < DispatchGroupCount 100 \<and> core < 24 \<and>
    work < DispatchPeerWorkCount 24 \<and> DispatchPeerForCore 70 100 phase core 24 work = 12"
  by (rule dispatch_legacy_covers) simp_all

end
