(* ===== verification/DispatchWqe.thy ===== *)
theory DispatchWqe
  imports WqeRing DispatchCommon
begin

text \<open>
  The queue arithmetic of the URMA dispatch,
  \<^verbatim>\<open>src/src/moonep/dispatch/urma/common/dispatch_wqe_batch.h\<close>: payload and weight entries per route,
  physical queue pairs of the cores, batches, completions, and the split over two queue pairs.
\<close>

unbundle bit_operations_syntax

section \<open>Definitions\<close>

definition kDispatchWqeBatchCapacity :: nat where [simp]: "kDispatchWqeBatchCapacity = 128"
definition kDispatchQpCount :: nat where [simp]: "kDispatchQpCount = 2"
definition kDispatchQpSplitPeriod :: nat where [simp]: "kDispatchQpSplitPeriod = 4"
definition kDispatchSqPollReserve :: nat where [simp]: "kDispatchSqPollReserve = 10"
definition kDispatchSharedQpCoreCount :: nat where [simp]: "kDispatchSharedQpCoreCount = 16"
definition kDispatchSharedPayloadQpCount :: nat where
  [simp]: "kDispatchSharedPayloadQpCount = kDispatchQpCount * kDispatchSharedQpCoreCount"
definition kDispatchSharedCreditQpBase :: nat where
  [simp]: "kDispatchSharedCreditQpBase = kDispatchSharedPayloadQpCount"
definition kDispatchSharedCreditQpCount :: nat where
  [simp]: "kDispatchSharedCreditQpCount = kDispatchSharedQpCoreCount"
definition kDispatchSharedQpCount :: nat where
  [simp]: "kDispatchSharedQpCount = kDispatchSharedPayloadQpCount + kDispatchSharedCreditQpCount"

definition DispatchPayloadWqesPerRoute :: "bool \<Rightarrow> nat" where
  "DispatchPayloadWqesPerRoute hasWeight = (if hasWeight then 2 else 1)"

text \<open>\<open>None\<close> is the \<open>false\<close> result, with the reference argument reset to 0.\<close>

definition DispatchDataWqeCount :: "nat \<Rightarrow> bool \<Rightarrow> nat option" where
  "DispatchDataWqeCount routeCount hasWeight =
     (let perRoute = DispatchPayloadWqesPerRoute hasWeight in
      if UINT64_MAX div perRoute < routeCount then None else Some (u64 (routeCount * perRoute)))"

definition DispatchDataTaskRouteIndex :: "nat \<Rightarrow> bool \<Rightarrow> nat" where
  "DispatchDataTaskRouteIndex dataTask hasWeight = (if hasWeight then dataTask div 2 else dataTask)"

definition DispatchDataTaskIsWeight :: "nat \<Rightarrow> bool \<Rightarrow> bool" where
  "DispatchDataTaskIsWeight dataTask hasWeight \<longleftrightarrow> hasWeight \<and> (dataTask AND 1) \<noteq> 0"

definition DispatchSignalFitsAfterData :: "nat \<Rightarrow> bool \<Rightarrow> nat \<Rightarrow> bool" where
  "DispatchSignalFitsAfterData remainingRoutes hasWeight availableWqes \<longleftrightarrow>
     (case DispatchDataWqeCount remainingRoutes hasWeight of
        None \<Rightarrow> False
      | Some remainingDataWqes \<Rightarrow> u64 (remainingDataWqes + 1) \<le> availableWqes)"

definition DispatchQpCountSupported :: "nat \<Rightarrow> bool \<Rightarrow> bool" where
  "DispatchQpCountSupported availableQpCount sharedQp \<longleftrightarrow>
     (if sharedQp then availableQpCount = kDispatchSharedQpCount else kDispatchQpCount \<le> availableQpCount)"

definition DispatchPeerCoreCount :: "nat \<Rightarrow> bool \<Rightarrow> nat" where
  "DispatchPeerCoreCount launchedCoreCount sharedQp =
     (if launchedCoreCount = 0 \<or> kDispatchAivCoreCount < launchedCoreCount then 0
      else if sharedQp \<and> kDispatchSharedQpCoreCount < launchedCoreCount
      then kDispatchSharedQpCoreCount else launchedCoreCount)"

definition DispatchPhysicalQpIndex :: "nat \<Rightarrow> nat \<Rightarrow> bool \<Rightarrow> nat" where
  "DispatchPhysicalQpIndex logicalQpIdx coreIdx sharedQp =
     (if kDispatchQpCount \<le> logicalQpIdx then UINT32_MAX
      else if \<not> sharedQp then logicalQpIdx
      else if kDispatchSharedQpCoreCount \<le> coreIdx then UINT32_MAX
      else u32 (u32 (logicalQpIdx * kDispatchSharedQpCoreCount) + coreIdx))"

definition DispatchCreditPhysicalQpIndex :: "nat \<Rightarrow> bool \<Rightarrow> nat" where
  "DispatchCreditPhysicalQpIndex coreIdx sharedQp =
     (if \<not> sharedQp then 0
      else if coreIdx < kDispatchSharedQpCoreCount then u32 (kDispatchSharedCreditQpBase + coreIdx)
      else UINT32_MAX)"

definition DispatchWqeBatchCount :: "nat \<Rightarrow> nat \<Rightarrow> nat \<Rightarrow> nat" where
  "DispatchWqeBatchCount remainingWqes sqHead sqEntryCount =
     (if remainingWqes = 0 \<or> sqEntryCount = 0 then 0
      else let ringRemaining = sub32 sqEntryCount (sqHead mod sqEntryCount);
               count = (if remainingWqes < kDispatchWqeBatchCapacity then remainingWqes
                        else kDispatchWqeBatchCapacity);
               count = (if ringRemaining < count then ringRemaining else count)
           in u32 count)"

definition DispatchCqePollBatchCount :: "nat \<Rightarrow> nat \<Rightarrow> nat \<Rightarrow> nat" where
  "DispatchCqePollBatchCount cqTail cqEntryCount batchCapacity =
     (if cqEntryCount = 0 \<or> batchCapacity = 0 then 0
      else let ringRemaining = sub32 cqEntryCount (cqTail mod cqEntryCount) in
           if ringRemaining < batchCapacity then ringRemaining else batchCapacity)"

definition DispatchCqeOwnerReady :: "nat \<Rightarrow> nat \<Rightarrow> nat \<Rightarrow> bool" where
  "DispatchCqeOwnerReady cqTail cqEntryCount owner =
     (if cqEntryCount = 0 then False
      else let producerOwner = (cqTail div cqEntryCount) AND 1 in (owner AND 1) \<noteq> producerOwner)"

definition DispatchCompletedSqTail :: "nat \<Rightarrow> nat \<Rightarrow> nat \<Rightarrow> nat \<Rightarrow> nat option" where
  "DispatchCompletedSqTail sqTail outstanding cqeEntryIdx sqEntryCount =
     (if sqEntryCount = 0 \<or> outstanding = 0 \<or> sqEntryCount \<le> outstanding then None
      else let completedRingTail = u32 (cqeEntryIdx mod sqEntryCount + 1) mod sqEntryCount;
               currentRingTail = sqTail mod sqEntryCount;
               advance = sub32 (u32 (completedRingTail + sqEntryCount)) currentRingTail mod sqEntryCount
           in if advance = 0 \<or> outstanding < advance then None else Some (u32 (sqTail + advance)))"

definition DispatchSqTailIsFurther :: "nat \<Rightarrow> nat \<Rightarrow> nat \<Rightarrow> bool" where
  "DispatchSqTailIsFurther sqTail candidateSqTail completedSqTail \<longleftrightarrow>
     sub32 completedSqTail sqTail < sub32 candidateSqTail sqTail"

definition DispatchQp1RouteCount :: "nat \<Rightarrow> nat \<Rightarrow> nat" where
  "DispatchQp1RouteCount routeCount sequencePhase =
     (let firstQp1 = sub32 3 (sequencePhase AND 3) AND 3 in
      if routeCount \<le> firstQp1 then 0
      else u32 (1 + sub32 (sub32 routeCount 1) firstQp1 div kDispatchQpSplitPeriod))"

definition DispatchQpRouteCount :: "nat \<Rightarrow> nat \<Rightarrow> nat \<Rightarrow> nat" where
  "DispatchQpRouteCount routeCount sequencePhase qpIdx =
     (let qp1Count = DispatchQp1RouteCount routeCount sequencePhase in
      if qpIdx = 0 then sub32 routeCount qp1Count else if qpIdx = 1 then qp1Count else 0)"

definition DispatchQpSelectedIndex :: "nat \<Rightarrow> nat \<Rightarrow> nat \<Rightarrow> nat" where
  "DispatchQpSelectedIndex qpRouteIndex sequencePhase qpIdx =
     (let firstQp1 = sub32 3 (sequencePhase AND 3) AND 3 in
      if qpIdx = 1 then u32 (firstQp1 + u32 (qpRouteIndex * kDispatchQpSplitPeriod))
      else if qpIdx \<noteq> 0 then UINT32_MAX
      else if qpRouteIndex < firstQp1 then qpRouteIndex
      else let afterPrefix = sub32 qpRouteIndex firstQp1 in
           u32 (u32 (u32 (firstQp1 + 1) + u32 (afterPrefix div 3 * kDispatchQpSplitPeriod)) +
                afterPrefix mod 3))"

definition DispatchPeerWqesStreamable :: "nat \<Rightarrow> nat \<Rightarrow> nat \<Rightarrow> bool \<Rightarrow> bool" where
  "DispatchPeerWqesStreamable routeCount sqEntryCount reserve hasWeight =
     (if UINT32_MAX < routeCount \<or> DispatchDataWqeCount routeCount hasWeight = None \<or>
         sqEntryCount \<le> reserve
      then False
      else kDispatchWqeBatchCapacity \<le> sub32 sqEntryCount reserve)"

definition DispatchGroupedBatchNeedsCompletion :: "nat \<Rightarrow> bool" where
  "DispatchGroupedBatchNeedsCompletion batchCount \<longleftrightarrow> batchCount \<noteq> 0"

definition DispatchRouteTileCount :: "nat \<Rightarrow> nat \<Rightarrow> nat \<Rightarrow> nat" where
  "DispatchRouteTileCount routeCount tileStart tileCapacity =
     (if routeCount \<le> tileStart \<or> tileCapacity = 0 then 0
      else let remaining = sub32 routeCount tileStart in
           if remaining < tileCapacity then remaining else tileCapacity)"

section \<open>The contracts of the shared library\<close>

lemma Qp1RouteCount_eq: "n < 4294967296 \<Longrightarrow> DispatchQp1RouteCount n phase = qp1_count n phase"
  using qp1_count_code [of n phase]
  by (simp only: DispatchQp1RouteCount_def first_qp1_code Let_def kDispatchQpSplitPeriod_def)

interpretation dispatch_split: qp_split DispatchQpRouteCount DispatchQpSelectedIndex
proof
  fix n phase :: nat assume n: "n < 4294967296"
  show "DispatchQpRouteCount n phase 0 = n - qp1_count n phase"
    "DispatchQpRouteCount n phase 1 = qp1_count n phase"
    using n qp1_count_le [of n phase]
    by (simp_all add: DispatchQpRouteCount_def Qp1RouteCount_eq sub32_id)
next
  fix j phase :: nat assume "first_qp1 phase + 4 * j < 4294967296"
  then show "DispatchQpSelectedIndex j phase 1 = first_qp1 phase + 4 * j"
    by (simp add: DispatchQpSelectedIndex_def first_qp1_code Let_def wrap_simps mult.commute)
next
  fix j phase :: nat assume "qp0_index j phase < 4294967296"
  note c = qp0_index_code [OF this]
  show "DispatchQpSelectedIndex j phase 0 = qp0_index j phase"
  proof (cases "j < first_qp1 phase")
    case False
    then show ?thesis using c by (simp only: DispatchQpSelectedIndex_def first_qp1_code Let_def
          kDispatchQpSplitPeriod_def zero_neq_one if_False simp_thms)
  qed (simp add: DispatchQpSelectedIndex_def first_qp1_code qp0_index_def Let_def)
qed

interpretation dispatch_sq: sq_ring DispatchCompletedSqTail
proof
  fix n t out idx :: nat assume n: "n \<le> 2147483648"
  show "DispatchCompletedSqTail t out idx n =
    (if n = 0 \<or> out = 0 \<or> n \<le> out then None
     else if sq_advance t idx n = 0 \<or> out < sq_advance t idx n then None
     else Some (u32 (t + sq_advance t idx n)))"
    using sq_advance_code [OF _ n] by (cases "n = 0") (simp_all add: DispatchCompletedSqTail_def Let_def)
qed

section \<open>Properties\<close>

text \<open>
  C33: The two queue pairs of a dispatch batch partition its routes: each queue pair enumerates
  exactly the positions of its lane, each once, with the announced counts.
\<close>

theorem dispatch_qp_split_partitions:
  assumes "n < 4294967296" "qp < 2"
  shows "bij_betw (\<lambda>j. DispatchQpSelectedIndex j phase qp) {..<DispatchQpRouteCount n phase qp}
      {i. i < n \<and> ((phase + i) mod kDispatchQpSplitPeriod = 3) = (qp = 1)} \<and>
    DispatchQpRouteCount n phase 0 + DispatchQpRouteCount n phase 1 = n"
  using dispatch_split.split_bij [OF assms, of phase] dispatch_split.rows_sum [OF assms(1), of phase] by simp

theorem dispatch_qp_split_partitions_witness:
  "DispatchQpRouteCount 10 2 0 + DispatchQpRouteCount 10 2 1 = 10"
  using dispatch_qp_split_partitions [of 10 1 2] by simp

text \<open>
  C32: The completion of the \<open>k\<close>-th outstanding entry of a dispatch queue gives the tail advanced by
  \<open>k\<close>, across ring and counter wraps, and of two completions of the same queue the later one is the
  one that \<open>DispatchSqTailIsFurther\<close> prefers.
\<close>

theorem dispatch_completion_order:
  assumes "n \<le> 2147483648" "n dvd 4294967296" "0 < k" "k \<le> out" "0 < k'" "k' \<le> out" "out < n"
    and "idx mod n = u32 (t + k - 1) mod n" "idx' mod n = u32 (t + k' - 1) mod n" "t < 4294967296"
  shows "\<exists>tail tail'. DispatchCompletedSqTail t out idx n = Some tail \<and>
    DispatchCompletedSqTail t out idx' n = Some tail' \<and>
    tail = u32 (t + k) \<and> tail' = u32 (t + k') \<and> DispatchSqTailIsFurther t tail tail' = (k' < k)"
proof -
  have "sub32 (u32 (t + k)) t = k" "sub32 (u32 (t + k')) t = k'"
    using sub32_diff [of k t] sub32_diff [of k' t] assms(1,4,6,7) u32_id [OF assms(10)] by simp_all
  then show ?thesis
    using dispatch_sq.completed_of_entry [OF assms(1,2,3,4,7,8)]
      dispatch_sq.completed_of_entry [OF assms(1,2,5,6,7,9)]
    by (simp add: DispatchSqTailIsFurther_def)
qed

theorem dispatch_completion_order_witness:
  "DispatchCompletedSqTail 4294967295 4 1 8 = Some 2"
  using dispatch_completion_order [of 8 3 4 1 1 4294967295 7]
  by (simp add: u32_def) 

text \<open>
  C39: In both modes the payload and credit queue pairs of a core are those the communicator provides.
  With shared queue pairs, the two payload queue pairs and the credit queue pair of all cores are
  pairwise different and are exactly the queue pairs below the shared count.  Without sharing, every
  core sends its payload on queue pairs 0 and 1 and its credits on queue pair 0, the first payload
  queue pair.  In either mode the index is the invalid one only for a logical queue pair that does not
  exist or, with sharing, for a core beyond those that share.
\<close>

theorem dispatch_qps_by_mode:
  "distinct (concat (map (\<lambda>core. [DispatchPhysicalQpIndex 0 core True, DispatchPhysicalQpIndex 1 core True,
      DispatchCreditPhysicalQpIndex core True]) [0..<kDispatchSharedQpCoreCount])) \<and>
   set (concat (map (\<lambda>core. [DispatchPhysicalQpIndex 0 core True, DispatchPhysicalQpIndex 1 core True,
      DispatchCreditPhysicalQpIndex core True]) [0..<kDispatchSharedQpCoreCount])) = {..<kDispatchSharedQpCount} \<and>
   [DispatchPhysicalQpIndex 0 core False, DispatchPhysicalQpIndex 1 core False, DispatchCreditPhysicalQpIndex core False] = [0, 1, 0] \<and>
   (DispatchPhysicalQpIndex q core sharedQp = UINT32_MAX) = (kDispatchQpCount \<le> q \<or> sharedQp \<and> kDispatchSharedQpCoreCount \<le> core) \<and>
   (DispatchCreditPhysicalQpIndex core sharedQp = UINT32_MAX) = (sharedQp \<and> kDispatchSharedQpCoreCount \<le> core)"
  (is "?distinct \<and> ?all \<and> ?own \<and> ?payload \<and> ?credit")
proof (intro conjI)
  show ?distinct by (simp add: DispatchPhysicalQpIndex_def DispatchCreditPhysicalQpIndex_def u32_def upt_rec)
  show ?all by (simp add: DispatchPhysicalQpIndex_def DispatchCreditPhysicalQpIndex_def u32_def upt_rec
        lessThan_nat_numeral lessThan_Suc insert_commute) (simp only: numeral_2_eq_2)
  show ?own by (simp add: DispatchPhysicalQpIndex_def DispatchCreditPhysicalQpIndex_def)
  show ?payload by (auto simp: DispatchPhysicalQpIndex_def u32_def UINT32_MAX_def)
  show ?credit by (auto simp: DispatchCreditPhysicalQpIndex_def u32_def UINT32_MAX_def)
qed

end
