(* ===== verification/PlanSort.thy ===== *)
theory PlanSort
  imports TX_Prelude "HOL-Library.Multiset"
begin

unbundle bit_operations_syntax

text \<open>
  The insertion sorts of the planner.  The planner orders ranks, experts and remote slots with
  the same in-place loop (take the value at \<open>i\<close>, shift the larger prefix up, store it in the
  hole) under four comparators.  The locale \<open>insertion_order\<close> states what a comparator must
  satisfy and proves the loop correct once; every comparator of the source is an interpretation.
\<close>

section \<open>Flat indices and comparators\<close>

definition MinI32 :: "int \<Rightarrow> int \<Rightarrow> int" where "MinI32 a b = (if a < b then a else b)"
definition MaxI32 :: "int \<Rightarrow> int \<Rightarrow> int" where "MaxI32 a b = (if a > b then a else b)"

definition ReIndex :: "int \<Rightarrow> int \<Rightarrow> int \<Rightarrow> int" where
  "ReIndex r e expertNum = r * expertNum + e"

definition PairIndex :: "int \<Rightarrow> int \<Rightarrow> int \<Rightarrow> int" where
  "PairIndex s d rankSize = s * rankSize + d"

definition HomeRank :: "int \<Rightarrow> int \<Rightarrow> int" where
  "HomeRank e expertsPerRank = e div expertsPerRank"

text \<open>The order of \<open>SortRanks\<close>: by load, then by global rank, then by rank.\<close>

definition rank_better :: "int arr \<Rightarrow> int arr \<Rightarrow> bool \<Rightarrow> int \<Rightarrow> int \<Rightarrow> bool" where
  "rank_better rankLoad globalRankIds ascending value rhs =
    (if rankLoad value \<noteq> rankLoad rhs
     then (if ascending then rankLoad value < rankLoad rhs else rankLoad value > rankLoad rhs)
     else if globalRankIds value \<noteq> globalRankIds rhs then globalRankIds value < globalRankIds rhs
     else value < rhs)"

definition cast_u32 :: "int \<Rightarrow> int" where "cast_u32 x = x mod 4294967296"

definition BetterAffinity :: "int \<Rightarrow> int \<Rightarrow> int \<Rightarrow> int arr \<Rightarrow> bool" where
  "BetterAffinity lhs rhs dst globalRankIds =
    (let did = cast_u32 (globalRankIds dst); lid = cast_u32 (globalRankIds lhs);
         rid = cast_u32 (globalRankIds rhs); ld = lid XOR did; rd = rid XOR did
     in if ld \<noteq> rd then ld < rd else if lid \<noteq> rid then lid < rid else lhs < rhs)"

text \<open>The order of the experts of a sender: the loop of \<open>ApplyExpertMove\<close> stops shifting when
  the value has the smaller allocation, or the same allocation and the larger number.\<close>

definition expert_better :: "int arr \<Rightarrow> int \<Rightarrow> int \<Rightarrow> int \<Rightarrow> int \<Rightarrow> bool" where
  "expert_better alloc expertNum home value prior =
    (let valueAlloc = alloc (ReIndex home value expertNum);
         priorAlloc = alloc (ReIndex home prior expertNum)
     in \<not> (valueAlloc < priorAlloc \<or> (valueAlloc = priorAlloc \<and> value > prior)))"

definition BetterRemote :: "int arr \<Rightarrow> int \<Rightarrow> int \<Rightarrow> int \<Rightarrow> int \<Rightarrow> bool" where
  "BetterRemote alloc expertNum dst lhs rhs =
    (let la = alloc (ReIndex dst lhs expertNum); ra = alloc (ReIndex dst rhs expertNum)
     in if la \<noteq> ra then la > ra else lhs < rhs)"

section \<open>The insertion loop\<close>

primrec shift_in :: "('a \<Rightarrow> 'a \<Rightarrow> bool) \<Rightarrow> 'a list \<Rightarrow> nat \<Rightarrow> 'a \<Rightarrow> 'a list" where
  "shift_in better xs 0 value = xs[0 := value]"
| "shift_in better xs (Suc j) value =
    (if better value (xs ! j) then shift_in better (xs[Suc j := xs ! j]) j value
     else xs[Suc j := value])"

definition insertion_sort :: "('a \<Rightarrow> 'a \<Rightarrow> bool) \<Rightarrow> 'a list \<Rightarrow> 'a list" where
  "insertion_sort better xs =
    fold (\<lambda>i ys. shift_in better ys i (ys ! i)) [1..<length xs] xs"

text \<open>\<open>SortRanks\<close> checks every rank it reads; a rank outside \<open>[0, rankSize)\<close> makes it return
  false, here \<open>None\<close>.\<close>

definition rank_in_range :: "int \<Rightarrow> int \<Rightarrow> bool" where
  "rank_in_range rankSize r = (0 \<le> r \<and> r < rankSize)"

primrec sort_shift :: "(int \<Rightarrow> int \<Rightarrow> bool) \<Rightarrow> int \<Rightarrow> int list \<Rightarrow> nat \<Rightarrow> int \<Rightarrow> int list option" where
  "sort_shift better rankSize xs 0 value = Some (xs[0 := value])"
| "sort_shift better rankSize xs (Suc j) value =
    (if \<not> rank_in_range rankSize (xs ! j) then None
     else if \<not> better value (xs ! j) then Some (xs[Suc j := value])
     else sort_shift better rankSize (xs[Suc j := xs ! j]) j value)"

fun sort_rounds :: "(int \<Rightarrow> int \<Rightarrow> bool) \<Rightarrow> int \<Rightarrow> nat list \<Rightarrow> int list \<Rightarrow> int list option" where
  "sort_rounds better rankSize [] xs = Some xs"
| "sort_rounds better rankSize (i # is) xs =
    (if \<not> rank_in_range rankSize (xs ! i) then None
     else case sort_shift better rankSize xs i (xs ! i) of
            None \<Rightarrow> None
          | Some ys \<Rightarrow> sort_rounds better rankSize is ys)"

definition SortRanks :: "int list \<Rightarrow> int arr \<Rightarrow> int arr \<Rightarrow> int \<Rightarrow> bool \<Rightarrow> int list option" where
  "SortRanks ranks rankLoad globalRankIds rankSize ascending =
    (if int (length ranks) > rankSize then None
     else if 0 < length ranks \<and> \<not> rank_in_range rankSize (ranks ! 0) then None
     else sort_rounds (rank_better rankLoad globalRankIds ascending) rankSize
            [1..<length ranks] ranks)"

section \<open>The loop inserts\<close>

primrec ins_back :: "('a \<Rightarrow> 'a \<Rightarrow> bool) \<Rightarrow> 'a \<Rightarrow> 'a list \<Rightarrow> 'a list" where
  "ins_back better v [] = [v]"
| "ins_back better v (y # ys) = (if better v y then y # ins_back better v ys else v # y # ys)"

lemma mset_ins_back [simp]: "mset (ins_back better v ys) = add_mset v (mset ys)"
  by (induction ys) auto

lemma set_ins_back [simp]: "set (ins_back better v ys) = insert v (set ys)"
  by (induction ys) auto

lemma length_ins_back [simp]: "length (ins_back better v ys) = Suc (length ys)"
  by (induction ys) auto

lemma length_shift_in [simp]: "length (shift_in better xs j v) = length xs"
  by (induction j arbitrary: xs) auto

lemma shift_in_split:
  "shift_in better (p @ x # q) (length p) v = rev (ins_back better v (rev p)) @ q"
proof (induction p arbitrary: x q rule: rev_induct)
  case (snoc y p)
  have "(p @ y # x # q)[Suc (length p) := z] = p @ y # z # q" for z
    using list_update_length [of "p @ [y]" x q z] by simp
  then show ?case using snoc.IH [of y "y # q"] by simp
qed simp

lemma shift_in_take_drop:
  assumes "i < length xs"
  shows "shift_in better xs i v = rev (ins_back better v (rev (take i xs))) @ drop (Suc i) xs"
  using shift_in_split [of better "take i xs" "xs ! i" "drop (Suc i) xs" v] assms
  by (simp add: id_take_nth_drop [symmetric] min_def)

text \<open>The state of the loop: a processed prefix and the untouched rest.\<close>

lemma insertion_rounds:
  assumes "0 < n" "n \<le> length xs"
  shows "\<exists>ys. fold (\<lambda>i ys. shift_in better ys i (ys ! i)) [1..<n] xs = ys @ drop n xs
      \<and> mset ys = mset (take n xs) \<and> ys = foldl (\<lambda>p v. rev (ins_back better v (rev p))) [] (take n xs)"
  using assms
proof (induction n)
  case (Suc n)
  show ?case
  proof (cases "n = 0")
    case True
    then show ?thesis using Suc.prems
      by (intro exI [of _ "[xs ! 0]"]) (cases xs; simp)
  next
    case False
    then obtain ys where ys: "fold (\<lambda>i ys. shift_in better ys i (ys ! i)) [1..<n] xs = ys @ drop n xs"
      "mset ys = mset (take n xs)"
      "ys = foldl (\<lambda>p v. rev (ins_back better v (rev p))) [] (take n xs)"
      using Suc by auto
    have len: "length ys = n" using ys(2) Suc.prems by (metis length_take min.absorb2 size_mset Suc_leD)
    have d: "drop n xs = xs ! n # drop (Suc n) xs" using Suc.prems by (simp add: Cons_nth_drop_Suc)
    have "shift_in better (ys @ xs ! n # drop (Suc n) xs) n (xs ! n)
        = rev (ins_back better (xs ! n) (rev ys)) @ drop (Suc n) xs"
      using shift_in_split [of better ys "xs ! n" "drop (Suc n) xs" "xs ! n"] len by simp
    moreover have "(ys @ xs ! n # drop (Suc n) xs) ! n = xs ! n"
      using len by (simp add: nth_append)
    moreover have "take (Suc n) xs = take n xs @ [xs ! n]"
      using Suc.prems by (simp add: take_Suc_conv_app_nth)
    ultimately show ?thesis using False ys by (simp add: d)
  qed
qed simp

lemma insertion_sort_foldl:
  "insertion_sort better xs = foldl (\<lambda>p v. rev (ins_back better v (rev p))) [] xs"
  using insertion_rounds [of "length xs" xs better] by (cases xs) (auto simp: insertion_sort_def)

lemma mset_insertion_sort [simp]: "mset (insertion_sort better xs) = mset xs"
  using insertion_rounds [of "length xs" xs better] by (cases xs) (auto simp: insertion_sort_def)

lemma set_insertion_sort [simp]: "set (insertion_sort better xs) = set xs"
  by (metis mset_insertion_sort set_mset_mset)

lemma length_insertion_sort [simp]: "length (insertion_sort better xs) = length xs"
  by (metis mset_insertion_sort size_mset)

lemma distinct_insertion_sort [simp]: "distinct (insertion_sort better xs) = distinct xs"
  by (metis mset_insertion_sort mset_eq_imp_distinct_iff)

section \<open>Comparators\<close>

locale insertion_order =
  fixes better :: "'a \<Rightarrow> 'a \<Rightarrow> bool"
  assumes better_trans: "better a b \<Longrightarrow> better b c \<Longrightarrow> a \<noteq> c \<Longrightarrow> better a c"
    and better_antisym: "better a b \<Longrightarrow> better b a \<Longrightarrow> a = b"
    and better_total: "a \<noteq> b \<Longrightarrow> better a b \<or> better b a"
begin

abbreviation before :: "'a \<Rightarrow> 'a \<Rightarrow> bool" where "before a b \<equiv> a = b \<or> better a b"

lemma before_trans: "before a b \<Longrightarrow> before b c \<Longrightarrow> before a c"
  using better_trans by metis

lemma sorted_ins_back:
  "sorted_wrt (\<lambda>a b. before b a) ys \<Longrightarrow> sorted_wrt (\<lambda>a b. before b a) (ins_back better v ys)"
proof (induction ys)
  case (Cons y ys)
  show ?case
  proof (cases "better v y")
    case False
    then have "before y v" using better_total [of y v] by auto
    then show ?thesis using Cons.prems False before_trans by auto
  qed (use Cons in auto)
qed simp

lemma sorted_insertion_sort: "sorted_wrt before (insertion_sort better xs)"
proof -
  have "sorted_wrt before p \<Longrightarrow>
      sorted_wrt before (foldl (\<lambda>p v. rev (ins_back better v (rev p))) p xs)" for p
  proof (induction xs arbitrary: p)
    case (Cons x xs)
    have "sorted_wrt (\<lambda>a b. before b a) (ins_back better x (rev p))"
      using Cons.prems by (intro sorted_ins_back) (simp add: sorted_wrt_rev)
    then show ?case using Cons.IH by (simp add: sorted_wrt_rev)
  qed simp
  then show ?thesis by (simp add: insertion_sort_foldl)
qed

text \<open>The sorted arrangement is unique, so every run of the loop on the same elements agrees.\<close>

lemma sorted_unique:
  assumes "sorted_wrt before xs" "sorted_wrt before ys" "mset xs = mset ys"
  shows "xs = ys"
  using assms
proof (induction xs arbitrary: ys)
  case (Cons x xs)
  then obtain y ys' where ys: "ys = y # ys'" by (cases ys) auto
  have "set (x # xs) = set (y # ys')" using Cons.prems(3) ys mset_eq_setD by blast
  then have "x = y \<or> x \<in> set ys'" "y = x \<or> y \<in> set xs" by auto
  then have "before x y" "before y x" using Cons.prems(1,2) ys by auto
  then have "x = y" using better_antisym by blast
  then show ?case using Cons ys by auto
qed simp

end

interpretation rank_order: insertion_order "rank_better rankLoad globalRankIds ascending"
  for rankLoad globalRankIds ascending
  by unfold_locales (auto simp: rank_better_def split: if_splits)

interpretation affinity_order: insertion_order "\<lambda>lhs rhs. BetterAffinity lhs rhs dst globalRankIds"
  for dst globalRankIds
  by unfold_locales (auto simp: BetterAffinity_def Let_def split: if_splits)

interpretation expert_order: insertion_order "expert_better alloc expertNum home"
  for alloc expertNum home
  by unfold_locales (auto simp: expert_better_def Let_def)

interpretation remote_order: insertion_order "BetterRemote alloc expertNum dst"
  for alloc expertNum dst
  by unfold_locales (auto simp: BetterRemote_def Let_def split: if_splits)

section \<open>Sorting ranks\<close>

lemma sort_shift_in_range:
  assumes "\<forall>x\<in>set xs. rank_in_range rankSize x" "j < length xs"
  shows "sort_shift better rankSize xs j v = Some (shift_in better xs j v)"
  using assms
proof (induction j arbitrary: xs)
  case (Suc j)
  have "\<forall>x\<in>set (xs[Suc j := xs ! j]). rank_in_range rankSize x"
    using Suc.prems set_update_subset_insert [of xs "Suc j" "xs ! j"] by fastforce
  then show ?case using Suc by simp
qed simp

lemma set_shift_in_self:
  assumes "i < length xs"
  shows "set (shift_in better xs i (xs ! i)) = set xs"
proof -
  have "set (shift_in better xs i (xs ! i)) = set (take i xs @ xs ! i # drop (Suc i) xs)"
    using assms by (auto simp: shift_in_take_drop)
  then show ?thesis using assms by (metis id_take_nth_drop)
qed

lemma sort_rounds_in_range:
  assumes "\<forall>x\<in>set xs. rank_in_range rankSize x" "\<forall>i\<in>set is. i < length xs"
  shows "sort_rounds better rankSize is xs = Some (fold (\<lambda>i ys. shift_in better ys i (ys ! i)) is xs)"
  using assms
proof (induction "is" arbitrary: xs)
  case (Cons i "is")
  then show ?case by (simp add: sort_shift_in_range set_shift_in_self)
qed simp

lemma sort_rounds_out_of_range:
  assumes "sort_rounds better rankSize [k..<length xs] xs = Some ys"
    "\<forall>i<k. i < length xs \<longrightarrow> rank_in_range rankSize (xs ! i)"
  shows "\<forall>x\<in>set xs. rank_in_range rankSize x"
  using assms
proof (induction "length xs - k" arbitrary: k xs)
  case 0
  then show ?case by (auto simp: in_set_conv_nth)
next
  case (Suc n)
  then have k: "k < length xs" by simp
  have sp: "[k..<length xs] = k # [Suc k..<length xs]" using k by (simp add: upt_rec)
  from Suc.prems(1) have rk: "rank_in_range rankSize (xs ! k)" by (auto simp: sp split: if_splits)
  define zs where "zs = take (Suc k) xs"
  have zr: "\<forall>x\<in>set zs. rank_in_range rankSize x"
    using Suc.prems(2) rk k by (auto simp: zs_def in_set_conv_nth less_Suc_eq)
  have shift: "sort_shift better rankSize us j v = Some (shift_in better us j v)"
    if "j \<le> k" "j < length us" "\<forall>i\<le>k. rank_in_range rankSize (us ! i)" "k < length us" for us j v
    using that
  proof (induction j arbitrary: us)
    case (Suc j)
    have "\<forall>i\<le>k. rank_in_range rankSize (us[Suc j := us ! j] ! i)"
      using Suc.prems by (auto simp: nth_list_update)
    then show ?case using Suc by simp
  qed simp
  have all: "\<forall>i\<le>k. rank_in_range rankSize (xs ! i)" using Suc.prems(2) rk k by (auto simp: le_less)
  define us where "us = shift_in better xs k (xs ! k)"
  have us: "sort_rounds better rankSize [Suc k..<length us] us = Some ys"
    using Suc.prems(1) rk shift [of k xs "xs ! k"] k all by (simp add: sp us_def)
  have split: "us = rev (ins_back better (xs ! k) (rev (take k xs))) @ drop (Suc k) xs"
    unfolding us_def using k by (rule shift_in_take_drop)
  have len: "length (ins_back better (xs ! k) (rev (take k xs))) = Suc k"
    using k by simp
  have "us ! i \<in> set zs" if "i < Suc k" for i
  proof -
    have "us ! i = rev (ins_back better (xs ! k) (rev (take k xs))) ! i"
      using that len by (simp add: split nth_append)
    then have "us ! i \<in> set (rev (ins_back better (xs ! k) (rev (take k xs))))"
      using that len by (metis length_rev nth_mem)
    then show ?thesis using k by (auto simp: zs_def take_Suc_conv_app_nth)
  qed
  then have "\<forall>i<Suc k. i < length us \<longrightarrow> rank_in_range rankSize (us ! i)" using zr by simp
  moreover have "n = length us - Suc k" using Suc.hyps(2) by (simp add: us_def)
  ultimately have "\<forall>x\<in>set us. rank_in_range rankSize x" using Suc.hyps(1) [of us "Suc k"] us by blast
  then show ?case using set_shift_in_self [OF k, of better] by (simp add: us_def)
qed

lemma SortRanks_in_range:
  assumes "int (length ranks) \<le> rankSize" "\<forall>x\<in>set ranks. rank_in_range rankSize x"
  shows "SortRanks ranks rankLoad globalRankIds rankSize ascending
    = Some (insertion_sort (rank_better rankLoad globalRankIds ascending) ranks)"
proof -
  have "ranks = [] \<or> rank_in_range rankSize (ranks ! 0)" using assms(2) by (cases ranks) auto
  then show ?thesis using assms by (simp add: SortRanks_def insertion_sort_def sort_rounds_in_range)
qed

lemma SortRanks_SomeD:
  assumes "SortRanks ranks rankLoad globalRankIds rankSize ascending = Some out"
  shows "int (length ranks) \<le> rankSize" "\<forall>x\<in>set ranks. rank_in_range rankSize x"
  using assms sort_rounds_out_of_range [of _ rankSize 1 ranks out]
  by (auto simp: SortRanks_def split: if_splits)

lemma SortRanks_set:
  assumes "SortRanks ranks rankLoad globalRankIds rankSize ascending = Some out"
  shows "set out = set ranks"
  using SortRanks_in_range [OF SortRanks_SomeD [OF assms], of rankLoad globalRankIds ascending] assms by simp


end
