(* ===== verification/PlanState.thy ===== *)
theory PlanState
  imports PlanSort
begin

unbundle bit_operations_syntax

text \<open>
  The data of the MoonEP planner (\<open>planner_v2/common\<close>): its status codes, configuration, inputs,
  outputs and workspace, the validation of a call, and the mutable state of a run with the
  operations that move tokens of an expert from its home rank to another rank.

  A pointer of the interface is an \<open>option\<close> of an array, so that the null checks of \<open>Validate\<close>
  are checks of the model; \<open>plan_state\<close> holds the arrays behind the pointers once they are known
  to be non-null.  Scratch regions that the code carves out of \<open>ws.scratch\<close> and rewrites before
  every use (active, senders, receivers, occupied) and the expert order it keeps in
  \<open>ws.expertCount\<close> are lists; the first \<open>rankSize\<close> words of \<open>ws.scratch\<close>, which live across
  calls, are the field \<open>remoteCount\<close>.
\<close>

section \<open>Interface types\<close>

datatype plan_status =
    PLAN_OK
  | PLAN_PARTIAL_NO_FEASIBLE_PAIR
  | PLAN_PARTIAL_PREFETCH_SLOT_EXHAUSTED
  | PLAN_PARTIAL_TOKEN_SUPPLY
  | PLAN_ERROR_CONFIG_MISMATCH
  | PLAN_ERROR_TPE_MISMATCH
  | PLAN_ERROR_LAYOUT_EXCEEDS_NVS
  | PLAN_ERROR_MOVE_RECORD_OVERFLOW
  | PLAN_ERROR_INTERNAL_INVARIANT

fun status_code :: "plan_status \<Rightarrow> int" where
  "status_code PLAN_OK = 0"
| "status_code PLAN_PARTIAL_NO_FEASIBLE_PAIR = 1"
| "status_code PLAN_PARTIAL_PREFETCH_SLOT_EXHAUSTED = 2"
| "status_code PLAN_PARTIAL_TOKEN_SUPPLY = 3"
| "status_code PLAN_ERROR_CONFIG_MISMATCH = 4"
| "status_code PLAN_ERROR_TPE_MISMATCH = 5"
| "status_code PLAN_ERROR_LAYOUT_EXCEEDS_NVS = 6"
| "status_code PLAN_ERROR_MOVE_RECORD_OVERFLOW = 7"
| "status_code PLAN_ERROR_INTERNAL_INVARIANT = 8"

definition kPlanCardsPerServer :: int where "kPlanCardsPerServer = 8"
definition kPlanCardsPerCabinet :: int where "kPlanCardsPerCabinet = 64"
definition kPlanCrossCandidateCount :: int where "kPlanCrossCandidateCount = 3"
definition kPlanStatusWords :: int where "kPlanStatusWords = 8"

record plan_config =
  prefetchSlots :: int
  rankTokenCapacity :: int
  nvS :: int
  tokenPadding :: int
  tokenRouteLimitPerPair :: int
  cardsPerServer :: int
  cardsPerCabinet :: int
  crossCandidateCount :: int

record token_segment_move =
  expertId :: int
  srcRank :: int
  dstRank :: int
  srcExpertBegin :: int
  dstExpertBegin :: int
  tokenCount :: int

record plan_input =
  in_rank :: int
  in_rankSize :: int
  in_s :: int
  in_topK :: int
  in_expertNum :: int
  in_config :: plan_config
  in_topkExperts :: "int arr option"
  in_tokensPerExpert :: "int arr option"
  in_globalRankIds :: "int arr option"

record plan_output =
  out_dst :: "int arr option"
  out_cuSeqlens :: "int arr option"
  out_expertsToCopy :: "int arr option"
  out_remoteExperts :: "int arr option"
  out_expertTargets :: "nat arr option"
  out_remoteStats :: "int arr option"
  out_status :: "int arr option"

record plan_workspace =
  ws_expertCount :: "int arr option"
  ws_rankLoad :: "int arr option"
  ws_remainingTpe :: "int arr option"
  ws_alloc :: "int arr option"
  ws_remoteExpertSet :: "int arr option"
  ws_srcExpertCursor :: "int arr option"
  ws_dstExpertCursor :: "int arr option"
  ws_expertPhysicalBase :: "int arr option"
  ws_localExpertOrdinal :: "int arr option"
  ws_tokenSegments :: "token_segment_move arr option"
  ws_tokenSegmentCapacity :: int
  ws_routedPairTokens :: "int arr option"
  ws_scratch :: "int arr option"
  ws_scratchCount :: int
  ws_affinityOrder :: "int arr option"
  ws_affinityOrderValid :: bool

definition deref :: "int arr option \<Rightarrow> int arr" where
  "deref p = (case p of Some a \<Rightarrow> a | None \<Rightarrow> (\<lambda>_. 0))"

section \<open>Validation\<close>

text \<open>The counting loop over the routes; \<open>None\<close> when a route names no expert.\<close>

fun count_routes :: "int arr \<Rightarrow> int \<Rightarrow> int list \<Rightarrow> int arr \<Rightarrow> int arr option" where
  "count_routes topkExperts expertNum [] expertCount = Some expertCount"
| "count_routes topkExperts expertNum (route # routes) expertCount =
    (let e = topkExperts route in
     if e < 0 \<or> e \<ge> expertNum then None
     else count_routes topkExperts expertNum routes (expertCount(e := expertCount e + 1)))"

text \<open>The loop over the experts of one row of \<open>tokensPerExpert\<close>.\<close>

fun check_tpe_row :: "int arr \<Rightarrow> int arr \<Rightarrow> int \<Rightarrow> bool \<Rightarrow> int \<Rightarrow> int \<Rightarrow> int list \<Rightarrow> int \<Rightarrow> plan_status" where
  "check_tpe_row tpe expertCount expertNum own cap src [] acc =
    (if acc \<noteq> cap then PLAN_ERROR_TPE_MISMATCH else PLAN_OK)"
| "check_tpe_row tpe expertCount expertNum own cap src (e # es) acc =
    (let value = tpe (ReIndex src e expertNum) in
     if value < 0 then PLAN_ERROR_CONFIG_MISMATCH
     else if own \<and> value \<noteq> expertCount e then PLAN_ERROR_TPE_MISMATCH
     else check_tpe_row tpe expertCount expertNum own cap src es (acc + value))"

fun check_tpe_rows :: "int arr \<Rightarrow> int arr \<Rightarrow> int \<Rightarrow> int \<Rightarrow> int \<Rightarrow> int list \<Rightarrow> plan_status" where
  "check_tpe_rows tpe expertCount expertNum rank cap [] = PLAN_OK"
| "check_tpe_rows tpe expertCount expertNum rank cap (src # srcs) =
    (let st = check_tpe_row tpe expertCount expertNum (src = rank) cap src [0..expertNum - 1] 0 in
     if st \<noteq> PLAN_OK then st else check_tpe_rows tpe expertCount expertNum rank cap srcs)"

text \<open>The first check: shapes and null pointers.\<close>

definition args_invalid :: "plan_input \<Rightarrow> plan_output \<Rightarrow> plan_workspace \<Rightarrow> bool" where
  "args_invalid inp out ws =
    (in_rankSize inp \<le> 0 \<or> in_rankSize inp > 128 \<or> in_rank inp < 0 \<or> in_rank inp \<ge> in_rankSize inp \<or>
     in_s inp \<le> 0 \<or> in_topK inp \<le> 0 \<or> in_topK inp > 32 \<or> in_expertNum inp \<le> 0 \<or>
     in_expertNum inp > INT32_MAX \<or> in_expertNum inp mod in_rankSize inp \<noteq> 0 \<or>
     in_topkExperts inp = None \<or> in_tokensPerExpert inp = None \<or> in_globalRankIds inp = None \<or>
     out_dst out = None \<or> out_cuSeqlens out = None \<or> out_expertsToCopy out = None \<or>
     out_remoteStats out = None \<or> out_status out = None \<or>
     (out_remoteExperts out = None) \<noteq> (out_expertTargets out = None) \<or>
     ws_expertCount ws = None \<or> ws_rankLoad ws = None \<or> ws_remainingTpe ws = None \<or>
     ws_alloc ws = None \<or> ws_srcExpertCursor ws = None \<or> ws_dstExpertCursor ws = None \<or>
     ws_expertPhysicalBase ws = None \<or> ws_localExpertOrdinal ws = None \<or>
     ws_tokenSegments ws = None \<or> ws_scratch ws = None \<or> ws_affinityOrder ws = None \<or>
     ws_scratchCount ws < in_rankSize inp * 16 \<or> in_s inp > INT32_MAX div in_topK inp)"

text \<open>The second check: the configuration, for \<open>cap = s * topK\<close>.\<close>

definition config_invalid :: "plan_input \<Rightarrow> plan_workspace \<Rightarrow> int \<Rightarrow> bool" where
  "config_invalid inp ws cap =
    (let c = in_config inp in
     rankTokenCapacity c \<noteq> cap \<or> prefetchSlots c \<le> 0 \<or>
     prefetchSlots c > INT32_MAX \<or> nvS c < cap \<or> nvS c > INT32_MAX \<or> tokenPadding c \<le> 0 \<or>
     tokenRouteLimitPerPair c < 0 \<or>
     tokenRouteLimitPerPair c > cap \<or> cardsPerServer c \<noteq> kPlanCardsPerServer \<or>
     cardsPerCabinet c \<noteq> kPlanCardsPerCabinet \<or> crossCandidateCount c \<noteq> kPlanCrossCandidateCount \<or>
     in_rankSize inp * nvS c > INT32_MAX \<or> ws_tokenSegmentCapacity ws < 0 \<or>
     (prefetchSlots c > 0 \<and> ws_remoteExpertSet ws = None) \<or>
     (tokenRouteLimitPerPair c \<noteq> 0 \<and> ws_routedPairTokens ws = None))"

text \<open>The third check: global ranks are non-negative and pairwise different.\<close>

definition ids_invalid :: "int arr \<Rightarrow> int \<Rightarrow> bool" where
  "ids_invalid ids rankSize =
    list_ex (\<lambda>lhs. ids lhs < 0 \<or> list_ex (\<lambda>rhs. ids lhs = ids rhs) [0..lhs - 1]) [0..rankSize - 1]"

definition Validate :: "plan_input \<Rightarrow> plan_output \<Rightarrow> plan_workspace \<Rightarrow> plan_status" where
  "Validate inp out ws =
    (if args_invalid inp out ws then PLAN_ERROR_CONFIG_MISMATCH
     else let cap = in_s inp * in_topK inp in
       if config_invalid inp ws cap then PLAN_ERROR_CONFIG_MISMATCH
       else if ids_invalid (deref (in_globalRankIds inp)) (in_rankSize inp) then PLAN_ERROR_CONFIG_MISMATCH
       else case count_routes (deref (in_topkExperts inp)) (in_expertNum inp) [0..cap - 1]
                   (\<lambda>e. if 0 \<le> e \<and> e < in_expertNum inp then 0 else deref (ws_expertCount ws) e) of
           None \<Rightarrow> PLAN_ERROR_CONFIG_MISMATCH
         | Some expertCount \<Rightarrow>
             check_tpe_rows (deref (in_tokensPerExpert inp)) expertCount (in_expertNum inp)
               (in_rank inp) cap [0..in_rankSize inp - 1])"

section \<open>The state of a run\<close>

text \<open>
  The constants that \<open>State\<close> copies from the input, and the mutable part.  \<open>segmentLog\<close> is an
  auxiliary variable: it records every segment that \<open>AppendSegment\<close> counts in \<open>globalSegments\<close>, of
  which the code keeps only those of its own rank; no definition reads it.
\<close>

record plan_ctx =
  c_rank :: int
  c_rankSize :: int
  c_expertNum :: int
  c_expertsPerRank :: int
  c_cap :: int
  c_b :: int
  c_routeLimit :: int
  c_segmentCapacity :: int
  c_globalRankIds :: "int arr"

record plan_state =
  rankLoad :: "int arr"
  remainingTpe :: "int arr"
  alloc :: "int arr"
  remoteExpertSet :: "int arr"
  remoteCount :: "int arr"
  srcExpertCursor :: "int arr"
  dstExpertCursor :: "int arr"
  expertPhysicalBase :: "int arr"
  routedPairTokens :: "int arr"
  affinityOrder :: "int arr"
  tokenSegments :: "token_segment_move list"
  segmentLog :: "token_segment_move list"
  globalSegments :: int
  expertMoves :: int
  intraRounds :: int
  interRounds :: int
  slotBlock :: bool
  supplyBlock :: bool
  pairBlock :: bool
  fatal :: plan_status

definition plan_ctx_of :: "plan_input \<Rightarrow> plan_workspace \<Rightarrow> plan_ctx" where
  "plan_ctx_of inp ws =
    \<lparr> c_rank = in_rank inp, c_rankSize = in_rankSize inp, c_expertNum = in_expertNum inp,
      c_expertsPerRank = in_expertNum inp div in_rankSize inp,
      c_cap = rankTokenCapacity (in_config inp), c_b = prefetchSlots (in_config inp),
      c_routeLimit = tokenRouteLimitPerPair (in_config inp),
      c_segmentCapacity = ws_tokenSegmentCapacity ws,
      c_globalRankIds = deref (in_globalRankIds inp) \<rparr>"

definition AppendSegment ::
  "plan_ctx \<Rightarrow> plan_state \<Rightarrow> int \<Rightarrow> int \<Rightarrow> int \<Rightarrow> int \<Rightarrow> int \<Rightarrow> int \<Rightarrow> bool \<times> plan_state" where
  "AppendSegment c s expert src dst srcBegin dstBegin cnt =
    (let m = \<lparr> expertId = expert, srcRank = src, dstRank = dst, srcExpertBegin = srcBegin,
               dstExpertBegin = dstBegin, tokenCount = cnt \<rparr>;
         s1 = s\<lparr> globalSegments := globalSegments s + 1, segmentLog := segmentLog s @ [m] \<rparr>
     in if src \<noteq> c_rank c then (True, s1)
        else if int (length (tokenSegments s1)) \<ge> c_segmentCapacity c
        then (False, s1\<lparr> fatal := PLAN_ERROR_MOVE_RECORD_OVERFLOW \<rparr>)
        else (True, s1\<lparr> tokenSegments := tokenSegments s1 @ [m] \<rparr>))"

text \<open>A row of a flat table, read and written.\<close>

definition row_of :: "int arr \<Rightarrow> int \<Rightarrow> int \<Rightarrow> int list" where
  "row_of table i n = map (\<lambda>j. table (i * n + j)) [0..n - 1]"

definition store_row :: "int arr \<Rightarrow> int \<Rightarrow> int list \<Rightarrow> int arr" where
  "store_row table base xs =
    (\<lambda>i. if base \<le> i \<and> i < base + int (length xs) then xs ! nat (i - base) else table i)"

definition affinity_row :: "plan_ctx \<Rightarrow> int \<Rightarrow> int list" where
  "affinity_row c dst =
    insertion_sort (\<lambda>lhs rhs. BetterAffinity lhs rhs dst (c_globalRankIds c)) [0..c_rankSize c - 1]"

definition BuildAffinity :: "plan_ctx \<Rightarrow> plan_state \<Rightarrow> plan_state" where
  "BuildAffinity c s =
    fold (\<lambda>dst s. s\<lparr> affinityOrder :=
            store_row (affinityOrder s) (dst * c_rankSize c) (affinity_row c dst) \<rparr>)
      [0..c_rankSize c - 1] s"

fun find_slot :: "int arr \<Rightarrow> int \<Rightarrow> int \<Rightarrow> int list \<Rightarrow> int" where
  "find_slot table base expert [] = -1"
| "find_slot table base expert (slot # slots) =
    (if table (base + slot) = expert then slot else find_slot table base expert slots)"

definition FindRemote :: "plan_ctx \<Rightarrow> plan_state \<Rightarrow> int \<Rightarrow> int \<Rightarrow> int" where
  "FindRemote c s dst expert =
    find_slot (remoteExpertSet s) (dst * c_b c) expert [0..remoteCount s dst - 1]"

section \<open>Moving tokens of the experts of a rank\<close>

text \<open>How many tokens the source still may route to the destination.\<close>

definition pair_remain :: "plan_ctx \<Rightarrow> plan_state \<Rightarrow> int \<Rightarrow> int \<Rightarrow> int \<Rightarrow> int" where
  "pair_remain c s src dst expertDemand =
    (if c_routeLimit c \<noteq> 0
     then let remain = c_routeLimit c - routedPairTokens s (PairIndex src dst (c_rankSize c))
          in if remain < 0 then 0 else remain
     else expertDemand)"

text \<open>The updates of one accepted take, after its segment was appended.\<close>

definition record_take :: "plan_ctx \<Rightarrow> plan_state \<Rightarrow> int \<Rightarrow> int \<Rightarrow> int \<Rightarrow> int \<Rightarrow> plan_state" where
  "record_take c s expert src dst taken =
    (let re = ReIndex src expert (c_expertNum c); dstRe = ReIndex dst expert (c_expertNum c);
         pair = PairIndex src dst (c_rankSize c);
         s1 = s\<lparr> remainingTpe := (remainingTpe s)(re := remainingTpe s re - taken),
                 srcExpertCursor := (srcExpertCursor s)(re := srcExpertCursor s re + taken),
                 dstExpertCursor := (dstExpertCursor s)(dstRe := dstExpertCursor s dstRe + taken) \<rparr>
     in if c_routeLimit c \<noteq> 0
        then s1\<lparr> routedPairTokens := (routedPairTokens s1)(pair := routedPairTokens s1 pair + taken) \<rparr>
        else s1)"

text \<open>The loop over the sources in affinity order; it returns the state, the demand that is left
  and the tokens taken.\<close>

fun take_sources :: "plan_ctx \<Rightarrow> int \<Rightarrow> int \<Rightarrow> int list \<Rightarrow> plan_state \<Rightarrow> int \<Rightarrow> int \<Rightarrow>
    plan_state \<times> int \<times> int" where
  "take_sources c expert dst [] s expertDemand actual = (s, expertDemand, actual)"
| "take_sources c expert dst (src # srcs) s expertDemand actual =
    (if expertDemand \<le> 0 then (s, expertDemand, actual)
     else let re = ReIndex src expert (c_expertNum c); dstRe = ReIndex dst expert (c_expertNum c);
              pairRemain = pair_remain c s src dst expertDemand;
              taken = MinI32 (MinI32 (remainingTpe s re) expertDemand) pairRemain
       in if taken \<le> 0 then take_sources c expert dst srcs s expertDemand actual
          else let (ok, s1) = AppendSegment c s expert src dst (srcExpertCursor s re)
                                (dstExpertCursor s dstRe) taken
            in if \<not> ok then (s1, expertDemand, actual)
               else take_sources c expert dst srcs (record_take c s1 expert src dst taken)
                      (expertDemand - taken) (actual + taken))"

definition commit_move :: "plan_ctx \<Rightarrow> plan_state \<Rightarrow> int \<Rightarrow> int \<Rightarrow> int \<Rightarrow> bool \<Rightarrow> int \<Rightarrow> plan_state" where
  "commit_move c s home dst expert alreadyRemote actual =
    (let s1 = (if \<not> alreadyRemote
               then let slot = remoteCount s dst
                    in s\<lparr> remoteCount := (remoteCount s)(dst := slot + 1),
                          remoteExpertSet := (remoteExpertSet s)(dst * c_b c + slot := expert) \<rparr>
               else s);
         homeIndex = ReIndex home expert (c_expertNum c);
         dstRe = ReIndex dst expert (c_expertNum c);
         alloc1 = (alloc s1)(homeIndex := alloc s1 homeIndex - actual);
         load1 = (rankLoad s1)(home := rankLoad s1 home - actual)
     in s1\<lparr> alloc := alloc1(dstRe := alloc1 dstRe + actual),
            rankLoad := load1(dst := load1 dst + actual),
            expertMoves := expertMoves s1 + 1 \<rparr>)"

definition note_block :: "plan_ctx \<Rightarrow> plan_state \<Rightarrow> int \<Rightarrow> int \<Rightarrow> plan_state" where
  "note_block c s dst expert =
    (let srcs = [0..c_rankSize c - 1];
         supply = sum_list (map (\<lambda>src. remainingTpe s (ReIndex src expert (c_expertNum c))) srcs);
         routeBlocked = list_ex (\<lambda>src. c_routeLimit c \<noteq> 0 \<and>
             remainingTpe s (ReIndex src expert (c_expertNum c)) > 0 \<and>
             routedPairTokens s (PairIndex src dst (c_rankSize c)) \<ge> c_routeLimit c) srcs
     in if routeBlocked then s\<lparr> pairBlock := True \<rparr>
        else if supply = 0 then s\<lparr> supplyBlock := True \<rparr>
        else s)"

text \<open>The loop over the ordered experts; it returns the state, the demand that is left and
  whether an expert was tried.\<close>

fun move_experts :: "plan_ctx \<Rightarrow> int \<Rightarrow> int \<Rightarrow> int list \<Rightarrow> plan_state \<Rightarrow> int \<Rightarrow> bool \<Rightarrow>
    plan_state \<times> int \<times> bool" where
  "move_experts c home dst [] s demand found = (s, demand, found)"
| "move_experts c home dst (expert # experts) s demand found =
    (if demand \<le> 0 then (s, demand, found)
     else let availableAlloc = alloc s (ReIndex home expert (c_expertNum c));
              alreadyRemote = (FindRemote c s dst expert \<ge> 0)
       in if availableAlloc \<le> 0 then move_experts c home dst experts s demand found
          else if \<not> alreadyRemote \<and> remoteCount s dst \<ge> c_b c
          then move_experts c home dst experts (s\<lparr> slotBlock := True \<rparr>) demand found
          else let (s1, expertDemand, actual) =
                     take_sources c expert dst (row_of (affinityOrder s) dst (c_rankSize c)) s
                       (MinI32 availableAlloc demand) 0
            in if fatal s1 \<noteq> PLAN_OK then (s1, demand, True)
               else let s2 = (if actual > 0 then commit_move c s1 home dst expert alreadyRemote actual
                              else s1);
                        demand2 = (if actual > 0 then demand - actual else demand);
                        s3 = (if expertDemand > 0 then note_block c s2 dst expert else s2)
                 in move_experts c home dst experts s3 demand2 True)"

definition expert_order_of :: "plan_ctx \<Rightarrow> plan_state \<Rightarrow> int \<Rightarrow> int list" where
  "expert_order_of c s home =
    (let begin = home * c_expertsPerRank c
     in insertion_sort (expert_better (alloc s) (c_expertNum c) home)
          (filter (\<lambda>e. alloc s (ReIndex home e (c_expertNum c)) > 0)
            [begin..begin + c_expertsPerRank c - 1]))"

definition ApplyExpertMove :: "plan_ctx \<Rightarrow> plan_state \<Rightarrow> int \<Rightarrow> int \<Rightarrow> int \<Rightarrow> plan_state \<times> int" where
  "ApplyExpertMove c s home dst requested =
    (if requested \<le> 0 \<or> home = dst \<or> fatal s \<noteq> PLAN_OK then (s, 0)
     else let (s1, demand, found) =
                move_experts c home dst (expert_order_of c s home) s requested False
       in if fatal s1 \<noteq> PLAN_OK then (s1, 0)
          else (if demand > 0 \<and> \<not> found then s1\<lparr> pairBlock := True \<rparr> else s1, requested - demand))"

end
