(* ===== verification/PlanMove.thy ===== *)
theory PlanMove
  imports PlanState
begin

text \<open>
  What the moves of the planner change, without any assumption on the state: the fields each
  operation leaves alone, and the accounting of demanded against moved tokens on which the
  termination of the balancing rounds rests.
\<close>

section \<open>What a move changes\<close>

lemma AppendSegment_frame:
  assumes "AppendSegment c s expert src dst sb db n = (ok, s')"
  shows "rankLoad s' = rankLoad s" "alloc s' = alloc s" "remainingTpe s' = remainingTpe s"
    "remoteExpertSet s' = remoteExpertSet s" "remoteCount s' = remoteCount s"
    "srcExpertCursor s' = srcExpertCursor s" "dstExpertCursor s' = dstExpertCursor s"
    "routedPairTokens s' = routedPairTokens s" "affinityOrder s' = affinityOrder s"
    "intraRounds s' = intraRounds s" "interRounds s' = interRounds s"
    "ok \<Longrightarrow> fatal s' = fatal s" "\<not> ok \<Longrightarrow> fatal s' = PLAN_ERROR_MOVE_RECORD_OVERFLOW"
  using assms by (auto simp: AppendSegment_def Let_def split: if_splits)

lemma record_take_frame [simp]:
  "rankLoad (record_take c s e src dst k) = rankLoad s"
  "alloc (record_take c s e src dst k) = alloc s"
  "remoteExpertSet (record_take c s e src dst k) = remoteExpertSet s"
  "remoteCount (record_take c s e src dst k) = remoteCount s"
  "affinityOrder (record_take c s e src dst k) = affinityOrder s"
  "intraRounds (record_take c s e src dst k) = intraRounds s"
  "interRounds (record_take c s e src dst k) = interRounds s"
  "fatal (record_take c s e src dst k) = fatal s"
  by (simp_all add: record_take_def Let_def)

lemma commit_move_frame [simp]:
  "remainingTpe (commit_move c s home dst e ar k) = remainingTpe s"
  "srcExpertCursor (commit_move c s home dst e ar k) = srcExpertCursor s"
  "dstExpertCursor (commit_move c s home dst e ar k) = dstExpertCursor s"
  "routedPairTokens (commit_move c s home dst e ar k) = routedPairTokens s"
  "affinityOrder (commit_move c s home dst e ar k) = affinityOrder s"
  "tokenSegments (commit_move c s home dst e ar k) = tokenSegments s"
  "segmentLog (commit_move c s home dst e ar k) = segmentLog s"
  "intraRounds (commit_move c s home dst e ar k) = intraRounds s"
  "interRounds (commit_move c s home dst e ar k) = interRounds s"
  "fatal (commit_move c s home dst e ar k) = fatal s"
  by (simp_all add: commit_move_def Let_def)

lemma note_block_frame [simp]:
  "rankLoad (note_block c s dst e) = rankLoad s" "alloc (note_block c s dst e) = alloc s"
  "remainingTpe (note_block c s dst e) = remainingTpe s"
  "srcExpertCursor (note_block c s dst e) = srcExpertCursor s"
  "dstExpertCursor (note_block c s dst e) = dstExpertCursor s"
  "routedPairTokens (note_block c s dst e) = routedPairTokens s"
  "remoteExpertSet (note_block c s dst e) = remoteExpertSet s"
  "remoteCount (note_block c s dst e) = remoteCount s"
  "affinityOrder (note_block c s dst e) = affinityOrder s"
  "tokenSegments (note_block c s dst e) = tokenSegments s"
  "segmentLog (note_block c s dst e) = segmentLog s"
  "intraRounds (note_block c s dst e) = intraRounds s"
  "interRounds (note_block c s dst e) = interRounds s"
  "fatal (note_block c s dst e) = fatal s"
  by (simp_all add: note_block_def Let_def)

text \<open>Tokens taken are tokens no longer demanded.\<close>

lemma take_sources_account:
  assumes "take_sources c e dst srcs s d a = (s', d', a')"
  shows "rankLoad s' = rankLoad s \<and> alloc s' = alloc s \<and> remoteExpertSet s' = remoteExpertSet s
    \<and> remoteCount s' = remoteCount s \<and> affinityOrder s' = affinityOrder s
    \<and> intraRounds s' = intraRounds s \<and> interRounds s' = interRounds s
    \<and> d' + a' = d + a \<and> a \<le> a' \<and> (0 \<le> d \<longrightarrow> 0 \<le> d')"
  using assms
proof (induction srcs arbitrary: s d a)
  case (Cons src srcs)
  define k where "k = MinI32 (MinI32 (remainingTpe s (ReIndex src e (c_expertNum c))) d) (pair_remain c s src dst d)"
  obtain ok s1 where app: "AppendSegment c s e src dst (srcExpertCursor s (ReIndex src e (c_expertNum c)))
      (dstExpertCursor s (ReIndex dst e (c_expertNum c))) k = (ok, s1)" by fastforce
  have kd: "k \<le> d" by (auto simp: k_def MinI32_def)
  show ?case
  proof (cases "d \<le> 0 \<or> k \<le> 0 \<or> \<not> ok")
    case True
    then show ?thesis using Cons AppendSegment_frame [OF app]
      by (auto simp: k_def [symmetric] Let_def app split: if_splits)
  next
    case False
    then have "take_sources c e dst srcs (record_take c s1 e src dst k) (d - k) (a + k) = (s', d', a')"
      using Cons.prems by (simp add: k_def [symmetric] Let_def app)
    from Cons.IH [OF this] show ?thesis using AppendSegment_frame [OF app] kd False by simp
  qed
qed simp

lemma commit_move_load:
  assumes "home \<noteq> dst"
  shows "rankLoad (commit_move c s home dst e ar k) =
    (rankLoad s)(home := rankLoad s home - k, dst := rankLoad s dst + k)"
  using assms by (auto simp: commit_move_def Let_def)

lemma move_experts_account:
  assumes "move_experts c home dst es s d f = (s', d', f')" "home \<noteq> dst" "0 \<le> d"
  shows "rankLoad s' = (rankLoad s)(home := rankLoad s home - (d - d'), dst := rankLoad s dst + (d - d'))
    \<and> affinityOrder s' = affinityOrder s \<and> intraRounds s' = intraRounds s \<and> interRounds s' = interRounds s
    \<and> 0 \<le> d' \<and> d' \<le> d"
  using assms
proof (induction es arbitrary: s d f)
  case (Cons e es)
  define av where "av = alloc s (ReIndex home e (c_expertNum c))"
  define ar where "ar = (FindRemote c s dst e \<ge> 0)"
  obtain s1 ed k where ts: "take_sources c e dst (row_of (affinityOrder s) dst (c_rankSize c)) s
      (MinI32 av d) 0 = (s1, ed, k)" by (metis prod_cases3)
  define s3 where "s3 = (let s2 = if k > 0 then commit_move c s1 home dst e ar k else s1
      in if ed > 0 then note_block c s2 dst e else s2)"
  note acc = take_sources_account [OF ts]
  show ?case
  proof (cases "d \<le> 0 \<or> av \<le> 0 \<or> (\<not> ar \<and> remoteCount s dst \<ge> c_b c) \<or> fatal s1 \<noteq> PLAN_OK")
    case True
    then consider "d \<le> 0" | "0 < d" "av \<le> 0" | "0 < d" "0 < av" "\<not> ar" "remoteCount s dst \<ge> c_b c"
      | "0 < d" "0 < av" "ar \<or> remoteCount s dst < c_b c" "fatal s1 \<noteq> PLAN_OK" by linarith
    then show ?thesis
    proof cases
      case 1 then show ?thesis using Cons.prems by auto
    next
      case 2 then show ?thesis using Cons by (simp add: av_def [symmetric])
    next
      case 3
      then have "move_experts c home dst es (s\<lparr>slotBlock := True\<rparr>) d f = (s', d', f')"
        using Cons.prems by (simp add: av_def [symmetric] ar_def [symmetric] Let_def)
      from Cons.IH [OF this] show ?thesis using Cons.prems by simp
    next
      case 4
      then have "s' = s1 \<and> d' = d" using Cons.prems(1)
        by (auto simp add: av_def [symmetric] ar_def [symmetric] Let_def ts)
      then show ?thesis using acc 4 by simp
    qed
  next
    case False
    define d2 where "d2 = (if k > 0 then d - k else d)"
    have mv: "move_experts c home dst es s3 d2 True = (s', d', f')"
      using Cons.prems(1) False
      by (auto simp add: av_def [symmetric] ar_def [symmetric] Let_def ts s3_def d2_def)
    have "k \<le> d" using acc False by (auto simp: MinI32_def split: if_splits)
    then have d2: "0 \<le> d2" using Cons.prems by (simp add: d2_def)
    have "rankLoad s3 = (rankLoad s)(home := rankLoad s home - (d - d2), dst := rankLoad s dst + (d - d2))"
      using acc Cons.prems(2) by (auto simp: s3_def d2_def Let_def commit_move_load)
    moreover have "affinityOrder s3 = affinityOrder s" "intraRounds s3 = intraRounds s" "interRounds s3 = interRounds s"
      using acc by (auto simp: s3_def Let_def)
    moreover have "d2 \<le> d" using acc by (simp add: d2_def)
    ultimately show ?thesis using Cons.IH [OF mv Cons.prems(2) d2] Cons.prems(2) by (auto simp: fun_eq_iff)
  qed
qed simp

lemma ApplyExpertMove_account:
  assumes "ApplyExpertMove c s home dst req = (s', k)" "fatal s' = PLAN_OK"
  shows "home \<noteq> dst \<Longrightarrow>
      rankLoad s' = (rankLoad s)(home := rankLoad s home - k, dst := rankLoad s dst + k)"
    "affinityOrder s' = affinityOrder s" "0 \<le> k" "k \<le> max 0 req"
    "intraRounds s' = intraRounds s" "interRounds s' = interRounds s"
proof -
  obtain s1 d f where mv: "move_experts c home dst (expert_order_of c s home) s req False = (s1, d, f)"
    by (metis prod_cases3)
  show "home \<noteq> dst \<Longrightarrow>
      rankLoad s' = (rankLoad s)(home := rankLoad s home - k, dst := rankLoad s dst + k)"
    "affinityOrder s' = affinityOrder s" "0 \<le> k" "k \<le> max 0 req"
    "intraRounds s' = intraRounds s" "interRounds s' = interRounds s"
    using assms move_experts_account [OF mv]
    by (auto simp: ApplyExpertMove_def mv Let_def split: if_splits)
qed

end
