(* ===== verification/PlanRounds.thy ===== *)
theory PlanRounds
  imports PlanMove
begin

text \<open>
  The balancing rounds of the planner: inside each server (\<open>RunIntra\<close>), across servers
  (\<open>RunInter\<close>), and the segments of the tokens that stay with their home rank
  (\<open>AppendRemainders\<close>).  The loops are total functions: a productive round moves at least one
  token from a rank above the capacity to a rank below it, so the overload decreases.
\<close>

section \<open>Overload\<close>

definition overload :: "plan_ctx \<Rightarrow> plan_state \<Rightarrow> int" where
  "overload c s = (\<Sum>r\<in>{0..<c_rankSize c}. max 0 (rankLoad s r - c_cap c))"

lemma overload_nonneg [simp]: "0 \<le> overload c s"
  by (simp add: overload_def sum_nonneg)

lemma overload_flags [simp]:
  "overload c (s\<lparr> pairBlock := p \<rparr>) = overload c s"
  "overload c (s\<lparr> intraRounds := n \<rparr>) = overload c s"
  "overload c (s\<lparr> interRounds := n \<rparr>) = overload c s"
  by (simp_all add: overload_def)

lemma overload_move:
  assumes "rankLoad s' = (rankLoad s)(a := rankLoad s a - k, b := rankLoad s b + k)"
    "0 \<le> a" "a < c_rankSize c" "0 \<le> b" "b < c_rankSize c"
    "0 \<le> k" "k \<le> rankLoad s a - c_cap c" "k \<le> c_cap c - rankLoad s b" "a \<noteq> b"
  shows "overload c s' = overload c s - k"
proof -
  let ?g = "\<lambda>t r. max 0 (rankLoad t r - c_cap c)"
  let ?A = "{0..<c_rankSize c} - {a} - {b}"
  have sp: "overload c t = ?g t a + ?g t b + sum (?g t) ?A" for t
    using assms(2-5,9) sum.remove [of "{0..<c_rankSize c}" a "?g t"]
      sum.remove [of "{0..<c_rankSize c} - {a}" b "?g t"]
    by (simp add: overload_def)
  have "sum (?g s') ?A = sum (?g s) ?A" by (intro sum.cong) (auto simp: assms(1))
  moreover have "?g s' a = ?g s a - k" "?g s' b = ?g s b" using assms by auto
  ultimately show ?thesis using sp [of s] sp [of s'] by linarith
qed

section \<open>Rounds inside a server\<close>

text \<open>The loop over the sender and receiver pairs of a round, with the tokens moved so far.\<close>

fun run_pairs :: "plan_ctx \<Rightarrow> (int \<times> int) list \<Rightarrow> plan_state \<Rightarrow> int \<Rightarrow> plan_state \<times> int" where
  "run_pairs c [] s actualRound = (s, actualRound)"
| "run_pairs c ((sender, receiver) # pairs) s actualRound =
    (let requested = MinI32 (rankLoad s sender - c_cap c) (c_cap c - rankLoad s receiver);
         (s1, actual) = (if requested > 0 then ApplyExpertMove c s sender receiver requested else (s, 0))
     in if fatal s1 \<noteq> PLAN_OK then (s1, actualRound + actual)
        else run_pairs c pairs s1 (actualRound + actual))"

primrec find_middle :: "plan_ctx \<Rightarrow> plan_state \<Rightarrow> int list \<Rightarrow> nat \<Rightarrow> nat" where
  "find_middle c s active 0 = 0"
| "find_middle c s active (Suc m) =
    (if rankLoad s (active ! m) + rankLoad s (active ! Suc m) \<le> c_cap c
     then find_middle c s active m else Suc m)"

definition server_key :: "plan_ctx \<Rightarrow> int \<Rightarrow> int" where
  "server_key c r = c_globalRankIds c r div kPlanCardsPerServer"

text \<open>One pass of the inner loop of \<open>RunIntra\<close>; the flag tells whether the loop goes on.\<close>

definition intra_round :: "plan_ctx \<Rightarrow> int \<Rightarrow> plan_state \<Rightarrow> plan_state \<times> bool" where
  "intra_round c serverKey s =
    (case SortRanks (filter (\<lambda>r. server_key c r = serverKey \<and> rankLoad s r \<noteq> c_cap c) [0..c_rankSize c - 1])
            (rankLoad s) (c_globalRankIds c) (c_rankSize c) False of
       None \<Rightarrow> (s\<lparr> fatal := PLAN_ERROR_INTERNAL_INVARIANT \<rparr>, False)
     | Some active \<Rightarrow>
         if length active < 2 \<or> rankLoad s (active ! 0) + rankLoad s (active ! 1) < c_cap c \<or>
            rankLoad s (active ! (length active - 1)) > c_cap c
         then (s, False)
         else let middle = find_middle c s active (length active div 2) in
           if middle = 0 then (s, False)
           else let senders = filter (\<lambda>r. rankLoad s r > c_cap c) (rev (take middle active));
                    receivers = filter (\<lambda>r. rankLoad s r < c_cap c) (drop middle active);
                    (s1, actualRound) = run_pairs c (zip senders receivers) s 0
             in if fatal s1 \<noteq> PLAN_OK then (s1, False)
                else if actualRound = 0 then (s1\<lparr> pairBlock := True \<rparr>, False)
                else (s1\<lparr> intraRounds := intraRounds s1 + 1 \<rparr>, True))"

lemma move_overload:
  assumes "ApplyExpertMove c s a b req = (s', k)" "fatal s' = PLAN_OK" "0 < req"
    "req = MinI32 (rankLoad s a - c_cap c) (c_cap c - rankLoad s b)"
    "rank_in_range (c_rankSize c) a" "rank_in_range (c_rankSize c) b"
  shows "overload c s' = overload c s - k"
proof -
  note acc = ApplyExpertMove_account [OF assms(1,2)]
  have lim: "req \<le> rankLoad s a - c_cap c" "req \<le> c_cap c - rankLoad s b" "a \<noteq> b"
    using assms(3,4) by (auto simp: MinI32_def split: if_splits)
  have kl: "k \<le> rankLoad s a - c_cap c" "k \<le> c_cap c - rankLoad s b"
    using acc(4) lim assms(3) by linarith+
  show ?thesis
    using assms(5,6) by (intro overload_move [OF acc(1) [OF lim(3)] _ _ _ _ acc(3) kl lim(3)])
      (simp_all add: rank_in_range_def)
qed

lemma run_pairs_overload:
  assumes "run_pairs c ps s acc = (s', n)" "fatal s' = PLAN_OK"
    "\<forall>(a, b)\<in>set ps. rank_in_range (c_rankSize c) a \<and> rank_in_range (c_rankSize c) b"
  shows "overload c s' = overload c s - (n - acc) \<and> acc \<le> n \<and> affinityOrder s' = affinityOrder s
    \<and> intraRounds s' = intraRounds s \<and> interRounds s' = interRounds s"
  using assms
proof (induction ps arbitrary: s acc)
  case (Cons p ps)
  obtain a b where p: "p = (a, b)" by fastforce
  define req where "req = MinI32 (rankLoad s a - c_cap c) (c_cap c - rankLoad s b)"
  obtain s1 k where am: "(if req > 0 then ApplyExpertMove c s a b req else (s, 0)) = (s1, k)" by fastforce
  have f1: "fatal s1 = PLAN_OK" and rest: "run_pairs c ps s1 (acc + k) = (s', n)"
    using Cons.prems(1,2) by (auto simp: p req_def [symmetric] am split: if_splits)
  have s1: "overload c s1 = overload c s - k \<and> 0 \<le> k \<and> affinityOrder s1 = affinityOrder s
    \<and> intraRounds s1 = intraRounds s \<and> interRounds s1 = interRounds s"
  proof (cases "req > 0")
    case True
    then have ap: "ApplyExpertMove c s a b req = (s1, k)" using am by simp
    note acc = ApplyExpertMove_account [OF ap f1]
    have "overload c s1 = overload c s - k"
      using move_overload [OF ap f1 True req_def] Cons.prems(3) by (auto simp: p)
    then show ?thesis using acc(2,3,5,6) by simp
  qed (use am in auto)
  have "\<forall>(a, b)\<in>set ps. rank_in_range (c_rankSize c) a \<and> rank_in_range (c_rankSize c) b"
    using Cons.prems(3) by auto
  from Cons.IH [OF rest Cons.prems(2) this] show ?case using s1 by simp
qed simp

text \<open>The three ways in which a round inside a server ends without an error.\<close>

lemma intra_round_cases:
  assumes "intra_round c key s = (s', go)" "fatal s' = PLAN_OK"
  obtains (idle) "s' = s" "\<not> go"
  | (blocked) ps s1 where "run_pairs c ps s 0 = (s1, 0)" "fatal s1 = PLAN_OK" "\<not> go"
      "\<forall>(a, b)\<in>set ps. rank_in_range (c_rankSize c) a \<and> rank_in_range (c_rankSize c) b"
      "s' = s1\<lparr> pairBlock := True \<rparr>"
  | (moved) ps s1 n where "run_pairs c ps s 0 = (s1, n)" "fatal s1 = PLAN_OK" "go" "n \<noteq> 0"
      "\<forall>(a, b)\<in>set ps. rank_in_range (c_rankSize c) a \<and> rank_in_range (c_rankSize c) b"
      "s' = s1\<lparr> intraRounds := intraRounds s1 + 1 \<rparr>"
proof -
  let ?act = "filter (\<lambda>r. server_key c r = key \<and> rankLoad s r \<noteq> c_cap c) [0..c_rankSize c - 1]"
  obtain active where so: "SortRanks ?act (rankLoad s) (c_globalRankIds c) (c_rankSize c) False = Some active"
    using assms by (cases "SortRanks ?act (rankLoad s) (c_globalRankIds c) (c_rankSize c) False")
      (auto simp: intra_round_def)
  have rng: "\<forall>x\<in>set active. rank_in_range (c_rankSize c) x"
    using SortRanks_SomeD(2) [OF so] SortRanks_set [OF so] by simp
  define mid where "mid = find_middle c s active (length active div 2)"
  define ps where "ps = zip (filter (\<lambda>r. rankLoad s r > c_cap c) (rev (take mid active)))
    (filter (\<lambda>r. rankLoad s r < c_cap c) (drop mid active))"
  obtain s1 n where rp: "run_pairs c ps s 0 = (s1, n)" by fastforce
  have psr: "\<forall>(a, b)\<in>set ps. rank_in_range (c_rankSize c) a \<and> rank_in_range (c_rankSize c) b"
  proof (clarify)
    fix a b assume "(a, b) \<in> set ps"
    then have "a \<in> set (take mid active)" "b \<in> set (drop mid active)"
      by (auto simp: ps_def dest: set_zip_leftD set_zip_rightD)
    then show "rank_in_range (c_rankSize c) a \<and> rank_in_range (c_rankSize c) b"
      using rng by (meson in_set_takeD in_set_dropD)
  qed
  have "s' = s \<and> \<not> go \<or> fatal s1 = PLAN_OK \<and> (if n = 0 then s' = s1\<lparr> pairBlock := True \<rparr> \<and> \<not> go
      else s' = s1\<lparr> intraRounds := intraRounds s1 + 1 \<rparr> \<and> go)"
    using assms rp
    by (auto simp: intra_round_def so mid_def [symmetric] ps_def [symmetric] Let_def split: if_splits)
  then show thesis using rp psr blocked [of ps s1] moved [of ps s1 n] idle by (auto split: if_splits)
qed

lemma intra_round_True_fatal: "intra_round c key s = (s', True) \<Longrightarrow> fatal s' = PLAN_OK"
  by (auto simp: intra_round_def Let_def split: option.splits if_splits prod.splits)

lemma intra_round_account:
  assumes "intra_round c key s = (s', go)" "fatal s' = PLAN_OK"
  shows "overload c s' + of_bool go \<le> overload c s" "affinityOrder s' = affinityOrder s"
    "intraRounds s' = intraRounds s + of_bool go" "interRounds s' = interRounds s"
proof -
  have "overload c s' + of_bool go \<le> overload c s \<and> affinityOrder s' = affinityOrder s
    \<and> intraRounds s' = intraRounds s + of_bool go \<and> interRounds s' = interRounds s"
    using assms
  proof (cases rule: intra_round_cases)
    case blocked
    then show ?thesis using run_pairs_overload [OF blocked(1,2)] by auto
  next
    case moved
    then show ?thesis using run_pairs_overload [OF moved(1,2)] by auto
  qed simp
  then show "overload c s' + of_bool go \<le> overload c s" "affinityOrder s' = affinityOrder s"
    "intraRounds s' = intraRounds s + of_bool go" "interRounds s' = interRounds s" by auto
qed

lemma intra_round_overload:
  assumes "intra_round c key s = (s', True)"
  shows "overload c s' < overload c s"
  using intra_round_account(1) [OF assms intra_round_True_fatal [OF assms]] by simp

function intra_server :: "plan_ctx \<Rightarrow> int \<Rightarrow> plan_state \<Rightarrow> plan_state" where
  "intra_server c serverKey s =
    (let (s1, go) = intra_round c serverKey s in if go then intra_server c serverKey s1 else s1)"
  by pat_completeness auto
termination
proof (relation "measure (\<lambda>(c, key, s). nat (overload c s))", goal_cases)
  case (2 c key s p s1 go)
  then have "intra_round c key s = (s1, True)" by (cases p) auto
  then have "overload c s1 < overload c s" using intra_round_overload by blast
  moreover have "0 \<le> overload c s1" by simp
  ultimately have "nat (overload c s1) < nat (overload c s)" by linarith
  then show ?case by simp
qed simp

declare intra_server.simps [simp del]

definition INT32_MIN :: int where "INT32_MIN = -2147483648"

text \<open>The smallest server key above the previous one, \<open>INT_MAX\<close> when there is none.\<close>

definition next_server_key :: "plan_ctx \<Rightarrow> int \<Rightarrow> int" where
  "next_server_key c previousKey =
    fold (\<lambda>r serverKey. if server_key c r > previousKey \<and> server_key c r < serverKey
                        then server_key c r else serverKey) [0..c_rankSize c - 1] INT32_MAX"

lemma next_key_fold:
  "fold (\<lambda>r k. if f r > p \<and> f r < k then f r else k) xs kinit = kinit
   \<or> (\<exists>r\<in>set xs. fold (\<lambda>r k. if f r > p \<and> f r < k then f r else k) xs kinit = f r \<and> f r > p)"
  for f :: "int \<Rightarrow> int" and p :: int
proof (induction xs arbitrary: kinit)
  case (Cons x xs)
  let ?F = "\<lambda>r k. if f r > p \<and> f r < k then f r else k"
  show ?case
  proof (cases "f x > p \<and> f x < kinit")
    case True
    then have "fold ?F (x # xs) kinit = fold ?F xs (f x)" by simp
    then show ?thesis using Cons.IH [of "f x"] True by auto
  next
    case False
    then have "fold ?F (x # xs) kinit = fold ?F xs kinit" by auto
    then show ?thesis using Cons.IH [of kinit] by auto
  qed
qed simp

lemma next_server_key_cases:
  "next_server_key c p = INT32_MAX \<or>
   (\<exists>r. rank_in_range (c_rankSize c) r \<and> next_server_key c p = server_key c r \<and> p < server_key c r)"
  using next_key_fold [where f = "server_key c" and p = p and xs = "[0..c_rankSize c - 1]" and kinit = INT32_MAX]
  by (auto simp: next_server_key_def rank_in_range_def)

lemma next_server_key_decreases:
  assumes "next_server_key c p \<noteq> INT32_MAX"
  shows "card {r \<in> {0..<c_rankSize c}. server_key c r > next_server_key c p}
    < card {r \<in> {0..<c_rankSize c}. server_key c r > p}"
proof -
  obtain r where r: "rank_in_range (c_rankSize c) r" "next_server_key c p = server_key c r" "p < server_key c r"
    using next_server_key_cases [of c p] assms by auto
  have "{x \<in> {0..<c_rankSize c}. server_key c x > next_server_key c p} \<subset> {x \<in> {0..<c_rankSize c}. server_key c x > p}"
    using r by (auto simp: rank_in_range_def)
  then show ?thesis by (intro psubset_card_mono) (auto intro: finite_subset [of _ "{0..<c_rankSize c}"])
qed

function intra_servers :: "plan_ctx \<Rightarrow> int \<Rightarrow> plan_state \<Rightarrow> plan_state" where
  "intra_servers c previousKey s =
    (let serverKey = next_server_key c previousKey in
     if serverKey = INT32_MAX then s
     else let s1 = intra_server c serverKey s in
       if fatal s1 \<noteq> PLAN_OK then s1 else intra_servers c serverKey s1)"
  by pat_completeness auto
termination
proof (relation "measure (\<lambda>(c, prev, s). card {r \<in> {0..<c_rankSize c}. server_key c r > prev})", goal_cases)
  case (2 c prev s key s1)
  then show ?case using next_server_key_decreases [of c prev] by simp
qed simp

declare intra_servers.simps [simp del]

definition RunIntra :: "plan_ctx \<Rightarrow> plan_state \<Rightarrow> plan_state" where
  "RunIntra c s = intra_servers c INT32_MIN s"

section \<open>Rounds across servers\<close>

definition RankInList :: "int \<Rightarrow> int list \<Rightarrow> bool" where
  "RankInList rank ranks = list_ex (\<lambda>r. r = rank) ranks"

text \<open>The candidate loop of one receiver; it returns the state, the occupied senders and the
  tokens moved in the round.\<close>

fun try_candidates :: "plan_ctx \<Rightarrow> int list \<Rightarrow> int \<Rightarrow> int list \<Rightarrow> int \<Rightarrow> int set \<Rightarrow> plan_state \<Rightarrow> int \<Rightarrow>
    plan_state \<times> int set \<times> int" where
  "try_candidates c senders dst [] staticCandidates occupied s actualRound = (s, occupied, actualRound)"
| "try_candidates c senders dst (src # srcs) staticCandidates occupied s actualRound =
    (if staticCandidates \<ge> kPlanCrossCandidateCount then (s, occupied, actualRound)
     else if \<not> RankInList src senders
     then try_candidates c senders dst srcs staticCandidates occupied s actualRound
     else if src \<in> occupied
     then try_candidates c senders dst srcs (staticCandidates + 1) occupied s actualRound
     else let requested = MinI32 (rankLoad s src - c_cap c) (c_cap c - rankLoad s dst) in
       if requested \<le> 0
       then try_candidates c senders dst srcs (staticCandidates + 1) occupied s actualRound
       else let (s1, actual) = ApplyExpertMove c s src dst requested in
         if fatal s1 \<noteq> PLAN_OK then (s1, occupied, actualRound)
         else if actual > 0 then (s1, insert src occupied, actualRound + actual)
         else try_candidates c senders dst srcs (staticCandidates + 1) occupied s1 actualRound)"

fun run_receivers :: "plan_ctx \<Rightarrow> int list \<Rightarrow> int list \<Rightarrow> int set \<Rightarrow> plan_state \<Rightarrow> int \<Rightarrow> plan_state \<times> int" where
  "run_receivers c senders [] occupied s actualRound = (s, actualRound)"
| "run_receivers c senders (dst # dsts) occupied s actualRound =
    (let (s1, occupied1, actualRound1) =
           try_candidates c senders dst (row_of (affinityOrder s) dst (c_rankSize c)) 0 occupied s actualRound
     in if fatal s1 \<noteq> PLAN_OK then (s1, actualRound1)
        else run_receivers c senders dsts occupied1 s1 actualRound1)"

definition inter_round :: "plan_ctx \<Rightarrow> plan_state \<Rightarrow> plan_state \<times> bool" where
  "inter_round c s =
    (let active0 = filter (\<lambda>r. rankLoad s r \<noteq> c_cap c) [0..c_rankSize c - 1];
         underloaded = length (filter (\<lambda>r. rankLoad s r < c_cap c) active0)
     in if length active0 < 2 \<or> underloaded = 0 \<or> underloaded = length active0 then (s, False)
        else case SortRanks active0 (rankLoad s) (c_globalRankIds c) (c_rankSize c) False of
            None \<Rightarrow> (s\<lparr> fatal := PLAN_ERROR_INTERNAL_INVARIANT \<rparr>, False)
          | Some active \<Rightarrow>
              let receiverCount = min underloaded (length active div 2) in
              if receiverCount = 0 then (s, False)
              else let senderCount = length active - receiverCount;
                       senders = take senderCount active
                in case SortRanks (drop senderCount active) (rankLoad s) (c_globalRankIds c) (c_rankSize c) True of
                    None \<Rightarrow> (s\<lparr> fatal := PLAN_ERROR_INTERNAL_INVARIANT \<rparr>, False)
                  | Some receivers \<Rightarrow>
                      let (s1, actualRound) = run_receivers c senders receivers {} s 0
                      in if fatal s1 \<noteq> PLAN_OK then (s1, False)
                         else if actualRound = 0 then (s1\<lparr> pairBlock := True \<rparr>, False)
                         else (s1\<lparr> interRounds := interRounds s1 + 1 \<rparr>, True))"

lemma try_candidates_overload:
  assumes "try_candidates c senders dst srcs n occ s acc = (s', occ', m)" "fatal s' = PLAN_OK"
    "\<forall>x\<in>set senders. rank_in_range (c_rankSize c) x" "rank_in_range (c_rankSize c) dst"
  shows "overload c s' = overload c s - (m - acc) \<and> acc \<le> m \<and> affinityOrder s' = affinityOrder s
    \<and> intraRounds s' = intraRounds s \<and> interRounds s' = interRounds s"
  using assms(1,2)
proof (induction srcs arbitrary: n s)
  case (Cons src srcs)
  define req where "req = MinI32 (rankLoad s src - c_cap c) (c_cap c - rankLoad s dst)"
  obtain s1 k where ap: "ApplyExpertMove c s src dst req = (s1, k)" by fastforce
  show ?case
  proof (cases "n \<ge> kPlanCrossCandidateCount \<or> \<not> RankInList src senders \<or> src \<in> occ \<or> req \<le> 0")
    case True
    then show ?thesis using Cons.prems Cons.IH by (auto simp: req_def [symmetric] Let_def split: if_splits)
  next
    case False
    then have st: "(if fatal s1 \<noteq> PLAN_OK then (s1, occ, acc)
        else if k > 0 then (s1, insert src occ, acc + k)
        else try_candidates c senders dst srcs (n + 1) occ s1 acc) = (s', occ', m)"
      using Cons.prems(1) by (simp add: req_def [symmetric] ap Let_def)
    then have f1: "fatal s1 = PLAN_OK" using Cons.prems(2) by (auto split: if_splits)
    have "src \<in> set senders" using False by (auto simp: RankInList_def list_ex_iff)
    then have "overload c s1 = overload c s - k"
      using move_overload [OF ap f1 _ req_def] False assms(3,4) by auto
    then show ?thesis
      using st f1 Cons.IH [of "n + 1" s1] Cons.prems(2) ApplyExpertMove_account [OF ap f1]
      by (cases "k > 0") auto
  qed
qed simp

lemma run_receivers_overload:
  assumes "run_receivers c senders dsts occ s acc = (s', m)" "fatal s' = PLAN_OK"
    "\<forall>x\<in>set senders. rank_in_range (c_rankSize c) x" "\<forall>x\<in>set dsts. rank_in_range (c_rankSize c) x"
  shows "overload c s' = overload c s - (m - acc) \<and> acc \<le> m \<and> affinityOrder s' = affinityOrder s
    \<and> intraRounds s' = intraRounds s \<and> interRounds s' = interRounds s"
  using assms
proof (induction dsts arbitrary: occ s acc)
  case (Cons dst dsts)
  obtain s1 occ1 m1 where tc: "try_candidates c senders dst (row_of (affinityOrder s) dst (c_rankSize c)) 0 occ s acc
      = (s1, occ1, m1)" by (metis prod_cases3)
  have f1: "fatal s1 = PLAN_OK" and rest: "run_receivers c senders dsts occ1 s1 m1 = (s', m)"
    using Cons.prems(1,2) by (auto simp: tc split: if_splits)
  show ?case
    using try_candidates_overload [OF tc f1 Cons.prems(3)] Cons.IH [OF rest Cons.prems(2,3)] Cons.prems(4)
    by auto
qed simp

lemma inter_round_cases:
  assumes "inter_round c s = (s', go)" "fatal s' = PLAN_OK"
  obtains (idle) "s' = s" "\<not> go"
  | (blocked) senders receivers s1 where "run_receivers c senders receivers {} s 0 = (s1, 0)"
      "fatal s1 = PLAN_OK" "\<not> go" "\<forall>x\<in>set senders. rank_in_range (c_rankSize c) x"
      "\<forall>x\<in>set receivers. rank_in_range (c_rankSize c) x" "s' = s1\<lparr> pairBlock := True \<rparr>"
  | (moved) senders receivers s1 n where "run_receivers c senders receivers {} s 0 = (s1, n)"
      "fatal s1 = PLAN_OK" "go" "n \<noteq> 0" "\<forall>x\<in>set senders. rank_in_range (c_rankSize c) x"
      "\<forall>x\<in>set receivers. rank_in_range (c_rankSize c) x"
      "s' = s1\<lparr> interRounds := interRounds s1 + 1 \<rparr>"
proof -
  let ?act = "filter (\<lambda>r. rankLoad s r \<noteq> c_cap c) [0..c_rankSize c - 1]"
  let ?sort = "\<lambda>xs. SortRanks xs (rankLoad s) (c_globalRankIds c) (c_rankSize c)"
  define u where "u = length (filter (\<lambda>r. rankLoad s r < c_cap c) ?act)"
  show thesis
  proof (cases "s' = s \<and> \<not> go")
    case False
    obtain active where so: "?sort ?act False = Some active"
      using assms False by (cases "?sort ?act False") (auto simp: inter_round_def Let_def split: if_splits)
    have rng: "\<forall>x\<in>set active. rank_in_range (c_rankSize c) x"
      using SortRanks_SomeD(2) [OF so] SortRanks_set [OF so] by simp
    define n where "n = length active - min u (length active div 2)"
    obtain receivers where so2: "?sort (drop n active) True = Some receivers"
      using assms False by (cases "?sort (drop n active) True")
        (auto simp: inter_round_def Let_def so u_def [symmetric] n_def [symmetric] simp del: filter_filter split: if_splits)
    have rng2: "\<forall>x\<in>set receivers. rank_in_range (c_rankSize c) x"
      using SortRanks_SomeD(2) [OF so2] SortRanks_set [OF so2] by simp
    have rng1: "\<forall>x\<in>set (take n active). rank_in_range (c_rankSize c) x" using rng by (auto dest: in_set_takeD)
    obtain s1 m where rr: "run_receivers c (take n active) receivers {} s 0 = (s1, m)" by fastforce
    have "fatal s1 = PLAN_OK \<and> (if m = 0 then s' = s1\<lparr> pairBlock := True \<rparr> \<and> \<not> go
        else s' = s1\<lparr> interRounds := interRounds s1 + 1 \<rparr> \<and> go)"
      using assms False rr so2
      by (auto simp: inter_round_def Let_def so u_def [symmetric] n_def [symmetric] simp del: filter_filter split: if_splits)
    then show thesis using rr rng1 rng2 blocked moved by (auto split: if_splits)
  qed (use idle in simp)
qed

lemma inter_round_True_fatal: "inter_round c s = (s', True) \<Longrightarrow> fatal s' = PLAN_OK"
  by (auto simp: inter_round_def Let_def split: option.splits if_splits prod.splits)

lemma inter_round_account:
  assumes "inter_round c s = (s', go)" "fatal s' = PLAN_OK"
  shows "overload c s' + of_bool go \<le> overload c s" "affinityOrder s' = affinityOrder s"
    "intraRounds s' = intraRounds s" "interRounds s' = interRounds s + of_bool go"
proof -
  have "overload c s' + of_bool go \<le> overload c s \<and> affinityOrder s' = affinityOrder s
    \<and> intraRounds s' = intraRounds s \<and> interRounds s' = interRounds s + of_bool go"
    using assms
  proof (cases rule: inter_round_cases)
    case blocked
    then show ?thesis using run_receivers_overload [OF blocked(1,2)] by auto
  next
    case moved
    then show ?thesis using run_receivers_overload [OF moved(1,2)] by auto
  qed simp
  then show "overload c s' + of_bool go \<le> overload c s" "affinityOrder s' = affinityOrder s"
    "intraRounds s' = intraRounds s" "interRounds s' = interRounds s + of_bool go" by auto
qed

lemma inter_round_overload:
  assumes "inter_round c s = (s', True)"
  shows "overload c s' < overload c s"
  using inter_round_account(1) [OF assms inter_round_True_fatal [OF assms]] by simp

function RunInter :: "plan_ctx \<Rightarrow> plan_state \<Rightarrow> plan_state" where
  "RunInter c s = (let (s1, go) = inter_round c s in if go then RunInter c s1 else s1)"
  by pat_completeness auto
termination
proof (relation "measure (\<lambda>(c, s). nat (overload c s))", goal_cases)
  case (2 c s p s1 go)
  then have "inter_round c s = (s1, True)" by (cases p) auto
  then have "overload c s1 < overload c s" using inter_round_overload by blast
  moreover have "0 \<le> overload c s1" by simp
  ultimately have "nat (overload c s1) < nat (overload c s)" by linarith
  then show ?case by simp
qed simp

declare RunInter.simps [simp del]

section \<open>Tokens that stay\<close>

text \<open>The inner loop over the sources of one expert; the loops end at the first segment that
  cannot be recorded.\<close>

fun remainder_sources :: "plan_ctx \<Rightarrow> int \<Rightarrow> int \<Rightarrow> int list \<Rightarrow> plan_state \<Rightarrow> bool \<times> plan_state" where
  "remainder_sources c expert dst [] s = (True, s)"
| "remainder_sources c expert dst (src # srcs) s =
    (let re = ReIndex src expert (c_expertNum c); cnt = remainingTpe s re in
     if cnt \<le> 0 then remainder_sources c expert dst srcs s
     else let dstRe = ReIndex dst expert (c_expertNum c);
              (ok, s1) = AppendSegment c s expert src dst (srcExpertCursor s re) (dstExpertCursor s dstRe) cnt
       in if \<not> ok then (False, s1)
          else remainder_sources c expert dst srcs
                 (s1\<lparr> remainingTpe := (remainingTpe s1)(re := 0),
                      srcExpertCursor := (srcExpertCursor s1)(re := srcExpertCursor s1 re + cnt),
                      dstExpertCursor := (dstExpertCursor s1)(dstRe := dstExpertCursor s1 dstRe + cnt) \<rparr>))"

fun remainder_experts :: "plan_ctx \<Rightarrow> int list \<Rightarrow> plan_state \<Rightarrow> plan_state" where
  "remainder_experts c [] s = s"
| "remainder_experts c (expert # experts) s =
    (let (ok, s1) = remainder_sources c expert (HomeRank expert (c_expertsPerRank c)) [0..c_rankSize c - 1] s
     in if ok then remainder_experts c experts s1 else s1)"

definition AppendRemainders :: "plan_ctx \<Rightarrow> plan_state \<Rightarrow> plan_state" where
  "AppendRemainders c s = remainder_experts c [0..c_expertNum c - 1] s"

section \<open>The number of rounds\<close>

lemma intra_server_account:
  "fatal (intra_server c key s) = PLAN_OK \<Longrightarrow>
    overload c (intra_server c key s) + intraRounds (intra_server c key s) \<le> overload c s + intraRounds s
    \<and> interRounds (intra_server c key s) = interRounds s"
proof (induction c key s rule: intra_server.induct)
  case (1 c key s)
  obtain s1 go where r: "intra_round c key s = (s1, go)" by fastforce
  show ?case
  proof (cases go)
    case True
    then have "intra_server c key s = intra_server c key s1" using r by (subst intra_server.simps) simp
    then show ?thesis using "1.IH" [OF r [symmetric] refl] "1.prems" True
        intra_round_account [OF r] intra_round_True_fatal r by fastforce
  next
    case False
    then have "intra_server c key s = s1" using r by (subst intra_server.simps) simp
    then show ?thesis using "1.prems" False intra_round_account [OF r] by simp
  qed
qed

lemma intra_servers_account:
  "fatal (intra_servers c p s) = PLAN_OK \<Longrightarrow>
    overload c (intra_servers c p s) + intraRounds (intra_servers c p s) \<le> overload c s + intraRounds s
    \<and> interRounds (intra_servers c p s) = interRounds s"
proof (induction c p s rule: intra_servers.induct)
  case (1 c p s)
  define key where "key = next_server_key c p"
  define s1 where "s1 = intra_server c key s"
  have u: "intra_servers c p s = (if key = INT32_MAX then s else if fatal s1 \<noteq> PLAN_OK then s1 else intra_servers c key s1)"
    by (subst intra_servers.simps) (simp add: key_def s1_def Let_def)
  show ?case
  proof (cases "key = INT32_MAX")
    case False
    have f: "fatal s1 = PLAN_OK" using "1.prems" u False by (cases "fatal s1 = PLAN_OK") auto
    then show ?thesis
      using "1.IH" [OF key_def False s1_def] "1.prems" u False intra_server_account [of c key s] s1_def by auto
  qed (simp add: u)
qed

lemma RunInter_account:
  "fatal (RunInter c s) = PLAN_OK \<Longrightarrow>
    overload c (RunInter c s) + interRounds (RunInter c s) \<le> overload c s + interRounds s
    \<and> intraRounds (RunInter c s) = intraRounds s"
proof (induction c s rule: RunInter.induct)
  case (1 c s)
  obtain s1 go where r: "inter_round c s = (s1, go)" by fastforce
  show ?case
  proof (cases go)
    case True
    then have "RunInter c s = RunInter c s1" using r by (subst RunInter.simps) simp
    then show ?thesis using "1.IH" [OF r [symmetric] refl] "1.prems" True
        inter_round_account [OF r] inter_round_True_fatal r by fastforce
  next
    case False
    then have "RunInter c s = s1" using r by (subst RunInter.simps) simp
    then show ?thesis using "1.prems" False inter_round_account [OF r] by simp
  qed
qed

end
