(* ===== verification/PlanInvariant.thy ===== *)
theory PlanInvariant
  imports PlanRounds
begin

text \<open>
  The invariant of the planner's balancing rounds, and that every move keeps it: the tokens of a
  source and expert are partitioned into adjacent segments, the segments of a destination and
  expert are adjacent as well, allocations and loads agree with them, remote slots hold exactly
  the foreign experts of a rank, and routed pairs stay within the route limit.
\<close>

section \<open>Contexts and flat indices\<close>

definition plan_ctx_ok :: "plan_ctx \<Rightarrow> bool" where
  "plan_ctx_ok c = (0 < c_rankSize c \<and> 0 < c_expertsPerRank c \<and>
    c_expertNum c = c_rankSize c * c_expertsPerRank c \<and> 0 \<le> c_cap c \<and> 0 < c_b c \<and> 0 \<le> c_routeLimit c)"

abbreviation ranks_of :: "plan_ctx \<Rightarrow> int set" where "ranks_of c \<equiv> {0..<c_rankSize c}"
abbreviation experts_of :: "plan_ctx \<Rightarrow> int set" where "experts_of c \<equiv> {0..<c_expertNum c}"

abbreviation homeOf :: "plan_ctx \<Rightarrow> int \<Rightarrow> int" where "homeOf c e \<equiv> HomeRank e (c_expertsPerRank c)"

text \<open>The entry of a rank and expert table.\<close>

definition at :: "plan_ctx \<Rightarrow> int arr \<Rightarrow> int \<Rightarrow> int \<Rightarrow> int" where
  "at c table r e = table (ReIndex r e (c_expertNum c))"

lemma flat_index_inj:
  fixes n :: int
  assumes "0 \<le> e" "e < n" "0 \<le> e'" "e' < n"
  shows "(r * n + e = r' * n + e') = (r = r' \<and> e = e')"
proof
  assume eq: "r * n + e = r' * n + e'"
  have "(r * n + e) div n = r" "(r' * n + e') div n = r'" using assms by (simp_all add: add.commute)
  then show "r = r' \<and> e = e'" using eq by auto
qed simp

lemma ReIndex_inj:
  "\<lbrakk>e \<in> {0..<n}; e' \<in> {0..<n}\<rbrakk> \<Longrightarrow> (ReIndex r e n = ReIndex r' e' n) = (r = r' \<and> e = e')"
  by (simp add: ReIndex_def flat_index_inj)

lemma at_upd:
  "\<lbrakk>e \<in> experts_of c; e' \<in> experts_of c\<rbrakk> \<Longrightarrow>
    at c (f(ReIndex r e (c_expertNum c) := v)) r' e' = (if r = r' \<and> e = e' then v else at c f r' e')"
  by (simp add: at_def) (metis ReIndex_inj atLeastLessThan_iff)

lemma sum_at_upd:
  fixes f :: "'a \<Rightarrow> int"
  assumes "finite A" "a \<in> A"
  shows "(\<Sum>x\<in>A. if x = a then v else f x) = sum f A - f a + v"
proof -
  have "(\<Sum>x\<in>A. if x = a then v else f x) = v + (\<Sum>x\<in>A - {a}. if x = a then v else f x)"
    using assms by (simp add: sum.remove [of A a])
  also have "(\<Sum>x\<in>A - {a}. if x = a then v else f x) = sum f (A - {a})" by (intro sum.cong) auto
  also have "sum f (A - {a}) = sum f A - f a" using assms by (simp add: sum.remove [of A a])
  finally show ?thesis by simp
qed

lemma home_iff:
  assumes "plan_ctx_ok c"
  shows "(homeOf c e = h) = (h * c_expertsPerRank c \<le> e \<and> e < h * c_expertsPerRank c + c_expertsPerRank c)"
proof -
  have E: "0 < c_expertsPerRank c" using assms by (simp add: plan_ctx_ok_def)
  have m: "e = (e div c_expertsPerRank c) * c_expertsPerRank c + e mod c_expertsPerRank c"
    "0 \<le> e mod c_expertsPerRank c" "e mod c_expertsPerRank c < c_expertsPerRank c" using E by simp_all
  show ?thesis unfolding HomeRank_def
  proof
    assume "e div c_expertsPerRank c = h"
    then have "e = h * c_expertsPerRank c + e mod c_expertsPerRank c" using m(1) by simp
    then show "h * c_expertsPerRank c \<le> e \<and> e < h * c_expertsPerRank c + c_expertsPerRank c"
      using m(2,3) by linarith
  next
    assume "h * c_expertsPerRank c \<le> e \<and> e < h * c_expertsPerRank c + c_expertsPerRank c"
    then show "e div c_expertsPerRank c = h"
      by (intro int_div_pos_eq [of e _ h "e - h * c_expertsPerRank c"]) (auto simp: mult.commute)
  qed
qed

lemma home_range:
  assumes "plan_ctx_ok c" "e \<in> experts_of c"
  shows "homeOf c e \<in> ranks_of c"
proof -
  have E: "0 < c_expertsPerRank c" and e: "0 \<le> e" "e < c_rankSize c * c_expertsPerRank c"
    using assms by (simp_all add: plan_ctx_ok_def)
  have "e div c_expertsPerRank c < c_rankSize c"
  proof (rule ccontr)
    assume "\<not> ?thesis"
    then have "c_rankSize c * c_expertsPerRank c \<le> e div c_expertsPerRank c * c_expertsPerRank c"
      using E by (intro mult_right_mono) auto
    also have "\<dots> \<le> e" using E by (metis div_mult_mod_eq le_add_same_cancel1 pos_mod_sign)
    finally show False using e by simp
  qed
  then show ?thesis using e E by (simp add: HomeRank_def pos_imp_zdiv_nonneg_iff)
qed

section \<open>Segments\<close>

text \<open>The segments of a list are adjacent: they cover \<open>[lo, hi)\<close> in order, by the begin that
  \<open>bgn\<close> selects.\<close>

fun chained :: "(token_segment_move \<Rightarrow> int) \<Rightarrow> int \<Rightarrow> token_segment_move list \<Rightarrow> int \<Rightarrow> bool" where
  "chained bgn lo [] hi = (lo = hi)"
| "chained bgn lo (m # ms) hi = (bgn m = lo \<and> 0 < tokenCount m \<and> chained bgn (lo + tokenCount m) ms hi)"

lemma chained_snoc:
  "chained bgn lo (ms @ [m]) hi = (chained bgn lo ms (bgn m) \<and> 0 < tokenCount m \<and> hi = bgn m + tokenCount m)"
  by (induction ms arbitrary: lo) auto

lemma chained_le: "chained bgn lo ms hi \<Longrightarrow> lo \<le> hi"
  by (induction ms arbitrary: lo) fastforce+

lemma chained_mem:
  "chained bgn lo ms hi \<Longrightarrow> m \<in> set ms \<Longrightarrow> lo \<le> bgn m \<and> bgn m + tokenCount m \<le> hi \<and> 0 < tokenCount m"
proof (induction ms arbitrary: lo)
  case (Cons x ms)
  then show ?case using chained_le [of bgn "lo + tokenCount x" ms hi] by fastforce
qed simp

lemma chained_cover:
  "chained bgn lo ms hi \<Longrightarrow> lo \<le> k \<Longrightarrow> k < hi \<Longrightarrow> \<exists>m\<in>set ms. bgn m \<le> k \<and> k < bgn m + tokenCount m"
proof (induction ms arbitrary: lo)
  case (Cons x ms)
  then show ?case by (cases "k < lo + tokenCount x") fastforce+
qed simp

lemma chained_unique:
  assumes "chained bgn lo ms hi" "m \<in> set ms" "m' \<in> set ms"
    "bgn m \<le> k" "k < bgn m + tokenCount m" "bgn m' \<le> k" "k < bgn m' + tokenCount m'"
  shows "m = m'"
  using assms
proof (induction ms arbitrary: lo)
  case (Cons x ms)
  have "lo + tokenCount x \<le> bgn y" if "y \<in> set ms" for y
    using Cons.prems(1) chained_mem [of bgn "lo + tokenCount x" ms hi y] that by auto
  then show ?case using Cons by fastforce
qed simp

lemma chained_distinct: "chained bgn lo ms hi \<Longrightarrow> distinct ms"
proof (induction ms arbitrary: lo)
  case (Cons x ms)
  then show ?case using chained_mem [of bgn "lo + tokenCount x" ms hi x] by auto
qed simp

lemma chained_total: "chained bgn lo ms hi \<Longrightarrow> sum_list (map tokenCount ms) = hi - lo"
proof (induction ms arbitrary: lo)
  case (Cons x ms)
  then show ?case by fastforce
qed simp

text \<open>The segments of a source or of a destination.\<close>

definition segs_from :: "plan_state \<Rightarrow> int \<Rightarrow> int \<Rightarrow> token_segment_move list" where
  "segs_from s src e = filter (\<lambda>m. srcRank m = src \<and> expertId m = e) (segmentLog s)"

definition segs_to :: "plan_state \<Rightarrow> int \<Rightarrow> int \<Rightarrow> token_segment_move list" where
  "segs_to s dst e = filter (\<lambda>m. dstRank m = dst \<and> expertId m = e) (segmentLog s)"

definition segs_pair :: "plan_state \<Rightarrow> int \<Rightarrow> int \<Rightarrow> token_segment_move list" where
  "segs_pair s src dst = filter (\<lambda>m. srcRank m = src \<and> dstRank m = dst) (segmentLog s)"

section \<open>The invariant of the rounds\<close>

text \<open>Tokens of a source are taken or remain, and its segments are adjacent on both sides.\<close>

definition inv_flow :: "plan_ctx \<Rightarrow> int arr \<Rightarrow> plan_state \<Rightarrow> bool" where
  "inv_flow c tpe s =
    ((\<forall>src\<in>ranks_of c. \<forall>e\<in>experts_of c. 0 \<le> at c (remainingTpe s) src e \<and>
        at c (srcExpertCursor s) src e + at c (remainingTpe s) src e = at c tpe src e \<and>
        chained srcExpertBegin 0 (segs_from s src e) (at c (srcExpertCursor s) src e)) \<and>
     (\<forall>dst\<in>ranks_of c. \<forall>e\<in>experts_of c.
        chained dstExpertBegin 0 (segs_to s dst e) (at c (dstExpertCursor s) dst e)) \<and>
     (\<forall>m\<in>set (segmentLog s). srcRank m \<in> ranks_of c \<and> dstRank m \<in> ranks_of c \<and> expertId m \<in> experts_of c) \<and>
     tokenSegments s = filter (\<lambda>m. srcRank m = c_rank c) (segmentLog s))"

definition inv_pairs :: "plan_ctx \<Rightarrow> plan_state \<Rightarrow> bool" where
  "inv_pairs c s = (c_routeLimit c \<noteq> 0 \<longrightarrow> (\<forall>src\<in>ranks_of c. \<forall>dst\<in>ranks_of c.
      sum_list (map tokenCount (segs_pair s src dst)) = routedPairTokens s (PairIndex src dst (c_rankSize c)) \<and>
      routedPairTokens s (PairIndex src dst (c_rankSize c)) \<le> c_routeLimit c))"

text \<open>Allocations: what a home rank keeps is what remains of its experts, what another rank was
  allocated is what its segments hold, and loads are the sums of the allocations.\<close>

definition inv_alloc :: "plan_ctx \<Rightarrow> plan_state \<Rightarrow> bool" where
  "inv_alloc c s =
    ((\<forall>e\<in>experts_of c. (\<Sum>src\<in>ranks_of c. at c (remainingTpe s) src e) = at c (alloc s) (homeOf c e) e \<and>
        at c (dstExpertCursor s) (homeOf c e) e = 0) \<and>
     (\<forall>r\<in>ranks_of c. \<forall>e\<in>experts_of c. 0 \<le> at c (alloc s) r e \<and>
        (r \<noteq> homeOf c e \<longrightarrow> at c (dstExpertCursor s) r e = at c (alloc s) r e)) \<and>
     (\<forall>r\<in>ranks_of c. rankLoad s r = (\<Sum>e\<in>experts_of c. at c (alloc s) r e)))"

text \<open>The remote slots of a rank hold exactly the foreign experts it was allocated.\<close>

definition remote_row :: "plan_ctx \<Rightarrow> plan_state \<Rightarrow> int \<Rightarrow> int list" where
  "remote_row c s dst = map (\<lambda>slot. remoteExpertSet s (dst * c_b c + slot)) [0..remoteCount s dst - 1]"

definition inv_slots :: "plan_ctx \<Rightarrow> plan_state \<Rightarrow> bool" where
  "inv_slots c s = (\<forall>dst\<in>ranks_of c. 0 \<le> remoteCount s dst \<and> remoteCount s dst \<le> c_b c \<and>
      distinct (remote_row c s dst) \<and>
      set (remote_row c s dst) = {e \<in> experts_of c. homeOf c e \<noteq> dst \<and> 0 < at c (alloc s) dst e})"

definition inv_affinity :: "plan_ctx \<Rightarrow> plan_state \<Rightarrow> bool" where
  "inv_affinity c s = (\<forall>dst\<in>ranks_of c.
      mset (row_of (affinityOrder s) dst (c_rankSize c)) = mset [0..c_rankSize c - 1])"

definition plan_inv :: "plan_ctx \<Rightarrow> int arr \<Rightarrow> plan_state \<Rightarrow> bool" where
  "plan_inv c tpe s = (inv_flow c tpe s \<and> inv_pairs c s \<and> inv_alloc c s \<and> inv_slots c s \<and> inv_affinity c s)"

section \<open>Taking tokens of a source\<close>

lemma PairIndex_inj:
  "\<lbrakk>d \<in> {0..<n}; d' \<in> {0..<n}\<rbrakk> \<Longrightarrow> (PairIndex s d n = PairIndex s' d' n) = (s = s' \<and> d = d')"
  by (simp add: PairIndex_def flat_index_inj)

definition taken_segment :: "plan_ctx \<Rightarrow> plan_state \<Rightarrow> int \<Rightarrow> int \<Rightarrow> int \<Rightarrow> int \<Rightarrow> token_segment_move" where
  "taken_segment c s e src dst k = \<lparr> expertId = e, srcRank = src, dstRank = dst,
    srcExpertBegin = at c (srcExpertCursor s) src e, dstExpertBegin = at c (dstExpertCursor s) dst e,
    tokenCount = k \<rparr>"

lemma AppendSegment_take:
  assumes "AppendSegment c s e src dst (srcExpertCursor s (ReIndex src e (c_expertNum c)))
      (dstExpertCursor s (ReIndex dst e (c_expertNum c))) k = (True, s1)"
  shows "segmentLog s1 = segmentLog s @ [taken_segment c s e src dst k]"
    "tokenSegments s = filter (\<lambda>m. srcRank m = c_rank c) (segmentLog s) \<Longrightarrow>
      tokenSegments s1 = filter (\<lambda>m. srcRank m = c_rank c) (segmentLog s1)"
  using assms by (auto simp: AppendSegment_def Let_def taken_segment_def at_def split: if_splits)

lemma segs_snoc:
  assumes "segmentLog s' = segmentLog s @ [m]"
  shows "segs_from s' src e = segs_from s src e @ (if srcRank m = src \<and> expertId m = e then [m] else [])"
    "segs_to s' dst e = segs_to s dst e @ (if dstRank m = dst \<and> expertId m = e then [m] else [])"
    "segs_pair s' src dst = segs_pair s src dst @ (if srcRank m = src \<and> dstRank m = dst then [m] else [])"
  using assms by (simp_all add: segs_from_def segs_to_def segs_pair_def)

text \<open>A step that appends a segment and advances the two cursors past it keeps the flow.\<close>

lemma inv_flow_step:
  assumes inv: "inv_flow c tpe s" and rng: "src \<in> ranks_of c" "dst \<in> ranks_of c" "e \<in> experts_of c"
    and k: "0 < k" "k \<le> at c (remainingTpe s) src e"
    and lg: "segmentLog s' = segmentLog s @ [taken_segment c s e src dst k]"
    and own: "tokenSegments s' = filter (\<lambda>m. srcRank m = c_rank c) (segmentLog s')"
    and upd: "remainingTpe s' = (remainingTpe s)(ReIndex src e (c_expertNum c) := at c (remainingTpe s) src e - k)"
      "srcExpertCursor s' = (srcExpertCursor s)(ReIndex src e (c_expertNum c) := at c (srcExpertCursor s) src e + k)"
      "dstExpertCursor s' = (dstExpertCursor s)(ReIndex dst e (c_expertNum c) := at c (dstExpertCursor s) dst e + k)"
  shows "inv_flow c tpe s'"
proof -
  let ?m = "taken_segment c s e src dst k"
  note sn = segs_snoc [OF lg]
  have "0 \<le> at c (remainingTpe s') r x \<and>
      at c (srcExpertCursor s') r x + at c (remainingTpe s') r x = at c tpe r x \<and>
      chained srcExpertBegin 0 (segs_from s' r x) (at c (srcExpertCursor s') r x)"
    if "r \<in> ranks_of c" "x \<in> experts_of c" for r x
  proof -
    have old: "0 \<le> at c (remainingTpe s) r x" "at c (srcExpertCursor s) r x + at c (remainingTpe s) r x = at c tpe r x"
      "chained srcExpertBegin 0 (segs_from s r x) (at c (srcExpertCursor s) r x)"
      using inv that unfolding inv_flow_def by blast+
    note u = upd(1,2) [THEN arg_cong, of "\<lambda>f. at c f r x", unfolded at_upd [OF rng(3) that(2)]]
    show ?thesis
      using old k u by (cases "src = r \<and> e = x") (auto simp: sn chained_snoc taken_segment_def)
  qed
  moreover have "chained dstExpertBegin 0 (segs_to s' r x) (at c (dstExpertCursor s') r x)"
    if "r \<in> ranks_of c" "x \<in> experts_of c" for r x
  proof -
    have old: "chained dstExpertBegin 0 (segs_to s r x) (at c (dstExpertCursor s) r x)"
      using inv that unfolding inv_flow_def by blast
    note u = upd(3) [THEN arg_cong, of "\<lambda>f. at c f r x", unfolded at_upd [OF rng(3) that(2)]]
    show ?thesis
      using old k u by (cases "dst = r \<and> e = x") (auto simp: sn chained_snoc taken_segment_def)
  qed
  moreover have "\<forall>m\<in>set (segmentLog s'). srcRank m \<in> ranks_of c \<and> dstRank m \<in> ranks_of c \<and> expertId m \<in> experts_of c"
    using inv rng unfolding inv_flow_def lg by (auto simp: taken_segment_def)
  ultimately show ?thesis using own unfolding inv_flow_def by blast
qed

lemma inv_pairs_step:
  assumes inv: "inv_pairs c s" and rng: "src \<in> ranks_of c" "dst \<in> ranks_of c"
    and k: "c_routeLimit c \<noteq> 0 \<Longrightarrow> routedPairTokens s (PairIndex src dst (c_rankSize c)) + k \<le> c_routeLimit c"
    and lg: "segmentLog s' = segmentLog s @ [taken_segment c s e src dst k]"
    and upd: "c_routeLimit c \<noteq> 0 \<Longrightarrow> routedPairTokens s' = (routedPairTokens s)
      (PairIndex src dst (c_rankSize c) := routedPairTokens s (PairIndex src dst (c_rankSize c)) + k)"
  shows "inv_pairs c s'"
  unfolding inv_pairs_def
proof (intro impI ballI)
  fix r x assume nz: "c_routeLimit c \<noteq> 0" and r: "r \<in> ranks_of c" and x: "x \<in> ranks_of c"
  have old: "sum_list (map tokenCount (segs_pair s r x)) = routedPairTokens s (PairIndex r x (c_rankSize c))"
    "routedPairTokens s (PairIndex r x (c_rankSize c)) \<le> c_routeLimit c"
    using inv nz r x unfolding inv_pairs_def by blast+
  show "sum_list (map tokenCount (segs_pair s' r x)) = routedPairTokens s' (PairIndex r x (c_rankSize c)) \<and>
      routedPairTokens s' (PairIndex r x (c_rankSize c)) \<le> c_routeLimit c"
  proof (cases "src = r \<and> dst = x")
    case True
    then show ?thesis using old k [OF nz] by (simp add: segs_snoc [OF lg] taken_segment_def upd [OF nz])
  next
    case False
    then have "PairIndex r x (c_rankSize c) \<noteq> PairIndex src dst (c_rankSize c)"
      using PairIndex_inj [OF x rng(2), of r src] by auto
    then show ?thesis using old False by (auto simp: segs_snoc [OF lg] taken_segment_def upd [OF nz])
  qed
qed

lemma record_take_fields:
  "remainingTpe (record_take c s e src dst k) =
    (remainingTpe s)(ReIndex src e (c_expertNum c) := at c (remainingTpe s) src e - k)"
  "srcExpertCursor (record_take c s e src dst k) =
    (srcExpertCursor s)(ReIndex src e (c_expertNum c) := at c (srcExpertCursor s) src e + k)"
  "dstExpertCursor (record_take c s e src dst k) =
    (dstExpertCursor s)(ReIndex dst e (c_expertNum c) := at c (dstExpertCursor s) dst e + k)"
  "c_routeLimit c \<noteq> 0 \<Longrightarrow> routedPairTokens (record_take c s e src dst k) = (routedPairTokens s)
    (PairIndex src dst (c_rankSize c) := routedPairTokens s (PairIndex src dst (c_rankSize c)) + k)"
  "segmentLog (record_take c s e src dst k) = segmentLog s"
  "tokenSegments (record_take c s e src dst k) = tokenSegments s"
  by (simp_all add: record_take_def Let_def at_def)

text \<open>The loop over the sources keeps flow and pairs, and moves what it took from the remaining
  tokens of the expert to the cursor of the destination.\<close>

lemma take_sources_inv:
  assumes "take_sources c e dst srcs s d a = (s', d', a')" "fatal s' = PLAN_OK"
    "inv_flow c tpe s" "inv_pairs c s" "set srcs \<subseteq> ranks_of c" "dst \<in> ranks_of c" "e \<in> experts_of c"
  shows "inv_flow c tpe s' \<and> inv_pairs c s' \<and>
    (\<forall>r\<in>ranks_of c. \<forall>x\<in>experts_of c. at c (dstExpertCursor s') r x =
       at c (dstExpertCursor s) r x + (if r = dst \<and> x = e then a' - a else 0)) \<and>
    (\<forall>x\<in>experts_of c. (\<Sum>r\<in>ranks_of c. at c (remainingTpe s') r x) =
       (\<Sum>r\<in>ranks_of c. at c (remainingTpe s) r x) - (if x = e then a' - a else 0))"
  using assms(1-5)
proof (induction srcs arbitrary: s d a)
  case (Cons src srcs)
  define k where "k = MinI32 (MinI32 (remainingTpe s (ReIndex src e (c_expertNum c))) d) (pair_remain c s src dst d)"
  obtain ok s1 where app: "AppendSegment c s e src dst (srcExpertCursor s (ReIndex src e (c_expertNum c)))
      (dstExpertCursor s (ReIndex dst e (c_expertNum c))) k = (ok, s1)" by fastforce
  have src: "src \<in> ranks_of c" and srcs: "set srcs \<subseteq> ranks_of c" using Cons.prems(5) by auto
  show ?case
  proof (cases "d \<le> 0 \<or> k \<le> 0")
    case True
    then show ?thesis using Cons.prems Cons.IH [OF _ Cons.prems(2-4) srcs]
      by (auto simp: k_def [symmetric] Let_def split: if_splits)
  next
    case False
    have ok: ok
      using Cons.prems(1,2) False AppendSegment_frame(13) [OF app]
      by (cases ok) (auto simp: k_def [symmetric] Let_def app)
    define s2 where "s2 = record_take c s1 e src dst k"
    have rest: "take_sources c e dst srcs s2 (d - k) (a + k) = (s', d', a')"
      using Cons.prems(1) False ok by (simp add: k_def [symmetric] Let_def app s2_def)
    note fr = AppendSegment_frame [OF app]
    note lg = AppendSegment_take [of c s e src dst k s1] app
    have upd: "remainingTpe s2 = (remainingTpe s)(ReIndex src e (c_expertNum c) := at c (remainingTpe s) src e - k)"
      "srcExpertCursor s2 = (srcExpertCursor s)(ReIndex src e (c_expertNum c) := at c (srcExpertCursor s) src e + k)"
      "dstExpertCursor s2 = (dstExpertCursor s)(ReIndex dst e (c_expertNum c) := at c (dstExpertCursor s) dst e + k)"
      by (simp_all add: s2_def record_take_fields fr)
    have log2: "segmentLog s2 = segmentLog s @ [taken_segment c s e src dst k]"
      using lg ok by (simp add: s2_def record_take_fields)
    have kr: "k \<le> at c (remainingTpe s) src e" "k \<le> pair_remain c s src dst d" by (auto simp: k_def at_def MinI32_def)
    have f2: "inv_flow c tpe s2"
    proof (rule inv_flow_step [OF Cons.prems(3) src assms(6,7) _ kr(1) log2 _ upd])
      show "tokenSegments s2 = filter (\<lambda>m. srcRank m = c_rank c) (segmentLog s2)"
        using lg ok Cons.prems(3) by (simp add: s2_def record_take_fields inv_flow_def)
    qed (use False in simp)
    have p2: "inv_pairs c s2"
    proof (rule inv_pairs_step [OF Cons.prems(4) src assms(6) _ log2])
      assume nz: "c_routeLimit c \<noteq> 0"
      show "routedPairTokens s (PairIndex src dst (c_rankSize c)) + k \<le> c_routeLimit c"
        using kr(2) False nz by (auto simp: pair_remain_def Let_def split: if_splits)
      show "routedPairTokens s2 = (routedPairTokens s)
        (PairIndex src dst (c_rankSize c) := routedPairTokens s (PairIndex src dst (c_rankSize c)) + k)"
        using nz by (simp add: s2_def record_take_fields fr)
    qed
    have dc: "at c (dstExpertCursor s2) r x = at c (dstExpertCursor s) r x + (if r = dst \<and> x = e then k else 0)"
      if "x \<in> experts_of c" for r x
      using that assms(7) by (simp add: upd at_upd)
    have rm: "(\<Sum>r\<in>ranks_of c. at c (remainingTpe s2) r x) =
       (\<Sum>r\<in>ranks_of c. at c (remainingTpe s) r x) - (if x = e then k else 0)" if "x \<in> experts_of c" for x
    proof (cases "x = e")
      case True
      have "(\<Sum>r\<in>ranks_of c. at c (remainingTpe s2) r e) =
        (\<Sum>r\<in>ranks_of c. if r = src then at c (remainingTpe s) src e - k else at c (remainingTpe s) r e)"
        using assms(7) by (intro sum.cong) (auto simp: upd at_upd)
      then show ?thesis using src True by (simp add: sum_at_upd)
    next
      case False
      then show ?thesis using that assms(7) by (simp add: upd at_upd)
    qed
    show ?thesis using Cons.IH [OF rest Cons.prems(2) f2 p2 srcs] by (auto simp: dc rm)
  qed
qed simp

section \<open>Committing a move\<close>

lemma inv_flow_cong:
  "\<lbrakk>remainingTpe s' = remainingTpe s; srcExpertCursor s' = srcExpertCursor s;
    dstExpertCursor s' = dstExpertCursor s; segmentLog s' = segmentLog s; tokenSegments s' = tokenSegments s\<rbrakk>
    \<Longrightarrow> inv_flow c tpe s' = inv_flow c tpe s"
  by (simp only: inv_flow_def segs_from_def segs_to_def)

lemma inv_pairs_cong:
  "\<lbrakk>routedPairTokens s' = routedPairTokens s; segmentLog s' = segmentLog s\<rbrakk> \<Longrightarrow> inv_pairs c s' = inv_pairs c s"
  by (simp only: inv_pairs_def segs_pair_def)

lemma inv_alloc_cong:
  "\<lbrakk>remainingTpe s' = remainingTpe s; dstExpertCursor s' = dstExpertCursor s; alloc s' = alloc s;
    rankLoad s' = rankLoad s\<rbrakk> \<Longrightarrow> inv_alloc c s' = inv_alloc c s"
  by (simp only: inv_alloc_def)

lemma inv_slots_cong:
  "\<lbrakk>remoteCount s' = remoteCount s; remoteExpertSet s' = remoteExpertSet s; alloc s' = alloc s\<rbrakk>
    \<Longrightarrow> inv_slots c s' = inv_slots c s"
  by (simp only: inv_slots_def remote_row_def)

lemma inv_affinity_cong: "affinityOrder s' = affinityOrder s \<Longrightarrow> inv_affinity c s' = inv_affinity c s"
  by (simp only: inv_affinity_def)

lemmas inv_congs = inv_flow_cong inv_pairs_cong inv_alloc_cong inv_slots_cong inv_affinity_cong

lemma find_slot_nonneg:
  "\<forall>x\<in>set slots. 0 \<le> x \<Longrightarrow>
    (0 \<le> find_slot table base expert slots) = (\<exists>x\<in>set slots. table (base + x) = expert)"
  by (induction slots) auto

lemma FindRemote_iff: "(0 \<le> FindRemote c s dst e) = (e \<in> set (remote_row c s dst))"
  by (auto simp: FindRemote_def remote_row_def find_slot_nonneg)

lemma commit_alloc:
  assumes "home \<noteq> dst" "e \<in> experts_of c" "x \<in> experts_of c"
  shows "at c (alloc (commit_move c s home dst e ar k)) r x =
    at c (alloc s) r x + (if x = e then (if r = dst then k else if r = home then - k else 0) else 0)"
proof -
  let ?h = "ReIndex home e (c_expertNum c)" and ?d = "ReIndex dst e (c_expertNum c)"
  have ne: "?h \<noteq> ?d" using assms ReIndex_inj [of e "c_expertNum c" e home dst] by auto
  have "alloc (commit_move c s home dst e ar k) =
      (alloc s)(?h := at c (alloc s) home e - k, ?d := at c (alloc s) dst e + k)"
    using ne by (auto simp: commit_move_def Let_def at_def)
  then show ?thesis using assms by (auto simp: at_upd)
qed

lemma commit_slots_other:
  assumes "dst' \<noteq> dst" "0 \<le> remoteCount s dst" "remoteCount s dst < c_b c \<or> ar" "remoteCount s dst' \<le> c_b c"
  shows "remote_row c (commit_move c s home dst e ar k) dst' = remote_row c s dst'"
    "remoteCount (commit_move c s home dst e ar k) dst' = remoteCount s dst'"
proof -
  show cnt: "remoteCount (commit_move c s home dst e ar k) dst' = remoteCount s dst'"
    using assms(1) by (simp add: commit_move_def Let_def)
  have "dst' * c_b c + slot \<noteq> dst * c_b c + remoteCount s dst" if "0 \<le> slot" "slot < remoteCount s dst'" "\<not> ar" for slot
    using that assms flat_index_inj [of slot "c_b c" "remoteCount s dst" dst' dst] by auto
  then show "remote_row c (commit_move c s home dst e ar k) dst' = remote_row c s dst'"
    by (auto simp: remote_row_def cnt) (auto simp: commit_move_def Let_def)
qed

lemma commit_slots_self:
  assumes "0 \<le> remoteCount s dst"
  shows "remote_row c (commit_move c s home dst e ar k) dst =
      (if ar then remote_row c s dst else remote_row c s dst @ [e])"
    "remoteCount (commit_move c s home dst e ar k) dst = remoteCount s dst + (if ar then 0 else 1)"
  using assms by (auto simp: remote_row_def commit_move_def Let_def upto_rec2)

lemma commit_move_load_at:
  assumes "home \<noteq> dst"
  shows "rankLoad (commit_move c s home dst e ar k) r =
    rankLoad s r + (if r = dst then k else if r = home then - k else 0)"
  using assms by (auto simp: commit_move_load)

text \<open>The tokens that one expert gives up are committed to the destination.\<close>

lemma move_expert_inv:
  assumes ok: "plan_ctx_ok c" and inv: "plan_inv c tpe s"
    and rng: "dst \<in> ranks_of c" "e \<in> experts_of c" "homeOf c e \<noteq> dst"
    and ts: "take_sources c e dst (row_of (affinityOrder s) dst (c_rankSize c)) s d 0 = (s1, ed, k)"
    and f1: "fatal s1 = PLAN_OK" and d: "0 \<le> d" "d \<le> at c (alloc s) (homeOf c e) e"
    and slot: "FindRemote c s dst e \<ge> 0 \<or> remoteCount s dst < c_b c" and k: "0 < k"
  shows "plan_inv c tpe (commit_move c s1 (homeOf c e) dst e (FindRemote c s dst e \<ge> 0) k)"
proof -
  let ?ar = "FindRemote c s dst e \<ge> 0" and ?h = "homeOf c e"
  let ?s = "commit_move c s1 ?h dst e ?ar k"
  note acc = take_sources_account [OF ts]
  have inv': "inv_flow c tpe s" "inv_pairs c s" "inv_alloc c s" "inv_slots c s" "inv_affinity c s"
    using inv by (simp_all add: plan_inv_def)
  have h: "?h \<in> ranks_of c" using home_range [OF ok rng(2)] .
  have rowr: "set (row_of (affinityOrder s) dst (c_rankSize c)) \<subseteq> ranks_of c"
    using inv'(5) rng(1) mset_eq_setD unfolding inv_affinity_def by fastforce
  note ti = take_sources_inv [OF ts f1 inv'(1,2) rowr rng(1,2)]
  have kd: "k \<le> d" using acc d by linarith
  have al: "at c (alloc ?s) r x = at c (alloc s) r x + (if x = e then (if r = dst then k else if r = ?h then - k else 0) else 0)"
    if "x \<in> experts_of c" for r x
    using commit_alloc [OF rng(3) rng(2) that, of s1 ?ar k r] acc by (simp add: at_def)
  have "inv_flow c tpe ?s" using conjunct1 [OF ti] inv_flow_cong [of ?s s1 c tpe] by simp
  moreover have "inv_pairs c ?s" using ti inv_pairs_cong [of ?s s1 c] by simp
  moreover have "inv_affinity c ?s" using inv'(5) acc by (simp add: inv_affinity_def)
  moreover have "inv_alloc c ?s" unfolding inv_alloc_def
  proof (intro conjI ballI)
    fix x assume x: "x \<in> experts_of c"
    show "(\<Sum>src\<in>ranks_of c. at c (remainingTpe ?s) src x) = at c (alloc ?s) (homeOf c x) x"
      using ti x inv'(3) rng(3) by (auto simp: inv_alloc_def al)
    show "at c (dstExpertCursor ?s) (homeOf c x) x = 0"
      using ti x inv'(3) rng(3) home_range [OF ok x] by (auto simp: inv_alloc_def)
  next
    fix r x assume r: "r \<in> ranks_of c" and x: "x \<in> experts_of c"
    have a0: "0 \<le> at c (alloc s) r x" using inv'(3) r x by (auto simp: inv_alloc_def)
    show "0 \<le> at c (alloc ?s) r x" using a0 kd d k by (auto simp: al [OF x])
    show "r \<noteq> homeOf c x \<longrightarrow> at c (dstExpertCursor ?s) r x = at c (alloc ?s) r x"
      using ti r x inv'(3) by (auto simp: inv_alloc_def al)
  next
    fix r assume r: "r \<in> ranks_of c"
    have "(\<Sum>x\<in>experts_of c. at c (alloc ?s) r x) = (\<Sum>x\<in>experts_of c. if x = e
        then at c (alloc s) r e + (if r = dst then k else if r = ?h then - k else 0) else at c (alloc s) r x)"
      by (intro sum.cong) (auto simp: al)
    then have "(\<Sum>x\<in>experts_of c. at c (alloc ?s) r x) =
        (\<Sum>x\<in>experts_of c. at c (alloc s) r x) + (if r = dst then k else if r = ?h then - k else 0)"
      using rng(2) by (simp add: sum_at_upd)
    then show "rankLoad ?s r = (\<Sum>x\<in>experts_of c. at c (alloc ?s) r x)"
      using inv'(3) r acc rng(3) by (simp add: inv_alloc_def commit_move_load_at)
  qed
  moreover have "inv_slots c ?s" unfolding inv_slots_def
  proof (intro ballI)
    fix r assume r: "r \<in> ranks_of c"
    have sl: "remoteCount s1 = remoteCount s" "remote_row c s1 = remote_row c s"
      using acc by (auto simp: remote_row_def fun_eq_iff)
    have old: "0 \<le> remoteCount s x" "remoteCount s x \<le> c_b c" "distinct (remote_row c s x)"
      "set (remote_row c s x) = {e \<in> experts_of c. homeOf c e \<noteq> x \<and> 0 < at c (alloc s) x e}"
      if "x \<in> ranks_of c" for x
      using inv'(4) that unfolding inv_slots_def by blast+
    have "0 \<le> at c (alloc s) dst e" using inv'(3) rng unfolding inv_alloc_def by blast
    then have aset: "{x \<in> experts_of c. homeOf c x \<noteq> r \<and> 0 < at c (alloc ?s) r x} =
        (if r = dst then insert e else id) {x \<in> experts_of c. homeOf c x \<noteq> r \<and> 0 < at c (alloc s) r x}"
      using rng k by (auto simp: al split: if_splits)
    show "0 \<le> remoteCount ?s r \<and> remoteCount ?s r \<le> c_b c \<and> distinct (remote_row c ?s r) \<and>
        set (remote_row c ?s r) = {e \<in> experts_of c. homeOf c e \<noteq> r \<and> 0 < at c (alloc ?s) r e}"
    proof (cases "r = dst")
      case True
      have c0: "0 \<le> remoteCount s1 dst" using old [OF rng(1)] sl by simp
      note self = commit_slots_self [OF c0, of c ?h e ?ar k]
      note od = old [OF rng(1)]
      show ?thesis
      proof (cases ?ar)
        case ar: True
        then have "e \<in> set (remote_row c s dst)" by (simp only: FindRemote_iff)
        then show ?thesis unfolding aset using od self ar True by (simp add: sl insert_absorb)
      next
        case nar: False
        then have "e \<notin> set (remote_row c s dst)" unfolding FindRemote_iff .
        then show ?thesis unfolding aset using od self nar True slot by (clarsimp simp: sl)
      qed
    next
      case False
      have "remote_row c ?s r = remote_row c s r" "remoteCount ?s r = remoteCount s r"
        using commit_slots_other [of r dst s1 c ?ar ?h e k] False old(1) [OF rng(1)] old(2) [OF r] slot
        by (simp_all add: sl disj_commute)
      then show ?thesis using old [OF r] False unfolding aset by simp
    qed
  qed
  ultimately show ?thesis by (simp add: plan_inv_def)
qed

lemma take_sources_idle:
  assumes "take_sources c e dst srcs s d a = (s', d', a)" "fatal s' = PLAN_OK"
  shows "s' = s \<and> d' = d"
  using assms
proof (induction srcs arbitrary: s d)
  case (Cons src srcs)
  define k where "k = MinI32 (MinI32 (remainingTpe s (ReIndex src e (c_expertNum c))) d) (pair_remain c s src dst d)"
  obtain ok s1 where app: "AppendSegment c s e src dst (srcExpertCursor s (ReIndex src e (c_expertNum c)))
      (dstExpertCursor s (ReIndex dst e (c_expertNum c))) k = (ok, s1)" by fastforce
  show ?case
  proof (cases "d \<le> 0 \<or> k \<le> 0")
    case True
    then show ?thesis using Cons by (auto simp: k_def [symmetric] Let_def split: if_splits)
  next
    case False
    have ok: ok
      using Cons.prems False AppendSegment_frame(13) [OF app]
      by (cases ok) (auto simp: k_def [symmetric] Let_def app)
    then have "take_sources c e dst srcs (record_take c s1 e src dst k) (d - k) (a + k) = (s', d', a)"
      using Cons.prems(1) False by (simp add: k_def [symmetric] Let_def app)
    from take_sources_account [OF this] show ?thesis using False by simp
  qed
qed simp

lemma plan_inv_cong:
  assumes "remainingTpe s' = remainingTpe s" "srcExpertCursor s' = srcExpertCursor s"
    "dstExpertCursor s' = dstExpertCursor s" "segmentLog s' = segmentLog s" "tokenSegments s' = tokenSegments s"
    "routedPairTokens s' = routedPairTokens s" "alloc s' = alloc s" "rankLoad s' = rankLoad s"
    "remoteCount s' = remoteCount s" "remoteExpertSet s' = remoteExpertSet s" "affinityOrder s' = affinityOrder s"
  shows "plan_inv c tpe s' = plan_inv c tpe s"
  unfolding plan_inv_def inv_flow_cong [OF assms(1-5)] inv_pairs_cong [OF assms(6,4)]
    inv_alloc_cong [OF assms(1,3,7,8)] inv_slots_cong [OF assms(9,10,7)] inv_affinity_cong [OF assms(11)] ..

lemma plan_inv_flags [simp]:
  "plan_inv c tpe (s\<lparr> slotBlock := b \<rparr>) = plan_inv c tpe s"
  "plan_inv c tpe (s\<lparr> supplyBlock := b \<rparr>) = plan_inv c tpe s"
  "plan_inv c tpe (s\<lparr> pairBlock := b \<rparr>) = plan_inv c tpe s"
  "plan_inv c tpe (s\<lparr> intraRounds := n \<rparr>) = plan_inv c tpe s"
  "plan_inv c tpe (s\<lparr> interRounds := n \<rparr>) = plan_inv c tpe s"
  by (rule plan_inv_cong; simp)+

lemma plan_inv_note_block [simp]: "plan_inv c tpe (note_block c s dst e) = plan_inv c tpe s"
  by (simp add: note_block_def Let_def)

lemma move_experts_inv:
  assumes ok: "plan_ctx_ok c" and "plan_inv c tpe s" "dst \<in> ranks_of c" "home \<in> ranks_of c" "home \<noteq> dst"
    "move_experts c home dst es s d f = (s', d', f')" "fatal s' = PLAN_OK" "\<forall>e\<in>set es. homeOf c e = home"
  shows "plan_inv c tpe s'"
  using assms(2,6-8)
proof (induction es arbitrary: s d f)
  case (Cons e es)
  have he: "homeOf c e = home" using Cons.prems(4) by simp
  have er: "e \<in> experts_of c"
  proof -
    have "home * c_expertsPerRank c \<le> e" "e < home * c_expertsPerRank c + c_expertsPerRank c"
      using he home_iff [OF ok] by blast+
    moreover have "(home + 1) * c_expertsPerRank c \<le> c_rankSize c * c_expertsPerRank c"
      using assms(4) ok by (intro mult_right_mono) (auto simp: plan_ctx_ok_def)
    moreover have "0 \<le> home * c_expertsPerRank c" using assms(4) ok by (simp add: plan_ctx_ok_def)
    ultimately show ?thesis using ok by (simp add: plan_ctx_ok_def algebra_simps)
  qed
  define av where "av = alloc s (ReIndex home e (c_expertNum c))"
  define ar where "ar = (FindRemote c s dst e \<ge> 0)"
  obtain s1 ed k where ts: "take_sources c e dst (row_of (affinityOrder s) dst (c_rankSize c)) s
      (MinI32 av d) 0 = (s1, ed, k)" by (metis prod_cases3)
  define s2 where "s2 = (if k > 0 then commit_move c s1 home dst e ar k else s1)"
  define s3 where "s3 = (if ed > 0 then note_block c s2 dst e else s2)"
  consider "d \<le> 0" | "0 < d" "av \<le> 0" | "0 < d" "0 < av" "\<not> ar" "remoteCount s dst \<ge> c_b c"
    | "0 < d" "0 < av" "ar \<or> remoteCount s dst < c_b c" by linarith
  then show ?case
  proof cases
    case 1 then show ?thesis using Cons.prems by simp
  next
    case 2 then show ?thesis using Cons by (simp add: av_def [symmetric])
  next
    case 3
    then have "move_experts c home dst es (s\<lparr>slotBlock := True\<rparr>) d f = (s', d', f')"
      using Cons.prems by (simp add: av_def [symmetric] ar_def [symmetric] Let_def)
    then show ?thesis using Cons.IH [of "s\<lparr>slotBlock := True\<rparr>"] Cons.prems by simp
  next
    case 4
    have f1: "fatal s1 = PLAN_OK"
      using Cons.prems(2,3) 4 by (cases "fatal s1 = PLAN_OK") (auto simp add: av_def [symmetric] ar_def [symmetric] Let_def ts)
    have mv: "move_experts c home dst es s3 (if k > 0 then d - k else d) True = (s', d', f')"
      using Cons.prems(2) 4 f1 by (auto simp add: av_def [symmetric] ar_def [symmetric] Let_def ts s3_def s2_def)
    have "plan_inv c tpe s2"
    proof (cases "k > 0")
      case True
      show ?thesis
        using move_expert_inv [OF ok Cons.prems(1) assms(3) er _ ts f1 _ _ _ True] he assms(5) 4
        by (simp add: s2_def True ar_def av_def at_def MinI32_def)
    next
      case False
      then have "k = 0" using take_sources_account [OF ts] by simp
      then have "s1 = s" using take_sources_idle [of c e dst _ s _ 0] ts f1 by blast
      then show ?thesis using Cons.prems(1) False by (simp add: s2_def)
    qed
    then have "plan_inv c tpe s3" by (simp add: s3_def)
    then show ?thesis using Cons.IH [OF _ mv Cons.prems(3)] Cons.prems(4) by simp
  qed
qed simp

lemma expert_order_home:
  assumes "plan_ctx_ok c" "e \<in> set (expert_order_of c s home)"
  shows "homeOf c e = home"
  using assms(2) unfolding home_iff [OF assms(1)] by (auto simp: expert_order_of_def Let_def)

lemma ApplyExpertMove_inv:
  assumes "plan_ctx_ok c" "plan_inv c tpe s" "home \<in> ranks_of c" "dst \<in> ranks_of c"
    "ApplyExpertMove c s home dst req = (s', k)" "fatal s' = PLAN_OK"
  shows "plan_inv c tpe s'"
proof (cases "req \<le> 0 \<or> home = dst \<or> fatal s \<noteq> PLAN_OK")
  case False
  obtain s1 d f where mv: "move_experts c home dst (expert_order_of c s home) s req False = (s1, d, f)"
    by (metis prod_cases3)
  have eq: "(if fatal s1 \<noteq> PLAN_OK then (s1, 0)
      else (if d > 0 \<and> \<not> f then s1\<lparr> pairBlock := True \<rparr> else s1, req - d)) = (s', k)"
    using assms(5) False by (simp add: ApplyExpertMove_def mv)
  then have f1: "fatal s1 = PLAN_OK" using assms(6) by (cases "fatal s1 = PLAN_OK") auto
  then have "s' = (if d > 0 \<and> \<not> f then s1\<lparr> pairBlock := True \<rparr> else s1)" using eq by simp
  moreover from f1 have "plan_inv c tpe s1"
    by (intro move_experts_inv [OF assms(1,2,4,3) _ mv] ballI)
      (use False in \<open>simp_all add: expert_order_home [OF assms(1)]\<close>)
  ultimately show ?thesis by simp
qed (use assms in \<open>auto simp: ApplyExpertMove_def\<close>)

section \<open>Closure under the rounds\<close>

text \<open>A property of states that every move between two ranks keeps, and that does not depend on
  the flags and round counters, holds after the rounds if it held before.\<close>

locale move_closed =
  fixes c :: plan_ctx and P :: "plan_state \<Rightarrow> bool"
  assumes move: "\<lbrakk>P s; ApplyExpertMove c s a b req = (s', k); fatal s' = PLAN_OK; 0 < req; a \<noteq> b;
      a \<in> ranks_of c; b \<in> ranks_of c\<rbrakk> \<Longrightarrow> P s'"
    and flag: "P s \<Longrightarrow> P (s\<lparr> pairBlock := True \<rparr>)"
    and intra_count: "P s \<Longrightarrow> P (s\<lparr> intraRounds := n \<rparr>)"
    and inter_count: "P s \<Longrightarrow> P (s\<lparr> interRounds := n \<rparr>)"
begin

lemma run_pairs_closed:
  "\<lbrakk>P s; run_pairs c ps s acc = (s', n); fatal s' = PLAN_OK;
    \<forall>(a, b)\<in>set ps. rank_in_range (c_rankSize c) a \<and> rank_in_range (c_rankSize c) b\<rbrakk> \<Longrightarrow> P s'"
proof (induction ps arbitrary: s acc)
  case (Cons p ps)
  obtain a b where p: "p = (a, b)" by fastforce
  define req where "req = MinI32 (rankLoad s a - c_cap c) (c_cap c - rankLoad s b)"
  obtain s1 k where am: "(if req > 0 then ApplyExpertMove c s a b req else (s, 0)) = (s1, k)" by fastforce
  have f1: "fatal s1 = PLAN_OK" and rest: "run_pairs c ps s1 (acc + k) = (s', n)"
    using Cons.prems(2,3) by (auto simp: p req_def [symmetric] am split: if_splits)
  have "P s1"
  proof (cases "req > 0")
    case True
    then have "a \<noteq> b" by (auto simp: req_def MinI32_def split: if_splits)
    then show ?thesis using am True move [OF Cons.prems(1) _ f1] Cons.prems(4) by (auto simp: p rank_in_range_def)
  qed (use am Cons.prems(1) in auto)
  then show ?case using Cons.IH [OF _ rest Cons.prems(3)] Cons.prems(4) by auto
qed simp

lemma try_candidates_closed:
  "\<lbrakk>P s; try_candidates c senders dst srcs n occ s acc = (s', occ', m); fatal s' = PLAN_OK;
    \<forall>x\<in>set senders. rank_in_range (c_rankSize c) x; rank_in_range (c_rankSize c) dst\<rbrakk> \<Longrightarrow> P s'"
proof (induction srcs arbitrary: n s)
  case (Cons src srcs)
  define req where "req = MinI32 (rankLoad s src - c_cap c) (c_cap c - rankLoad s dst)"
  obtain s1 k where ap: "ApplyExpertMove c s src dst req = (s1, k)" by fastforce
  show ?case
  proof (cases "n \<ge> kPlanCrossCandidateCount \<or> \<not> RankInList src senders \<or> src \<in> occ \<or> req \<le> 0")
    case True
    then show ?thesis using Cons by (auto simp: req_def [symmetric] Let_def split: if_splits)
  next
    case False
    then have st: "(if fatal s1 \<noteq> PLAN_OK then (s1, occ, acc)
        else if k > 0 then (s1, insert src occ, acc + k)
        else try_candidates c senders dst srcs (n + 1) occ s1 acc) = (s', occ', m)"
      using Cons.prems(2) by (simp add: req_def [symmetric] ap Let_def)
    then have f1: "fatal s1 = PLAN_OK" using Cons.prems(3) by (auto split: if_splits)
    have "rank_in_range (c_rankSize c) src"
      using False Cons.prems(4) by (auto simp: RankInList_def list_ex_iff)
    moreover have "src \<noteq> dst" using False by (auto simp: req_def MinI32_def split: if_splits)
    ultimately have "P s1" using move [OF Cons.prems(1) ap f1] False Cons.prems(5) by (simp add: rank_in_range_def)
    then show ?thesis using st f1 Cons.IH [OF _ _ Cons.prems(3-5)] by (auto split: if_splits)
  qed
qed simp

lemma run_receivers_closed:
  "\<lbrakk>P s; run_receivers c senders dsts occ s acc = (s', m); fatal s' = PLAN_OK;
    \<forall>x\<in>set senders. rank_in_range (c_rankSize c) x; \<forall>x\<in>set dsts. rank_in_range (c_rankSize c) x\<rbrakk> \<Longrightarrow> P s'"
proof (induction dsts arbitrary: occ s acc)
  case (Cons dst dsts)
  obtain s1 occ1 m1 where tc: "try_candidates c senders dst (row_of (affinityOrder s) dst (c_rankSize c)) 0 occ s acc
      = (s1, occ1, m1)" by (metis prod_cases3)
  have f1: "fatal s1 = PLAN_OK" and rest: "run_receivers c senders dsts occ1 s1 m1 = (s', m)"
    using Cons.prems(2,3) by (auto simp: tc split: if_splits)
  have "P s1" using try_candidates_closed [OF Cons.prems(1) tc f1 Cons.prems(4)] Cons.prems(5) by simp
  then show ?case using Cons.IH [OF _ rest Cons.prems(3,4)] Cons.prems(5) by simp
qed simp

lemma intra_round_closed:
  assumes "intra_round c key s = (s', go)" "fatal s' = PLAN_OK" "P s"
  shows "P s'"
  using assms(1,2)
proof (cases rule: intra_round_cases)
  case blocked
  then show ?thesis using run_pairs_closed [OF assms(3) blocked(1,2)] flag by simp
next
  case moved
  then show ?thesis using run_pairs_closed [OF assms(3) moved(1,2)] intra_count by simp
qed (use assms in simp)

lemma inter_round_closed:
  assumes "inter_round c s = (s', go)" "fatal s' = PLAN_OK" "P s"
  shows "P s'"
  using assms(1,2)
proof (cases rule: inter_round_cases)
  case blocked
  then show ?thesis using run_receivers_closed [OF assms(3) blocked(1,2)] flag by simp
next
  case moved
  then show ?thesis using run_receivers_closed [OF assms(3) moved(1,2)] inter_count by simp
qed (use assms in simp)

lemma intra_server_closed: "fatal (intra_server c key s) = PLAN_OK \<Longrightarrow> P s \<Longrightarrow> P (intra_server c key s)"
proof (induction "nat (overload c s)" arbitrary: s rule: less_induct)
  case less
  obtain s1 go where r: "intra_round c key s = (s1, go)" by fastforce
  have u: "intra_server c key s = (if go then intra_server c key s1 else s1)"
    using r by (subst intra_server.simps) simp
  show ?case
  proof (cases go)
    case True
    then have "overload c s1 < overload c s" "fatal s1 = PLAN_OK"
      using intra_round_overload [of c key s s1] intra_round_True_fatal [of c key s s1] r by simp_all
    moreover from this have "nat (overload c s1) < nat (overload c s)"
      using overload_nonneg [of c s1] by linarith
    ultimately show ?thesis
      using less.hyps [of s1] less.prems u True intra_round_closed [OF r] by simp
  next
    case False
    then show ?thesis using less.prems u intra_round_closed [OF r] by simp
  qed
qed

lemma RunInter_closed: "fatal (RunInter c s) = PLAN_OK \<Longrightarrow> P s \<Longrightarrow> P (RunInter c s)"
proof (induction "nat (overload c s)" arbitrary: s rule: less_induct)
  case less
  obtain s1 go where r: "inter_round c s = (s1, go)" by fastforce
  have u: "RunInter c s = (if go then RunInter c s1 else s1)" using r by (subst RunInter.simps) simp
  show ?case
  proof (cases go)
    case True
    then have "overload c s1 < overload c s" "fatal s1 = PLAN_OK"
      using inter_round_overload [of c s s1] inter_round_True_fatal [of c s s1] r by simp_all
    moreover from this have "nat (overload c s1) < nat (overload c s)"
      using overload_nonneg [of c s1] by linarith
    ultimately show ?thesis
      using less.hyps [of s1] less.prems u True inter_round_closed [OF r] by simp
  next
    case False
    then show ?thesis using less.prems u inter_round_closed [OF r] by simp
  qed
qed

lemma intra_servers_closed:
  "fatal (intra_servers c p s) = PLAN_OK \<Longrightarrow> P s \<Longrightarrow> P (intra_servers c p s)"
proof (induction "card {r \<in> {0..<c_rankSize c}. server_key c r > p}" arbitrary: p s rule: less_induct)
  case less
  define key where "key = next_server_key c p"
  define s1 where "s1 = intra_server c key s"
  have u: "intra_servers c p s = (if key = INT32_MAX then s else if fatal s1 \<noteq> PLAN_OK then s1 else intra_servers c key s1)"
    by (subst intra_servers.simps) (simp add: key_def s1_def Let_def)
  show ?case
  proof (cases "key = INT32_MAX")
    case False
    have f: "fatal s1 = PLAN_OK" using less.prems u False by (cases "fatal s1 = PLAN_OK") auto
    have "card {r \<in> {0..<c_rankSize c}. server_key c r > key} < card {r \<in> {0..<c_rankSize c}. server_key c r > p}"
      unfolding key_def by (rule next_server_key_decreases) (use False key_def in simp)
    then show ?thesis
      using less.hyps [of key s1] less.prems u False f intra_server_closed [of key s] s1_def by auto
  qed (use less.prems u in simp)
qed

lemma RunIntra_closed: "fatal (RunIntra c s) = PLAN_OK \<Longrightarrow> P s \<Longrightarrow> P (RunIntra c s)"
  by (simp add: RunIntra_def intra_servers_closed)

end

interpretation planner_rounds: move_closed c "\<lambda>s. plan_ctx_ok c \<longrightarrow> plan_inv c tpe s" for c tpe
  by unfold_locales (auto intro: ApplyExpertMove_inv)

lemmas RunIntra_inv = planner_rounds.RunIntra_closed [rule_format]
lemmas RunInter_inv = planner_rounds.RunInter_closed [rule_format]

section \<open>After the remainders\<close>

text \<open>All tokens are in segments, and the segments of a destination and expert fill its
  allocation.\<close>

definition plan_done :: "plan_ctx \<Rightarrow> int arr \<Rightarrow> plan_state \<Rightarrow> bool" where
  "plan_done c tpe s = (inv_flow c tpe s \<and> inv_slots c s \<and>
    (\<forall>src\<in>ranks_of c. \<forall>e\<in>experts_of c. at c (remainingTpe s) src e = 0) \<and>
    (\<forall>r\<in>ranks_of c. \<forall>e\<in>experts_of c. at c (dstExpertCursor s) r e = at c (alloc s) r e) \<and>
    (\<forall>r\<in>ranks_of c. rankLoad s r = (\<Sum>e\<in>experts_of c. at c (alloc s) r e)))"

text \<open>The state after one remainder segment.\<close>

definition take_rest :: "plan_ctx \<Rightarrow> plan_state \<Rightarrow> int \<Rightarrow> int \<Rightarrow> int \<Rightarrow> int \<Rightarrow> plan_state" where
  "take_rest c s e src dst k =
    (let re = ReIndex src e (c_expertNum c); dstRe = ReIndex dst e (c_expertNum c)
     in s\<lparr> remainingTpe := (remainingTpe s)(re := 0),
           srcExpertCursor := (srcExpertCursor s)(re := srcExpertCursor s re + k),
           dstExpertCursor := (dstExpertCursor s)(dstRe := dstExpertCursor s dstRe + k) \<rparr>)"

lemma remainder_sources_inv:
  assumes "remainder_sources c e dst srcs s = (ok, s')" "fatal s' = PLAN_OK" "inv_flow c tpe s"
    "set srcs \<subseteq> ranks_of c" "distinct srcs" "dst \<in> ranks_of c" "e \<in> experts_of c"
  shows "ok \<and> inv_flow c tpe s' \<and>
    (\<forall>r\<in>ranks_of c. \<forall>x\<in>experts_of c. at c (remainingTpe s') r x =
       (if r \<in> set srcs \<and> x = e then 0 else at c (remainingTpe s) r x)) \<and>
    (\<forall>r\<in>ranks_of c. \<forall>x\<in>experts_of c. at c (dstExpertCursor s') r x = at c (dstExpertCursor s) r x +
       (if r = dst \<and> x = e then sum_list (map (\<lambda>src. at c (remainingTpe s) src e) srcs) else 0)) \<and>
    alloc s' = alloc s \<and> rankLoad s' = rankLoad s \<and> remoteCount s' = remoteCount s \<and>
    remoteExpertSet s' = remoteExpertSet s"
  using assms(1-5)
proof (induction srcs arbitrary: s)
  case (Cons src srcs)
  define k where "k = remainingTpe s (ReIndex src e (c_expertNum c))"
  obtain ok1 s1 where app: "AppendSegment c s e src dst (srcExpertCursor s (ReIndex src e (c_expertNum c)))
      (dstExpertCursor s (ReIndex dst e (c_expertNum c))) k = (ok1, s1)" by fastforce
  have src: "src \<in> ranks_of c" and srcs: "set srcs \<subseteq> ranks_of c" "distinct srcs" "src \<notin> set srcs"
    using Cons.prems(4,5) by auto
  have k0: "0 \<le> k" "k = at c (remainingTpe s) src e"
    using Cons.prems(3) src assms(7) by (auto simp: inv_flow_def k_def at_def)
  show ?case
  proof (cases "k \<le> 0")
    case True
    then have z: "at c (remainingTpe s) src e = 0" using k0 by simp
    have "remainder_sources c e dst srcs s = (ok, s')"
      using Cons.prems(1) True by (simp add: k_def [symmetric] Let_def)
    from Cons.IH [OF this Cons.prems(2,3) srcs(1,2)] show ?thesis using z by auto
  next
    case False
    have ok1: ok1
      using Cons.prems(1,2) False AppendSegment_frame(13) [OF app]
      by (cases ok1) (auto simp: k_def [symmetric] Let_def app)
    define s2 where "s2 = take_rest c s1 e src dst k"
    have rest: "remainder_sources c e dst srcs s2 = (ok, s')"
      using Cons.prems(1) False ok1 by (simp add: k_def [symmetric] Let_def app s2_def take_rest_def)
    note fr = AppendSegment_frame [OF app]
    note lg = AppendSegment_take [of c s e src dst k s1] app
    have upd: "remainingTpe s2 = (remainingTpe s)(ReIndex src e (c_expertNum c) := at c (remainingTpe s) src e - k)"
      "srcExpertCursor s2 = (srcExpertCursor s)(ReIndex src e (c_expertNum c) := at c (srcExpertCursor s) src e + k)"
      "dstExpertCursor s2 = (dstExpertCursor s)(ReIndex dst e (c_expertNum c) := at c (dstExpertCursor s) dst e + k)"
      using k0 by (simp_all add: s2_def take_rest_def Let_def fr at_def)
    have log2: "segmentLog s2 = segmentLog s @ [taken_segment c s e src dst k]"
      using lg ok1 by (simp add: s2_def take_rest_def Let_def)
    have f2: "inv_flow c tpe s2"
    proof (rule inv_flow_step [OF Cons.prems(3) src assms(6,7) _ _ log2 _ upd])
      show "tokenSegments s2 = filter (\<lambda>m. srcRank m = c_rank c) (segmentLog s2)"
        using lg ok1 Cons.prems(3) by (simp add: s2_def take_rest_def Let_def inv_flow_def)
    qed (use False k0 in simp_all)
    have same: "alloc s2 = alloc s" "rankLoad s2 = rankLoad s" "remoteCount s2 = remoteCount s"
      "remoteExpertSet s2 = remoteExpertSet s" by (simp_all add: s2_def take_rest_def Let_def fr)
    have rm: "at c (remainingTpe s2) r x = (if r = src \<and> x = e then 0 else at c (remainingTpe s) r x)"
      and dc: "at c (dstExpertCursor s2) r x = at c (dstExpertCursor s) r x + (if r = dst \<and> x = e then k else 0)"
      if "x \<in> experts_of c" for r x
      using that assms(7) k0 by (auto simp: upd at_upd)
    have sm: "sum_list (map (\<lambda>r. at c (remainingTpe s2) r e) srcs) = sum_list (map (\<lambda>r. at c (remainingTpe s) r e) srcs)"
      using srcs(3) assms(7) by (intro arg_cong [of _ _ sum_list] map_cong) (auto simp: rm)
    show ?thesis using Cons.IH [OF rest Cons.prems(2) f2 srcs(1,2), unfolded sm] k0(2) same by (auto simp: rm dc)
  qed
qed simp

lemma remainder_sources_fatal:
  "remainder_sources c e dst srcs s = (ok, s') \<Longrightarrow>
    (if ok then fatal s' = fatal s else fatal s' = PLAN_ERROR_MOVE_RECORD_OVERFLOW)"
proof (induction srcs arbitrary: s)
  case (Cons src srcs)
  then show ?case
    by (auto simp: Let_def AppendSegment_frame(12,13) split: if_splits prod.splits)
qed simp

lemma sum_list_ranks: "sum_list (map f [0..n - 1]) = sum f {0..<n}" for f :: "int \<Rightarrow> int"
proof -
  have "{0..n - 1} = {0..<n}" by auto
  then show ?thesis by (simp add: interv_sum_list_conv_sum_set_int)
qed

lemma remainder_experts_inv:
  assumes ok: "plan_ctx_ok c" and "fatal (remainder_experts c es s) = PLAN_OK" "inv_flow c tpe s"
    "set es \<subseteq> experts_of c" "distinct es" "fatal s = PLAN_OK"
  shows "inv_flow c tpe (remainder_experts c es s) \<and>
    (\<forall>r\<in>ranks_of c. \<forall>x\<in>experts_of c. at c (remainingTpe (remainder_experts c es s)) r x =
       (if x \<in> set es then 0 else at c (remainingTpe s) r x)) \<and>
    (\<forall>r\<in>ranks_of c. \<forall>x\<in>experts_of c. at c (dstExpertCursor (remainder_experts c es s)) r x =
       at c (dstExpertCursor s) r x +
       (if r = homeOf c x \<and> x \<in> set es then \<Sum>src\<in>ranks_of c. at c (remainingTpe s) src x else 0)) \<and>
    alloc (remainder_experts c es s) = alloc s \<and> rankLoad (remainder_experts c es s) = rankLoad s \<and>
    remoteCount (remainder_experts c es s) = remoteCount s \<and>
    remoteExpertSet (remainder_experts c es s) = remoteExpertSet s"
  using assms(2-6)
proof (induction es arbitrary: s)
  case (Cons e es)
  obtain b s1 where rs: "remainder_sources c e (homeOf c e) [0..c_rankSize c - 1] s = (b, s1)" by fastforce
  have e: "e \<in> experts_of c" and es: "set es \<subseteq> experts_of c" "distinct es" "e \<notin> set es" using Cons.prems by auto
  have u: "remainder_experts c (e # es) s = (if b then remainder_experts c es s1 else s1)" by (simp add: rs)
  have b: b using remainder_sources_fatal [OF rs] Cons.prems(1) u by (cases b) simp_all
  then have f1: "fatal s1 = PLAN_OK" using remainder_sources_fatal [OF rs] Cons.prems(5) by simp
  have rk: "set [0..c_rankSize c - 1] \<subseteq> ranks_of c" by auto
  note si = remainder_sources_inv [OF rs f1 Cons.prems(2) rk distinct_upto home_range [OF ok e] e,
    unfolded sum_list_ranks]
  have fe: "fatal (remainder_experts c es s1) = PLAN_OK" using Cons.prems(1) u b by simp
  have sm: "(\<Sum>src\<in>ranks_of c. at c (remainingTpe s1) src x) = (\<Sum>src\<in>ranks_of c. at c (remainingTpe s) src x)"
    if "x \<in> experts_of c" "x \<noteq> e" for x
    using si that by (intro sum.cong) auto
  have ueq: "remainder_experts c (e # es) s = remainder_experts c es s1" using u b by simp
  have i1: "inv_flow c tpe s1" using si by simp
  note ih = Cons.IH [OF fe i1 es(1,2) f1]
  have cur: "at c (dstExpertCursor (remainder_experts c es s1)) r x = at c (dstExpertCursor s) r x +
      (if r = homeOf c x \<and> x \<in> set (e # es) then \<Sum>src\<in>ranks_of c. at c (remainingTpe s) src x else 0)"
    if "r \<in> ranks_of c" "x \<in> experts_of c" for r x
    using ih si that es(3) sm [OF that(2)] by (cases "x = e") auto
  have "at c (remainingTpe (remainder_experts c es s1)) r x =
      (if x \<in> set (e # es) then 0 else at c (remainingTpe s) r x)"
    if "r \<in> ranks_of c" "x \<in> experts_of c" for r x
    using ih si that by auto
  moreover have "alloc (remainder_experts c es s1) = alloc s \<and> rankLoad (remainder_experts c es s1) = rankLoad s \<and>
      remoteCount (remainder_experts c es s1) = remoteCount s \<and>
      remoteExpertSet (remainder_experts c es s1) = remoteExpertSet s"
    using ih si by simp
  ultimately show ?case unfolding ueq using ih cur by blast
qed simp

lemma AppendRemainders_done:
  assumes "plan_ctx_ok c" "plan_inv c tpe s" "fatal s = PLAN_OK" "fatal (AppendRemainders c s) = PLAN_OK"
  shows "plan_done c tpe (AppendRemainders c s)" "rankLoad (AppendRemainders c s) = rankLoad s"
    "alloc (AppendRemainders c s) = alloc s"
proof -
  have inv: "inv_flow c tpe s" "inv_alloc c s" "inv_slots c s" using assms(2) by (simp_all add: plan_inv_def)
  have es: "set [0..c_expertNum c - 1] \<subseteq> experts_of c" by auto
  note re = remainder_experts_inv [OF assms(1) assms(4) [unfolded AppendRemainders_def] inv(1) es _ assms(3),
    folded AppendRemainders_def, simplified]
  show "rankLoad (AppendRemainders c s) = rankLoad s" "alloc (AppendRemainders c s) = alloc s" using re by auto
  show "plan_done c tpe (AppendRemainders c s)"
    using re inv(2) inv_slots_cong [of "AppendRemainders c s" s c] inv(3)
    by (auto simp: plan_done_def inv_alloc_def)
qed

end
