(* ===== verification/PlanLayout.thy ===== *)
theory PlanLayout
  imports PlanInvariant
begin

text \<open>
  The second half of the planner: the physical layout of every rank (\<open>BuildLayouts\<close>), the
  destination of every route (\<open>BuildDst\<close>), the status words, and the whole algorithm
  (\<open>RunPlanAlgorithm\<close>).
\<close>

unbundle bit_operations_syntax

section \<open>Outputs\<close>

text \<open>The arrays behind the output pointers; the two metadata tables are optional.\<close>

record plan_arrays =
  a_dst :: "int arr"
  a_cuSeqlens :: "int arr"
  a_expertsToCopy :: "int arr"
  a_remoteExperts :: "int arr option"
  a_expertTargets :: "nat arr"
  a_remoteStats :: "int arr"
  a_status :: "int arr"

section \<open>Layouts\<close>

definition AlignCount :: "int \<Rightarrow> int \<Rightarrow> bool \<times> int" where
  "AlignCount value alignment =
    (if value > 0 \<and> alignment > INT32_MAX then (False, 0)
     else let aligned = ((value + alignment - 1) div alignment) * alignment
          in if aligned > INT32_MAX then (False, 0) else (True, aligned))"

text \<open>The insertion loop over the experts of one destination; false when the slots run out.\<close>

fun insert_remote :: "plan_ctx \<Rightarrow> plan_state \<Rightarrow> int \<Rightarrow> int list \<Rightarrow> int list \<Rightarrow> bool \<times> int list" where
  "insert_remote c s dst [] row = (True, row)"
| "insert_remote c s dst (expert # experts) row =
    (if HomeRank expert (c_expertsPerRank c) = dst \<or> alloc s (ReIndex dst expert (c_expertNum c)) \<le> 0
     then insert_remote c s dst experts row
     else if int (length row) \<ge> c_b c then (False, row)
     else insert_remote c s dst experts
            (shift_in (BetterRemote (alloc s) (c_expertNum c) dst) (row @ [expert]) (length row) expert))"

definition pad_row :: "plan_ctx \<Rightarrow> int list \<Rightarrow> int list" where
  "pad_row c row = row @ replicate (nat (c_b c) - length row) (-1)"

definition target_words :: "plan_ctx \<Rightarrow> int" where
  "target_words c = (c_rankSize c + 63) div 64"

text \<open>The owner-oriented bit table: the ranks that hold a copy of a local expert.\<close>

definition mark_targets :: "plan_ctx \<Rightarrow> int \<Rightarrow> int list \<Rightarrow> nat arr \<Rightarrow> nat arr" where
  "mark_targets c dst row targets =
    fold (\<lambda>expert t. if expert \<ge> 0 \<and> HomeRank expert (c_expertsPerRank c) = c_rank c
            then let i = (expert - c_rank c * c_expertsPerRank c) * target_words c + dst div 64
                 in t(i := t i OR push_bit (nat (dst mod 64)) 1)
            else t) row targets"

definition layout_remote :: "plan_ctx \<Rightarrow> int \<Rightarrow> int list \<Rightarrow> plan_state \<times> plan_arrays \<times> int \<Rightarrow>
    plan_state \<times> plan_arrays \<times> int" where
  "layout_remote c dst row st =
    (let (s, a, maxRemote) = st; remoteCount1 = int (length row); padded = pad_row c row;
         stats0 = (if dst = c_rank c then (a_remoteStats a)(0 := remoteCount1) else a_remoteStats a);
         mine = int (length (filter (\<lambda>e. HomeRank e (c_expertsPerRank c) = c_rank c) row))
     in (s\<lparr> remoteExpertSet := store_row (remoteExpertSet s) (dst * c_b c) padded \<rparr>,
         a\<lparr> a_remoteStats := stats0(1 := stats0 1 + mine),
            a_expertsToCopy := (if dst = c_rank c then store_row (a_expertsToCopy a) 0 padded
                                else a_expertsToCopy a),
            a_remoteExperts := map_option (\<lambda>t. store_row t (dst * c_b c) padded) (a_remoteExperts a),
            a_expertTargets := (if a_remoteExperts a = None then a_expertTargets a
                                else mark_targets c dst padded (a_expertTargets a)) \<rparr>,
         MaxI32 maxRemote remoteCount1))"

text \<open>The first loop over the destinations.  When the slots run out the loop ends with the
  inserted part of the row in place.\<close>

fun layout_rows :: "plan_ctx \<Rightarrow> int list \<Rightarrow> plan_state \<times> plan_arrays \<times> int \<Rightarrow>
    bool \<times> plan_state \<times> plan_arrays \<times> int" where
  "layout_rows c [] st = (True, st)"
| "layout_rows c (dst # dsts) st =
    (let (s, a, maxRemote) = st; (ok, row) = insert_remote c s dst [0..c_expertNum c - 1] [] in
     if \<not> ok
     then (False, s\<lparr> remoteExpertSet := store_row (remoteExpertSet s) (dst * c_b c) row \<rparr>, a, maxRemote)
     else layout_rows c dsts (layout_remote c dst row st))"

text \<open>The expert that a group of a destination holds, \<open>-1\<close> when it is empty.\<close>

definition group_expert :: "plan_ctx \<Rightarrow> int list \<Rightarrow> int \<Rightarrow> int" where
  "group_expert c row grp =
    (if grp < c_expertNum c then (if list_ex (\<lambda>e. e = grp) row then -1 else grp)
     else let slot = grp - c_expertNum c
          in if slot < c_b c \<and> row ! nat slot \<ge> 0 then row ! nat slot else -1)"

text \<open>The loop over the groups of one destination: the end of the last group, the physical bases
  and the cumulative lengths.\<close>

fun layout_groups :: "plan_ctx \<Rightarrow> plan_config \<Rightarrow> int arr \<Rightarrow> int \<Rightarrow> int list \<Rightarrow> int list \<Rightarrow> int \<Rightarrow>
    int arr \<Rightarrow> int arr \<Rightarrow> bool \<times> int \<times> int arr \<times> int arr" where
  "layout_groups c cfg alc dst row [] previousEnd base cu = (True, previousEnd, base, cu)"
| "layout_groups c cfg alc dst row (grp # grps) previousEnd base cu =
    (let physicalExpert = group_expert c row grp;
         index = ReIndex dst physicalExpert (c_expertNum c);
         cnt = (if physicalExpert \<ge> 0 then alc index else 0);
         base1 = (if physicalExpert \<ge> 0 then base(index := previousEnd) else base);
         (ok, padded) = (if cnt = 0 then (True, 0) else AlignCount cnt (tokenPadding cfg))
     in if \<not> ok \<or> padded > nvS cfg - previousEnd then (False, previousEnd, base1, cu)
        else layout_groups c cfg alc dst row grps (previousEnd + padded) base1
               (if dst = c_rank c then cu(grp := previousEnd + padded) else cu))"

text \<open>The second loop over the destinations.\<close>

fun layout_bases :: "plan_ctx \<Rightarrow> plan_config \<Rightarrow> int list \<Rightarrow> plan_state \<times> plan_arrays \<times> int \<Rightarrow>
    bool \<times> plan_state \<times> plan_arrays \<times> int" where
  "layout_bases c cfg [] st = (True, st)"
| "layout_bases c cfg (dst # dsts) st =
    (let (s, a, localEnd) = st;
         (ok, previousEnd, base, cu) =
           layout_groups c cfg (alloc s) dst (row_of (remoteExpertSet s) dst (c_b c))
             [0..c_expertNum c + c_b c - 1] 0 (expertPhysicalBase s) (a_cuSeqlens a);
         s1 = s\<lparr> expertPhysicalBase := base \<rparr>; a1 = a\<lparr> a_cuSeqlens := cu \<rparr>
     in if \<not> ok then (False, s1, a1, localEnd)
        else layout_bases c cfg dsts (s1, a1, if dst = c_rank c then previousEnd else localEnd))"

text \<open>Writing one value over a range of indices.\<close>

definition clear :: "int \<Rightarrow> 'a \<Rightarrow> 'a arr \<Rightarrow> 'a arr" where
  "clear n v f = (\<lambda>i. if 0 \<le> i \<and> i < n then v else f i)"

definition layout_reset :: "plan_ctx \<Rightarrow> plan_state \<Rightarrow> plan_arrays \<Rightarrow> plan_state \<times> plan_arrays" where
  "layout_reset c s a =
    (s\<lparr> remoteExpertSet := clear (c_rankSize c * c_b c) (-1) (remoteExpertSet s),
        expertPhysicalBase := clear (c_rankSize c * c_expertNum c) 0 (expertPhysicalBase s) \<rparr>,
     a\<lparr> a_expertsToCopy := clear (c_b c) (-1) (a_expertsToCopy a),
        a_remoteExperts := map_option (clear (c_rankSize c * c_b c) (-1)) (a_remoteExperts a),
        a_expertTargets := (if a_remoteExperts a = None then a_expertTargets a
                            else clear (c_expertsPerRank c * target_words c) 0 (a_expertTargets a)),
        a_cuSeqlens := clear (c_expertNum c + c_b c) 0 (a_cuSeqlens a),
        a_remoteStats := (a_remoteStats a)(0 := 0, 1 := 0) \<rparr>)"

definition BuildLayouts :: "plan_ctx \<Rightarrow> plan_config \<Rightarrow> plan_state \<Rightarrow> plan_arrays \<Rightarrow>
    plan_status \<times> plan_state \<times> plan_arrays \<times> int \<times> int" where
  "BuildLayouts c cfg s a =
    (let (s0, a0) = layout_reset c s a;
         (ok, s1, a1, maxRemote) = layout_rows c [0..c_rankSize c - 1] (s0, a0, 0)
     in if \<not> ok then (PLAN_PARTIAL_PREFETCH_SLOT_EXHAUSTED, s1, a1, maxRemote, 0)
        else let (ok2, s2, a2, localEnd) = layout_bases c cfg [0..c_rankSize c - 1] (s1, a1, 0)
             in (if ok2 then PLAN_OK else PLAN_ERROR_LAYOUT_EXCEEDS_NVS, s2, a2, maxRemote, localEnd))"

section \<open>Destinations\<close>

text \<open>The ordinal of each route among the routes of its expert.\<close>

definition route_ordinals :: "int arr \<Rightarrow> int \<Rightarrow> int arr \<times> int arr" where
  "route_ordinals topkExperts cap =
    fold (\<lambda>route (ordinal, expertCount). let expert = topkExperts route
            in (ordinal(route := expertCount expert), expertCount(expert := expertCount expert + 1)))
      [0..cap - 1] (\<lambda>_. 0, \<lambda>_. 0)"

definition segment_holds :: "int \<Rightarrow> int \<Rightarrow> token_segment_move \<Rightarrow> bool" where
  "segment_holds expert ordinal move = (expertId move = expert \<and> ordinal \<ge> srcExpertBegin move \<and>
     ordinal < srcExpertBegin move + tokenCount move)"

definition raw_of :: "int \<Rightarrow> int" where
  "raw_of encoded = (if encoded \<ge> 0 then encoded else NOT encoded)"

text \<open>No earlier route of the token goes to the same rank.\<close>

definition first_to_rank :: "int arr \<Rightarrow> int \<Rightarrow> int \<Rightarrow> int \<Rightarrow> int \<Rightarrow> int \<Rightarrow> bool" where
  "first_to_rank dst topK nv token k rank =
    (\<not> list_ex (\<lambda>prior. raw_of (dst (token * topK + prior)) div nv = rank) [0..k - 1])"

fun dst_routes :: "plan_ctx \<Rightarrow> plan_config \<Rightarrow> plan_state \<Rightarrow> int arr \<Rightarrow> int arr \<Rightarrow> int \<Rightarrow> (int \<times> int) list \<Rightarrow> int arr \<Rightarrow>
    plan_status \<times> int arr" where
  "dst_routes c cfg s topkExperts ordinals topK [] dst = (PLAN_OK, dst)"
| "dst_routes c cfg s topkExperts ordinals topK ((token, k) # rest) dst =
    (let route = token * topK + k; expert = topkExperts route; ordinal = ordinals route in
     case List.find (segment_holds expert ordinal) (tokenSegments s) of
       None \<Rightarrow> (PLAN_ERROR_INTERNAL_INVARIANT, dst)
     | Some move \<Rightarrow>
         let localOffset = expertPhysicalBase s (ReIndex (dstRank move) expert (c_expertNum c)) +
               dstExpertBegin move + (ordinal - srcExpertBegin move);
             raw = dstRank move * nvS cfg + localOffset
         in if localOffset < 0 \<or> localOffset \<ge> nvS cfg \<or> raw < 0 \<or> raw > INT32_MAX
            then (PLAN_ERROR_INTERNAL_INVARIANT, dst)
            else dst_routes c cfg s topkExperts ordinals topK rest
                   (dst(route := (if first_to_rank dst topK (nvS cfg) token k (dstRank move) then raw
                                  else NOT raw))))"

definition token_routes :: "int \<Rightarrow> int \<Rightarrow> (int \<times> int) list" where
  "token_routes tokens topK = concat (map (\<lambda>token. map (\<lambda>k. (token, k)) [0..topK - 1]) [0..tokens - 1])"

definition BuildDst :: "plan_ctx \<Rightarrow> plan_input \<Rightarrow> plan_state \<Rightarrow> int arr \<Rightarrow> plan_status \<times> int arr" where
  "BuildDst c inp s dst =
    dst_routes c (in_config inp) s (deref (in_topkExperts inp))
      (fst (route_ordinals (deref (in_topkExperts inp)) (c_cap c))) (in_topK inp)
      (token_routes (in_s inp) (in_topK inp)) (clear (c_cap c) 0 dst)"

definition FillStatus :: "plan_ctx \<Rightarrow> plan_state \<Rightarrow> plan_status \<Rightarrow> int \<Rightarrow> int \<Rightarrow> int arr \<Rightarrow> int arr" where
  "FillStatus c s st maxRemote localEnd status =
    (let deficit = sum_list (map (\<lambda>r. if rankLoad s r < c_cap c then c_cap c - rankLoad s r else 0)
                     [0..c_rankSize c - 1])
     in status(0 := status_code st, 1 := intraRounds s, 2 := interRounds s, 3 := deficit, 4 := maxRemote,
               5 := localEnd, 6 := expertMoves s, 7 := int (length (tokenSegments s))))"

section \<open>The whole algorithm\<close>

text \<open>The state after the initialisation of the workspace.  The loops of the code cover the whole
  extent of each array; a cell outside the extent of an array does not exist, and is 0 here.\<close>

definition plan_init :: "plan_ctx \<Rightarrow> plan_input \<Rightarrow> plan_workspace \<Rightarrow> plan_state" where
  "plan_init c inp ws =
    (let tpe = deref (in_tokensPerExpert inp); n = c_rankSize c * c_expertNum c;
         s0 = \<lparr> rankLoad = clear (c_rankSize c) 0 (\<lambda>_. 0),
                remainingTpe = (\<lambda>i. if 0 \<le> i \<and> i < n then tpe i else 0),
                alloc = clear n 0 (\<lambda>_. 0),
                remoteExpertSet = clear (c_rankSize c * c_b c) (-1) (\<lambda>_. 0),
                remoteCount = clear (c_rankSize c) 0 (\<lambda>_. 0),
                srcExpertCursor = clear n 0 (\<lambda>_. 0),
                dstExpertCursor = clear n 0 (\<lambda>_. 0),
                expertPhysicalBase = clear n 0 (\<lambda>_. 0),
                routedPairTokens = clear (c_rankSize c * c_rankSize c) 0 (\<lambda>_. 0),
                affinityOrder = (\<lambda>i. if 0 \<le> i \<and> i < c_rankSize c * c_rankSize c
                                     then deref (ws_affinityOrder ws) i else 0),
                tokenSegments = [], segmentLog = [],
                globalSegments = 0, expertMoves = 0, intraRounds = 0, interRounds = 0,
                slotBlock = False, supplyBlock = False, pairBlock = False, fatal = PLAN_OK \<rparr>
     in fold (\<lambda>expert s.
            let cnt = sum_list (map (\<lambda>src. tpe (ReIndex src expert (c_expertNum c))) [0..c_rankSize c - 1]);
                home = HomeRank expert (c_expertsPerRank c)
            in s\<lparr> alloc := (alloc s)(ReIndex home expert (c_expertNum c) := cnt),
                  rankLoad := (rankLoad s)(home := rankLoad s home + cnt) \<rparr>)
          [0..c_expertNum c - 1] s0)"

definition plan_balance :: "plan_ctx \<Rightarrow> plan_input \<Rightarrow> plan_workspace \<Rightarrow> plan_state" where
  "plan_balance c inp ws =
    (let s0 = plan_init c inp ws;
         s1 = (if ws_affinityOrderValid ws then s0 else BuildAffinity c s0);
         s2 = RunIntra c s1;
         s3 = (if fatal s2 = PLAN_OK then RunInter c s2 else s2)
     in if fatal s3 = PLAN_OK then AppendRemainders c s3 else s3)"

definition balance_status :: "plan_ctx \<Rightarrow> plan_state \<Rightarrow> bool \<times> plan_status" where
  "balance_status c s =
    (let balanced = list_all (\<lambda>r. rankLoad s r = c_cap c) [0..c_rankSize c - 1]
     in (balanced, if balanced then PLAN_OK
         else if slotBlock s then PLAN_PARTIAL_PREFETCH_SLOT_EXHAUSTED
         else if supplyBlock s then PLAN_PARTIAL_TOKEN_SUPPLY
         else PLAN_PARTIAL_NO_FEASIBLE_PAIR))"

text \<open>What a run leaves behind: its status, the outputs, and the workspace once it passed the
  validation.\<close>

record plan_run =
  run_status :: plan_status
  run_out :: plan_output
  run_state :: "plan_state option"

definition arrays_of :: "plan_output \<Rightarrow> plan_arrays" where
  "arrays_of out = \<lparr> a_dst = deref (out_dst out), a_cuSeqlens = deref (out_cuSeqlens out),
     a_expertsToCopy = deref (out_expertsToCopy out), a_remoteExperts = out_remoteExperts out,
     a_expertTargets = (case out_expertTargets out of Some t \<Rightarrow> t | None \<Rightarrow> (\<lambda>_. 0)),
     a_remoteStats = deref (out_remoteStats out), a_status = deref (out_status out) \<rparr>"

definition output_of :: "plan_output \<Rightarrow> plan_arrays \<Rightarrow> plan_output" where
  "output_of out a = \<lparr> out_dst = Some (a_dst a), out_cuSeqlens = Some (a_cuSeqlens a),
     out_expertsToCopy = Some (a_expertsToCopy a), out_remoteExperts = a_remoteExperts a,
     out_expertTargets = (if out_expertTargets out = None then None else Some (a_expertTargets a)),
     out_remoteStats = Some (a_remoteStats a), out_status = Some (a_status a) \<rparr>"

definition RunPlanAlgorithm :: "plan_input \<Rightarrow> plan_output \<Rightarrow> plan_workspace \<Rightarrow> plan_run" where
  "RunPlanAlgorithm inp out ws =
    (let out0 = out\<lparr> out_status := map_option (clear kPlanStatusWords 0) (out_status out) \<rparr>;
         validation = Validate inp out0 ws
     in if validation \<noteq> PLAN_OK
        then \<lparr> run_status = validation,
               run_out = out0\<lparr> out_status := map_option (\<lambda>f. f(0 := status_code validation)) (out_status out0) \<rparr>,
               run_state = None \<rparr>
        else let c = plan_ctx_of inp ws; cfg = in_config inp; a = arrays_of out0;
                 s = plan_balance c inp ws
          in if fatal s \<noteq> PLAN_OK
             then \<lparr> run_status = fatal s,
                    run_out = output_of out0 (a\<lparr> a_status := FillStatus c s (fatal s) 0 0 (a_status a) \<rparr>),
                    run_state = Some s \<rparr>
             else let (balanced, balanceStatus) = balance_status c s;
                      (layoutStatus, s1, a1, maxRemote, localEnd) = BuildLayouts c cfg s a;
                      (dstStatus, dst) = (if layoutStatus = PLAN_OK then BuildDst c inp s1 (a_dst a1)
                                          else (layoutStatus, a_dst a1));
                      st = (if balanced then dstStatus else balanceStatus)
               in \<lparr> run_status = st,
                    run_out = output_of out0
                      (a1\<lparr> a_dst := dst, a_status := FillStatus c s1 st maxRemote localEnd (a_status a1) \<rparr>),
                    run_state = Some s1 \<rparr>)"

end
