(* ===== verification/PlanReference.thy ===== *)
theory PlanReference
  imports PlanLayout
begin

text \<open>
  The reference planner (\<open>planner_v2/reference/ep_plan_reference.cpp\<close>): one run computes the plan of
  all ranks, with vectors, sets and \<open>std::sort\<close> where the planner of a rank works in place.
\<close>

unbundle bit_operations_syntax

section \<open>Vectors and sorting\<close>

text \<open>A vector is its size and its elements; an element outside the size does not exist.\<close>

record 'a vec =
  vsize :: int
  cell :: "int \<Rightarrow> 'a"

definition vec_fill :: "int \<Rightarrow> 'a \<Rightarrow> 'a vec" where
  "vec_fill n v = \<lparr> vsize = n, cell = (\<lambda>_. v) \<rparr>"

definition vec_set :: "'a vec \<Rightarrow> int \<Rightarrow> 'a \<Rightarrow> 'a vec" where
  "vec_set v i x = v\<lparr> cell := (cell v)(i := x) \<rparr>"

definition vec_eq :: "'a vec \<Rightarrow> 'a vec \<Rightarrow> bool" where
  "vec_eq v w = (vsize v = vsize w \<and> list_all (\<lambda>i. cell v i = cell w i) [0..vsize v - 1])"

text \<open>The arrangement of the elements that \<open>std::sort\<close> returns for a strict order; it is unique
  when the order is total on the elements.\<close>

primrec insert_by :: "('a \<Rightarrow> 'a \<Rightarrow> bool) \<Rightarrow> 'a \<Rightarrow> 'a list \<Rightarrow> 'a list" where
  "insert_by lt x [] = [x]"
| "insert_by lt x (y # ys) = (if lt y x then y # insert_by lt x ys else x # y # ys)"

definition std_sort :: "('a \<Rightarrow> 'a \<Rightarrow> bool) \<Rightarrow> 'a list \<Rightarrow> 'a list" where
  "std_sort lt xs = foldr (insert_by lt) xs []"

section \<open>Inputs and outputs\<close>

record ref_input =
  ri_rankSize :: int
  ri_s :: int
  ri_topK :: int
  ri_expertNum :: int
  ri_config :: plan_config
  ri_globalRankIds :: "int vec"
  ri_topkExperts :: "int vec"
  ri_tokensPerExpert :: "int vec"

record rank_pair =
  rp_srcRank :: int
  rp_dstRank :: int
  rp_requestedUnits :: int

record expert_move =
  em_expertId :: int
  em_srcHomeRank :: int
  em_dstRank :: int
  em_requestedUnits :: int
  em_actualAssigned :: int
  em_round :: int

record source_assignment =
  sa_actualAssigned :: int
  sa_unmetDemand :: int
  sa_supplyExhausted :: bool
  sa_routeLimited :: bool
  sa_segments :: "token_segment_move list"

record ref_output =
  ro_finalStatus :: plan_status
  ro_dst :: "int vec"
  ro_cuSeqlens :: "int vec"
  ro_expertsToCopy :: "int vec"
  ro_expertTargets :: "nat vec"
  ro_remoteStats :: "int vec"
  ro_statusByRank :: "int vec"
  ro_rankLoad :: "int vec"
  ro_alloc :: "int vec"
  ro_segments :: "token_segment_move list"
  ro_expertMoves :: "expert_move list"

record ranked_load =
  rl_rank :: int
  rl_load :: int
  rl_globalRankId :: int

text \<open>The constants of the planner state, and its vectors; allocations, loads, segments and moves
  are fields of the output that the code updates through the state.\<close>

record ref_ctx =
  rc_rankSize :: int
  rc_expertNum :: int
  rc_expertsPerRank :: int
  rc_cap :: int
  rc_prefetchSlots :: int
  rc_routeLimit :: int
  rc_globalRankIds :: "int arr"

record ref_state =
  rs_affinityOrder :: "int \<Rightarrow> int list"
  rs_remainingTpe :: "int arr"
  rs_srcExpertCursor :: "int arr"
  rs_dstExpertCursor :: "int arr"
  rs_routedPairTokens :: "int arr"
  rs_remoteExpertSets :: "int \<Rightarrow> int set"
  rs_sawSlotBlock :: bool
  rs_sawSupplyBlock :: bool
  rs_sawRouteOrPairBlock :: bool
  rs_rankLoad :: "int arr"
  rs_alloc :: "int arr"
  rs_segments :: "token_segment_move list"
  rs_expertMoves :: "expert_move list"

definition ref_ctx_of :: "ref_input \<Rightarrow> ref_ctx" where
  "ref_ctx_of inp =
    \<lparr> rc_rankSize = ri_rankSize inp, rc_expertNum = ri_expertNum inp,
      rc_expertsPerRank = ri_expertNum inp div ri_rankSize inp,
      rc_cap = rankTokenCapacity (ri_config inp), rc_prefetchSlots = prefetchSlots (ri_config inp),
      rc_routeLimit = tokenRouteLimitPerPair (ri_config inp), rc_globalRankIds = cell (ri_globalRankIds inp) \<rparr>"

section \<open>Validation\<close>

definition INT64_MAX :: int where "INT64_MAX = 9223372036854775807"

definition CheckedProduct :: "int \<Rightarrow> int \<Rightarrow> int option" where
  "CheckedProduct a b =
    (if a < 0 \<or> b < 0 then None else if a \<noteq> 0 \<and> b > INT64_MAX div a then None else Some (a * b))"

definition AlignUp :: "int \<Rightarrow> int \<Rightarrow> bool \<times> int" where
  "AlignUp value alignment =
    (if value < 0 \<or> alignment \<le> 0 then (False, 0)
     else if value > 0 \<and> alignment > INT32_MAX then (False, 0)
     else let aligned = ((value + alignment - 1) div alignment) * alignment
          in if aligned > INT32_MAX then (False, 0) else (True, aligned))"

definition ref_config_invalid :: "plan_config \<Rightarrow> int \<Rightarrow> bool" where
  "ref_config_invalid config cap =
    (rankTokenCapacity config \<noteq> cap \<or> prefetchSlots config \<le> 0 \<or>
     prefetchSlots config > INT32_MAX \<or>
     nvS config < cap \<or> nvS config > INT32_MAX \<or> tokenPadding config \<le> 0 \<or>
     tokenRouteLimitPerPair config < 0 \<or>
     tokenRouteLimitPerPair config > cap \<or> cardsPerServer config \<noteq> kPlanCardsPerServer \<or>
     cardsPerCabinet config \<noteq> kPlanCardsPerCabinet \<or>
     crossCandidateCount config \<noteq> kPlanCrossCandidateCount)"

definition ref_shapes_invalid :: "ref_input \<Rightarrow> int \<Rightarrow> bool" where
  "ref_shapes_invalid inp cap =
    (case (CheckedProduct (ri_rankSize inp) cap, CheckedProduct (ri_rankSize inp) (ri_expertNum inp),
           CheckedProduct (ri_rankSize inp) (nvS (ri_config inp))) of
       (Some routeCount, Some tpeCount, Some addressRange) \<Rightarrow>
         addressRange > INT32_MAX \<or> vsize (ri_globalRankIds inp) \<noteq> ri_rankSize inp \<or>
         vsize (ri_topkExperts inp) \<noteq> routeCount \<or> vsize (ri_tokensPerExpert inp) \<noteq> tpeCount
     | _ \<Rightarrow> True)"

fun ids_unique :: "int arr \<Rightarrow> int list \<Rightarrow> int set \<Rightarrow> bool" where
  "ids_unique ids [] globalIds = True"
| "ids_unique ids (rank # ranks) globalIds =
    (if ids rank < 0 \<or> ids rank \<in> globalIds then False
     else ids_unique ids ranks (insert (ids rank) globalIds))"

text \<open>The histogram of the routes of a rank, compared with its row of the token table.\<close>

definition ref_rank_check :: "ref_input \<Rightarrow> int \<Rightarrow> int \<Rightarrow> plan_status" where
  "ref_rank_check inp cap rank =
    (case count_routes (\<lambda>route. cell (ri_topkExperts inp) (rank * cap + route)) (ri_expertNum inp) [0..cap - 1] (\<lambda>_. 0) of
       None \<Rightarrow> PLAN_ERROR_CONFIG_MISMATCH
     | Some histogram \<Rightarrow>
         check_tpe_row (cell (ri_tokensPerExpert inp)) histogram (ri_expertNum inp) True cap rank
           [0..ri_expertNum inp - 1] 0)"

fun ref_ranks_check :: "ref_input \<Rightarrow> int \<Rightarrow> int list \<Rightarrow> plan_status" where
  "ref_ranks_check inp cap [] = PLAN_OK"
| "ref_ranks_check inp cap (rank # ranks) =
    (let st = ref_rank_check inp cap rank in if st \<noteq> PLAN_OK then st else ref_ranks_check inp cap ranks)"

definition ValidateInput :: "ref_input \<Rightarrow> plan_status" where
  "ValidateInput inp =
    (if ri_rankSize inp \<le> 0 \<or> ri_rankSize inp > 512 \<or> ri_s inp \<le> 0 \<or> ri_topK inp \<le> 0 \<or>
        ri_topK inp > 32 \<or> ri_expertNum inp \<le> 0 \<or> ri_expertNum inp mod ri_rankSize inp \<noteq> 0
     then PLAN_ERROR_CONFIG_MISMATCH
     else case CheckedProduct (ri_s inp) (ri_topK inp) of
         None \<Rightarrow> PLAN_ERROR_CONFIG_MISMATCH
       | Some cap \<Rightarrow>
           if cap \<le> 0 \<or> cap > INT32_MAX then PLAN_ERROR_CONFIG_MISMATCH
           else if ref_config_invalid (ri_config inp) cap then PLAN_ERROR_CONFIG_MISMATCH
           else if ref_shapes_invalid inp cap then PLAN_ERROR_CONFIG_MISMATCH
           else if \<not> ids_unique (cell (ri_globalRankIds inp)) [0..ri_rankSize inp - 1] {}
           then PLAN_ERROR_CONFIG_MISMATCH
           else ref_ranks_check inp cap [0..ri_rankSize inp - 1])"

section \<open>Moving experts\<close>

definition BuildAffinityOrders :: "ref_ctx \<Rightarrow> ref_state \<Rightarrow> ref_state" where
  "BuildAffinityOrders rc st =
    fold (\<lambda>dst st. st\<lparr> rs_affinityOrder := (rs_affinityOrder st)
            (dst := std_sort (\<lambda>lhs rhs. BetterAffinity lhs rhs dst (rc_globalRankIds rc)) [0..rc_rankSize rc - 1]) \<rparr>)
      [0..rc_rankSize rc - 1] st"

record assign_state =
  as_remaining :: "int vec"
  as_routed :: "int vec"
  as_cursor :: "int vec"
  as_dstCursor :: int
  as_demand :: int
  as_assigned :: int
  as_segments :: "token_segment_move list"

text \<open>The loop over the sources; the code returns false, here \<open>None\<close>, when it reads a source outside
  the vectors or a negative count.\<close>

fun assign_loop :: "int \<Rightarrow> int \<Rightarrow> int \<Rightarrow> int list \<Rightarrow> assign_state \<Rightarrow> assign_state option" where
  "assign_loop expert dst routeLimit [] a = Some a"
| "assign_loop expert dst routeLimit (src # srcs) a =
    (if as_demand a \<le> 0 then Some a
     else if src < 0 \<or> src \<ge> vsize (as_remaining a) then None
     else let available = cell (as_remaining a) src in
       if available < 0 \<or> cell (as_routed a) src < 0 \<or> cell (as_cursor a) src < 0 \<or> as_dstCursor a < 0 then None
       else let pairRemain = (if routeLimit \<noteq> 0 then routeLimit - cell (as_routed a) src else as_demand a);
                taken = min (min available (as_demand a)) (max pairRemain 0)
         in if taken \<le> 0 then assign_loop expert dst routeLimit srcs a
            else assign_loop expert dst routeLimit srcs
              (a\<lparr> as_segments := as_segments a @ [\<lparr> expertId = expert, srcRank = src, dstRank = dst,
                     srcExpertBegin = cell (as_cursor a) src, dstExpertBegin = as_dstCursor a, tokenCount = taken \<rparr>],
                  as_remaining := vec_set (as_remaining a) src (available - taken),
                  as_cursor := vec_set (as_cursor a) src (cell (as_cursor a) src + taken),
                  as_dstCursor := as_dstCursor a + taken,
                  as_routed := (if routeLimit \<noteq> 0 then vec_set (as_routed a) src (cell (as_routed a) src + taken)
                                else as_routed a),
                  as_assigned := as_assigned a + taken,
                  as_demand := as_demand a - taken \<rparr>))"

definition AssignTokenSources :: "int \<Rightarrow> int \<Rightarrow> int \<Rightarrow> int \<Rightarrow> int list \<Rightarrow> int vec \<Rightarrow> int vec \<Rightarrow> int vec \<Rightarrow> int \<Rightarrow>
    (int vec \<times> int vec \<times> int vec \<times> int \<times> source_assignment) option" where
  "AssignTokenSources expert dst requestedUnits routeLimit order remainingBySrc routedBySrc srcCursor dstCursor =
    (if expert < 0 \<or> dst < 0 \<or> requestedUnits < 0 \<or> routeLimit < 0 \<or>
        vsize remainingBySrc \<noteq> vsize routedBySrc \<or> vsize remainingBySrc \<noteq> vsize srcCursor
     then None
     else case assign_loop expert dst routeLimit order
              \<lparr> as_remaining = remainingBySrc, as_routed = routedBySrc, as_cursor = srcCursor,
                as_dstCursor = dstCursor, as_demand = requestedUnits, as_assigned = 0, as_segments = [] \<rparr> of
          None \<Rightarrow> None
        | Some a \<Rightarrow>
            let srcs = [0..vsize (as_remaining a) - 1];
                supply = sum_list (map (cell (as_remaining a)) srcs);
                routeBlocked = list_ex (\<lambda>src. routeLimit \<noteq> 0 \<and> cell (as_remaining a) src > 0 \<and>
                                              cell (as_routed a) src \<ge> routeLimit) srcs
            in Some (as_remaining a, as_routed a, as_cursor a, as_dstCursor a,
                \<lparr> sa_actualAssigned = as_assigned a, sa_unmetDemand = as_demand a,
                  sa_supplyExhausted = (as_demand a > 0 \<and> supply = 0),
                  sa_routeLimited = (as_demand a > 0 \<and> routeBlocked),
                  sa_segments = as_segments a \<rparr>))"

text \<open>Copying a column of a table into a vector over the sources, and back.\<close>

definition column :: "int \<Rightarrow> int arr \<Rightarrow> (int \<Rightarrow> int) \<Rightarrow> int vec" where
  "column n table index = \<lparr> vsize = n, cell = (\<lambda>src. table (index src)) \<rparr>"

definition store_column :: "int \<Rightarrow> int arr \<Rightarrow> (int \<Rightarrow> int) \<Rightarrow> int vec \<Rightarrow> int arr" where
  "store_column n table index v = fold (\<lambda>src t. t(index src := cell v src)) [0..n - 1] table"

definition ref_commit :: "ref_ctx \<Rightarrow> int \<Rightarrow> int \<Rightarrow> int \<Rightarrow> int \<Rightarrow> int \<Rightarrow> bool \<Rightarrow> source_assignment \<Rightarrow> ref_state \<Rightarrow> ref_state" where
  "ref_commit rc rnd srcHomeRank dst expert expertRequest alreadyRemote assignment st =
    (let actual = sa_actualAssigned assignment;
         homeRe = ReIndex srcHomeRank expert (rc_expertNum rc); dstRe = ReIndex dst expert (rc_expertNum rc);
         alloc1 = (rs_alloc st)(homeRe := rs_alloc st homeRe - actual);
         load1 = (rs_rankLoad st)(srcHomeRank := rs_rankLoad st srcHomeRank - actual)
     in st\<lparr> rs_remoteExpertSets := (if alreadyRemote then rs_remoteExpertSets st
                                    else (rs_remoteExpertSets st)(dst := insert expert (rs_remoteExpertSets st dst))),
            rs_alloc := alloc1(dstRe := alloc1 dstRe + actual),
            rs_rankLoad := load1(dst := load1 dst + actual),
            rs_segments := rs_segments st @ sa_segments assignment,
            rs_expertMoves := rs_expertMoves st @ [\<lparr> em_expertId = expert, em_srcHomeRank = srcHomeRank,
                em_dstRank = dst, em_requestedUnits = expertRequest, em_actualAssigned = actual,
                em_round = rnd \<rparr>] \<rparr>)"

fun ref_move_experts :: "ref_ctx \<Rightarrow> int \<Rightarrow> int \<Rightarrow> int \<Rightarrow> int list \<Rightarrow> ref_state \<Rightarrow> int \<Rightarrow> bool \<Rightarrow>
    ref_state \<times> int \<times> bool" where
  "ref_move_experts rc rnd srcHomeRank dst [] st demand foundCandidate = (st, demand, foundCandidate)"
| "ref_move_experts rc rnd srcHomeRank dst (expert # experts) st demand foundCandidate =
    (if demand \<le> 0 then (st, demand, foundCandidate)
     else let availableAlloc = rs_alloc st (ReIndex srcHomeRank expert (rc_expertNum rc));
              alreadyRemote = (expert \<in> rs_remoteExpertSets st dst)
       in if availableAlloc \<le> 0 then ref_move_experts rc rnd srcHomeRank dst experts st demand foundCandidate
          else if \<not> alreadyRemote \<and> int (card (rs_remoteExpertSets st dst)) \<ge> rc_prefetchSlots rc
          then ref_move_experts rc rnd srcHomeRank dst experts (st\<lparr> rs_sawSlotBlock := True \<rparr>) demand foundCandidate
          else let expertRequest = min availableAlloc demand;
                   re = (\<lambda>src. ReIndex src expert (rc_expertNum rc)); pair = (\<lambda>src. PairIndex src dst (rc_rankSize rc));
                   n = rc_rankSize rc; dstRe = ReIndex dst expert (rc_expertNum rc)
            in case AssignTokenSources expert dst expertRequest (rc_routeLimit rc) (rs_affinityOrder st dst)
                      (column n (rs_remainingTpe st) re) (column n (rs_routedPairTokens st) pair)
                      (column n (rs_srcExpertCursor st) re) (rs_dstExpertCursor st dstRe) of
                 None \<Rightarrow> ref_move_experts rc rnd srcHomeRank dst experts
                           (st\<lparr> rs_sawRouteOrPairBlock := True \<rparr>) demand True
               | Some (remaining, routed, cursors, dstCursor, assignment) \<Rightarrow>
                   let st1 = st\<lparr> rs_remainingTpe := store_column n (rs_remainingTpe st) re remaining,
                                 rs_routedPairTokens := store_column n (rs_routedPairTokens st) pair routed,
                                 rs_srcExpertCursor := store_column n (rs_srcExpertCursor st) re cursors,
                                 rs_dstExpertCursor := (rs_dstExpertCursor st)(dstRe := dstCursor) \<rparr>;
                       st2 = (if sa_actualAssigned assignment > 0
                              then ref_commit rc rnd srcHomeRank dst expert expertRequest alreadyRemote assignment st1
                              else st1);
                       demand2 = (if sa_actualAssigned assignment > 0 then demand - sa_actualAssigned assignment else demand);
                       st3 = (if sa_unmetDemand assignment > 0
                              then if sa_routeLimited assignment then st2\<lparr> rs_sawRouteOrPairBlock := True \<rparr>
                                   else if sa_supplyExhausted assignment then st2\<lparr> rs_sawSupplyBlock := True \<rparr>
                                   else st2
                              else st2)
                   in ref_move_experts rc rnd srcHomeRank dst experts st3 demand2 True)"

definition ref_expert_order :: "ref_ctx \<Rightarrow> ref_state \<Rightarrow> int \<Rightarrow> int list" where
  "ref_expert_order rc st srcHomeRank =
    (let begin = srcHomeRank * rc_expertsPerRank rc
     in std_sort (\<lambda>lhs rhs. let lhsAlloc = rs_alloc st (ReIndex srcHomeRank lhs (rc_expertNum rc));
                               rhsAlloc = rs_alloc st (ReIndex srcHomeRank rhs (rc_expertNum rc))
                           in if lhsAlloc \<noteq> rhsAlloc then lhsAlloc > rhsAlloc else lhs < rhs)
          (filter (\<lambda>expert. rs_alloc st (ReIndex srcHomeRank expert (rc_expertNum rc)) > 0)
            [begin..begin + rc_expertsPerRank rc - 1]))"

definition ref_ApplyExpertMove :: "ref_ctx \<Rightarrow> ref_state \<Rightarrow> int \<Rightarrow> int \<Rightarrow> int \<Rightarrow> int \<Rightarrow> ref_state \<times> int" where
  "ref_ApplyExpertMove rc st srcHomeRank dst requestedUnits rnd =
    (if requestedUnits \<le> 0 \<or> srcHomeRank = dst then (st, 0)
     else let (st1, demand, foundCandidate) =
                ref_move_experts rc rnd srcHomeRank dst (ref_expert_order rc st srcHomeRank) st requestedUnits False
       in (if demand > 0 \<and> \<not> foundCandidate then st1\<lparr> rs_sawRouteOrPairBlock := True \<rparr> else st1,
           requestedUnits - demand))"

section \<open>Balancing stages\<close>

text \<open>Loads in order: the heaviest first when \<open>descending\<close>, ties by global rank and then by rank.\<close>

definition load_before :: "bool \<Rightarrow> ranked_load \<Rightarrow> ranked_load \<Rightarrow> bool" where
  "load_before descending lhs rhs =
    (if rl_load lhs \<noteq> rl_load rhs
     then (if descending then rl_load lhs > rl_load rhs else rl_load lhs < rl_load rhs)
     else if rl_globalRankId lhs \<noteq> rl_globalRankId rhs then rl_globalRankId lhs < rl_globalRankId rhs
     else rl_rank lhs < rl_rank rhs)"

primrec load_middle :: "int \<Rightarrow> int list \<Rightarrow> nat \<Rightarrow> nat" where
  "load_middle cap loads 0 = 0"
| "load_middle cap loads (Suc m) = (if loads ! m + loads ! Suc m \<le> cap then load_middle cap loads m else Suc m)"

definition BuildIntraServerPairs :: "int vec \<Rightarrow> int vec \<Rightarrow> int \<Rightarrow> rank_pair list option" where
  "BuildIntraServerPairs loads globalRankIds cap =
    (if cap \<le> 0 \<or> vsize loads \<noteq> vsize globalRankIds then None
     else if list_ex (\<lambda>rank. cell loads rank < 0 \<or> cell globalRankIds rank < 0) [0..vsize loads - 1] then None
     else let active = std_sort (load_before True)
                (map (\<lambda>rank. \<lparr> rl_rank = rank, rl_load = cell loads rank, rl_globalRankId = cell globalRankIds rank \<rparr>)
                  (filter (\<lambda>rank. cell loads rank \<noteq> cap) [0..vsize loads - 1]))
       in if length active < 2 \<or> rl_load (active ! 0) + rl_load (active ! 1) < cap \<or>
             rl_load (active ! (length active - 1)) > cap
          then Some []
          else let middle = load_middle cap (map rl_load active) (length active div 2)
            in if middle = 0 then Some []
               else let senders = filter (\<lambda>l. rl_load l > cap) (rev (take middle active));
                        receivers = filter (\<lambda>l. rl_load l < cap) (drop middle active)
                 in Some (filter (\<lambda>p. rp_requestedUnits p > 0)
                      (map (\<lambda>(snd, rcv). \<lparr> rp_srcRank = rl_rank snd, rp_dstRank = rl_rank rcv,
                                          rp_requestedUnits = min (rl_load snd - cap) (cap - rl_load rcv) \<rparr>)
                        (zip senders receivers))))"

fun top_candidates :: "int set \<Rightarrow> int list \<Rightarrow> int list \<Rightarrow> int list" where
  "top_candidates senders [] candidates = candidates"
| "top_candidates senders (rank # order) candidates =
    (if int (length candidates) \<ge> kPlanCrossCandidateCount then candidates
     else if rank \<in> senders then top_candidates senders order (candidates @ [rank])
     else top_candidates senders order candidates)"

definition BuildStaticTopCandidates :: "int \<Rightarrow> int list \<Rightarrow> int list \<Rightarrow> int list option" where
  "BuildStaticTopCandidates receiver senderGroup order =
    (if receiver < 0 then None else Some (top_candidates (set senderGroup) order []))"

fun ref_run_pairs :: "ref_ctx \<Rightarrow> int list \<Rightarrow> int \<Rightarrow> rank_pair list \<Rightarrow> ref_state \<Rightarrow> int \<Rightarrow> ref_state \<times> int" where
  "ref_run_pairs rc members rnd [] st actualRound = (st, actualRound)"
| "ref_run_pairs rc members rnd (p # pairs) st actualRound =
    (let (st1, actual) = ref_ApplyExpertMove rc st (members ! nat (rp_srcRank p)) (members ! nat (rp_dstRank p))
                           (rp_requestedUnits p) rnd
     in ref_run_pairs rc members rnd pairs st1 (actualRound + actual))"

definition member_vec :: "int arr \<Rightarrow> int list \<Rightarrow> int vec" where
  "member_vec table members = \<lparr> vsize = int (length members), cell = (\<lambda>i. table (members ! nat i)) \<rparr>"

text \<open>The rounds of one server; a loop that does not end is \<open>None\<close>.\<close>

partial_function (option) server_loop ::
  "ref_ctx \<Rightarrow> int list \<Rightarrow> ref_state \<Rightarrow> int \<Rightarrow> int \<Rightarrow> (ref_state \<times> int \<times> int) option" where
  "server_loop rc members st roundCounter stageRounds =
    (case BuildIntraServerPairs (member_vec (rs_rankLoad st) members) (member_vec (rc_globalRankIds rc) members) (rc_cap rc) of
       None \<Rightarrow> Some (st, roundCounter, stageRounds)
     | Some pairs \<Rightarrow>
         if pairs = [] then Some (st, roundCounter, stageRounds)
         else let (st1, actualRound) = ref_run_pairs rc members roundCounter pairs st 0
           in if actualRound = 0
              then Some (st1\<lparr> rs_sawRouteOrPairBlock := True \<rparr>, roundCounter + 1, stageRounds)
              else server_loop rc members st1 (roundCounter + 1) (stageRounds + 1))"

declare server_loop.simps [code]

definition server_keys :: "ref_ctx \<Rightarrow> int list" where
  "server_keys rc = std_sort (<)
    (fold (\<lambda>rank keys. let key = rc_globalRankIds rc rank div kPlanCardsPerServer
                       in if key \<in> set keys then keys else keys @ [key]) [0..rc_rankSize rc - 1] [])"

fun server_stage :: "ref_ctx \<Rightarrow> int list \<Rightarrow> ref_state \<Rightarrow> int \<Rightarrow> int \<Rightarrow> (ref_state \<times> int \<times> int) option" where
  "server_stage rc [] st roundCounter stageRounds = Some (st, roundCounter, stageRounds)"
| "server_stage rc (key # keys) st roundCounter stageRounds =
    (case server_loop rc (filter (\<lambda>rank. rc_globalRankIds rc rank div kPlanCardsPerServer = key) [0..rc_rankSize rc - 1])
            st roundCounter stageRounds of
       None \<Rightarrow> None
     | Some (st1, roundCounter1, stageRounds1) \<Rightarrow> server_stage rc keys st1 roundCounter1 stageRounds1)"

definition RunIntraServerStage :: "ref_ctx \<Rightarrow> ref_state \<Rightarrow> int \<Rightarrow> (ref_state \<times> int \<times> int) option" where
  "RunIntraServerStage rc st roundCounter = server_stage rc (server_keys rc) st roundCounter 0"

text \<open>The candidates of one receiver, and the receivers of one round.\<close>

fun ref_try :: "ref_ctx \<Rightarrow> int \<Rightarrow> int \<Rightarrow> int list \<Rightarrow> int set \<Rightarrow> ref_state \<Rightarrow> int \<Rightarrow> ref_state \<times> int set \<times> int" where
  "ref_try rc rnd dst [] occupied st actualRound = (st, occupied, actualRound)"
| "ref_try rc rnd dst (src # srcs) occupied st actualRound =
    (if src \<in> occupied then ref_try rc rnd dst srcs occupied st actualRound
     else let requested = min (rs_rankLoad st src - rc_cap rc) (rc_cap rc - rs_rankLoad st dst) in
       if requested \<le> 0 then ref_try rc rnd dst srcs occupied st actualRound
       else let (st1, actual) = ref_ApplyExpertMove rc st src dst requested rnd
         in if actual > 0 then (st1, insert src occupied, actualRound + actual)
            else ref_try rc rnd dst srcs occupied st1 actualRound)"

fun ref_receivers :: "ref_ctx \<Rightarrow> int \<Rightarrow> int list \<Rightarrow> int list \<Rightarrow> int set \<Rightarrow> ref_state \<Rightarrow> int \<Rightarrow> ref_state \<times> int" where
  "ref_receivers rc rnd senderGroup [] occupied st actualRound = (st, actualRound)"
| "ref_receivers rc rnd senderGroup (dst # dsts) occupied st actualRound =
    (let candidates = (case BuildStaticTopCandidates dst senderGroup (rs_affinityOrder st dst) of None \<Rightarrow> [] | Some c \<Rightarrow> c);
         (st1, occupied1, actualRound1) = ref_try rc rnd dst candidates occupied st actualRound
     in ref_receivers rc rnd senderGroup dsts occupied1 st1 actualRound1)"

partial_function (option) inter_loop :: "ref_ctx \<Rightarrow> ref_state \<Rightarrow> int \<Rightarrow> int \<Rightarrow> (ref_state \<times> int \<times> int) option" where
  "inter_loop rc st roundCounter stageRounds =
    (let active0 = map (\<lambda>rank. \<lparr> rl_rank = rank, rl_load = rs_rankLoad st rank, rl_globalRankId = rc_globalRankIds rc rank \<rparr>)
                     (filter (\<lambda>rank. rs_rankLoad st rank \<noteq> rc_cap rc) [0..rc_rankSize rc - 1]);
         underloadedCount = length (filter (\<lambda>l. rl_load l < rc_cap rc) active0)
     in if active0 = [] \<or> length active0 < 2 \<or> underloadedCount = 0 \<or> underloadedCount = length active0
        then Some (st, roundCounter, stageRounds)
        else let active = std_sort (load_before True) active0;
                 receiverCount = min underloadedCount (length active div 2)
          in if receiverCount = 0 then Some (st, roundCounter, stageRounds)
             else let senderCount = length active - receiverCount;
                      senderGroup = map rl_rank (take senderCount active);
                      receivers = std_sort (load_before False) (drop senderCount active);
                      (st1, actualRound) = ref_receivers rc roundCounter senderGroup (map rl_rank receivers) {} st 0
               in if actualRound = 0
                  then Some (st1\<lparr> rs_sawRouteOrPairBlock := True \<rparr>, roundCounter + 1, stageRounds)
                  else inter_loop rc st1 (roundCounter + 1) (stageRounds + 1))"

declare inter_loop.simps [code]

definition RunInterServerStage :: "ref_ctx \<Rightarrow> ref_state \<Rightarrow> int \<Rightarrow> (ref_state \<times> int \<times> int) option" where
  "RunInterServerStage rc st roundCounter = inter_loop rc st roundCounter 0"

fun ref_remainder_sources :: "ref_ctx \<Rightarrow> int \<Rightarrow> int \<Rightarrow> int list \<Rightarrow> ref_state \<Rightarrow> ref_state" where
  "ref_remainder_sources rc expert dst [] st = st"
| "ref_remainder_sources rc expert dst (src # srcs) st =
    (let index = ReIndex src expert (rc_expertNum rc); dstRe = ReIndex dst expert (rc_expertNum rc);
         cnt = rs_remainingTpe st index
     in if cnt \<le> 0 then ref_remainder_sources rc expert dst srcs st
        else ref_remainder_sources rc expert dst srcs
          (st\<lparr> rs_segments := rs_segments st @ [\<lparr> expertId = expert, srcRank = src, dstRank = dst,
                 srcExpertBegin = rs_srcExpertCursor st index, dstExpertBegin = rs_dstExpertCursor st dstRe, tokenCount = cnt \<rparr>],
               rs_remainingTpe := (rs_remainingTpe st)(index := 0),
               rs_srcExpertCursor := (rs_srcExpertCursor st)(index := rs_srcExpertCursor st index + cnt),
               rs_dstExpertCursor := (rs_dstExpertCursor st)(dstRe := rs_dstExpertCursor st dstRe + cnt) \<rparr>))"

definition AppendRemainderSegments :: "ref_ctx \<Rightarrow> ref_state \<Rightarrow> ref_state" where
  "AppendRemainderSegments rc st =
    fold (\<lambda>expert. ref_remainder_sources rc expert (HomeRank expert (rc_expertsPerRank rc)) [0..rc_rankSize rc - 1])
      [0..rc_expertNum rc - 1] st"

section \<open>Layouts\<close>

record ref_layout =
  ly_cuSeqlens :: "int vec"
  ly_expertsToCopy :: "int vec"
  ly_remoteStats :: "int vec"
  ly_expertTargets :: "nat vec"
  ly_base :: "int arr"

definition ref_layout_init :: "ref_ctx \<Rightarrow> ref_layout" where
  "ref_layout_init rc =
    (let groupCount = rc_expertNum rc + rc_prefetchSlots rc; targetWords = (rc_rankSize rc + 63) div 64
     in \<lparr> ly_cuSeqlens = vec_fill (rc_rankSize rc * groupCount) 0,
          ly_expertsToCopy = vec_fill (rc_rankSize rc * rc_prefetchSlots rc) (-1),
          ly_remoteStats = vec_fill (rc_rankSize rc * 2) 0,
          ly_expertTargets = vec_fill (rc_rankSize rc * rc_expertsPerRank rc * targetWords) 0,
          ly_base = (\<lambda>_. 0) \<rparr>)"

text \<open>The remote experts of a destination, by allocation and then by expert.\<close>

definition ref_remote :: "ref_ctx \<Rightarrow> int arr \<Rightarrow> int \<Rightarrow> int list" where
  "ref_remote rc alc dst =
    std_sort (\<lambda>lhs rhs. let lhsAlloc = alc (ReIndex dst lhs (rc_expertNum rc)); rhsAlloc = alc (ReIndex dst rhs (rc_expertNum rc))
                       in if lhsAlloc \<noteq> rhsAlloc then lhsAlloc > rhsAlloc else lhs < rhs)
      (filter (\<lambda>expert. HomeRank expert (rc_expertsPerRank rc) \<noteq> dst \<and> alc (ReIndex dst expert (rc_expertNum rc)) > 0)
        [0..rc_expertNum rc - 1])"

definition ref_place_remote :: "ref_ctx \<Rightarrow> int \<Rightarrow> int \<times> int \<Rightarrow> ref_layout \<Rightarrow> ref_layout" where
  "ref_place_remote rc dst entry ly =
    (let (slot, expert) = entry; home = HomeRank expert (rc_expertsPerRank rc);
         localExpert = expert - home * rc_expertsPerRank rc; targetWords = (rc_rankSize rc + 63) div 64;
         i = (home * rc_expertsPerRank rc + localExpert) * targetWords + dst div 64
     in ly\<lparr> ly_expertsToCopy := vec_set (ly_expertsToCopy ly) (dst * rc_prefetchSlots rc + slot) expert,
            ly_remoteStats := vec_set (ly_remoteStats ly) (home * 2 + 1) (cell (ly_remoteStats ly) (home * 2 + 1) + 1),
            ly_expertTargets := vec_set (ly_expertTargets ly) i
              (cell (ly_expertTargets ly) i OR push_bit (nat (dst mod 64)) 1) \<rparr>)"

fun ref_layout_rows :: "ref_ctx \<Rightarrow> int arr \<Rightarrow> int list \<Rightarrow> ref_layout \<Rightarrow> bool \<times> ref_layout" where
  "ref_layout_rows rc alc [] ly = (True, ly)"
| "ref_layout_rows rc alc (dst # dsts) ly =
    (let remote = ref_remote rc alc dst in
     if int (length remote) > rc_prefetchSlots rc then (False, ly)
     else ref_layout_rows rc alc dsts
       (fold (ref_place_remote rc dst) (zip [0..int (length remote) - 1] remote)
         (ly\<lparr> ly_remoteStats := vec_set (ly_remoteStats ly) (dst * 2) (int (length remote)) \<rparr>)))"

fun ref_layout_groups :: "ref_ctx \<Rightarrow> plan_config \<Rightarrow> int arr \<Rightarrow> int \<Rightarrow> int list \<Rightarrow> int arr \<Rightarrow> int list \<Rightarrow> int \<Rightarrow> ref_layout \<Rightarrow>
    bool \<times> ref_layout" where
  "ref_layout_groups rc cfg alc dst remote slotOfExpert [] previousEnd ly = (True, ly)"
| "ref_layout_groups rc cfg alc dst remote slotOfExpert (grp # grps) previousEnd ly =
    (let groupCount = rc_expertNum rc + rc_prefetchSlots rc;
         slot = grp - rc_expertNum rc;
         (cnt, base) =
           (if grp < rc_expertNum rc
            then if slotOfExpert grp < 0
                 then (alc (ReIndex dst grp (rc_expertNum rc)), (ly_base ly)(ReIndex dst grp (rc_expertNum rc) := previousEnd))
                 else (0, ly_base ly)
            else if slot < int (length remote)
                 then let expert = remote ! nat slot
                   in (alc (ReIndex dst expert (rc_expertNum rc)), (ly_base ly)(ReIndex dst expert (rc_expertNum rc) := previousEnd))
                 else (0, ly_base ly));
         (alignOk, padded) = (if cnt = 0 then (True, 0) else AlignUp cnt (tokenPadding cfg))
     in if \<not> alignOk \<or> padded > nvS cfg - previousEnd then (False, ly\<lparr> ly_base := base \<rparr>)
        else ref_layout_groups rc cfg alc dst remote slotOfExpert grps (previousEnd + padded)
          (ly\<lparr> ly_base := base, ly_cuSeqlens := vec_set (ly_cuSeqlens ly) (dst * groupCount + grp) (previousEnd + padded) \<rparr>))"

definition slot_of_expert :: "int list \<Rightarrow> int arr" where
  "slot_of_expert remote = fold (\<lambda>(slot, expert) f. f(expert := slot)) (zip [0..int (length remote) - 1] remote) (\<lambda>_. -1)"

fun ref_layout_bases :: "ref_ctx \<Rightarrow> plan_config \<Rightarrow> int arr \<Rightarrow> int list \<Rightarrow> ref_layout \<Rightarrow> bool \<times> ref_layout" where
  "ref_layout_bases rc cfg alc [] ly = (True, ly)"
| "ref_layout_bases rc cfg alc (dst # dsts) ly =
    (let remote = ref_remote rc alc dst;
         (ok, ly1) = ref_layout_groups rc cfg alc dst remote (slot_of_expert remote)
                       [0..rc_expertNum rc + rc_prefetchSlots rc - 1] 0 ly
     in if ok then ref_layout_bases rc cfg alc dsts ly1 else (False, ly1))"

definition ref_BuildLayouts :: "ref_ctx \<Rightarrow> plan_config \<Rightarrow> int arr \<Rightarrow> plan_status \<times> ref_layout" where
  "ref_BuildLayouts rc cfg alc =
    (let (ok, ly) = ref_layout_rows rc alc [0..rc_rankSize rc - 1] (ref_layout_init rc)
     in if \<not> ok then (PLAN_PARTIAL_PREFETCH_SLOT_EXHAUSTED, ly)
        else let (ok2, ly2) = ref_layout_bases rc cfg alc [0..rc_rankSize rc - 1] ly
          in (if ok2 then PLAN_OK else PLAN_ERROR_LAYOUT_EXCEEDS_NVS, ly2))"

section \<open>Destinations and status\<close>

definition segments_of :: "ref_ctx \<Rightarrow> token_segment_move list \<Rightarrow> int \<Rightarrow> int \<Rightarrow> token_segment_move list" where
  "segments_of rc segs src expert =
    std_sort (\<lambda>lhs rhs. srcExpertBegin lhs < srcExpertBegin rhs)
      (filter (\<lambda>m. ReIndex (srcRank m) (expertId m) (rc_expertNum rc) = ReIndex src expert (rc_expertNum rc)) segs)"

text \<open>The routes of one token; the status is an error when a route is in no segment or its
  destination does not fit.\<close>

fun ref_token :: "ref_ctx \<Rightarrow> ref_input \<Rightarrow> token_segment_move list \<Rightarrow> int arr \<Rightarrow> int \<Rightarrow> int \<Rightarrow> int list \<Rightarrow>
    int arr \<Rightarrow> int set \<Rightarrow> int vec \<Rightarrow> plan_status \<times> int arr \<times> int vec" where
  "ref_token rc inp segs base src token [] ordinal seenRanks dst = (PLAN_OK, ordinal, dst)"
| "ref_token rc inp segs base src token (k # ks) ordinal seenRanks dst =
    (let routeIndex = src * rc_cap rc + (token * ri_topK inp + k);
         expert = cell (ri_topkExperts inp) routeIndex;
         currentOrdinal = ordinal expert;
         ordinal1 = ordinal(expert := currentOrdinal + 1)
     in case List.find (\<lambda>m. currentOrdinal \<ge> srcExpertBegin m \<and> currentOrdinal < srcExpertBegin m + tokenCount m)
               (segments_of rc segs src expert) of
          None \<Rightarrow> (PLAN_ERROR_INTERNAL_INVARIANT, ordinal1, dst)
        | Some matched \<Rightarrow>
            let localOffset = base (ReIndex (dstRank matched) expert (rc_expertNum rc)) + dstExpertBegin matched +
                              (currentOrdinal - srcExpertBegin matched);
                raw = dstRank matched * nvS (ri_config inp) + localOffset
            in if localOffset < 0 \<or> localOffset \<ge> nvS (ri_config inp) \<or> raw < 0 \<or> raw > INT32_MAX
               then (PLAN_ERROR_INTERNAL_INVARIANT, ordinal1, dst)
               else ref_token rc inp segs base src token ks ordinal1 (insert (dstRank matched) seenRanks)
                      (vec_set dst routeIndex (if dstRank matched \<in> seenRanks then NOT raw else raw)))"

fun ref_tokens :: "ref_ctx \<Rightarrow> ref_input \<Rightarrow> token_segment_move list \<Rightarrow> int arr \<Rightarrow> int \<Rightarrow> int list \<Rightarrow>
    int arr \<Rightarrow> int vec \<Rightarrow> plan_status \<times> int vec" where
  "ref_tokens rc inp segs base src [] ordinal dst = (PLAN_OK, dst)"
| "ref_tokens rc inp segs base src (token # tokens) ordinal dst =
    (let (st, ordinal1, dst1) = ref_token rc inp segs base src token [0..ri_topK inp - 1] ordinal {} dst
     in if st \<noteq> PLAN_OK then (st, dst1) else ref_tokens rc inp segs base src tokens ordinal1 dst1)"

fun ref_sources :: "ref_ctx \<Rightarrow> ref_input \<Rightarrow> token_segment_move list \<Rightarrow> int arr \<Rightarrow> int list \<Rightarrow> int vec \<Rightarrow> plan_status \<times> int vec" where
  "ref_sources rc inp segs base [] dst = (PLAN_OK, dst)"
| "ref_sources rc inp segs base (src # srcs) dst =
    (let (st, dst1) = ref_tokens rc inp segs base src [0..ri_s inp - 1] (\<lambda>_. 0) dst
     in if st \<noteq> PLAN_OK then (st, dst1) else ref_sources rc inp segs base srcs dst1)"

definition ref_BuildDst :: "ref_ctx \<Rightarrow> ref_input \<Rightarrow> token_segment_move list \<Rightarrow> int arr \<Rightarrow> plan_status \<times> int vec" where
  "ref_BuildDst rc inp segs base =
    ref_sources rc inp segs base [0..rc_rankSize rc - 1] (vec_fill (rc_rankSize rc * rc_cap rc) 0)"

definition ref_FillStatus :: "ref_ctx \<Rightarrow> plan_status \<Rightarrow> int \<Rightarrow> int \<Rightarrow> ref_output \<Rightarrow> ref_output" where
  "ref_FillStatus rc status intraStage interStage out =
    (let ranks = [0..rc_rankSize rc - 1];
         deficit = sum_list (map (\<lambda>rank. let delta = cell (ro_rankLoad out) rank - rc_cap rc in if delta < 0 then - delta else 0) ranks);
         maxRemoteExperts = (if vsize (ro_remoteStats out) = 0 then 0
                             else fold (\<lambda>rank m. max m (cell (ro_remoteStats out) (rank * 2))) ranks 0);
         groupCount = rc_expertNum rc + rc_prefetchSlots rc;
         words = (\<lambda>rank. [status_code status, intraStage, interStage, deficit, maxRemoteExperts,
                   (if vsize (ro_cuSeqlens out) = 0 then 0 else cell (ro_cuSeqlens out) ((rank + 1) * groupCount - 1)),
                   int (length (ro_expertMoves out)),
                   int (length (filter (\<lambda>m. srcRank m = rank) (ro_segments out)))])
     in out\<lparr> ro_finalStatus := status,
             ro_statusByRank := fold (\<lambda>rank v. fold (\<lambda>(i, x) v. vec_set v (rank * kPlanStatusWords + i) x)
                                                 (zip [0..kPlanStatusWords - 1] (words rank)) v)
                                  ranks (vec_fill (rc_rankSize rc * kPlanStatusWords) 0) \<rparr>)"

section \<open>The reference plan\<close>

definition empty_output :: ref_output where
  "empty_output = \<lparr> ro_finalStatus = PLAN_OK, ro_dst = vec_fill 0 0, ro_cuSeqlens = vec_fill 0 0,
     ro_expertsToCopy = vec_fill 0 0, ro_expertTargets = vec_fill 0 0, ro_remoteStats = vec_fill 0 0,
     ro_statusByRank = vec_fill 0 0, ro_rankLoad = vec_fill 0 0, ro_alloc = vec_fill 0 0, ro_segments = [], ro_expertMoves = [] \<rparr>"

definition ref_init :: "ref_ctx \<Rightarrow> ref_input \<Rightarrow> ref_state" where
  "ref_init rc inp =
    (let tpe = ri_tokensPerExpert inp;
         st0 = \<lparr> rs_affinityOrder = (\<lambda>_. []),
                 rs_remainingTpe = (\<lambda>i. if 0 \<le> i \<and> i < vsize tpe then cell tpe i else 0),
                 rs_srcExpertCursor = (\<lambda>_. 0), rs_dstExpertCursor = (\<lambda>_. 0), rs_routedPairTokens = (\<lambda>_. 0),
                 rs_remoteExpertSets = (\<lambda>_. {}), rs_sawSlotBlock = False, rs_sawSupplyBlock = False,
                 rs_sawRouteOrPairBlock = False, rs_rankLoad = (\<lambda>_. 0), rs_alloc = (\<lambda>_. 0),
                 rs_segments = [], rs_expertMoves = [] \<rparr>
     in fold (\<lambda>expert st.
            let cnt = sum_list (map (\<lambda>src. cell tpe (ReIndex src expert (rc_expertNum rc))) [0..rc_rankSize rc - 1]);
                home = HomeRank expert (rc_expertsPerRank rc)
            in st\<lparr> rs_alloc := (rs_alloc st)(ReIndex home expert (rc_expertNum rc) := cnt),
                   rs_rankLoad := (rs_rankLoad st)(home := rs_rankLoad st home + cnt) \<rparr>)
          [0..rc_expertNum rc - 1] st0)"

definition ref_balance :: "ref_ctx \<Rightarrow> ref_input \<Rightarrow> (ref_state \<times> int \<times> int) option" where
  "ref_balance rc inp =
    (case RunIntraServerStage rc (BuildAffinityOrders rc (ref_init rc inp)) 0 of
       None \<Rightarrow> None
     | Some (st1, roundCounter, intraStage) \<Rightarrow>
         (case RunInterServerStage rc st1 roundCounter of
            None \<Rightarrow> None
          | Some (st2, _, interStage) \<Rightarrow> Some (AppendRemainderSegments rc st2, intraStage, interStage)))"

definition ref_balance_status :: "ref_ctx \<Rightarrow> ref_state \<Rightarrow> bool \<times> plan_status" where
  "ref_balance_status rc st =
    (let allBalanced = list_all (\<lambda>rank. rs_rankLoad st rank = rc_cap rc) [0..rc_rankSize rc - 1]
     in (allBalanced, if allBalanced then PLAN_OK
         else if rs_sawSlotBlock st then PLAN_PARTIAL_PREFETCH_SLOT_EXHAUSTED
         else if rs_sawSupplyBlock st then PLAN_PARTIAL_TOKEN_SUPPLY
         else PLAN_PARTIAL_NO_FEASIBLE_PAIR))"

text \<open>\<open>None\<close> is a plan whose balancing loops do not end.\<close>

definition BuildReferencePlan :: "ref_input \<Rightarrow> ref_output option" where
  "BuildReferencePlan inp =
    (let validation = ValidateInput inp in
     if validation \<noteq> PLAN_OK then Some (empty_output\<lparr> ro_finalStatus := validation \<rparr>)
     else let rc = ref_ctx_of inp in
       case ref_balance rc inp of
         None \<Rightarrow> None
       | Some (st, intraStage, interStage) \<Rightarrow>
           let (allBalanced, balanceStatus) = ref_balance_status rc st;
               (layoutStatus, ly) = ref_BuildLayouts rc (ri_config inp) (rs_alloc st);
               (dstStatus, dst) = (if layoutStatus = PLAN_OK then ref_BuildDst rc inp (rs_segments st) (ly_base ly)
                                   else (layoutStatus, vec_fill 0 0));
               status = (if allBalanced then dstStatus else balanceStatus)
           in Some (ref_FillStatus rc status intraStage interStage
                (empty_output\<lparr> ro_dst := dst, ro_cuSeqlens := ly_cuSeqlens ly, ro_expertsToCopy := ly_expertsToCopy ly,
                   ro_expertTargets := ly_expertTargets ly, ro_remoteStats := ly_remoteStats ly,
                   ro_rankLoad := \<lparr> vsize = rc_rankSize rc, cell = rs_rankLoad st \<rparr>,
                   ro_alloc := \<lparr> vsize = rc_rankSize rc * rc_expertNum rc, cell = rs_alloc st \<rparr>,
                   ro_segments := rs_segments st, ro_expertMoves := rs_expertMoves st \<rparr>)))"

end
