(* ===== verification/PlanDownstream.thy ===== *)
theory PlanDownstream
  imports PlanReference
begin

text \<open>
  The helpers that consume a plan (\<open>ep_plan_downstream.cpp\<close>): ids of routes, decoded destinations, route descriptors,
  expert targets and the duplicate metadata of a receiver.  A null pointer is \<open>None\<close>; every function returns
  its status together with what it leaves in its output arguments.
\<close>

unbundle bit_operations_syntax

section \<open>Token ids\<close>

definition TILEXR_MOONEP_INVALID_GLOBAL_TOKEN_ID :: nat where
  "TILEXR_MOONEP_INVALID_GLOBAL_TOKEN_ID = UINT64_MAX"

text \<open>The stored value is \<open>None\<close> for a null pointer.\<close>

definition EncodeMoonEPGlobalTokenId :: "int \<Rightarrow> int \<Rightarrow> int \<Rightarrow> int \<Rightarrow> int \<Rightarrow> int \<Rightarrow> nat option \<Rightarrow> plan_status \<times> nat option" where
  "EncodeMoonEPGlobalTokenId src tokenId topKId rankSize s topK globalTokenId =
    (if globalTokenId = None \<or> rankSize \<le> 0 \<or> s \<le> 0 \<or> topK \<le> 0 \<or> src < 0 \<or> src \<ge> rankSize \<or>
        tokenId < 0 \<or> tokenId \<ge> s \<or> topKId < 0 \<or> topKId \<ge> topK
     then (PLAN_ERROR_CONFIG_MISMATCH, globalTokenId)
     else let ur = nat src; us = nat s; uk = nat topK; ut = nat tokenId
       in if ur > UINT64_MAX div us \<or> u64 (ur * us) > UINT64_MAX - ut then (PLAN_ERROR_CONFIG_MISMATCH, globalTokenId)
          else let tokenBase = u64 (u64 (ur * us) + ut)
            in if tokenBase > UINT64_MAX div uk \<or> u64 (tokenBase * uk) > UINT64_MAX - nat topKId
               then (PLAN_ERROR_CONFIG_MISMATCH, globalTokenId)
               else let stored = u64 (u64 (tokenBase * uk) + nat topKId)
                 in if stored = TILEXR_MOONEP_INVALID_GLOBAL_TOKEN_ID then (PLAN_ERROR_CONFIG_MISMATCH, Some stored)
                    else (PLAN_OK, Some stored))"

definition DecodeMoonEPGlobalTokenId :: "nat \<Rightarrow> int \<Rightarrow> int \<Rightarrow> int \<Rightarrow> int option \<times> int option \<times> int option \<Rightarrow>
    plan_status \<times> int option \<times> int option \<times> int option" where
  "DecodeMoonEPGlobalTokenId globalTokenId rankSize s topK outs =
    (if (case outs of (src, tokenId, topKId) \<Rightarrow> src = None \<or> tokenId = None \<or> topKId = None) \<or> rankSize \<le> 0 \<or> s \<le> 0 \<or> topK \<le> 0 \<or>
        globalTokenId = TILEXR_MOONEP_INVALID_GLOBAL_TOKEN_ID
     then (PLAN_ERROR_CONFIG_MISMATCH, outs)
     else let uk = nat topK; us = nat s; tokenBase = globalTokenId div uk; rank = tokenBase div us; token = tokenBase mod us;
              topKIndex = globalTokenId mod uk
       in if rank \<ge> nat rankSize \<or> rank > nat INT32_MAX \<or> token > nat INT32_MAX \<or> topKIndex > nat INT32_MAX
          then (PLAN_ERROR_CONFIG_MISMATCH, outs)
          else (PLAN_OK, Some (int rank), Some (int token), Some (int topKIndex)))"

section \<open>Routes\<close>

record MoonEPRouteTarget =
  rt_rawDst :: int
  rt_dstRank :: int
  rt_recvSlot :: int
  rt_sendHidden :: int
  rt_writeRouteWeight :: int

record MoonEPRouteDescriptor =
  rd_srcRank :: int
  rd_tokenId :: int
  rd_topKId :: int
  rd_globalTokenId :: nat
  rd_rawDst :: int
  rd_dstRank :: int
  rd_recvSlot :: int
  rd_sendHidden :: int
  rd_writeRouteWeight :: int

definition DecodeMoonEPDst :: "int \<Rightarrow> int \<Rightarrow> int \<Rightarrow> MoonEPRouteTarget option \<Rightarrow> plan_status \<times> MoonEPRouteTarget option" where
  "DecodeMoonEPDst encoded nvs rankSize target =
    (if target = None \<or> nvs \<le> 0 \<or> nvs > INT32_MAX \<or> rankSize \<le> 0 \<or> rankSize > 128 \<or> rankSize * nvs > INT32_MAX + 1
     then (PLAN_ERROR_CONFIG_MISMATCH, target)
     else let rawDst = (if encoded \<ge> 0 then encoded else NOT encoded); dst = rawDst div nvs; recvSlot = rawDst mod nvs
       in if dst < 0 \<or> dst \<ge> rankSize \<or> recvSlot < 0 \<or> recvSlot \<ge> nvs then (PLAN_ERROR_CONFIG_MISMATCH, target)
          else (PLAN_OK, Some \<lparr> rt_rawDst = rawDst, rt_dstRank = dst, rt_recvSlot = recvSlot,
                  rt_sendHidden = (if encoded \<ge> 0 then 1 else 0), rt_writeRouteWeight = 1 \<rparr>))"

definition BuildMoonEPRouteDescriptor :: "int \<Rightarrow> int \<Rightarrow> int \<Rightarrow> int \<Rightarrow> int \<Rightarrow> int \<Rightarrow> int \<Rightarrow> int \<Rightarrow> MoonEPRouteDescriptor option \<Rightarrow>
    plan_status \<times> MoonEPRouteDescriptor option" where
  "BuildMoonEPRouteDescriptor src tokenId topKId encodedDst rankSize s topK nvs descriptor =
    (if descriptor = None then (PLAN_ERROR_CONFIG_MISMATCH, descriptor)
     else case EncodeMoonEPGlobalTokenId src tokenId topKId rankSize s topK (Some 0) of (status, globalTokenId) \<Rightarrow>
       if status \<noteq> PLAN_OK then (status, descriptor)
       else case DecodeMoonEPDst encodedDst nvs rankSize
                   (Some \<lparr> rt_rawDst = 0, rt_dstRank = 0, rt_recvSlot = 0, rt_sendHidden = 0, rt_writeRouteWeight = 0 \<rparr>) of
         (status, target) \<Rightarrow>
           if status \<noteq> PLAN_OK then (status, descriptor)
           else let t = the target
             in (PLAN_OK, Some \<lparr> rd_srcRank = src, rd_tokenId = tokenId, rd_topKId = topKId, rd_globalTokenId = the globalTokenId,
                  rd_rawDst = rt_rawDst t, rd_dstRank = rt_dstRank t, rd_recvSlot = rt_recvSlot t,
                  rd_sendHidden = rt_sendHidden t, rd_writeRouteWeight = rt_writeRouteWeight t \<rparr>))"

section \<open>Expert targets\<close>

fun target_slots :: "int arr \<Rightarrow> int \<Rightarrow> int \<Rightarrow> int \<Rightarrow> int \<Rightarrow> int \<Rightarrow> (int \<times> int) list \<Rightarrow> nat arr \<Rightarrow> plan_status \<times> nat arr" where
  "target_slots remoteExperts expertNum expertsPerRank words slots ownerRank [] targets = (PLAN_OK, targets)"
| "target_slots remoteExperts expertNum expertsPerRank words slots ownerRank ((dst, slot) # rest) targets =
    (let expert = remoteExperts (dst * slots + slot)
     in if expert < 0 then target_slots remoteExperts expertNum expertsPerRank words slots ownerRank rest targets
        else if expert \<ge> expertNum then (PLAN_ERROR_INTERNAL_INVARIANT, targets)
        else if expert div expertsPerRank = ownerRank
        then let i = (expert - ownerRank * expertsPerRank) * words + dst div 64
          in target_slots remoteExperts expertNum expertsPerRank words slots ownerRank rest
               (targets(i := targets i OR push_bit (nat (dst mod 64)) 1))
        else target_slots remoteExperts expertNum expertsPerRank words slots ownerRank rest targets)"

definition BuildMoonEPExpertTargets :: "int arr option \<Rightarrow> int \<Rightarrow> int \<Rightarrow> int \<Rightarrow> int \<Rightarrow> nat arr option \<Rightarrow> nat \<Rightarrow> plan_status \<times> nat arr option" where
  "BuildMoonEPExpertTargets remoteExperts rankSize expertNum slots ownerRank expertTargets expertTargetsCount =
    (if remoteExperts = None \<or> expertTargets = None \<or> rankSize \<le> 0 \<or> rankSize > 128 \<or> expertNum \<le> 0 \<or> expertNum mod rankSize \<noteq> 0 \<or>
        slots < 0 \<or> ownerRank < 0 \<or> ownerRank \<ge> rankSize
     then (PLAN_ERROR_CONFIG_MISMATCH, expertTargets)
     else let expertsPerRank = expertNum div rankSize; words = (rankSize + 63) div 64
       in if expertTargetsCount \<noteq> nat (expertsPerRank * words) then (PLAN_ERROR_CONFIG_MISMATCH, expertTargets)
          else case target_slots (deref remoteExperts) expertNum expertsPerRank words slots ownerRank
                      (List.product [0..rankSize - 1] [0..slots - 1])
                      (clear (int expertTargetsCount) 0 (the expertTargets)) of
            (status, targets) \<Rightarrow> (status, Some targets))"

section \<open>Duplicates\<close>

record MoonEPReceivedRoute =
  rr_srcRank :: int
  rr_tokenId :: int
  rr_topKId :: int
  rr_recvSlot :: int
  rr_isPrimary :: int

definition RecordMatches :: "MoonEPReceivedRoute \<Rightarrow> int \<Rightarrow> int \<Rightarrow> bool" where
  "RecordMatches rec src tokenId = (rr_srcRank rec = src \<and> rr_tokenId rec = tokenId)"

fun check_records :: "MoonEPReceivedRoute arr \<Rightarrow> int \<Rightarrow> int \<Rightarrow> int \<Rightarrow> int \<Rightarrow> int list \<Rightarrow> plan_status" where
  "check_records records rankSize s topK nvs [] = PLAN_OK"
| "check_records records rankSize s topK nvs (i # is) =
    (let rec = records i
     in if rr_srcRank rec < 0 \<or> rr_srcRank rec \<ge> rankSize \<or> rr_tokenId rec < 0 \<or> rr_tokenId rec \<ge> s \<or> rr_topKId rec < 0 \<or>
           rr_topKId rec \<ge> topK \<or> rr_recvSlot rec < 0 \<or> rr_recvSlot rec \<ge> nvs \<or> (rr_isPrimary rec \<noteq> 0 \<and> rr_isPrimary rec \<noteq> 1)
        then PLAN_ERROR_CONFIG_MISMATCH
        else if list_ex (\<lambda>prior. rr_srcRank (records prior) = rr_srcRank rec \<and> rr_tokenId (records prior) = rr_tokenId rec \<and>
                   rr_topKId (records prior) = rr_topKId rec) [0..i - 1]
        then PLAN_ERROR_INTERNAL_INVARIANT
        else check_records records rankSize s topK nvs is)"

definition count_records :: "MoonEPReceivedRoute arr \<Rightarrow> int \<Rightarrow> int \<Rightarrow> int \<Rightarrow> int \<times> int \<times> int" where
  "count_records records recordCount src tokenId =
    fold (\<lambda>i (routeCount, primaryCount, primarySlot).
        if \<not> RecordMatches (records i) src tokenId then (routeCount, primaryCount, primarySlot)
        else if rr_isPrimary (records i) \<noteq> 0 then (routeCount + 1, primaryCount + 1, rr_recvSlot (records i))
        else (routeCount + 1, primaryCount, primarySlot))
      [0..recordCount - 1] (0, 0, -1)"

definition copy_duplicates :: "MoonEPReceivedRoute arr \<Rightarrow> int \<Rightarrow> int \<Rightarrow> int \<Rightarrow> int \<Rightarrow> int arr \<times> int \<Rightarrow> int arr \<times> int" where
  "copy_duplicates records recordCount topK src tokenId start =
    fold (\<lambda>(topKId, i) (dupLoffs, duplicateCount).
        if RecordMatches (records i) src tokenId \<and> rr_topKId (records i) = topKId \<and> rr_isPrimary (records i) = 0
        then (dupLoffs(duplicateCount := rr_recvSlot (records i)), duplicateCount + 1) else (dupLoffs, duplicateCount))
      (List.product [0..topK - 1] [0..recordCount - 1]) start"

fun dup_tokens :: "MoonEPReceivedRoute arr \<Rightarrow> int \<Rightarrow> int \<Rightarrow> int \<Rightarrow> (int \<times> int) list \<Rightarrow> int arr \<times> int arr \<times> int \<times> int \<Rightarrow>
    plan_status \<times> int arr \<times> int arr \<times> int \<times> int" where
  "dup_tokens records recordCount topK nvs [] st = (PLAN_OK, st)"
| "dup_tokens records recordCount topK nvs ((src, tokenId) # rest) (dupGroups, dupLoffs, groupCount, duplicateCount) =
    (case count_records records recordCount src tokenId of (routeCount, primaryCount, primarySlot) \<Rightarrow>
       if routeCount = 0 then dup_tokens records recordCount topK nvs rest (dupGroups, dupLoffs, groupCount, duplicateCount)
       else if primaryCount \<noteq> 1 then (PLAN_ERROR_INTERNAL_INVARIANT, dupGroups, dupLoffs, groupCount, duplicateCount)
       else if routeCount = 1 then dup_tokens records recordCount topK nvs rest (dupGroups, dupLoffs, groupCount, duplicateCount)
       else let localDuplicateCount = routeCount - 1
         in if groupCount \<ge> nvs \<or> duplicateCount > nvs - localDuplicateCount
            then (PLAN_ERROR_MOVE_RECORD_OVERFLOW, dupGroups, dupLoffs, groupCount, duplicateCount)
            else let groupBase = i32 (groupCount * 3);
                   dupGroups1 = dupGroups(groupBase := primarySlot, i32 (groupBase + 1) := duplicateCount, i32 (groupBase + 2) := localDuplicateCount);
                   (dupLoffs1, duplicateCount1) = copy_duplicates records recordCount topK src tokenId (dupLoffs, duplicateCount)
                 in dup_tokens records recordCount topK nvs rest (dupGroups1, dupLoffs1, groupCount + 1, duplicateCount1))"

definition dup_args_invalid :: "MoonEPReceivedRoute arr option \<Rightarrow> int \<Rightarrow> int \<Rightarrow> int \<Rightarrow> int \<Rightarrow> int \<Rightarrow>
    int arr option \<Rightarrow> int arr option \<Rightarrow> int arr option \<Rightarrow> bool" where
  "dup_args_invalid records recordCount rankSize s topK nvs dupGroups dupLoffs dupCounts =
    (records = None \<and> recordCount \<noteq> 0 \<or> recordCount < 0 \<or> rankSize \<le> 0 \<or> rankSize > 128 \<or> s \<le> 0 \<or> topK \<le> 0 \<or> topK > 32 \<or>
     nvs \<le> 0 \<or> nvs > INT32_MAX \<or> dupGroups = None \<or> dupLoffs = None \<or> dupCounts = None \<or> s > INT64_MAX div topK \<or>
     rankSize > INT64_MAX div (s * topK) \<or> recordCount > rankSize * s * topK)"

definition BuildMoonEPDuplicateMetadata :: "MoonEPReceivedRoute arr option \<Rightarrow> int \<Rightarrow> int \<Rightarrow> int \<Rightarrow> int \<Rightarrow> int \<Rightarrow>
    int arr option \<Rightarrow> int arr option \<Rightarrow> int arr option \<Rightarrow> plan_status \<times> int arr option \<times> int arr option \<times> int arr option" where
  "BuildMoonEPDuplicateMetadata records recordCount rankSize s topK nvs dupGroups dupLoffs dupCounts =
    (if dup_args_invalid records recordCount rankSize s topK nvs dupGroups dupLoffs dupCounts
     then (PLAN_ERROR_CONFIG_MISMATCH, dupGroups, dupLoffs, dupCounts)
     else let groups0 = clear (nvs * 3) (-1) (deref dupGroups); loffs0 = clear nvs (-1) (deref dupLoffs);
              counts0 = (deref dupCounts)(0 := 0, 1 := 0); status = check_records (the records) rankSize s topK nvs [0..recordCount - 1]
       in if status \<noteq> PLAN_OK then (status, Some groups0, Some loffs0, Some counts0)
          else case dup_tokens (the records) recordCount topK nvs (List.product [0..rankSize - 1] [0..s - 1]) (groups0, loffs0, 0, 0) of
            (status, groups, loffs, groupCount, duplicateCount) \<Rightarrow>
              (status, Some groups, Some loffs,
               Some (if status = PLAN_OK then counts0(0 := groupCount, 1 := duplicateCount) else counts0)))"

end
