(* ===== verification/PlanPlacement.thy ===== *)
theory PlanPlacement
  imports PlanLayout
begin

text \<open>
  The physical layout is collision free: on every rank the experts occupy disjoint intervals
  below \<open>nvS\<close>, and the remote slots that the rounds reserved always suffice.
\<close>

section \<open>Remote rows\<close>

definition remotes :: "plan_ctx \<Rightarrow> int arr \<Rightarrow> int \<Rightarrow> int list" where
  "remotes c alc dst = filter (\<lambda>e. homeOf c e \<noteq> dst \<and> 0 < at c alc dst e) [0..c_expertNum c - 1]"

definition remote_order_of :: "plan_ctx \<Rightarrow> int arr \<Rightarrow> int \<Rightarrow> int list" where
  "remote_order_of c alc dst = insertion_sort (BetterRemote alc (c_expertNum c) dst) (remotes c alc dst)"

lemma insert_remote_foldl:
  "int (length row) + int (length (filter (\<lambda>e. homeOf c e \<noteq> dst \<and> 0 < at c (alloc s) dst e) es)) \<le> c_b c \<Longrightarrow>
    insert_remote c s dst es row = (True, foldl (\<lambda>p v. rev (ins_back (BetterRemote (alloc s) (c_expertNum c) dst) v (rev p)))
      row (filter (\<lambda>e. homeOf c e \<noteq> dst \<and> 0 < at c (alloc s) dst e) es))"
proof (induction es arbitrary: row)
  case (Cons e es)
  show ?case
  proof (cases "homeOf c e \<noteq> dst \<and> 0 < at c (alloc s) dst e")
    case True
    then have "shift_in (BetterRemote (alloc s) (c_expertNum c) dst) (row @ [e]) (length row) e =
        rev (ins_back (BetterRemote (alloc s) (c_expertNum c) dst) e (rev row))"
      using shift_in_split [of _ row e "[]" e] by simp
    then show ?thesis using Cons.prems True Cons.IH [of "rev (ins_back (BetterRemote (alloc s) (c_expertNum c) dst) e (rev row))"]
      by (simp add: at_def)
  next
    case False
    then show ?thesis using Cons.prems Cons.IH [of row] by (auto simp: at_def not_less)
  qed
qed simp

lemma insert_remote_row:
  assumes "int (length (remotes c (alloc s) dst)) \<le> c_b c"
  shows "insert_remote c s dst [0..c_expertNum c - 1] [] = (True, remote_order_of c (alloc s) dst)"
  using insert_remote_foldl [of "[]" c dst s "[0..c_expertNum c - 1]"] assms
  by (simp add: remotes_def remote_order_of_def insertion_sort_foldl)

lemma set_remote_order: "set (remote_order_of c alc dst) = {e \<in> experts_of c. homeOf c e \<noteq> dst \<and> 0 < at c alc dst e}"
  by (auto simp: remote_order_of_def remotes_def)

lemma distinct_remote_order: "distinct (remote_order_of c alc dst)"
  by (simp add: remote_order_of_def remotes_def)

lemma length_remote_order: "length (remote_order_of c alc dst) = length (remotes c alc dst)"
  by (simp add: remote_order_of_def)

lemma inv_slots_remotes:
  assumes "inv_slots c s" "dst \<in> ranks_of c"
  shows "int (length (remotes c (alloc s) dst)) = remoteCount s dst" "remoteCount s dst \<le> c_b c"
proof -
  have d: "distinct (remote_row c s dst)" "0 \<le> remoteCount s dst" "remoteCount s dst \<le> c_b c"
    "set (remote_row c s dst) = {e \<in> experts_of c. homeOf c e \<noteq> dst \<and> 0 < at c (alloc s) dst e}"
    using assms unfolding inv_slots_def by blast+
  have "set (remotes c (alloc s) dst) = set (remote_row c s dst)" unfolding d(4) by (auto simp: remotes_def)
  then have "length (remotes c (alloc s) dst) = length (remote_row c s dst)"
    using d(1) by (metis distinct_card distinct_filter distinct_upto remotes_def)
  then show "int (length (remotes c (alloc s) dst)) = remoteCount s dst" using d(2) by (simp add: remote_row_def)
  show "remoteCount s dst \<le> c_b c" by (rule d(3))
qed

section \<open>Rows of flat tables\<close>

lemma row_of_store_same: "int (length xs) = n \<Longrightarrow> row_of (store_row t (d * n) xs) d n = xs"
  by (rule nth_equalityI) (auto simp: row_of_def store_row_def)

lemma row_of_store_other:
  assumes "int (length xs) = n" "d \<noteq> d'"
  shows "row_of (store_row t (d * n) xs) d' n = row_of t d' n"
proof -
  have "\<not> (d * n \<le> d' * n + j \<and> d' * n + j < d * n + n)" if "0 \<le> j" "j < n" for j
    using that assms(2) flat_index_inj [of "d' * n + j - d * n" n j d d'] by auto
  then show ?thesis using assms(1) by (auto simp: row_of_def store_row_def)
qed

lemma length_pad_row: "int (length row) \<le> c_b c \<Longrightarrow> int (length (pad_row c row)) = c_b c"
  by (simp add: pad_row_def)

lemma layout_rows_ok:
  assumes "\<forall>dst\<in>set dsts. int (length (remotes c (alloc s) dst)) \<le> c_b c" "distinct dsts"
  shows "\<exists>s' a' m'. layout_rows c dsts (s, a, m) = (True, s', a', m') \<and>
    s' = s\<lparr> remoteExpertSet := remoteExpertSet s' \<rparr> \<and> a_dst a' = a_dst a \<and> a_cuSeqlens a' = a_cuSeqlens a \<and>
    (\<forall>dst. row_of (remoteExpertSet s') dst (c_b c) =
      (if dst \<in> set dsts then pad_row c (remote_order_of c (alloc s) dst) else row_of (remoteExpertSet s) dst (c_b c)))"
  using assms
proof (induction dsts arbitrary: s a m)
  case (Cons d dsts)
  let ?row = "remote_order_of c (alloc s) d"
  have len: "int (length ?row) \<le> c_b c" using Cons.prems by (simp add: length_remote_order)
  obtain s1 a1 m1 where lr: "layout_remote c d ?row (s, a, m) = (s1, a1, m1)" by (metis prod_cases3)
  have s1: "s1 = s\<lparr> remoteExpertSet := store_row (remoteExpertSet s) (d * c_b c) (pad_row c ?row) \<rparr>"
    "a_dst a1 = a_dst a" "a_cuSeqlens a1 = a_cuSeqlens a"
    using lr by (auto simp: layout_remote_def Let_def)
  have st: "layout_rows c (d # dsts) (s, a, m) = layout_rows c dsts (s1, a1, m1)"
    using insert_remote_row [of c s d] Cons.prems(1) lr by simp
  have al: "alloc s1 = alloc s" by (simp add: s1)
  obtain s' a' m' where ih: "layout_rows c dsts (s1, a1, m1) = (True, s', a', m')"
    "s' = s1\<lparr> remoteExpertSet := remoteExpertSet s' \<rparr>" "a_dst a' = a_dst a1" "a_cuSeqlens a' = a_cuSeqlens a1"
    "\<forall>dst. row_of (remoteExpertSet s') dst (c_b c) =
      (if dst \<in> set dsts then pad_row c (remote_order_of c (alloc s) dst) else row_of (remoteExpertSet s1) dst (c_b c))"
    using Cons.IH [of s1 a1 m1] Cons.prems unfolding al by auto
  have "row_of (remoteExpertSet s1) dst (c_b c) =
      (if dst = d then pad_row c ?row else row_of (remoteExpertSet s) dst (c_b c))" for dst
    using row_of_store_same [OF length_pad_row [OF len]] row_of_store_other [OF length_pad_row [OF len], of d dst]
    by (simp add: s1)
  then show ?case using ih s1 st by (intro exI [of _ s'] exI [of _ a'] exI [of _ m']) auto
qed simp

section \<open>Groups\<close>

lemma group_expert_cases:
  assumes "int (length row) \<le> c_b c" "set row \<subseteq> experts_of c" "g \<in> {0..<c_expertNum c + c_b c}"
    "e \<ge> 0"
  shows "(group_expert c (pad_row c row) g = e) =
    ((g < c_expertNum c \<and> g = e \<and> e \<notin> set row) \<or>
     (g \<ge> c_expertNum c \<and> nat (g - c_expertNum c) < length row \<and> row ! nat (g - c_expertNum c) = e))"
proof (cases "g < c_expertNum c")
  case True
  have "list_ex (\<lambda>e. e = g) (pad_row c row) = (g \<in> set row)"
    using assms(3) by (auto simp: pad_row_def list_ex_iff)
  then show ?thesis using True assms(4) by (auto simp: group_expert_def)
next
  case False
  let ?i = "nat (g - c_expertNum c)"
  have i: "?i < nat (c_b c)" "g - c_expertNum c < c_b c" using False assms(3) by auto
  have "pad_row c row ! ?i = (if ?i < length row then row ! ?i else -1)"
    using i by (simp add: pad_row_def nth_append)
  moreover have "0 \<le> row ! ?i" if "?i < length row"
  proof -
    have "row ! ?i \<in> experts_of c" using assms(2) nth_mem [OF that] by blast
    then show ?thesis by simp
  qed
  ultimately show ?thesis using False i assms(4) by (auto simp: group_expert_def Let_def)
qed

lemma group_expert_inj:
  assumes "int (length row) \<le> c_b c" "set row \<subseteq> experts_of c" "distinct row"
    "g \<in> {0..<c_expertNum c + c_b c}" "g' \<in> {0..<c_expertNum c + c_b c}"
    "group_expert c (pad_row c row) g = group_expert c (pad_row c row) g'"
    "0 \<le> group_expert c (pad_row c row) g"
  shows "g = g'"
proof -
  define e where "e = group_expert c (pad_row c row) g"
  let ?A = "\<lambda>g. g < c_expertNum c \<and> g = e \<and> e \<notin> set row"
  let ?B = "\<lambda>g. g \<ge> c_expertNum c \<and> nat (g - c_expertNum c) < length row \<and> row ! nat (g - c_expertNum c) = e"
  have "?A g \<or> ?B g" "?A g' \<or> ?B g'"
    unfolding e_def
    using iffD1 [OF group_expert_cases [OF assms(1,2,4,7)] refl]
      iffD1 [OF group_expert_cases [OF assms(1,2,5,7)] assms(6) [symmetric]] by blast+
  moreover have "e \<in> set row" if "?B x" for x using that nth_mem by blast
  ultimately consider "?A g" "?A g'" | "?B g" "?B g'" by blast
  then show ?thesis
  proof cases
    case 2
    then have "nat (g - c_expertNum c) = nat (g' - c_expertNum c)"
      using assms(3) nth_eq_iff_index_eq by metis
    then show ?thesis using 2 by linarith
  qed auto
qed

lemma group_expert_surj:
  assumes "int (length row) \<le> c_b c" "set row \<subseteq> experts_of c" "e \<in> experts_of c" "0 < c_b c"
  shows "\<exists>g\<in>{0..<c_expertNum c + c_b c}. group_expert c (pad_row c row) g = e"
proof (cases "e \<in> set row")
  case True
  then obtain i where i: "i < length row" "row ! i = e" by (auto simp: in_set_conv_nth)
  then have g: "c_expertNum c + int i \<in> {0..<c_expertNum c + c_b c}" using assms by auto
  show ?thesis using group_expert_cases [OF assms(1,2) g] i assms(3) by (intro bexI [OF _ g]) simp
next
  case False
  have g: "e \<in> {0..<c_expertNum c + c_b c}" using assms by auto
  show ?thesis using group_expert_cases [OF assms(1,2) g] False assms(3) by (intro bexI [OF _ g]) simp
qed

lemma group_expert_range:
  assumes "int (length row) \<le> c_b c" "set row \<subseteq> experts_of c" "g \<in> {0..<c_expertNum c + c_b c}"
    "0 \<le> group_expert c (pad_row c row) g"
  shows "group_expert c (pad_row c row) g \<in> experts_of c"
  using group_expert_cases [OF assms(1-4)] assms(2,3) nth_mem by fastforce

lemma AlignCount_bounds:
  assumes "AlignCount v n = (True, p)" "0 < v" "0 < n"
  shows "v \<le> p" "p < v + n" "n dvd p" "p \<le> INT32_MAX"
proof -
  have p: "p = ((v + n - 1) div n) * n" "p \<le> INT32_MAX"
    using assms(1) by (auto simp: AlignCount_def Let_def split: if_splits)
  have "(v + n - 1) div n * n + (v + n - 1) mod n = v + n - 1" by simp
  moreover have "0 \<le> (v + n - 1) mod n" "(v + n - 1) mod n < n" using assms(3) by simp_all
  ultimately show "v \<le> p" "p < v + n" using p(1) by linarith+
  show "n dvd p" "p \<le> INT32_MAX" using p by simp_all
qed

text \<open>Intervals of length \<open>len x\<close> at \<open>bas x\<close> follow each other between \<open>lo\<close> and \<open>hi\<close>.\<close>

fun laid :: "(int \<Rightarrow> int) \<Rightarrow> (int \<Rightarrow> int) \<Rightarrow> int \<Rightarrow> int list \<Rightarrow> int \<Rightarrow> bool" where
  "laid bas len lo [] hi = (lo \<le> hi)"
| "laid bas len lo (x # xs) hi = (lo \<le> bas x \<and> 0 \<le> len x \<and> laid bas len (bas x + len x) xs hi)"

lemma laid_mono: "laid bas len lo' xs hi \<Longrightarrow> lo \<le> lo' \<Longrightarrow> laid bas len lo xs hi"
  by (cases xs) auto

lemma laid_le: "laid bas len lo xs hi \<Longrightarrow> lo \<le> hi"
proof (induction xs arbitrary: lo)
  case (Cons x xs)
  then show ?case by fastforce
qed simp

lemma laid_mem: "laid bas len lo xs hi \<Longrightarrow> x \<in> set xs \<Longrightarrow> lo \<le> bas x \<and> 0 \<le> len x \<and> bas x + len x \<le> hi"
proof (induction xs arbitrary: lo)
  case (Cons y ys)
  then show ?case using laid_le [of bas len "bas y + len y" ys hi] by (cases "x = y") fastforce+
qed simp

lemma laid_disjoint:
  "laid bas len lo xs hi \<Longrightarrow> x \<in> set xs \<Longrightarrow> y \<in> set xs \<Longrightarrow> x \<noteq> y \<Longrightarrow>
    bas x + len x \<le> bas y \<or> bas y + len y \<le> bas x"
proof (induction xs arbitrary: lo)
  case (Cons z zs)
  then show ?case using laid_mem [of bas len "bas z + len z" zs hi] by (cases "x = z \<or> y = z") fastforce+
qed simp

lemma laid_cong: "\<forall>x\<in>set xs. bas x = bas' x \<and> len x = len' x \<Longrightarrow> laid bas len lo xs hi = laid bas' len' lo xs hi"
  by (induction xs arbitrary: lo) auto

text \<open>The groups of a destination follow each other, each with its expert at its base.\<close>

definition group_experts :: "plan_ctx \<Rightarrow> int list \<Rightarrow> int list \<Rightarrow> int list" where
  "group_experts c row gs = filter (\<lambda>x. 0 \<le> x) (map (group_expert c row) gs)"

lemma layout_groups_bases:
  assumes "layout_groups c cfg alc dst row gs prev base cu = (True, e, base', cu')" "0 < tokenPadding cfg"
    "distinct (group_experts c row gs)"
    "\<forall>x\<in>set (group_experts c row gs). x \<in> experts_of c \<and> 0 \<le> at c alc dst x" "prev \<le> nvS cfg"
  shows "e \<le> nvS cfg \<and> laid (at c base' dst) (at c alc dst) prev (group_experts c row gs) e \<and>
    (\<forall>r x. x \<in> experts_of c \<and> (r \<noteq> dst \<or> x \<notin> set (group_experts c row gs)) \<longrightarrow> at c base' r x = at c base r x)"
  using assms
proof (induction gs arbitrary: prev base cu)
  case (Cons g gs)
  define x where "x = group_expert c row g"
  define n where "n = (if x \<ge> 0 then alc (ReIndex dst x (c_expertNum c)) else 0)"
  define base1 where "base1 = (if x \<ge> 0 then base(ReIndex dst x (c_expertNum c) := prev) else base)"
  obtain ok p where al: "(if n = 0 then (True, 0) else AlignCount n (tokenPadding cfg)) = (ok, p)" by fastforce
  have body: "layout_groups c cfg alc dst row (g # gs) prev base cu =
      (if \<not> ok \<or> p > nvS cfg - prev then (False, prev, base1, cu)
       else layout_groups c cfg alc dst row gs (prev + p) base1 (if dst = c_rank c then cu(g := prev + p) else cu))"
    by (simp only: layout_groups.simps x_def [symmetric] n_def [symmetric] base1_def [symmetric] Let_def al prod.case)
  have okp: ok "p \<le> nvS cfg - prev" using Cons.prems(1) body by (auto split: if_splits)
  then have rest: "layout_groups c cfg alc dst row gs (prev + p) base1 (if dst = c_rank c then cu(g := prev + p) else cu)
      = (True, e, base', cu')" using Cons.prems(1) body by simp
  have ge: "group_experts c row (g # gs) = (if 0 \<le> x then x # group_experts c row gs else group_experts c row gs)"
    by (simp add: group_experts_def x_def)
  have ih: "e \<le> nvS cfg" "laid (at c base' dst) (at c alc dst) (prev + p) (group_experts c row gs) e"
    "\<And>r y. y \<in> experts_of c \<Longrightarrow> r \<noteq> dst \<or> y \<notin> set (group_experts c row gs) \<Longrightarrow> at c base' r y = at c base1 r y"
  proof -
    have "distinct (group_experts c row gs)" using Cons.prems(3) unfolding ge by (cases "0 \<le> x") simp_all
    moreover have "\<forall>x\<in>set (group_experts c row gs). x \<in> experts_of c \<and> 0 \<le> at c alc dst x"
      using Cons.prems(4) unfolding ge by (cases "0 \<le> x") simp_all
    moreover have "prev + p \<le> nvS cfg" using okp(2) by simp
    ultimately have I: "e \<le> nvS cfg \<and> laid (at c base' dst) (at c alc dst) (prev + p) (group_experts c row gs) e \<and>
      (\<forall>r x. x \<in> experts_of c \<and> (r \<noteq> dst \<or> x \<notin> set (group_experts c row gs)) \<longrightarrow> at c base' r x = at c base1 r x)"
      by (rule Cons.IH [OF rest Cons.prems(2)])
    show "e \<le> nvS cfg" using I by blast
    show "laid (at c base' dst) (at c alc dst) (prev + p) (group_experts c row gs) e" using I by blast
    show "at c base' r y = at c base1 r y" if "y \<in> experts_of c" "r \<noteq> dst \<or> y \<notin> set (group_experts c row gs)" for r y
      using I that by blast
  qed
  have n0: "0 \<le> n" using Cons.prems(4) unfolding ge by (cases "0 \<le> x") (simp_all add: n_def at_def)
  have np: "n \<le> p" using al okp n0 AlignCount_bounds(1) [of n "tokenPadding cfg" p] Cons.prems(2)
    by (cases "n = 0") auto
  show ?case
  proof (cases "0 \<le> x")
    case True
    then have xe: "x \<in> experts_of c" "x \<notin> set (group_experts c row gs)" using Cons.prems(3,4) unfolding ge by simp_all
    have b1: "at c base1 r y = (if r = dst \<and> y = x then prev else at c base r y)" if "y \<in> experts_of c" for r y
      using that xe(1) True by (auto simp: base1_def at_upd)
    have "at c base' dst x = prev" "at c alc dst x = n"
      using ih(3) [OF xe(1), of dst] xe b1 [OF xe(1)] True by (simp_all add: n_def at_def)
    then show ?thesis unfolding ge using ih True n0 np laid_mono [OF ih(2), of "prev + n"] b1 by auto
  next
    case False
    then have "base1 = base" "n = 0" by (simp_all add: base1_def n_def)
    then show ?thesis unfolding ge using ih False np laid_mono [OF ih(2), of prev] by auto
  qed
qed (simp add: group_experts_def)

lemma laid_hi: "laid bas len lo xs hi \<Longrightarrow> hi \<le> hi' \<Longrightarrow> laid bas len lo xs hi'"
  by (induction xs arbitrary: lo) auto

section \<open>Placement on every rank\<close>

definition placed :: "plan_ctx \<Rightarrow> int \<Rightarrow> int arr \<Rightarrow> int arr \<Rightarrow> int \<Rightarrow> bool" where
  "placed c limit alc base dst =
    (\<exists>xs. set xs = experts_of c \<and> laid (at c base dst) (at c alc dst) 0 xs limit)"

lemma placed_bounds:
  "\<lbrakk>placed c limit alc base dst; e \<in> experts_of c\<rbrakk> \<Longrightarrow>
    0 \<le> at c base dst e \<and> 0 \<le> at c alc dst e \<and> at c base dst e + at c alc dst e \<le> limit"
  unfolding placed_def using laid_mem by blast

lemma placed_disjoint:
  "\<lbrakk>placed c limit alc base dst; e \<in> experts_of c; e' \<in> experts_of c; e \<noteq> e'\<rbrakk> \<Longrightarrow>
    at c base dst e + at c alc dst e \<le> at c base dst e' \<or> at c base dst e' + at c alc dst e' \<le> at c base dst e"
  unfolding placed_def using laid_disjoint by blast

lemma placed_cong:
  "\<lbrakk>placed c limit alc base dst; \<forall>e\<in>experts_of c. at c base' dst e = at c base dst e\<rbrakk> \<Longrightarrow>
    placed c limit alc base' dst"
  unfolding placed_def using laid_cong [of _ "at c base dst" "at c base' dst" "at c alc dst" "at c alc dst"] by metis

lemma group_experts_all:
  assumes "int (length row) \<le> c_b c" "set row \<subseteq> experts_of c" "distinct row" "0 < c_b c"
  defines "gs \<equiv> [0..c_expertNum c + c_b c - 1]"
  shows "distinct (group_experts c (pad_row c row) gs)" "set (group_experts c (pad_row c row) gs) = experts_of c"
proof -
  let ?f = "group_expert c (pad_row c row)"
  have gs: "set gs = {0..<c_expertNum c + c_b c}" by (auto simp: gs_def)
  have eq: "group_experts c (pad_row c row) gs = map ?f (filter (\<lambda>g. 0 \<le> ?f g) gs)"
    by (simp add: group_experts_def filter_map comp_def)
  have "inj_on ?f (set (filter (\<lambda>g. 0 \<le> ?f g) gs))"
    using group_expert_inj [OF assms(1-3)] gs by (auto simp: inj_on_def)
  then show "distinct (group_experts c (pad_row c row) gs)" unfolding eq by (simp add: distinct_map gs_def)
  show "set (group_experts c (pad_row c row) gs) = experts_of c"
  proof
    show "set (group_experts c (pad_row c row) gs) \<subseteq> experts_of c"
      using group_expert_range [OF assms(1,2)] gs by (auto simp: group_experts_def)
    show "experts_of c \<subseteq> set (group_experts c (pad_row c row) gs)"
      using group_expert_surj [OF assms(1,2) _ assms(4)] gs by (fastforce simp: group_experts_def)
  qed
qed

lemma layout_bases_frame:
  "layout_bases c cfg dsts (s, a, le) = (ok, s', a', le') \<Longrightarrow>
    s' = s\<lparr> expertPhysicalBase := expertPhysicalBase s' \<rparr> \<and> a_dst a' = a_dst a"
proof (induction dsts arbitrary: s a le)
  case (Cons d dsts)
  obtain ok1 pe base cu where lg: "layout_groups c cfg (alloc s) d (row_of (remoteExpertSet s) d (c_b c))
      [0..c_expertNum c + c_b c - 1] 0 (expertPhysicalBase s) (a_cuSeqlens a) = (ok1, pe, base, cu)"
    by (metis prod_cases4)
  show ?case
    using Cons.prems Cons.IH [of "s\<lparr> expertPhysicalBase := base \<rparr>" "a\<lparr> a_cuSeqlens := cu \<rparr>"]
    by (cases ok1) (auto simp: lg Let_def)
qed simp

lemma layout_bases_placed:
  assumes "layout_bases c cfg dsts (s, a, le) = (True, s', a', le')" "0 < tokenPadding cfg" "0 \<le> nvS cfg" "0 < c_b c"
    "distinct dsts" "\<forall>dst\<in>set dsts. row_of (remoteExpertSet s) dst (c_b c) = pad_row c (remote_order_of c (alloc s) dst)
      \<and> int (length (remotes c (alloc s) dst)) \<le> c_b c \<and> (\<forall>e\<in>experts_of c. 0 \<le> at c (alloc s) dst e)"
  shows "(\<forall>dst\<in>set dsts. placed c (nvS cfg) (alloc s) (expertPhysicalBase s') dst) \<and>
    (\<forall>dst e. dst \<notin> set dsts \<and> e \<in> experts_of c \<longrightarrow>
      at c (expertPhysicalBase s') dst e = at c (expertPhysicalBase s) dst e) \<and>
    s' = s\<lparr> expertPhysicalBase := expertPhysicalBase s' \<rparr> \<and> a_dst a' = a_dst a"
  using assms(1,5,6)
proof (induction dsts arbitrary: s a le)
  case (Cons d dsts)
  let ?row = "remote_order_of c (alloc s) d" and ?gs = "[0..c_expertNum c + c_b c - 1]"
  have row: "row_of (remoteExpertSet s) d (c_b c) = pad_row c ?row" "int (length ?row) \<le> c_b c"
    using Cons.prems(3) by (auto simp: length_remote_order)
  note ga = group_experts_all [OF row(2) _ distinct_remote_order assms(4)]
  obtain ok pe base cu where lg: "layout_groups c cfg (alloc s) d (pad_row c ?row) ?gs 0
      (expertPhysicalBase s) (a_cuSeqlens a) = (ok, pe, base, cu)" by (metis prod_cases4)
  define s1 where "s1 = s\<lparr> expertPhysicalBase := base \<rparr>"
  define a1 where "a1 = a\<lparr> a_cuSeqlens := cu \<rparr>"
  have ok: ok and rest: "layout_bases c cfg dsts (s1, a1, if d = c_rank c then pe else le) = (True, s', a', le')"
    using Cons.prems(1) by (auto simp: row(1) lg s1_def a1_def Let_def split: if_splits)
  have sub: "set ?row \<subseteq> experts_of c" by (auto simp: set_remote_order)
  have lb: "pe \<le> nvS cfg \<and> laid (at c base d) (at c (alloc s) d) 0 (group_experts c (pad_row c ?row) ?gs) pe \<and>
    (\<forall>r x. x \<in> experts_of c \<and> (r \<noteq> d \<or> x \<notin> set (group_experts c (pad_row c ?row) ?gs)) \<longrightarrow>
      at c base r x = at c (expertPhysicalBase s) r x)"
    using lg ok Cons.prems(3) ga [OF sub] assms(2,3) by (intro layout_groups_bases [of c cfg _ d _ ?gs]) auto
  have "laid (at c base d) (at c (alloc s) d) 0 (group_experts c (pad_row c ?row) ?gs) (nvS cfg)"
    using lb laid_hi by blast
  then have pd: "placed c (nvS cfg) (alloc s) base d" using ga(2) [OF sub] by (auto simp: placed_def)
  have al: "alloc s1 = alloc s" "remoteExpertSet s1 = remoteExpertSet s" "expertPhysicalBase s1 = base"
    by (simp_all add: s1_def)
  note ih = Cons.IH [OF rest, unfolded al]
  have "d \<notin> set dsts" using Cons.prems(2) by simp
  have ih': "(\<forall>dst\<in>set dsts. placed c (nvS cfg) (alloc s) (expertPhysicalBase s') dst) \<and>
    (\<forall>dst e. dst \<notin> set dsts \<and> e \<in> experts_of c \<longrightarrow> at c (expertPhysicalBase s') dst e = at c base dst e) \<and>
    s' = s1\<lparr> expertPhysicalBase := expertPhysicalBase s' \<rparr> \<and> a_dst a' = a_dst a1"
    using Cons.prems(2,3) by (intro ih) auto
  have "placed c (nvS cfg) (alloc s) (expertPhysicalBase s') d"
    using placed_cong [OF pd] ih' \<open>d \<notin> set dsts\<close> by blast
  moreover have "at c (expertPhysicalBase s') dst e = at c (expertPhysicalBase s) dst e"
    if "dst \<notin> set (d # dsts)" "e \<in> experts_of c" for dst e
    using ih' lb that by auto
  ultimately show ?case using ih' by (auto simp: s1_def a1_def)
qed simp

text \<open>The layout of a finished plan never runs out of slots, and places every expert.\<close>

lemma BuildLayouts_placed:
  assumes ok: "plan_ctx_ok c" and fin: "plan_done c tpe s" and nn: "\<forall>r\<in>ranks_of c. \<forall>e\<in>experts_of c. 0 \<le> at c (alloc s) r e"
    and cfg: "0 < tokenPadding cfg" "0 \<le> nvS cfg" and bl: "BuildLayouts c cfg s a = (st, s', a', mr, le)"
  shows "st = PLAN_OK \<or> st = PLAN_ERROR_LAYOUT_EXCEEDS_NVS"
    "st = PLAN_OK \<Longrightarrow> \<forall>dst\<in>ranks_of c. placed c (nvS cfg) (alloc s) (expertPhysicalBase s') dst"
    "s' = s\<lparr> remoteExpertSet := remoteExpertSet s', expertPhysicalBase := expertPhysicalBase s' \<rparr>"
    "a_dst a' = a_dst a"
proof -
  obtain s0 a0 where lr: "layout_reset c s a = (s0, a0)" by fastforce
  have s0: "alloc s0 = alloc s" "a_dst a0 = a_dst a"
    "s0 = s\<lparr> remoteExpertSet := remoteExpertSet s0, expertPhysicalBase := expertPhysicalBase s0 \<rparr>"
    using lr by (auto simp: layout_reset_def)
  have b: "0 < c_b c" using ok by (simp add: plan_ctx_ok_def)
  have len: "\<forall>dst\<in>set [0..c_rankSize c - 1]. int (length (remotes c (alloc s0) dst)) \<le> c_b c"
    using inv_slots_remotes [of c s] fin unfolding plan_done_def s0(1) by auto
  obtain s1 a1 m where l1: "layout_rows c [0..c_rankSize c - 1] (s0, a0, 0) = (True, s1, a1, m)"
    "s1 = s0\<lparr> remoteExpertSet := remoteExpertSet s1 \<rparr>" "a_dst a1 = a_dst a0"
    "\<forall>dst. row_of (remoteExpertSet s1) dst (c_b c) = (if dst \<in> set [0..c_rankSize c - 1]
      then pad_row c (remote_order_of c (alloc s0) dst) else row_of (remoteExpertSet s0) dst (c_b c))"
    using layout_rows_ok [OF len distinct_upto, of a0 0] by blast
  have al1: "alloc s1 = alloc s" using arg_cong [OF l1(2), of alloc] s0(1) by simp
  obtain ok2 s2 a2 le2 where l2: "layout_bases c cfg [0..c_rankSize c - 1] (s1, a1, 0) = (ok2, s2, a2, le2)"
    by (metis prod_cases4)
  have res: "st = (if ok2 then PLAN_OK else PLAN_ERROR_LAYOUT_EXCEEDS_NVS)" "s' = s2" "a' = a2"
    using bl by (auto simp: BuildLayouts_def lr l1(1) l2)
  then show "st = PLAN_OK \<or> st = PLAN_ERROR_LAYOUT_EXCEEDS_NVS" by simp
  note fr = layout_bases_frame [OF l2]
  define R B where "R = remoteExpertSet s1" and "B = expertPhysicalBase s2"
  have "s2 = s1\<lparr> expertPhysicalBase := B \<rparr>" using fr by (simp add: B_def)
  moreover have "s1\<lparr> expertPhysicalBase := B \<rparr> = s0\<lparr> remoteExpertSet := R, expertPhysicalBase := B \<rparr>"
    using arg_cong [OF l1(2) [folded R_def], of "expertPhysicalBase_update (\<lambda>_. B)"] .
  moreover have "s0\<lparr> remoteExpertSet := R, expertPhysicalBase := B \<rparr> = s\<lparr> remoteExpertSet := R, expertPhysicalBase := B \<rparr>"
    using arg_cong [OF s0(3), of "\<lambda>t. t\<lparr> remoteExpertSet := R, expertPhysicalBase := B \<rparr>"] by simp
  ultimately have e2: "s2 = s\<lparr> remoteExpertSet := R, expertPhysicalBase := B \<rparr>" by simp
  then have "remoteExpertSet s2 = R" by simp
  then show "s' = s\<lparr> remoteExpertSet := remoteExpertSet s', expertPhysicalBase := expertPhysicalBase s' \<rparr>"
    unfolding res(2) B_def [symmetric] using e2 by simp
  show "a_dst a' = a_dst a" using conjunct2 [OF fr] l1(3) s0(2) res(3) by simp
  assume "st = PLAN_OK"
  then have ok2: ok2 using res by (simp split: if_splits)
  have rk: "set [0..c_rankSize c - 1] = ranks_of c" by auto
  have pre: "\<forall>dst\<in>set [0..c_rankSize c - 1]. row_of (remoteExpertSet s1) dst (c_b c) = pad_row c (remote_order_of c (alloc s1) dst)
      \<and> int (length (remotes c (alloc s1) dst)) \<le> c_b c \<and> (\<forall>e\<in>experts_of c. 0 \<le> at c (alloc s1) dst e)"
    using l1(4) len nn unfolding al1 s0(1) rk by simp
  show "\<forall>dst\<in>ranks_of c. placed c (nvS cfg) (alloc s) (expertPhysicalBase s') dst"
    using layout_bases_placed [OF l2 [unfolded eqTrueI [OF ok2]] cfg b distinct_upto pre] al1 res rk by simp
qed

end
