(* ===== verification/PlanBalance.thy ===== *)
theory PlanBalance
  imports PlanPlacement
begin

text \<open>
  From a validated input to a balanced plan: the affinity rows, the initial state and its
  invariant, what a successful validation guarantees, and the plan after the rounds and the
  remainders.
\<close>

unbundle bit_operations_syntax

section \<open>Affinity rows\<close>

lemma length_affinity_row: "0 \<le> c_rankSize c \<Longrightarrow> int (length (affinity_row c dst)) = c_rankSize c"
  by (simp add: affinity_row_def)

lemma BuildAffinity_rows_aux:
  assumes "0 \<le> c_rankSize c"
  shows "row_of (affinityOrder (fold (\<lambda>dst s. s\<lparr> affinityOrder :=
            store_row (affinityOrder s) (dst * c_rankSize c) (affinity_row c dst) \<rparr>) dsts s)) d (c_rankSize c) =
    (if d \<in> set dsts then affinity_row c d else row_of (affinityOrder s) d (c_rankSize c))"
proof (induction dsts arbitrary: s d)
  case (Cons x dsts)
  show ?case
    using row_of_store_same [OF length_affinity_row [OF assms, of x]]
      row_of_store_other [OF length_affinity_row [OF assms, of x], of x d]
    by (cases "d = x") (auto simp: Cons.IH)
qed simp

lemma BuildAffinity_rows:
  "0 < c_rankSize c \<Longrightarrow> d \<in> ranks_of c \<Longrightarrow> row_of (affinityOrder (BuildAffinity c s)) d (c_rankSize c) = affinity_row c d"
  using BuildAffinity_rows_aux [of c "[0..c_rankSize c - 1]" s d] by (auto simp: BuildAffinity_def)

lemma BuildAffinity_frame: "\<exists>f. BuildAffinity c s = s\<lparr> affinityOrder := f \<rparr>"
proof -
  have "\<exists>f. fold (\<lambda>dst s. s\<lparr> affinityOrder := store_row (affinityOrder s) (dst * c_rankSize c) (affinity_row c dst) \<rparr>) dsts s
      = s\<lparr> affinityOrder := f \<rparr>" for dsts
  proof (induction dsts arbitrary: s)
    case Nil
    show ?case by (intro exI [of _ "affinityOrder s"]) simp
  next
    case (Cons x dsts)
    obtain f where "fold (\<lambda>dst s. s\<lparr> affinityOrder := store_row (affinityOrder s) (dst * c_rankSize c) (affinity_row c dst) \<rparr>) dsts
      (s\<lparr> affinityOrder := store_row (affinityOrder s) (x * c_rankSize c) (affinity_row c x) \<rparr>) =
      s\<lparr> affinityOrder := store_row (affinityOrder s) (x * c_rankSize c) (affinity_row c x) \<rparr>\<lparr> affinityOrder := f \<rparr>"
      using Cons.IH by blast
    then show ?case by auto
  qed
  then show ?thesis unfolding BuildAffinity_def by blast
qed

lemma affinity_dist:
  assumes "x = y \<or> BetterAffinity x y dst ids" "x \<noteq> y"
  shows "cast_u32 (ids x) XOR cast_u32 (ids dst) < cast_u32 (ids y) XOR cast_u32 (ids dst) \<or>
    cast_u32 (ids x) XOR cast_u32 (ids dst) = cast_u32 (ids y) XOR cast_u32 (ids dst) \<and> x < y"
  using assms by (auto simp: BetterAffinity_def Let_def xor_right_inj split: if_splits)

lemma hd_nearest: "sorted_wrt (\<lambda>x y. f x < f y \<or> f x = f y \<and> x < y) xs \<Longrightarrow> z \<in> set xs \<Longrightarrow> f (hd xs) \<le> f z"
  for f :: "'a :: order \<Rightarrow> 'b :: order"
  by (cases xs) auto

text \<open>C34: every row of the affinity order lists all ranks exactly once, by increasing distance from
  the destination, where the distance of a rank is the exclusive or of its global rank and that of the
  destination as unsigned 32-bit numbers; ranks at the same distance (which then have the same global
  rank) come by increasing number.  The first rank of the row is at distance 0.\<close>

theorem plan_affinity_rows:
  assumes "0 < c_rankSize c" "0 \<le> dst" "dst < c_rankSize c"
  shows "let row = row_of (affinityOrder (BuildAffinity c s)) dst (c_rankSize c);
      dist = (\<lambda>r. (c_globalRankIds c r mod 4294967296) XOR (c_globalRankIds c dst mod 4294967296))
    in mset row = mset [0..c_rankSize c - 1] \<and>
       sorted_wrt (\<lambda>x y. dist x < dist y \<or> dist x = dist y \<and> x < y) row \<and> dist (hd row) = 0"
proof -
  let ?row = "affinity_row c dst" and ?B = "\<lambda>x y. x = y \<or> BetterAffinity x y dst (c_globalRankIds c)"
  let ?d = "\<lambda>r. cast_u32 (c_globalRankIds c r) XOR cast_u32 (c_globalRankIds c dst)"
  have row: "row_of (affinityOrder (BuildAffinity c s)) dst (c_rankSize c) = ?row"
    using assms by (intro BuildAffinity_rows) auto
  have ms: "mset ?row = mset [0..c_rankSize c - 1]" and so: "sorted_wrt ?B ?row"
    using affinity_order.sorted_insertion_sort by (simp_all add: affinity_row_def)
  have "distinct ?row" using mset_eq_imp_distinct_iff [OF ms] by simp
  then have "sorted_wrt (\<lambda>x y. ?B x y \<and> x \<noteq> y) ?row" using so by (auto simp: distinct_conv_nth sorted_wrt_iff_nth_less)
  then have sd: "sorted_wrt (\<lambda>x y. ?d x < ?d y \<or> ?d x = ?d y \<and> x < y) ?row"
    by (rule sorted_wrt_mono_rel [rotated]) (use affinity_dist in blast)
  have "dst \<in> set ?row" using assms mset_eq_setD [OF ms] by simp
  from hd_nearest [OF sd this] have "?d (hd ?row) \<le> 0" by simp
  moreover have "0 \<le> ?d (hd ?row)" by (simp add: cast_u32_def)
  ultimately have "?d (hd ?row) = 0" by (rule order_antisym)
  then show ?thesis using ms sd by (simp add: row cast_u32_def)
qed

section \<open>The initial state\<close>

lemma ReIndex_range:
  assumes "r \<in> {0..<m}" "e \<in> {0..<n}"
  shows "0 \<le> ReIndex r e n \<and> ReIndex r e n < m * n"
proof -
  have "0 \<le> r * n" "(r + 1) * n \<le> m * n" using assms by (auto intro!: mult_right_mono)
  then show ?thesis using assms by (auto simp: ReIndex_def algebra_simps)
qed

lemma at_clear: "r \<in> ranks_of c \<Longrightarrow> e \<in> experts_of c \<Longrightarrow> at c (clear (c_rankSize c * c_expertNum c) v f) r e = v"
  using ReIndex_range [of r "c_rankSize c" e "c_expertNum c"] by (simp add: at_def clear_def)

definition expert_total :: "plan_ctx \<Rightarrow> int arr \<Rightarrow> int \<Rightarrow> int" where
  "expert_total c tpe e = (\<Sum>src\<in>ranks_of c. at c tpe src e)"

definition init_expert :: "plan_ctx \<Rightarrow> int arr \<Rightarrow> int \<Rightarrow> plan_state \<Rightarrow> plan_state" where
  "init_expert c tpe expert s =
    (let cnt = sum_list (map (\<lambda>src. tpe (ReIndex src expert (c_expertNum c))) [0..c_rankSize c - 1]);
         home = HomeRank expert (c_expertsPerRank c)
     in s\<lparr> alloc := (alloc s)(ReIndex home expert (c_expertNum c) := cnt),
           rankLoad := (rankLoad s)(home := rankLoad s home + cnt) \<rparr>)"

lemma init_expert_fold:
  assumes "set es \<subseteq> experts_of c" "distinct es"
  shows "(\<forall>r. \<forall>x\<in>experts_of c. at c (alloc (fold (init_expert c tpe) es s)) r x =
      (if x \<in> set es \<and> r = homeOf c x then expert_total c tpe x else at c (alloc s) r x)) \<and>
    (\<forall>r. rankLoad (fold (init_expert c tpe) es s) r = rankLoad s r + (\<Sum>x | x \<in> set es \<and> homeOf c x = r. expert_total c tpe x)) \<and>
    (\<exists>A L. fold (init_expert c tpe) es s = s\<lparr> alloc := A, rankLoad := L \<rparr>)"
  using assms
proof (induction es arbitrary: s)
  case (Cons e es)
  have tot: "sum_list (map (\<lambda>src. tpe (ReIndex src e (c_expertNum c))) [0..c_rankSize c - 1]) = expert_total c tpe e"
    by (simp add: sum_list_ranks expert_total_def at_def)
  define s1 where "s1 = init_expert c tpe e s"
  have s1: "s1 = s\<lparr> alloc := (alloc s)(ReIndex (homeOf c e) e (c_expertNum c) := expert_total c tpe e),
      rankLoad := (rankLoad s)(homeOf c e := rankLoad s (homeOf c e) + expert_total c tpe e) \<rparr>"
    by (simp only: s1_def init_expert_def tot Let_def)
  have e: "e \<in> experts_of c" "e \<notin> set es" using Cons.prems by auto
  have ih: "\<And>r x. x \<in> experts_of c \<Longrightarrow> at c (alloc (fold (init_expert c tpe) es s1)) r x =
      (if x \<in> set es \<and> r = homeOf c x then expert_total c tpe x else at c (alloc s1) r x)"
    "\<And>r. rankLoad (fold (init_expert c tpe) es s1) r = rankLoad s1 r + (\<Sum>x | x \<in> set es \<and> homeOf c x = r. expert_total c tpe x)"
    "\<exists>A L. fold (init_expert c tpe) es s1 = s1\<lparr> alloc := A, rankLoad := L \<rparr>"
    using Cons.IH [of s1] Cons.prems by auto
  have "{x. x \<in> set (e # es) \<and> homeOf c x = r} = (if homeOf c e = r then insert e else id) {x. x \<in> set es \<and> homeOf c x = r}" for r
    by auto
  then have "rankLoad s1 r + (\<Sum>x | x \<in> set es \<and> homeOf c x = r. expert_total c tpe x) =
      rankLoad s r + (\<Sum>x | x \<in> set (e # es) \<and> homeOf c x = r. expert_total c tpe x)" for r
    using e(2) by (simp add: s1)
  moreover have "at c (alloc s1) r x = (if x = e \<and> r = homeOf c x then expert_total c tpe x else at c (alloc s) r x)"
    if "x \<in> experts_of c" for r x
    using that e(1) by (auto simp: s1 at_upd)
  moreover have "s1\<lparr> alloc := A, rankLoad := B \<rparr> = s\<lparr> alloc := A, rankLoad := B \<rparr>" for A B by (simp add: s1)
  ultimately show ?case using ih e by (simp add: s1_def [symmetric])
next
  case Nil
  have "s = s\<lparr> alloc := alloc s, rankLoad := rankLoad s \<rparr>" by simp
  then have "\<exists>A L. s = s\<lparr> alloc := A, rankLoad := L \<rparr>" by blast
  then show ?case by simp
qed

section \<open>What validation guarantees\<close>

lemma count_routes_Some:
  "count_routes topk n routes cnt = Some cnt' \<Longrightarrow>
    (\<forall>r\<in>set routes. topk r \<in> {0..<n}) \<and> (\<forall>e. cnt' e = cnt e + int (length (filter (\<lambda>r. topk r = e) routes)))"
proof (induction routes arbitrary: cnt)
  case (Cons r routes)
  then have r: "topk r \<in> {0..<n}" and
    rest: "count_routes topk n routes (cnt(topk r := cnt (topk r) + 1)) = Some cnt'"
    by (auto simp: Let_def split: if_splits)
  show ?case using Cons.IH [OF rest] r by auto
qed simp

lemma check_tpe_row_OK:
  "check_tpe_row tpe cnt n own cap src es acc = PLAN_OK \<Longrightarrow>
    (\<forall>e\<in>set es. 0 \<le> tpe (ReIndex src e n) \<and> (own \<longrightarrow> tpe (ReIndex src e n) = cnt e)) \<and>
    acc + sum_list (map (\<lambda>e. tpe (ReIndex src e n)) es) = cap"
proof (induction es arbitrary: acc)
  case Nil
  then show ?case by (cases "acc = cap") simp_all
next
  case (Cons e es)
  define v where "v = tpe (ReIndex src e n)"
  have "0 \<le> v \<and> (own \<longrightarrow> v = cnt e) \<and> check_tpe_row tpe cnt n own cap src es (acc + v) = PLAN_OK"
    using Cons.prems by (auto simp: v_def [symmetric] Let_def split: if_splits)
  then show ?case using Cons.IH [of "acc + v"] by (auto simp: v_def)
qed

lemma check_tpe_rows_OK:
  "check_tpe_rows tpe cnt n rank cap srcs = PLAN_OK \<Longrightarrow>
    \<forall>src\<in>set srcs. check_tpe_row tpe cnt n (src = rank) cap src [0..n - 1] 0 = PLAN_OK"
  by (induction srcs) (auto simp: Let_def split: if_splits)

text \<open>The facts about an accepted input on which the rest of the development relies.\<close>

definition plan_input_ok :: "plan_input \<Rightarrow> plan_workspace \<Rightarrow> bool" where
  "plan_input_ok inp ws =
    (let c = plan_ctx_of inp ws; cfg = in_config inp; tpe = deref (in_tokensPerExpert inp);
         topk = deref (in_topkExperts inp); ids = deref (in_globalRankIds inp)
     in plan_ctx_ok c \<and> c_rank c \<in> ranks_of c \<and> 0 < in_s inp \<and> 0 < in_topK inp \<and> c_cap c = in_s inp * in_topK inp \<and>
        c_cap c \<le> nvS cfg \<and> c_rankSize c * nvS cfg \<le> INT32_MAX \<and> 0 < tokenPadding cfg \<and>
        (\<forall>r\<in>ranks_of c. 0 \<le> ids r) \<and> inj_on ids (ranks_of c) \<and>
        (\<forall>src\<in>ranks_of c. \<forall>e\<in>experts_of c. 0 \<le> at c tpe src e) \<and>
        (\<forall>src\<in>ranks_of c. (\<Sum>e\<in>experts_of c. at c tpe src e) = c_cap c) \<and>
        (\<forall>r\<in>{0..<c_cap c}. topk r \<in> experts_of c) \<and>
        (\<forall>e\<in>experts_of c. at c tpe (c_rank c) e = int (card {r \<in> {0..<c_cap c}. topk r = e})))"

lemma length_filter_upto: "int (length (filter P [0..n - 1])) = int (card {r \<in> {0..<n}. P r})"
proof -
  have "{r \<in> {0..<n}. P r} = set (filter P [0..n - 1])" by auto
  then show ?thesis by (simp add: distinct_card del: set_filter)
qed

lemma Validate_input_ok:
  assumes "Validate inp out ws = PLAN_OK"
  shows "plan_input_ok inp ws"
proof -
  let ?c = "plan_ctx_of inp ws" and ?cfg = "in_config inp"
  let ?tpe = "deref (in_tokensPerExpert inp)" and ?topk = "deref (in_topkExperts inp)"
  let ?ids = "deref (in_globalRankIds inp)" and ?cap = "in_s inp * in_topK inp"
  define cnt0 where "cnt0 = (\<lambda>e. if 0 \<le> e \<and> e < in_expertNum inp then 0 else deref (ws_expertCount ws) e)"
  note v = assms [unfolded Validate_def Let_def, folded cnt0_def]
  have g: "\<not> args_invalid inp out ws" "\<not> config_invalid inp ws ?cap" "\<not> ids_invalid ?ids (in_rankSize inp)"
    using v by (auto split: if_splits)
  obtain cnt where cr: "count_routes ?topk (in_expertNum inp) [0..?cap - 1] cnt0 = Some cnt"
    using v g by (cases "count_routes ?topk (in_expertNum inp) [0..?cap - 1] cnt0") simp_all
  have rows: "check_tpe_rows ?tpe cnt (in_expertNum inp) (in_rank inp) ?cap [0..in_rankSize inp - 1] = PLAN_OK"
    using v g by (simp add: cr)
  have basic: "0 < in_rankSize inp" "0 \<le> in_rank inp" "in_rank inp < in_rankSize inp" "0 < in_s inp" "0 < in_topK inp"
    "0 < in_expertNum inp" "in_expertNum inp mod in_rankSize inp = 0"
    using g(1) unfolding args_invalid_def by linarith+
  have cfg: "rankTokenCapacity ?cfg = ?cap" "0 < prefetchSlots ?cfg" "?cap \<le> nvS ?cfg" "0 < tokenPadding ?cfg"
    "0 \<le> tokenRouteLimitPerPair ?cfg" "in_rankSize inp * nvS ?cfg \<le> INT32_MAX"
    using g(2) unfolding config_invalid_def Let_def by linarith+
  have sel [simp]: "c_rank ?c = in_rank inp" "c_rankSize ?c = in_rankSize inp" "c_expertNum ?c = in_expertNum inp"
    "c_expertsPerRank ?c = in_expertNum inp div in_rankSize inp" "c_cap ?c = rankTokenCapacity ?cfg"
    "c_b ?c = prefetchSlots ?cfg" "c_routeLimit ?c = tokenRouteLimitPerPair ?cfg"
    by (simp_all add: plan_ctx_of_def)
  have mul: "in_rankSize inp * (in_expertNum inp div in_rankSize inp) = in_expertNum inp"
    using basic(7) by (simp add: dvd_eq_mod_eq_0)
  then have "0 < in_expertNum inp div in_rankSize inp"
    using basic(1,6) by (metis mult_le_0_iff not_less order_less_imp_le)
  then have ctx: "plan_ctx_ok ?c" using basic cfg mul by (simp add: plan_ctx_ok_def)
  have inj: "inj_on ?ids (ranks_of ?c)" "\<forall>r\<in>ranks_of ?c. 0 \<le> ?ids r"
  proof -
    have d: "0 \<le> ?ids lhs \<and> (\<forall>rhs. 0 \<le> rhs \<and> rhs < lhs \<longrightarrow> ?ids lhs \<noteq> ?ids rhs)" if "lhs \<in> ranks_of ?c" for lhs
    proof -
      have "lhs \<in> set [0..in_rankSize inp - 1]" using that by auto
      then have "\<not> (?ids lhs < 0 \<or> list_ex (\<lambda>rhs. ?ids lhs = ?ids rhs) [0..lhs - 1])"
        using g(3) unfolding ids_invalid_def list_ex_iff [of _ "[0..in_rankSize inp - 1]"] by blast
      then show ?thesis by (auto simp: list_ex_iff)
    qed
    show "inj_on ?ids (ranks_of ?c)"
    proof (rule linorder_inj_onI')
      fix i j assume "i \<in> ranks_of ?c" "j \<in> ranks_of ?c" "i < j"
      then show "?ids i \<noteq> ?ids j" using d [of j] by fastforce
    qed
    show "\<forall>r\<in>ranks_of ?c. 0 \<le> ?ids r" using d by blast
  qed
  have row: "(\<forall>e\<in>experts_of ?c. 0 \<le> at ?c ?tpe src e \<and> (src = in_rank inp \<longrightarrow> at ?c ?tpe src e = cnt e)) \<and>
      (\<Sum>e\<in>experts_of ?c. at ?c ?tpe src e) = ?cap" if "src \<in> ranks_of ?c" for src
  proof -
    have "check_tpe_row ?tpe cnt (in_expertNum inp) (src = in_rank inp) ?cap src [0..in_expertNum inp - 1] 0 = PLAN_OK"
      using check_tpe_rows_OK [OF rows] that by auto
    from check_tpe_row_OK [OF this] show ?thesis by (auto simp: at_def sum_list_ranks)
  qed
  have topk: "\<forall>r\<in>{0..<?cap}. ?topk r \<in> experts_of ?c" using count_routes_Some [OF cr] by auto
  have own: "cnt e = int (card {r \<in> {0..<?cap}. ?topk r = e})" if "e \<in> experts_of ?c" for e
    using count_routes_Some [OF cr] that length_filter_upto [of "\<lambda>r. ?topk r = e" ?cap] by (simp add: cnt0_def)
  have own2: "\<forall>e\<in>experts_of ?c. at ?c ?tpe (c_rank ?c) e = int (card {r \<in> {0..<c_cap ?c}. ?topk r = e})"
    using row [of "in_rank inp"] own basic(2,3) cfg(1) by auto
  show ?thesis unfolding plan_input_ok_def Let_def
    using ctx inj row topk own2 basic cfg by (intro conjI) auto
qed

section \<open>The balanced plan\<close>

text \<open>A cached affinity order must hold the rows that \<open>BuildAffinity\<close> would write.\<close>

definition affinity_cache_ok :: "plan_ctx \<Rightarrow> plan_workspace \<Rightarrow> bool" where
  "affinity_cache_ok c ws = (ws_affinityOrderValid ws \<longrightarrow>
    (\<forall>dst\<in>ranks_of c. row_of (deref (ws_affinityOrder ws)) dst (c_rankSize c) = affinity_row c dst))"

lemma plan_init_fold:
  "\<exists>s0. plan_init c inp ws = fold (init_expert c (deref (in_tokensPerExpert inp))) [0..c_expertNum c - 1] s0 \<and>
    rankLoad s0 = clear (c_rankSize c) 0 (\<lambda>_. 0) \<and>
    remainingTpe s0 = (\<lambda>i. if 0 \<le> i \<and> i < c_rankSize c * c_expertNum c then deref (in_tokensPerExpert inp) i
      else 0) \<and>
    alloc s0 = clear (c_rankSize c * c_expertNum c) 0 (\<lambda>_. 0) \<and>
    remoteCount s0 = clear (c_rankSize c) 0 (\<lambda>_. 0) \<and>
    srcExpertCursor s0 = clear (c_rankSize c * c_expertNum c) 0 (\<lambda>_. 0) \<and>
    dstExpertCursor s0 = clear (c_rankSize c * c_expertNum c) 0 (\<lambda>_. 0) \<and>
    (c_routeLimit c \<noteq> 0 \<longrightarrow> routedPairTokens s0 = clear (c_rankSize c * c_rankSize c) 0 (\<lambda>_. 0)) \<and>
    affinityOrder s0 = (\<lambda>i. if 0 \<le> i \<and> i < c_rankSize c * c_rankSize c then deref (ws_affinityOrder ws) i else 0) \<and> tokenSegments s0 = [] \<and> segmentLog s0 = [] \<and>
    intraRounds s0 = 0 \<and> interRounds s0 = 0 \<and> fatal s0 = PLAN_OK"
  unfolding plan_init_def Let_def init_expert_def [abs_def, unfolded Let_def]
  by (rule exI, rule conjI, rule refl) simp

lemma at_remaining_init:
  "r \<in> ranks_of c \<Longrightarrow> e \<in> experts_of c \<Longrightarrow>
    at c (\<lambda>i. if 0 \<le> i \<and> i < c_rankSize c * c_expertNum c then f i else g i) r e = at c f r e"
  using ReIndex_range [of r "c_rankSize c" e "c_expertNum c"] by (simp add: at_def)

lemma plan_init_inv:
  fixes ws :: plan_workspace
  assumes ok: "plan_ctx_ok c" and nn: "\<forall>src\<in>ranks_of c. \<forall>e\<in>experts_of c. 0 \<le> at c tpe src e"
    and tpe: "tpe = deref (in_tokensPerExpert inp)"
  defines "s \<equiv> plan_init c inp ws"
  shows "inv_flow c tpe s \<and> inv_pairs c s \<and> inv_alloc c s \<and> inv_slots c s"
    "affinityOrder s = (\<lambda>i. if 0 \<le> i \<and> i < c_rankSize c * c_rankSize c then deref (ws_affinityOrder ws) i else 0)" "fatal s = PLAN_OK" "intraRounds s = 0" "interRounds s = 0"
    "\<forall>r\<in>ranks_of c. \<forall>e\<in>experts_of c. at c (alloc s) r e = (if r = homeOf c e then expert_total c tpe e else 0)"
proof -
  obtain s0 where s0: "s = fold (init_expert c tpe) [0..c_expertNum c - 1] s0"
    "rankLoad s0 = clear (c_rankSize c) 0 (\<lambda>_. 0)"
    "remainingTpe s0 = (\<lambda>i. if 0 \<le> i \<and> i < c_rankSize c * c_expertNum c then tpe i else 0)"
    "alloc s0 = clear (c_rankSize c * c_expertNum c) 0 (\<lambda>_. 0)"
    "remoteCount s0 = clear (c_rankSize c) 0 (\<lambda>_. 0)"
    "srcExpertCursor s0 = clear (c_rankSize c * c_expertNum c) 0 (\<lambda>_. 0)"
    "dstExpertCursor s0 = clear (c_rankSize c * c_expertNum c) 0 (\<lambda>_. 0)"
    "c_routeLimit c \<noteq> 0 \<longrightarrow> routedPairTokens s0 = clear (c_rankSize c * c_rankSize c) 0 (\<lambda>_. 0)"
    "affinityOrder s0 = (\<lambda>i. if 0 \<le> i \<and> i < c_rankSize c * c_rankSize c then deref (ws_affinityOrder ws) i else 0)" "tokenSegments s0 = []" "segmentLog s0 = []"
    "intraRounds s0 = 0" "interRounds s0 = 0" "fatal s0 = PLAN_OK"
    unfolding s_def tpe using plan_init_fold [of c inp ws] by blast
  have es: "set [0..c_expertNum c - 1] \<subseteq> experts_of c" "set [0..c_expertNum c - 1] = experts_of c" by auto
  note fd = init_expert_fold [OF es(1) distinct_upto, of tpe s0, folded s0(1), unfolded es(2)]
  obtain A L where fr: "s = s0\<lparr> alloc := A, rankLoad := L \<rparr>" using fd by blast
  have f: "remainingTpe s = remainingTpe s0" "srcExpertCursor s = srcExpertCursor s0" "dstExpertCursor s = dstExpertCursor s0"
    "remoteCount s = remoteCount s0" "routedPairTokens s = routedPairTokens s0" "segmentLog s = []" "tokenSegments s = []"
    "remoteExpertSet s = remoteExpertSet s0"
    using s0(10,11) by (simp_all add: fr)
  show "affinityOrder s = (\<lambda>i. if 0 \<le> i \<and> i < c_rankSize c * c_rankSize c then deref (ws_affinityOrder ws) i else 0)" "fatal s = PLAN_OK" "intraRounds s = 0" "interRounds s = 0"
    using s0(9,12-14) by (simp_all add: fr)
  have al: "at c (alloc s) r e = (if r = homeOf c e then expert_total c tpe e else 0)"
    if "r \<in> ranks_of c" "e \<in> experts_of c" for r e
    using fd that by (auto simp: s0(4) at_clear)
  then show "\<forall>r\<in>ranks_of c. \<forall>e\<in>experts_of c. at c (alloc s) r e = (if r = homeOf c e then expert_total c tpe e else 0)"
    by blast
  have rm: "at c (remainingTpe s) r e = at c tpe r e" "at c (srcExpertCursor s) r e = 0" "at c (dstExpertCursor s) r e = 0"
    if "r \<in> ranks_of c" "e \<in> experts_of c" for r e
    using that by (simp_all only: f s0(3,6,7) at_remaining_init at_clear)
  have tot0: "0 \<le> expert_total c tpe e" if "e \<in> experts_of c" for e
    using nn that by (auto simp: expert_total_def intro: sum_nonneg)
  have "inv_flow c tpe s" using rm nn by (simp add: inv_flow_def segs_from_def segs_to_def f)
  moreover have "inv_pairs c s"
  proof -
    have "routedPairTokens s (PairIndex r d (c_rankSize c)) = 0" if "c_routeLimit c \<noteq> 0" "r \<in> ranks_of c" "d \<in> ranks_of c" for r d
      using that s0(8) ReIndex_range [of r "c_rankSize c" d "c_rankSize c"]
      by (simp add: f clear_def PairIndex_def ReIndex_def)
    then show ?thesis using ok by (simp add: inv_pairs_def segs_pair_def f plan_ctx_ok_def)
  qed
  moreover have "inv_alloc c s"
  proof -
    have ld: "rankLoad s r = (\<Sum>e\<in>experts_of c. at c (alloc s) r e)" if r: "r \<in> ranks_of c" for r
    proof -
      have "rankLoad s r = (\<Sum>x | x \<in> experts_of c \<and> homeOf c x = r. expert_total c tpe x)"
        using fd r by (simp add: s0(2) clear_def)
      also have "\<dots> = (\<Sum>x\<in>experts_of c. if homeOf c x = r then expert_total c tpe x else 0)"
        by (simp add: sum.inter_filter [symmetric])
      also have "\<dots> = (\<Sum>e\<in>experts_of c. at c (alloc s) r e)" using r by (intro sum.cong) (auto simp: al)
      finally show ?thesis .
    qed
    have hm: "homeOf c e \<in> ranks_of c" if "e \<in> experts_of c" for e using home_range [OF ok that] .
    have sm: "(\<Sum>src\<in>ranks_of c. at c (remainingTpe s) src e) = expert_total c tpe e" if "e \<in> experts_of c" for e
      unfolding expert_total_def using that by (intro sum.cong) (simp_all only: rm)
    show ?thesis unfolding inv_alloc_def
    proof (intro conjI ballI impI)
      fix e assume e: "e \<in> experts_of c"
      show "(\<Sum>src\<in>ranks_of c. at c (remainingTpe s) src e) = at c (alloc s) (homeOf c e) e"
        using sm [OF e] al [OF hm [OF e] e] by simp
      show "at c (dstExpertCursor s) (homeOf c e) e = 0" using rm(3) hm e by blast
    qed (use al rm(3) tot0 ld in auto)
  qed
  moreover have "inv_slots c s"
  proof -
    have "remoteCount s d = 0" if "d \<in> ranks_of c" for d using that by (simp add: f s0(5) clear_def)
    moreover have "{e \<in> experts_of c. homeOf c e \<noteq> d \<and> 0 < at c (alloc s) d e} = {}" if "d \<in> ranks_of c" for d
      using al [OF that] by auto
    ultimately show ?thesis using ok unfolding inv_slots_def remote_row_def by (auto simp: plan_ctx_ok_def)
  qed
  ultimately show "inv_flow c tpe s \<and> inv_pairs c s \<and> inv_alloc c s \<and> inv_slots c s" by blast
qed

lemma row_of_extent:
  assumes "d \<in> {0..<n}"
  shows "row_of (\<lambda>i. if 0 \<le> i \<and> i < n * n then f i else 0) d n = row_of f d n"
  using ReIndex_range [OF assms, of _ n] by (auto simp: row_of_def ReIndex_def)

lemma plan_start_inv:
  fixes ws :: plan_workspace
  assumes ok: "plan_ctx_ok c" and nn: "\<forall>src\<in>ranks_of c. \<forall>e\<in>experts_of c. 0 \<le> at c tpe src e"
    and tpe: "tpe = deref (in_tokensPerExpert inp)" and cache: "affinity_cache_ok c ws"
  defines "s \<equiv> (if ws_affinityOrderValid ws then plan_init c inp ws else BuildAffinity c (plan_init c inp ws))"
  shows "plan_inv c tpe s" "fatal s = PLAN_OK" "intraRounds s = 0" "interRounds s = 0"
    "rankLoad s = rankLoad (plan_init c inp ws)" "alloc s = alloc (plan_init c inp ws)"
proof -
  note i = plan_init_inv [OF ok nn tpe, of ws]
  have R: "0 < c_rankSize c" using ok by (simp add: plan_ctx_ok_def)
  obtain f where f: "s = (plan_init c inp ws)\<lparr> affinityOrder := f \<rparr>"
  proof (cases "ws_affinityOrderValid ws")
    case True
    have "s = (plan_init c inp ws)\<lparr> affinityOrder := affinityOrder (plan_init c inp ws) \<rparr>" using True by (simp add: s_def)
    then show thesis by (rule that)
  next
    case False
    then show thesis using that BuildAffinity_frame [of c "plan_init c inp ws"] by (auto simp: s_def)
  qed
  show "fatal s = PLAN_OK" "intraRounds s = 0" "interRounds s = 0"
    "rankLoad s = rankLoad (plan_init c inp ws)" "alloc s = alloc (plan_init c inp ws)" using i by (simp_all add: f)
  have "row_of (affinityOrder s) d (c_rankSize c) = affinity_row c d" if "d \<in> ranks_of c" for d
    using that cache BuildAffinity_rows [OF R that] i(2) row_of_extent [OF that]
    by (auto simp: s_def affinity_cache_ok_def)
  then have "inv_affinity c s" by (simp add: inv_affinity_def affinity_row_def)
  moreover have "inv_flow c tpe s" using i(1) inv_flow_cong [of s "plan_init c inp ws" c tpe] by (simp add: f)
  moreover have "inv_pairs c s" using i(1) inv_pairs_cong [of s "plan_init c inp ws" c] by (simp add: f)
  moreover have "inv_alloc c s" using i(1) inv_alloc_cong [of s "plan_init c inp ws" c] by (simp add: f)
  moreover have "inv_slots c s" using i(1) inv_slots_cong [of s "plan_init c inp ws" c] by (simp add: f)
  ultimately show "plan_inv c tpe s" by (simp add: plan_inv_def)
qed

lemma plan_balance_done:
  assumes ok: "plan_ctx_ok c" and nn: "\<forall>src\<in>ranks_of c. \<forall>e\<in>experts_of c. 0 \<le> at c tpe src e"
    and tpe: "tpe = deref (in_tokensPerExpert inp)" and cache: "affinity_cache_ok c ws"
    and f: "fatal (plan_balance c inp ws) = PLAN_OK"
  shows "plan_done c tpe (plan_balance c inp ws)"
    "\<forall>r\<in>ranks_of c. \<forall>e\<in>experts_of c. 0 \<le> at c (alloc (plan_balance c inp ws)) r e"
proof -
  define s1 where "s1 = (if ws_affinityOrderValid ws then plan_init c inp ws else BuildAffinity c (plan_init c inp ws))"
  define s2 where "s2 = RunIntra c s1"
  note st = plan_start_inv [OF ok nn tpe cache, folded s1_def]
  have eq: "plan_balance c inp ws = (let s3 = (if fatal s2 = PLAN_OK then RunInter c s2 else s2)
      in if fatal s3 = PLAN_OK then AppendRemainders c s3 else s3)"
    by (simp add: plan_balance_def s1_def s2_def Let_def)
  have f2: "fatal s2 = PLAN_OK" using f eq by (cases "fatal s2 = PLAN_OK") (simp_all add: Let_def)
  define s3 where "s3 = RunInter c s2"
  have f3: "fatal s3 = PLAN_OK" using f eq f2 by (cases "fatal s3 = PLAN_OK") (simp_all add: Let_def s3_def)
  have res: "plan_balance c inp ws = AppendRemainders c s3" using eq f2 f3 by (simp add: s3_def)
  have "plan_inv c tpe s2" using RunIntra_inv [of c s1 tpe] st(1) ok f2 by (simp add: s2_def)
  then have i3: "plan_inv c tpe s3" using RunInter_inv [of c s2 tpe] ok f3 by (simp add: s3_def)
  note ar = AppendRemainders_done [OF ok i3 f3, folded res, OF f]
  show "plan_done c tpe (plan_balance c inp ws)" by (rule ar(1))
  show "\<forall>r\<in>ranks_of c. \<forall>e\<in>experts_of c. 0 \<le> at c (alloc (plan_balance c inp ws)) r e"
    using i3 unfolding ar(3) plan_inv_def inv_alloc_def by blast
qed

end
