(* ===== verification/PlanDst.thy ===== *)
theory PlanDst
  imports PlanBalance
begin

text \<open>
  The destinations of the routes of one rank: every route is found in exactly one segment, its
  position lies inside the interval of its expert on the destination, and \<open>BuildDst\<close> writes it,
  complemented unless it is the first route of its token to that rank.
\<close>

unbundle bit_operations_syntax

section \<open>Ordinals\<close>

lemma finite_filter_range: "finite {r \<in> {0..<n}. P r}" for n :: int
  by (rule finite_subset [of _ "{0..<n}"]) auto

definition ordinal_of :: "int arr \<Rightarrow> int \<Rightarrow> int" where
  "ordinal_of topk route = int (card {r \<in> {0..<route}. topk r = topk route})"

lemma route_ordinals_fold:
  "let (ord, cnt) = route_ordinals topk (int n)
   in (\<forall>r\<in>{0..<int n}. ord r = ordinal_of topk r) \<and> (\<forall>e. cnt e = int (card {r \<in> {0..<int n}. topk r = e}))"
proof (induction n)
  case (Suc n)
  obtain ord cnt where oc: "route_ordinals topk (int n) = (ord, cnt)" by fastforce
  have up: "[0..int (Suc n) - 1] = [0..int n - 1] @ [int n]" by (simp add: upto_rec2)
  have st: "route_ordinals topk (int (Suc n)) =
      (ord(int n := cnt (topk (int n))), cnt(topk (int n) := cnt (topk (int n)) + 1))"
    using oc unfolding route_ordinals_def up by (simp add: Let_def)
  have ih: "\<forall>r\<in>{0..<int n}. ord r = ordinal_of topk r" "\<forall>e. cnt e = int (card {r \<in> {0..<int n}. topk r = e})"
    using Suc oc by simp_all
  have cs: "{r \<in> {0..<int (Suc n)}. topk r = e} =
      (if topk (int n) = e then insert (int n) else id) {r \<in> {0..<int n}. topk r = e}" for e
  proof -
    have "{0..<int (Suc n)} = insert (int n) {0..<int n}" by auto
    then show ?thesis by auto
  qed
  have fin: "finite {r \<in> {0..<int n}. topk r = e}" for e by (rule finite_filter_range)
  have "int n \<notin> {r \<in> {0..<int n}. topk r = e}" for e by simp
  then have "(cnt(topk (int n) := cnt (topk (int n)) + 1)) e = int (card {r \<in> {0..<int (Suc n)}. topk r = e})" for e
    unfolding cs using ih(2) fin [of e] by auto
  moreover have "(ord(int n := cnt (topk (int n)))) r = ordinal_of topk r" if "r \<in> {0..<int (Suc n)}" for r
    using ih that by (cases "r = int n") (auto simp: ordinal_of_def)
  ultimately show ?case unfolding st by simp
qed (simp add: route_ordinals_def)

lemma route_ordinals_eq: "route \<in> {0..<cap} \<Longrightarrow> fst (route_ordinals topk cap) route = ordinal_of topk route"
  using route_ordinals_fold [of topk "nat cap"] by (auto split: prod.splits)

lemma ordinal_less:
  assumes "route \<in> {0..<cap}"
  shows "0 \<le> ordinal_of topk route \<and> ordinal_of topk route < int (card {r \<in> {0..<cap}. topk r = topk route})"
proof -
  have "{r \<in> {0..<route}. topk r = topk route} \<subset> {r \<in> {0..<cap}. topk r = topk route}" using assms by auto
  then have "card {r \<in> {0..<route}. topk r = topk route} < card {r \<in> {0..<cap}. topk r = topk route}"
    by (intro psubset_card_mono finite_filter_range)
  then show ?thesis by (simp add: ordinal_of_def)
qed

lemma ordinal_inj:
  assumes "r \<in> {0..<cap}" "r' \<in> {0..<cap}" "topk r = topk r'" "ordinal_of topk r = ordinal_of topk r'"
  shows "r = r'"
proof -
  have lt: "ordinal_of topk a < ordinal_of topk b" if "0 \<le> a" "a < b" "topk a = topk b" for a b
    using ordinal_less [of a b topk] that by (simp add: ordinal_of_def)
  then show ?thesis using assms by (metis atLeastLessThan_iff less_irrefl linorder_neqE)
qed

section \<open>The segment and the position of a route\<close>

definition route_segment :: "plan_state \<Rightarrow> int arr \<Rightarrow> int \<Rightarrow> token_segment_move" where
  "route_segment s topk route = the (List.find (segment_holds (topk route) (ordinal_of topk route)) (tokenSegments s))"

definition route_offset :: "plan_ctx \<Rightarrow> plan_state \<Rightarrow> int arr \<Rightarrow> int \<Rightarrow> int" where
  "route_offset c s topk route = (let m = route_segment s topk route in
    at c (expertPhysicalBase s) (dstRank m) (topk route) + dstExpertBegin m + (ordinal_of topk route - srcExpertBegin m))"

definition route_raw :: "plan_ctx \<Rightarrow> plan_config \<Rightarrow> plan_state \<Rightarrow> int arr \<Rightarrow> int \<Rightarrow> int" where
  "route_raw c cfg s topk route = dstRank (route_segment s topk route) * nvS cfg + route_offset c s topk route"

text \<open>What is needed of the plan: all tokens in segments that fill the allocations, and a
  collision-free layout.\<close>

definition plan_full :: "plan_ctx \<Rightarrow> int arr \<Rightarrow> plan_state \<Rightarrow> bool" where
  "plan_full c tpe s = (inv_flow c tpe s \<and>
    (\<forall>src\<in>ranks_of c. \<forall>e\<in>experts_of c. at c (remainingTpe s) src e = 0) \<and>
    (\<forall>r\<in>ranks_of c. \<forall>e\<in>experts_of c. at c (dstExpertCursor s) r e = at c (alloc s) r e))"

lemma plan_done_full: "plan_done c tpe s \<Longrightarrow> plan_full c tpe s"
  unfolding plan_done_def plan_full_def by blast

lemma plan_full_layout:
  "plan_full c tpe (s\<lparr> remoteExpertSet := f, expertPhysicalBase := g \<rparr>) = plan_full c tpe s"
  unfolding plan_full_def using inv_flow_cong [of "s\<lparr> remoteExpertSet := f, expertPhysicalBase := g \<rparr>" s c tpe] by simp

definition plan_ready :: "plan_ctx \<Rightarrow> plan_config \<Rightarrow> int arr \<Rightarrow> int arr \<Rightarrow> plan_state \<Rightarrow> bool" where
  "plan_ready c cfg tpe topk s = (plan_ctx_ok c \<and> plan_full c tpe s \<and> c_rank c \<in> ranks_of c \<and>
    (\<forall>dst\<in>ranks_of c. placed c (nvS cfg) (alloc s) (expertPhysicalBase s) dst) \<and>
    c_rankSize c * nvS cfg \<le> INT32_MAX \<and>
    (\<forall>r\<in>{0..<c_cap c}. topk r \<in> experts_of c) \<and>
    (\<forall>e\<in>experts_of c. at c tpe (c_rank c) e = int (card {r \<in> {0..<c_cap c}. topk r = e})))"

lemma find_Some_spec: "List.find P xs = Some x \<Longrightarrow> x \<in> set xs \<and> P x"
  by (induction xs) (auto split: if_splits)

lemma find_exists: "\<exists>x\<in>set xs. P x \<Longrightarrow> \<exists>x. List.find P xs = Some x"
  by (metis find_None_iff not_Some_eq)

lemma inv_flow_srcD:
  "\<lbrakk>inv_flow c tpe s; src \<in> ranks_of c; e \<in> experts_of c\<rbrakk> \<Longrightarrow>
    at c (srcExpertCursor s) src e + at c (remainingTpe s) src e = at c tpe src e \<and>
    chained srcExpertBegin 0 (segs_from s src e) (at c (srcExpertCursor s) src e)"
  unfolding inv_flow_def by blast

lemma inv_flow_dstD:
  "\<lbrakk>inv_flow c tpe s; dst \<in> ranks_of c; e \<in> experts_of c\<rbrakk> \<Longrightarrow>
    chained dstExpertBegin 0 (segs_to s dst e) (at c (dstExpertCursor s) dst e)"
  unfolding inv_flow_def by blast

lemma route_segment_props:
  assumes "plan_ready c cfg tpe topk s" "route \<in> {0..<c_cap c}"
  defines "m \<equiv> route_segment s topk route"
  shows "List.find (segment_holds (topk route) (ordinal_of topk route)) (tokenSegments s) = Some m"
    "m \<in> set (segmentLog s)" "srcRank m = c_rank c" "expertId m = topk route"
    "srcExpertBegin m \<le> ordinal_of topk route" "ordinal_of topk route < srcExpertBegin m + tokenCount m"
    "dstRank m \<in> ranks_of c"
    "0 \<le> dstExpertBegin m" "dstExpertBegin m + tokenCount m \<le> at c (alloc s) (dstRank m) (topk route)"
proof -
  let ?e = "topk route" and ?o = "ordinal_of topk route"
  have rdy: "plan_full c tpe s" "c_rank c \<in> ranks_of c" "?e \<in> experts_of c"
    "at c tpe (c_rank c) ?e = int (card {r \<in> {0..<c_cap c}. topk r = ?e})"
    using assms(1,2) unfolding plan_ready_def by blast+
  have fl: "inv_flow c tpe s" "at c (remainingTpe s) (c_rank c) ?e = 0"
    "\<And>d. d \<in> ranks_of c \<Longrightarrow> at c (dstExpertCursor s) d ?e = at c (alloc s) d ?e"
    using rdy unfolding plan_full_def by blast+
  have src: "chained srcExpertBegin 0 (segs_from s (c_rank c) ?e) (at c tpe (c_rank c) ?e)"
    using inv_flow_srcD [OF fl(1) rdy(2,3)] fl(2) by auto
  have own: "tokenSegments s = filter (\<lambda>m. srcRank m = c_rank c) (segmentLog s)"
    using fl(1) unfolding inv_flow_def by blast
  have "0 \<le> ?o" "?o < at c tpe (c_rank c) ?e" using ordinal_less [OF assms(2), of topk] rdy(4) by simp_all
  then obtain x where x: "x \<in> set (segs_from s (c_rank c) ?e)" "srcExpertBegin x \<le> ?o" "?o < srcExpertBegin x + tokenCount x"
    using chained_cover [OF src] by blast
  then have "x \<in> set (tokenSegments s) \<and> segment_holds ?e ?o x"
    by (auto simp: own segs_from_def segment_holds_def)
  then obtain y where y: "List.find (segment_holds ?e ?o) (tokenSegments s) = Some y"
    using find_exists [of "tokenSegments s" "segment_holds ?e ?o"] by auto
  then have my: "m = y" by (simp add: m_def route_segment_def)
  then show fm: "List.find (segment_holds ?e ?o) (tokenSegments s) = Some m" using y by simp
  have m: "m \<in> set (tokenSegments s)" "segment_holds ?e ?o m" using find_Some_spec [OF fm] by blast+
  show "m \<in> set (segmentLog s)" "srcRank m = c_rank c" using m(1) by (auto simp: own)
  show e: "expertId m = ?e" and "srcExpertBegin m \<le> ?o" "?o < srcExpertBegin m + tokenCount m"
    using m(2) by (auto simp: segment_holds_def)
  show d: "dstRank m \<in> ranks_of c" using \<open>m \<in> set (segmentLog s)\<close> fl(1) unfolding inv_flow_def by blast
  have "chained dstExpertBegin 0 (segs_to s (dstRank m) ?e) (at c (alloc s) (dstRank m) ?e)"
    using inv_flow_dstD [OF fl(1) d rdy(3)] fl(3) [OF d] by simp
  moreover have "m \<in> set (segs_to s (dstRank m) ?e)" using \<open>m \<in> set (segmentLog s)\<close> e by (simp add: segs_to_def)
  ultimately show "0 \<le> dstExpertBegin m" "dstExpertBegin m + tokenCount m \<le> at c (alloc s) (dstRank m) ?e"
    using chained_mem by blast+
qed

lemma route_offset_bounds:
  assumes "plan_ready c cfg tpe topk s" "route \<in> {0..<c_cap c}"
  defines "m \<equiv> route_segment s topk route"
  shows "at c (expertPhysicalBase s) (dstRank m) (topk route) \<le> route_offset c s topk route"
    "route_offset c s topk route < at c (expertPhysicalBase s) (dstRank m) (topk route) + at c (alloc s) (dstRank m) (topk route)"
    "0 \<le> route_offset c s topk route" "route_offset c s topk route < nvS cfg"
    "0 \<le> route_raw c cfg s topk route" "route_raw c cfg s topk route < c_rankSize c * nvS cfg"
    "route_raw c cfg s topk route div nvS cfg = dstRank m" "route_raw c cfg s topk route mod nvS cfg = route_offset c s topk route"
proof -
  note p = route_segment_props [OF assms(1,2), folded m_def]
  have e: "topk route \<in> experts_of c" using assms(1,2) unfolding plan_ready_def by blast
  have pl: "placed c (nvS cfg) (alloc s) (expertPhysicalBase s) (dstRank m)"
    using assms(1) p(7) unfolding plan_ready_def by blast
  note b = placed_bounds [OF pl e]
  show lo: "at c (expertPhysicalBase s) (dstRank m) (topk route) \<le> route_offset c s topk route"
    "route_offset c s topk route < at c (expertPhysicalBase s) (dstRank m) (topk route) + at c (alloc s) (dstRank m) (topk route)"
    using p(5,6,8,9) by (simp_all add: route_offset_def Let_def m_def)
  then show off: "0 \<le> route_offset c s topk route" "route_offset c s topk route < nvS cfg" using b by linarith+
  have raw: "route_raw c cfg s topk route = dstRank m * nvS cfg + route_offset c s topk route"
    by (simp add: route_raw_def m_def)
  show "route_raw c cfg s topk route div nvS cfg = dstRank m" "route_raw c cfg s topk route mod nvS cfg = route_offset c s topk route"
    unfolding raw using off by simp_all
  show "0 \<le> route_raw c cfg s topk route" "route_raw c cfg s topk route < c_rankSize c * nvS cfg"
    using ReIndex_range [of "dstRank m" "c_rankSize c" "route_offset c s topk route" "nvS cfg"] p(7) off
    by (simp_all add: raw ReIndex_def)
qed

section \<open>All routes of a rank\<close>

definition route_first :: "plan_state \<Rightarrow> int arr \<Rightarrow> int \<Rightarrow> int \<Rightarrow> bool" where
  "route_first s topk topK route = (\<forall>prior\<in>{0..<route mod topK}.
     dstRank (route_segment s topk (route - route mod topK + prior)) \<noteq> dstRank (route_segment s topk route))"

definition route_code :: "plan_ctx \<Rightarrow> plan_config \<Rightarrow> plan_state \<Rightarrow> int arr \<Rightarrow> int \<Rightarrow> int \<Rightarrow> int" where
  "route_code c cfg s topk topK route =
    (if route_first s topk topK route then route_raw c cfg s topk route else NOT (route_raw c cfg s topk route))"

lemma raw_of_code:
  "0 \<le> route_raw c cfg s topk route \<Longrightarrow> raw_of (route_code c cfg s topk topK route) = route_raw c cfg s topk route"
  by (simp add: route_code_def raw_of_def not_int_def)

lemma token_routes_eq:
  assumes "0 < topK" "0 \<le> tokens"
  shows "token_routes tokens topK = map (\<lambda>r. (r div topK, r mod topK)) [0..tokens * topK - 1]"
proof -
  have "token_routes (int n) topK = map (\<lambda>r. (r div topK, r mod topK)) [0..int n * topK - 1]" for n
  proof (induction n)
    case (Suc n)
    have up: "[0..int (Suc n) - 1] = [0..int n - 1] @ [int n]" by (simp add: upto_rec2)
    have shift: "map (\<lambda>k. k + a) [0..topK - 1] = [a..a + topK - 1]" for a
      by (rule nth_equalityI) (auto simp: assms)
    have sp: "[0..int (Suc n) * topK - 1] = [0..int n * topK - 1] @ [int n * topK..int n * topK + topK - 1]"
      using upto_split1 [of 0 "int n * topK" "int (Suc n) * topK - 1"] assms by (simp add: algebra_simps)
    have "map (\<lambda>r. (r div topK, r mod topK)) [int n * topK..int n * topK + topK - 1] = map (\<lambda>k. (int n, k)) [0..topK - 1]"
      unfolding shift [symmetric] by (simp add: comp_def)
    then show ?case using Suc unfolding token_routes_def up sp by simp
  qed (simp add: token_routes_def)
  from this [of "nat tokens"] show ?thesis using assms by simp
qed

lemma dst_routes_append:
  "dst_routes c cfg s topk ords K xs d = (PLAN_OK, d') \<Longrightarrow>
    dst_routes c cfg s topk ords K (xs @ ys) d = dst_routes c cfg s topk ords K ys d'"
proof (induction xs arbitrary: d)
  case (Cons x xs)
  obtain t k where x: "x = (t, k)" by fastforce
  show ?case
  proof (cases "List.find (segment_holds (topk (t * K + k)) (ords (t * K + k))) (tokenSegments s)")
    case (Some m)
    then show ?thesis using Cons.prems Cons.IH unfolding x by (simp add: Let_def split: if_splits)
  qed (use Cons.prems x in simp)
qed simp

lemma route_split: "0 < K \<Longrightarrow> (r div K) * K + r mod K = (r :: int)" "r - r mod K = (r div K) * (K :: int)"
  by (simp_all add: minus_mod_eq_div_mult)

lemma first_to_rank_eq:
  assumes rdy: "plan_ready c cfg tpe topk s" and r: "0 \<le> r" "r < c_cap c" and K: "0 < K"
    and d: "\<forall>x\<in>{0..<r}. d x = route_code c cfg s topk K x"
  shows "first_to_rank d K (nvS cfg) (r div K) (r mod K) (dstRank (route_segment s topk r)) = route_first s topk K r"
proof -
  have "raw_of (d (r div K * K + p)) div nvS cfg = dstRank (route_segment s topk (r - r mod K + p))"
    if p: "p \<in> {0..<r mod K}" for p
  proof -
    have lt: "r div K * K + p \<in> {0..<r}"
    proof -
      have "p < r mod K" using p by simp
      then have "r div K * K + p < r" using route_split(1) [OF K, of r] by linarith
      then show ?thesis using p r K by (simp add: pos_imp_zdiv_nonneg_iff)
    qed
    then have x: "r div K * K + p \<in> {0..<c_cap c}" using r by simp
    note b = route_offset_bounds [OF rdy x]
    show ?thesis using d lt raw_of_code [OF b(5)] b(7) by (simp add: route_split(2))
  qed
  then show ?thesis by (auto simp: first_to_rank_def route_first_def list_ex_iff)
qed

lemma dst_routes_prefix:
  assumes rdy: "plan_ready c cfg tpe topk s" and K: "0 < K" and ords: "\<forall>r\<in>{0..<c_cap c}. ords r = ordinal_of topk r"
  shows "int n \<le> c_cap c \<Longrightarrow>
    \<exists>d'. dst_routes c cfg s topk ords K (map (\<lambda>r. (r div K, r mod K)) [0..int n - 1]) d = (PLAN_OK, d') \<and>
      (\<forall>r\<in>{0..<int n}. d' r = route_code c cfg s topk K r) \<and> (\<forall>r. r \<notin> {0..<int n} \<longrightarrow> d' r = d r)"
proof (induction n)
  case (Suc n)
  let ?r = "int n"
  have r: "?r \<in> {0..<c_cap c}" using Suc.prems by simp
  obtain d' where ih: "dst_routes c cfg s topk ords K (map (\<lambda>r. (r div K, r mod K)) [0..int n - 1]) d = (PLAN_OK, d')"
    "\<forall>r\<in>{0..<int n}. d' r = route_code c cfg s topk K r" "\<forall>r. r \<notin> {0..<int n} \<longrightarrow> d' r = d r"
    using Suc by auto
  have up: "[0..int (Suc n) - 1] = [0..int n - 1] @ [int n]" by (simp add: upto_rec2)
  define m where "m = route_segment s topk ?r"
  note p = route_segment_props [OF rdy r, folded m_def] and b = route_offset_bounds [OF rdy r, folded m_def]
  have idx: "?r div K * K + ?r mod K = ?r" by (rule route_split(1) [OF K])
  have off: "expertPhysicalBase s (ReIndex (dstRank m) (topk ?r) (c_expertNum c)) + dstExpertBegin m +
      (ordinal_of topk ?r - srcExpertBegin m) = route_offset c s topk ?r"
    by (simp add: route_offset_def m_def at_def Let_def)
  have raw: "dstRank m * nvS cfg + route_offset c s topk ?r = route_raw c cfg s topk ?r"
    by (simp add: route_raw_def m_def)
  have mx: "c_rankSize c * nvS cfg \<le> INT32_MAX" using rdy unfolding plan_ready_def by blast
  have fst: "first_to_rank d' K (nvS cfg) (?r div K) (?r mod K) (dstRank m) = route_first s topk K ?r"
    using first_to_rank_eq [OF rdy _ _ K ih(2)] r by (simp add: m_def)
  have chk: "\<not> (route_offset c s topk ?r < 0 \<or> nvS cfg \<le> route_offset c s topk ?r \<or>
      route_raw c cfg s topk ?r < 0 \<or> INT32_MAX < route_raw c cfg s topk ?r)"
    using b mx by linarith
  have "dst_routes c cfg s topk ords K [(?r div K, ?r mod K)] d' = (PLAN_OK, d'(?r := route_code c cfg s topk K ?r))"
    using p(1) chk ords r
    by (simp only: dst_routes.simps Let_def idx off raw fst option.case if_False route_code_def)
  then have "dst_routes c cfg s topk ords K (map (\<lambda>r. (r div K, r mod K)) [0..int (Suc n) - 1]) d
      = (PLAN_OK, d'(?r := route_code c cfg s topk K ?r))"
    unfolding up map_append by (subst dst_routes_append [OF ih(1)]) simp
  then show ?case using ih(2,3) by (intro exI [of _ "d'(?r := route_code c cfg s topk K ?r)"]) auto
qed simp

text \<open>\<open>BuildDst\<close> never fails on a finished plan, and writes the code of every route.\<close>

lemma BuildDst_codes:
  assumes rdy: "plan_ready c (in_config inp) tpe (deref (in_topkExperts inp)) s"
    and K: "0 < in_topK inp" "0 < in_s inp" "c_cap c = in_s inp * in_topK inp"
  shows "\<exists>d'. BuildDst c inp s d = (PLAN_OK, d') \<and>
    (\<forall>r\<in>{0..<c_cap c}. d' r = route_code c (in_config inp) s (deref (in_topkExperts inp)) (in_topK inp) r) \<and>
    (\<forall>r. r \<notin> {0..<c_cap c} \<longrightarrow> d' r = d r)"
proof -
  let ?topk = "deref (in_topkExperts inp)"
  have "\<forall>r\<in>{0..<c_cap c}. fst (route_ordinals ?topk (c_cap c)) r = ordinal_of ?topk r"
    using route_ordinals_eq by blast
  from dst_routes_prefix [OF rdy K(1) this, of "nat (c_cap c)" "clear (c_cap c) 0 d"] K
  obtain d' where "dst_routes c (in_config inp) s ?topk (fst (route_ordinals ?topk (c_cap c))) (in_topK inp)
      (map (\<lambda>r. (r div in_topK inp, r mod in_topK inp)) [0..c_cap c - 1]) (clear (c_cap c) 0 d) = (PLAN_OK, d')"
    "\<forall>r\<in>{0..<c_cap c}. d' r = route_code c (in_config inp) s ?topk (in_topK inp) r"
    "\<forall>r. r \<notin> {0..<c_cap c} \<longrightarrow> d' r = clear (c_cap c) 0 d r"
    by auto
  then show ?thesis using K token_routes_eq [of "in_topK inp" "in_s inp"]
    by (auto simp: BuildDst_def clear_def)
qed

end
