(* ===== verification/PlanAgree.thy ===== *)
theory PlanAgree
  imports PlanDst
begin

text \<open>
  The plan does not depend on the rank that computes it: two ranks that start from the same
  tables reach the same loads, allocations, cursors and layout, and differ only in the segments
  they keep for themselves.
\<close>

section \<open>Runs on different ranks\<close>

text \<open>Two ranks run the same plan: contexts differ in the own rank and in the room for own
  segments only, states in the own segments only.\<close>

definition same_ctx :: "plan_ctx \<Rightarrow> plan_ctx \<Rightarrow> bool" where
  "same_ctx c c' = (c\<lparr> c_rank := 0, c_segmentCapacity := 0 \<rparr> = c'\<lparr> c_rank := 0, c_segmentCapacity := 0 \<rparr>)"

definition same_plan :: "plan_state \<Rightarrow> plan_state \<Rightarrow> bool" where
  "same_plan s s' = (s\<lparr> tokenSegments := [] \<rparr> = s'\<lparr> tokenSegments := [] \<rparr>)"

lemma same_ctx_fields:
  assumes "same_ctx c c'"
  shows "c_rankSize c' = c_rankSize c" "c_expertNum c' = c_expertNum c" "c_expertsPerRank c' = c_expertsPerRank c"
    "c_cap c' = c_cap c" "c_b c' = c_b c" "c_routeLimit c' = c_routeLimit c" "c_globalRankIds c' = c_globalRankIds c"
  using assms unfolding same_ctx_def by (cases c; cases c'; simp)+

lemma same_plan_fields:
  assumes "same_plan s s'"
  shows "rankLoad s' = rankLoad s" "remainingTpe s' = remainingTpe s" "alloc s' = alloc s"
    "remoteExpertSet s' = remoteExpertSet s" "remoteCount s' = remoteCount s" "srcExpertCursor s' = srcExpertCursor s"
    "dstExpertCursor s' = dstExpertCursor s" "expertPhysicalBase s' = expertPhysicalBase s"
    "routedPairTokens s' = routedPairTokens s" "affinityOrder s' = affinityOrder s" "segmentLog s' = segmentLog s"
    "fatal s' = fatal s"
  using assms unfolding same_plan_def by (cases s; cases s'; simp)+

lemma same_plan_upd:
  assumes "same_plan s s'"
  shows "same_plan (s\<lparr> slotBlock := True \<rparr>) (s'\<lparr> slotBlock := True \<rparr>)"
    "same_plan (s\<lparr> pairBlock := True \<rparr>) (s'\<lparr> pairBlock := True \<rparr>)"
    "same_plan (s\<lparr> supplyBlock := True \<rparr>) (s'\<lparr> supplyBlock := True \<rparr>)"
    "same_plan (s\<lparr> intraRounds := intraRounds s + 1 \<rparr>) (s'\<lparr> intraRounds := intraRounds s' + 1 \<rparr>)"
    "same_plan (s\<lparr> interRounds := interRounds s + 1 \<rparr>) (s'\<lparr> interRounds := interRounds s' + 1 \<rparr>)"
  using assms unfolding same_plan_def by (cases s; cases s'; simp)+

lemma AppendSegment_same:
  assumes "same_plan s s'" "AppendSegment c s e src dst a b n = (True, s1)" "AppendSegment c' s' e src dst a b n = (True, s1')"
  shows "same_plan s1 s1'"
  using assms by (cases s; cases s') (auto simp: same_plan_def AppendSegment_def Let_def split: if_splits)

lemma record_take_same:
  assumes "same_ctx c c'" "same_plan s s'"
  shows "same_plan (record_take c s e src dst k) (record_take c' s' e src dst k)"
  using assms(2) same_ctx_fields [OF assms(1)] by (cases s; cases s') (simp add: same_plan_def record_take_def Let_def)

lemma commit_move_same:
  assumes "same_ctx c c'" "same_plan s s'"
  shows "same_plan (commit_move c s h d e ar k) (commit_move c' s' h d e ar k)"
  using assms(2) same_ctx_fields [OF assms(1)] by (cases s; cases s') (simp add: same_plan_def commit_move_def Let_def)

lemma note_block_same:
  assumes "same_ctx c c'" "same_plan s s'"
  shows "same_plan (note_block c s d e) (note_block c' s' d e)"
  unfolding note_block_def Let_def same_ctx_fields [OF assms(1)] same_plan_fields [OF assms(2)]
  using assms(2) same_plan_upd [OF assms(2)] by simp

lemma take_sources_same:
  assumes "same_ctx c c'" "same_plan s s'"
    "take_sources c e dst srcs s d a = (s1, d1, a1)" "take_sources c' e dst srcs s' d a = (s1', d1', a1')"
    "fatal s1 = PLAN_OK" "fatal s1' = PLAN_OK"
  shows "same_plan s1 s1' \<and> d1' = d1 \<and> a1' = a1"
  using assms(2-6)
proof (induction srcs arbitrary: s s' d a)
  case (Cons src srcs)
  note fc = same_ctx_fields [OF assms(1)] and fs = same_plan_fields [OF Cons.prems(1)]
  define k where "k = MinI32 (MinI32 (remainingTpe s (ReIndex src e (c_expertNum c))) d) (pair_remain c s src dst d)"
  have pr: "pair_remain c' s' src dst d = pair_remain c s src dst d" by (simp add: pair_remain_def fc fs)
  obtain ok t where app: "AppendSegment c s e src dst (srcExpertCursor s (ReIndex src e (c_expertNum c)))
      (dstExpertCursor s (ReIndex dst e (c_expertNum c))) k = (ok, t)" by fastforce
  obtain ok' t' where app': "AppendSegment c' s' e src dst (srcExpertCursor s (ReIndex src e (c_expertNum c)))
      (dstExpertCursor s (ReIndex dst e (c_expertNum c))) k = (ok', t')" by fastforce
  have st: "take_sources c e dst (src # srcs) s d a = (if d \<le> 0 then (s, d, a)
      else if k \<le> 0 then take_sources c e dst srcs s d a else if \<not> ok then (t, d, a)
      else take_sources c e dst srcs (record_take c t e src dst k) (d - k) (a + k))"
    by (simp add: k_def [symmetric] Let_def app)
  have st': "take_sources c' e dst (src # srcs) s' d a = (if d \<le> 0 then (s', d, a)
      else if k \<le> 0 then take_sources c' e dst srcs s' d a else if \<not> ok' then (t', d, a)
      else take_sources c' e dst srcs (record_take c' t' e src dst k) (d - k) (a + k))"
    by (simp add: fc fs pr k_def [symmetric] Let_def app')
  show ?case
  proof (cases "d \<le> 0 \<or> k \<le> 0")
    case True
    then show ?thesis using Cons.prems Cons.IH [OF Cons.prems(1)] st st' by (cases "d \<le> 0") auto
  next
    case False
    have ok: ok ok' using Cons.prems(2-5) st st' False AppendSegment_frame(13) [OF app] AppendSegment_frame(13) [OF app']
      by (cases ok; cases ok'; simp)+
    have "same_plan t t'" using AppendSegment_same [OF Cons.prems(1)] app app' ok by simp
    from record_take_same [OF assms(1) this] show ?thesis
      using Cons.prems(2-5) st st' False ok by (intro Cons.IH) auto
  qed
qed simp

lemma FindRemote_same:
  assumes "same_ctx c c'" "same_plan s s'"
  shows "FindRemote c' s' d e = FindRemote c s d e"
  by (simp add: FindRemote_def same_ctx_fields [OF assms(1)] same_plan_fields [OF assms(2)])

lemma move_experts_same:
  assumes "same_ctx c c'" "same_plan s s'"
    "move_experts c h dst es s d f = (s1, d1, f1)" "move_experts c' h dst es s' d f = (s1', d1', f1')"
    "fatal s1 = PLAN_OK" "fatal s1' = PLAN_OK"
  shows "same_plan s1 s1' \<and> d1' = d1 \<and> f1' = f1"
  using assms(2-6)
proof (induction es arbitrary: s s' d f)
  case (Cons e es)
  note fc = same_ctx_fields [OF assms(1)] and fs = same_plan_fields [OF Cons.prems(1)]
  define av where "av = alloc s (ReIndex h e (c_expertNum c))"
  define ar where "ar = (FindRemote c s dst e \<ge> 0)"
  define body where "body = (\<lambda>c t (ed :: int) k. let s2 = (if k > 0 then commit_move c t h dst e ar k else t)
      in if ed > 0 then note_block c s2 dst e else s2)"
  obtain t ed k where ts: "take_sources c e dst (row_of (affinityOrder s) dst (c_rankSize c)) s (MinI32 av d) 0 = (t, ed, k)"
    by (metis prod_cases3)
  obtain t' ed' k' where ts': "take_sources c' e dst (row_of (affinityOrder s) dst (c_rankSize c)) s' (MinI32 av d) 0 = (t', ed', k')"
    by (metis prod_cases3)
  have st: "move_experts c h dst (e # es) s d f = (if d \<le> 0 then (s, d, f) else if av \<le> 0 then move_experts c h dst es s d f
      else if \<not> ar \<and> remoteCount s dst \<ge> c_b c then move_experts c h dst es (s\<lparr> slotBlock := True \<rparr>) d f
      else if fatal t \<noteq> PLAN_OK then (t, d, True)
      else move_experts c h dst es (body c t ed k) (if k > 0 then d - k else d) True)"
    by (simp add: av_def [symmetric] ar_def [symmetric] Let_def ts body_def)
  have st': "move_experts c' h dst (e # es) s' d f = (if d \<le> 0 then (s', d, f) else if av \<le> 0 then move_experts c' h dst es s' d f
      else if \<not> ar \<and> remoteCount s dst \<ge> c_b c then move_experts c' h dst es (s'\<lparr> slotBlock := True \<rparr>) d f
      else if fatal t' \<noteq> PLAN_OK then (t', d, True)
      else move_experts c' h dst es (body c' t' ed' k') (if k' > 0 then d - k' else d) True)"
    by (simp add: fc fs av_def [symmetric] FindRemote_same [OF assms(1) Cons.prems(1)] ar_def [symmetric] Let_def ts' body_def)
  consider "d \<le> 0" | "0 < d" "av \<le> 0" | "0 < d" "0 < av" "\<not> ar \<and> remoteCount s dst \<ge> c_b c"
    | "0 < d" "0 < av" "\<not> (\<not> ar \<and> remoteCount s dst \<ge> c_b c)" by linarith
  then show ?case
  proof cases
    case 1 then show ?thesis using Cons.prems st st' by simp
  next
    case 2 then show ?thesis using Cons.prems Cons.IH [OF Cons.prems(1)] st st' by simp
  next
    case 3 then show ?thesis using Cons.prems Cons.IH [OF same_plan_upd(1) [OF Cons.prems(1)]] st st' by simp
  next
    case 4
    have f: "fatal t = PLAN_OK" "fatal t' = PLAN_OK"
      using Cons.prems(2-5) st st' 4 by (cases "fatal t = PLAN_OK"; cases "fatal t' = PLAN_OK"; simp)+
    note tt = take_sources_same [OF assms(1) Cons.prems(1) ts ts' f]
    have "same_plan (body c t ed k) (body c' t' ed' k')"
      using tt commit_move_same [OF assms(1)] note_block_same [OF assms(1)] by (simp add: body_def Let_def)
    then show ?thesis using Cons.prems(2-5) st st' 4 f tt by (intro Cons.IH) auto
  qed
qed simp

lemma ApplyExpertMove_same:
  assumes "same_ctx c c'" "same_plan s s'"
    "ApplyExpertMove c s h dst r = (s1, k)" "ApplyExpertMove c' s' h dst r = (s1', k')"
    "fatal s1 = PLAN_OK" "fatal s1' = PLAN_OK"
  shows "same_plan s1 s1' \<and> k' = k"
proof -
  note fc = same_ctx_fields [OF assms(1)] and fs = same_plan_fields [OF assms(2)]
  have eo: "expert_order_of c' s' h = expert_order_of c s h" by (simp add: expert_order_of_def fc fs)
  obtain t d f where mv: "move_experts c h dst (expert_order_of c s h) s r False = (t, d, f)" by (metis prod_cases3)
  obtain t' d' f' where mv': "move_experts c' h dst (expert_order_of c s h) s' r False = (t', d', f')" by (metis prod_cases3)
  have st: "ApplyExpertMove c s h dst r = (if r \<le> 0 \<or> h = dst \<or> fatal s \<noteq> PLAN_OK then (s, 0)
      else if fatal t \<noteq> PLAN_OK then (t, 0) else (if d > 0 \<and> \<not> f then t\<lparr> pairBlock := True \<rparr> else t, r - d))"
    by (simp add: ApplyExpertMove_def mv)
  have st': "ApplyExpertMove c' s' h dst r = (if r \<le> 0 \<or> h = dst \<or> fatal s \<noteq> PLAN_OK then (s', 0)
      else if fatal t' \<noteq> PLAN_OK then (t', 0) else (if d' > 0 \<and> \<not> f' then t'\<lparr> pairBlock := True \<rparr> else t', r - d'))"
    by (simp add: ApplyExpertMove_def eo mv' fs)
  show ?thesis
  proof (cases "r \<le> 0 \<or> h = dst \<or> fatal s \<noteq> PLAN_OK")
    case True
    then show ?thesis using assms(2-4) st st' by auto
  next
    case False
    have r: "(if fatal t \<noteq> PLAN_OK then (t, 0) else (if d > 0 \<and> \<not> f then t\<lparr> pairBlock := True \<rparr> else t, r - d)) = (s1, k)"
      "(if fatal t' \<noteq> PLAN_OK then (t', 0) else (if d' > 0 \<and> \<not> f' then t'\<lparr> pairBlock := True \<rparr> else t', r - d')) = (s1', k')"
      using False by (simp_all only: assms(3) [symmetric] assms(4) [symmetric] st st' if_False)
    have ff: "fatal t = PLAN_OK" using r(1) assms(5) by (cases "fatal t = PLAN_OK") simp_all
    have ff': "fatal t' = PLAN_OK" using r(2) assms(6) by (cases "fatal t' = PLAN_OK") simp_all
    note tt = move_experts_same [OF assms(1,2) mv mv' ff ff']
    have "s1 = (if d > 0 \<and> \<not> f then t\<lparr> pairBlock := True \<rparr> else t)" "k = r - d" using r(1) ff by simp_all
    moreover have "s1' = (if d > 0 \<and> \<not> f then t'\<lparr> pairBlock := True \<rparr> else t')" "k' = r - d" using r(2) ff' tt by simp_all
    ultimately show ?thesis using tt same_plan_upd(2) [of t t'] by simp
  qed
qed

lemma run_pairs_same:
  assumes "same_ctx c c'" "same_plan s s'" "run_pairs c ps s n = (s1, m)" "run_pairs c' ps s' n = (s1', m')"
    "fatal s1 = PLAN_OK" "fatal s1' = PLAN_OK"
  shows "same_plan s1 s1' \<and> m' = m"
  using assms(2-6)
proof (induction ps arbitrary: s s' n)
  case (Cons p ps)
  obtain a b where p: "p = (a, b)" by fastforce
  note fc = same_ctx_fields [OF assms(1)] and fs = same_plan_fields [OF Cons.prems(1)]
  define r where "r = MinI32 (rankLoad s a - c_cap c) (c_cap c - rankLoad s b)"
  obtain t k where am: "(if r > 0 then ApplyExpertMove c s a b r else (s, 0)) = (t, k)" by fastforce
  obtain t' k' where am': "(if r > 0 then ApplyExpertMove c' s' a b r else (s', 0)) = (t', k')" by fastforce
  have st: "(if fatal t \<noteq> PLAN_OK then (t, n + k) else run_pairs c ps t (n + k)) = (s1, m)"
    using Cons.prems(2) by (simp only: p run_pairs.simps r_def [symmetric] Let_def am prod.case)
  have st': "(if fatal t' \<noteq> PLAN_OK then (t', n + k') else run_pairs c' ps t' (n + k')) = (s1', m')"
    using Cons.prems(3) by (simp only: p run_pairs.simps fc fs r_def [symmetric] Let_def am' prod.case)
  have f: "fatal t = PLAN_OK" using st Cons.prems(4) by (cases "fatal t = PLAN_OK") simp_all
  have f': "fatal t' = PLAN_OK" using st' Cons.prems(5) by (cases "fatal t' = PLAN_OK") simp_all
  have tt: "same_plan t t' \<and> k' = k"
  proof (cases "r > 0")
    case True
    then show ?thesis using ApplyExpertMove_same [OF assms(1) Cons.prems(1) _ _ f f'] am am' by simp
  next
    case False
    then show ?thesis using am am' Cons.prems(1) by simp
  qed
  show ?case using Cons.IH [OF conjunct1 [OF tt] _ _ Cons.prems(4,5)] st st' f f' tt by simp
qed simp

lemma try_candidates_same:
  assumes "same_ctx c c'" "same_plan s s'" "try_candidates c sd dst srcs i occ s n = (s1, o1, m)"
    "try_candidates c' sd dst srcs i occ s' n = (s1', o1', m')" "fatal s1 = PLAN_OK" "fatal s1' = PLAN_OK"
  shows "same_plan s1 s1' \<and> o1' = o1 \<and> m' = m"
  using assms(2-6)
proof (induction srcs arbitrary: s s' i)
  case (Cons src srcs)
  note fc = same_ctx_fields [OF assms(1)] and fs = same_plan_fields [OF Cons.prems(1)]
  define r where "r = MinI32 (rankLoad s src - c_cap c) (c_cap c - rankLoad s dst)"
  obtain t k where am: "ApplyExpertMove c s src dst r = (t, k)" by fastforce
  obtain t' k' where am': "ApplyExpertMove c' s' src dst r = (t', k')" by fastforce
  have st: "(if i \<ge> kPlanCrossCandidateCount then (s, occ, n)
      else if \<not> RankInList src sd then try_candidates c sd dst srcs i occ s n
      else if src \<in> occ then try_candidates c sd dst srcs (i + 1) occ s n
      else if r \<le> 0 then try_candidates c sd dst srcs (i + 1) occ s n
      else if fatal t \<noteq> PLAN_OK then (t, occ, n) else if k > 0 then (t, insert src occ, n + k)
      else try_candidates c sd dst srcs (i + 1) occ t n) = (s1, o1, m)"
    using Cons.prems(2) by (simp only: try_candidates.simps r_def [symmetric] Let_def am prod.case)
  have st': "(if i \<ge> kPlanCrossCandidateCount then (s', occ, n)
      else if \<not> RankInList src sd then try_candidates c' sd dst srcs i occ s' n
      else if src \<in> occ then try_candidates c' sd dst srcs (i + 1) occ s' n
      else if r \<le> 0 then try_candidates c' sd dst srcs (i + 1) occ s' n
      else if fatal t' \<noteq> PLAN_OK then (t', occ, n) else if k' > 0 then (t', insert src occ, n + k')
      else try_candidates c' sd dst srcs (i + 1) occ t' n) = (s1', o1', m')"
    using Cons.prems(3) by (simp only: try_candidates.simps fc fs r_def [symmetric] Let_def am' prod.case)
  consider "i \<ge> kPlanCrossCandidateCount" | "i < kPlanCrossCandidateCount" "\<not> RankInList src sd"
    | "i < kPlanCrossCandidateCount" "RankInList src sd" "src \<in> occ \<or> r \<le> 0"
    | "i < kPlanCrossCandidateCount" "RankInList src sd" "src \<notin> occ" "0 < r" by linarith
  then show ?case
  proof cases
    case 1 then show ?thesis using st st' Cons.prems(1) by simp
  next
    case 2 then show ?thesis using st st' Cons.IH [OF Cons.prems(1) _ _ Cons.prems(4,5)] by simp
  next
    case 3
    have "try_candidates c sd dst srcs (i + 1) occ s n = (s1, o1, m)" "try_candidates c' sd dst srcs (i + 1) occ s' n = (s1', o1', m')"
      using 3 st st' by (cases "src \<in> occ"; simp)+
    from Cons.IH [OF Cons.prems(1) this Cons.prems(4,5)] show ?thesis .
  next
    case 4
    have e: "(if fatal t \<noteq> PLAN_OK then (t, occ, n) else if k > 0 then (t, insert src occ, n + k)
        else try_candidates c sd dst srcs (i + 1) occ t n) = (s1, o1, m)"
      "(if fatal t' \<noteq> PLAN_OK then (t', occ, n) else if k' > 0 then (t', insert src occ, n + k')
        else try_candidates c' sd dst srcs (i + 1) occ t' n) = (s1', o1', m')"
      using 4 st st' by simp_all
    have f: "fatal t = PLAN_OK" using e(1) Cons.prems(4) by (cases "fatal t = PLAN_OK") simp_all
    have f': "fatal t' = PLAN_OK" using e(2) Cons.prems(5) by (cases "fatal t' = PLAN_OK") simp_all
    note tt = ApplyExpertMove_same [OF assms(1) Cons.prems(1) am am' f f']
    show ?thesis using e f f' tt Cons.IH [OF conjunct1 [OF tt] _ _ Cons.prems(4,5)] by (cases "k > 0") simp_all
  qed
qed simp

lemma run_receivers_same:
  assumes "same_ctx c c'" "same_plan s s'" "run_receivers c sd ds occ s n = (s1, m)" "run_receivers c' sd ds occ s' n = (s1', m')"
    "fatal s1 = PLAN_OK" "fatal s1' = PLAN_OK"
  shows "same_plan s1 s1' \<and> m' = m"
  using assms(2-6)
proof (induction ds arbitrary: s s' occ n)
  case (Cons d ds)
  note fc = same_ctx_fields [OF assms(1)] and fs = same_plan_fields [OF Cons.prems(1)]
  define row where "row = row_of (affinityOrder s) d (c_rankSize c)"
  obtain t o1 k where tc: "try_candidates c sd d row 0 occ s n = (t, o1, k)" by (metis prod_cases3)
  obtain t' o1' k' where tc': "try_candidates c' sd d row 0 occ s' n = (t', o1', k')" by (metis prod_cases3)
  have st: "(if fatal t \<noteq> PLAN_OK then (t, k) else run_receivers c sd ds o1 t k) = (s1, m)"
    using Cons.prems(2) by (simp only: run_receivers.simps row_def [symmetric] Let_def tc prod.case)
  have st': "(if fatal t' \<noteq> PLAN_OK then (t', k') else run_receivers c' sd ds o1' t' k') = (s1', m')"
    using Cons.prems(3) by (simp only: run_receivers.simps fc fs row_def [symmetric] Let_def tc' prod.case)
  have f: "fatal t = PLAN_OK" using st Cons.prems(4) by (cases "fatal t = PLAN_OK") simp_all
  have f': "fatal t' = PLAN_OK" using st' Cons.prems(5) by (cases "fatal t' = PLAN_OK") simp_all
  note tt = try_candidates_same [OF assms(1) Cons.prems(1) tc tc' f f']
  show ?case using st st' f f' tt Cons.IH [OF conjunct1 [OF tt] _ _ Cons.prems(4,5)] by simp
qed simp

lemma find_middle_same: "same_ctx c c' \<Longrightarrow> same_plan s s' \<Longrightarrow> find_middle c' s' xs m = find_middle c s xs m"
proof (induction m)
  case (Suc m)
  show ?case by (simp add: Suc same_ctx_fields [OF Suc.prems(1)] same_plan_fields [OF Suc.prems(2)])
qed simp

lemma intra_round_same:
  assumes "same_ctx c c'" "same_plan s s'" "intra_round c key s = (s1, g)" "intra_round c' key s' = (s1', g')"
    "fatal s1 = PLAN_OK" "fatal s1' = PLAN_OK"
  shows "same_plan s1 s1' \<and> g' = g"
proof -
  note fc = same_ctx_fields [OF assms(1)] and fs = same_plan_fields [OF assms(2)]
  let ?sort = "SortRanks (filter (\<lambda>r. server_key c r = key \<and> rankLoad s r \<noteq> c_cap c) [0..c_rankSize c - 1])
    (rankLoad s) (c_globalRankIds c) (c_rankSize c) False"
  have sk: "server_key c' = server_key c" by (simp add: server_key_def fun_eq_iff fc)
  obtain act where so: "?sort = Some act" using assms(3,5) by (cases ?sort) (auto simp: intra_round_def)
  define mid where "mid = find_middle c s act (length act div 2)"
  define ps where "ps = zip (filter (\<lambda>r. rankLoad s r > c_cap c) (rev (take mid act)))
    (filter (\<lambda>r. rankLoad s r < c_cap c) (drop mid act))"
  define stop where "stop = (length act < 2 \<or> rankLoad s (act ! 0) + rankLoad s (act ! 1) < c_cap c \<or>
    rankLoad s (act ! (length act - 1)) > c_cap c \<or> mid = 0)"
  obtain t m where rp: "run_pairs c ps s 0 = (t, m)" by fastforce
  obtain t' m' where rp': "run_pairs c' ps s' 0 = (t', m')" by fastforce
  have st: "(if stop then (s, False) else if fatal t \<noteq> PLAN_OK then (t, False)
      else if m = 0 then (t\<lparr> pairBlock := True \<rparr>, False) else (t\<lparr> intraRounds := intraRounds t + 1 \<rparr>, True)) = (s1, g)"
    unfolding assms(3) [symmetric] intra_round_def so
    by (simp add: mid_def [symmetric] ps_def [symmetric] rp stop_def Let_def)
  have st': "(if stop then (s', False) else if fatal t' \<noteq> PLAN_OK then (t', False)
      else if m' = 0 then (t'\<lparr> pairBlock := True \<rparr>, False) else (t'\<lparr> intraRounds := intraRounds t' + 1 \<rparr>, True)) = (s1', g')"
    unfolding assms(4) [symmetric] intra_round_def fc fs sk so
    by (simp add: find_middle_same [OF assms(1,2)] mid_def [symmetric] ps_def [symmetric] rp' stop_def Let_def)
  show ?thesis
  proof (cases stop)
    case True
    then show ?thesis using st st' assms(2) by simp
  next
    case False
    have f: "fatal t = PLAN_OK" using st False assms(5) by (cases "fatal t = PLAN_OK") simp_all
    have f': "fatal t' = PLAN_OK" using st' False assms(6) by (cases "fatal t' = PLAN_OK") simp_all
    note tt = run_pairs_same [OF assms(1,2) rp rp' f f']
    show ?thesis using st st' False f f' tt same_plan_upd [OF conjunct1 [OF tt]] by (cases "m = 0") auto
  qed
qed

lemma inter_round_same:
  assumes "same_ctx c c'" "same_plan s s'" "inter_round c s = (s1, g)" "inter_round c' s' = (s1', g')"
    "fatal s1 = PLAN_OK" "fatal s1' = PLAN_OK"
  shows "same_plan s1 s1' \<and> g' = g"
proof -
  note fc = same_ctx_fields [OF assms(1)] and fs = same_plan_fields [OF assms(2)]
  let ?act = "filter (\<lambda>r. rankLoad s r \<noteq> c_cap c) [0..c_rankSize c - 1]"
  let ?sort = "\<lambda>xs. SortRanks xs (rankLoad s) (c_globalRankIds c) (c_rankSize c)"
  define u where "u = length (filter (\<lambda>r. rankLoad s r < c_cap c) ?act)"
  define pre where "pre = (length ?act < 2 \<or> u = 0 \<or> u = length ?act)"
  have un: "inter_round c s = (if pre then (s, False) else case ?sort ?act False of
      None \<Rightarrow> (s\<lparr> fatal := PLAN_ERROR_INTERNAL_INVARIANT \<rparr>, False)
    | Some act \<Rightarrow> let rc = min u (length act div 2) in if rc = 0 then (s, False)
        else let n = length act - rc in case ?sort (drop n act) True of
          None \<Rightarrow> (s\<lparr> fatal := PLAN_ERROR_INTERNAL_INVARIANT \<rparr>, False)
        | Some rec \<Rightarrow> let (t, m) = run_receivers c (take n act) rec {} s 0
            in if fatal t \<noteq> PLAN_OK then (t, False) else if m = 0 then (t\<lparr> pairBlock := True \<rparr>, False)
               else (t\<lparr> interRounds := interRounds t + 1 \<rparr>, True))"
    unfolding inter_round_def Let_def u_def pre_def ..
  have un': "inter_round c' s' = (if pre then (s', False) else case ?sort ?act False of
      None \<Rightarrow> (s'\<lparr> fatal := PLAN_ERROR_INTERNAL_INVARIANT \<rparr>, False)
    | Some act \<Rightarrow> let rc = min u (length act div 2) in if rc = 0 then (s', False)
        else let n = length act - rc in case ?sort (drop n act) True of
          None \<Rightarrow> (s'\<lparr> fatal := PLAN_ERROR_INTERNAL_INVARIANT \<rparr>, False)
        | Some rec \<Rightarrow> let (t, m) = run_receivers c' (take n act) rec {} s' 0
            in if fatal t \<noteq> PLAN_OK then (t, False) else if m = 0 then (t\<lparr> pairBlock := True \<rparr>, False)
               else (t\<lparr> interRounds := interRounds t + 1 \<rparr>, True))"
    unfolding inter_round_def Let_def fc fs u_def pre_def ..
  show ?thesis
  proof (cases pre)
    case True
    then show ?thesis using un un' assms(2-4) by simp
  next
    case np: False
    obtain act where so: "?sort ?act False = Some act"
      using un np assms(3,5) by (cases "?sort ?act False") auto
    define n where "n = length act - min u (length act div 2)"
    show ?thesis
    proof (cases "min u (length act div 2) = 0")
      case True
      then show ?thesis using un un' np so assms(2-4) by (simp add: Let_def)
    next
      case nz: False
      obtain rec where so2: "?sort (drop n act) True = Some rec"
        using un np so nz assms(3,5) by (cases "?sort (drop n act) True") (auto simp: Let_def n_def [symmetric])
      obtain t m where rr: "run_receivers c (take n act) rec {} s 0 = (t, m)" by fastforce
      obtain t' m' where rr': "run_receivers c' (take n act) rec {} s' 0 = (t', m')" by fastforce
      have st: "(if fatal t \<noteq> PLAN_OK then (t, False) else if m = 0 then (t\<lparr> pairBlock := True \<rparr>, False)
          else (t\<lparr> interRounds := interRounds t + 1 \<rparr>, True)) = (s1, g)"
        unfolding assms(3) [symmetric] un
        by (simp only: np nz if_False so option.case Let_def n_def [symmetric] so2 rr prod.case)
      have st': "(if fatal t' \<noteq> PLAN_OK then (t', False) else if m' = 0 then (t'\<lparr> pairBlock := True \<rparr>, False)
          else (t'\<lparr> interRounds := interRounds t' + 1 \<rparr>, True)) = (s1', g')"
        unfolding assms(4) [symmetric] un'
        by (simp only: np nz if_False so option.case Let_def n_def [symmetric] so2 rr' prod.case)
      have f: "fatal t = PLAN_OK" using st assms(5) by (cases "fatal t = PLAN_OK") simp_all
      have f': "fatal t' = PLAN_OK" using st' assms(6) by (cases "fatal t' = PLAN_OK") simp_all
      note tt = run_receivers_same [OF assms(1,2) rr rr' f f']
      show ?thesis using st st' f f' tt same_plan_upd [OF conjunct1 [OF tt]] by (cases "m = 0") auto
    qed
  qed
qed

lemma overload_same: "same_ctx c c' \<Longrightarrow> same_plan s s' \<Longrightarrow> overload c' s' = overload c s"
proof -
  assume a: "same_ctx c c'" "same_plan s s'"
  show ?thesis by (simp add: overload_def same_ctx_fields [OF a(1)] same_plan_fields [OF a(2)])
qed

lemma intra_server_same:
  assumes "same_ctx c c'"
  shows "same_plan s s' \<Longrightarrow> fatal (intra_server c key s) = PLAN_OK \<Longrightarrow> fatal (intra_server c' key s') = PLAN_OK \<Longrightarrow>
    same_plan (intra_server c key s) (intra_server c' key s')"
proof (induction "nat (overload c s)" arbitrary: s s' rule: less_induct)
  case less
  obtain t g where r: "intra_round c key s = (t, g)" by fastforce
  obtain t' g' where r': "intra_round c' key s' = (t', g')" by fastforce
  have u: "intra_server c key s = (if g then intra_server c key t else t)" using r by (subst intra_server.simps) simp
  have u': "intra_server c' key s' = (if g' then intra_server c' key t' else t')" using r' by (subst intra_server.simps) simp
  have f: "fatal t = PLAN_OK" using less.prems(2) u intra_round_True_fatal [of c key s t] r by (cases g) simp_all
  have f': "fatal t' = PLAN_OK" using less.prems(3) u' intra_round_True_fatal [of c' key s' t'] r' by (cases g') simp_all
  note tt = intra_round_same [OF assms less.prems(1) r r' f f']
  show ?case
  proof (cases g)
    case True
    then have "overload c t < overload c s" using intra_round_overload [of c key s t] r by simp
    then have "nat (overload c t) < nat (overload c s)" using overload_nonneg [of c t] by linarith
    then show ?thesis using less.hyps [of t t'] less.prems u u' tt True by simp
  next
    case False
    then show ?thesis using u u' tt by simp
  qed
qed

lemma RunInter_same:
  assumes "same_ctx c c'"
  shows "same_plan s s' \<Longrightarrow> fatal (RunInter c s) = PLAN_OK \<Longrightarrow> fatal (RunInter c' s') = PLAN_OK \<Longrightarrow>
    same_plan (RunInter c s) (RunInter c' s')"
proof (induction "nat (overload c s)" arbitrary: s s' rule: less_induct)
  case less
  obtain t g where r: "inter_round c s = (t, g)" by fastforce
  obtain t' g' where r': "inter_round c' s' = (t', g')" by fastforce
  have u: "RunInter c s = (if g then RunInter c t else t)" using r by (subst RunInter.simps) simp
  have u': "RunInter c' s' = (if g' then RunInter c' t' else t')" using r' by (subst RunInter.simps) simp
  have f: "fatal t = PLAN_OK" using less.prems(2) u inter_round_True_fatal [of c s t] r by (cases g) simp_all
  have f': "fatal t' = PLAN_OK" using less.prems(3) u' inter_round_True_fatal [of c' s' t'] r' by (cases g') simp_all
  note tt = inter_round_same [OF assms less.prems(1) r r' f f']
  show ?case
  proof (cases g)
    case True
    then have "overload c t < overload c s" using inter_round_overload [of c s t] r by simp
    then have "nat (overload c t) < nat (overload c s)" using overload_nonneg [of c t] by linarith
    then show ?thesis using less.hyps [of t t'] less.prems u u' tt True by simp
  next
    case False
    then show ?thesis using u u' tt by simp
  qed
qed

lemma intra_servers_same:
  assumes "same_ctx c c'"
  shows "same_plan s s' \<Longrightarrow> fatal (intra_servers c p s) = PLAN_OK \<Longrightarrow> fatal (intra_servers c' p s') = PLAN_OK \<Longrightarrow>
    same_plan (intra_servers c p s) (intra_servers c' p s')"
proof (induction "card {r \<in> {0..<c_rankSize c}. server_key c r > p}" arbitrary: p s s' rule: less_induct)
  case less
  have nk: "next_server_key c' p = next_server_key c p"
  proof -
    have "server_key c' = server_key c" by (simp add: server_key_def fun_eq_iff same_ctx_fields [OF assms])
    note sk = this
    show ?thesis unfolding next_server_key_def sk same_ctx_fields [OF assms] ..
  qed
  define key where "key = next_server_key c p"
  define t where "t = intra_server c key s"
  define t' where "t' = intra_server c' key s'"
  have u: "intra_servers c p s = (if key = INT32_MAX then s else if fatal t \<noteq> PLAN_OK then t else intra_servers c key t)"
    by (subst intra_servers.simps) (simp add: key_def t_def Let_def)
  have u': "intra_servers c' p s' = (if key = INT32_MAX then s' else if fatal t' \<noteq> PLAN_OK then t' else intra_servers c' key t')"
    by (subst intra_servers.simps) (simp add: nk key_def t'_def Let_def)
  show ?case
  proof (cases "key = INT32_MAX")
    case False
    have f: "fatal t = PLAN_OK" using less.prems(2) u False by (cases "fatal t = PLAN_OK") auto
    have f': "fatal t' = PLAN_OK" using less.prems(3) u' False by (cases "fatal t' = PLAN_OK") auto
    have "same_plan t t'" using intra_server_same [OF assms less.prems(1)] f f' by (simp add: t_def t'_def)
    moreover have "card {r \<in> {0..<c_rankSize c}. server_key c r > key} < card {r \<in> {0..<c_rankSize c}. server_key c r > p}"
      unfolding key_def by (rule next_server_key_decreases) (use False key_def in simp)
    ultimately show ?thesis using less.hyps [of key t t'] less.prems u u' False f f' by simp
  qed (use less.prems u u' in simp)
qed

lemma remainder_sources_same:
  assumes "same_ctx c c'" "same_plan s s'" "remainder_sources c e d srcs s = (True, s1)"
    "remainder_sources c' e d srcs s' = (True, s1')"
  shows "same_plan s1 s1'"
  using assms(2-4)
proof (induction srcs arbitrary: s s')
  case (Cons src srcs)
  note fc = same_ctx_fields [OF assms(1)] and fs = same_plan_fields [OF Cons.prems(1)]
  define k where "k = remainingTpe s (ReIndex src e (c_expertNum c))"
  obtain ok t where app: "AppendSegment c s e src d (srcExpertCursor s (ReIndex src e (c_expertNum c)))
      (dstExpertCursor s (ReIndex d e (c_expertNum c))) k = (ok, t)" by fastforce
  obtain ok' t' where app': "AppendSegment c' s' e src d (srcExpertCursor s (ReIndex src e (c_expertNum c)))
      (dstExpertCursor s (ReIndex d e (c_expertNum c))) k = (ok', t')" by fastforce
  have st: "(if k \<le> 0 then remainder_sources c e d srcs s else if \<not> ok then (False, t)
      else remainder_sources c e d srcs (take_rest c t e src d k)) = (True, s1)"
    using Cons.prems(2) by (simp only: remainder_sources.simps k_def [symmetric] Let_def app prod.case take_rest_def)
  have st': "(if k \<le> 0 then remainder_sources c' e d srcs s' else if \<not> ok' then (False, t')
      else remainder_sources c' e d srcs (take_rest c' t' e src d k)) = (True, s1')"
    using Cons.prems(3) by (simp only: remainder_sources.simps fc fs k_def [symmetric] Let_def app' prod.case take_rest_def)
  show ?case
  proof (cases "k \<le> 0")
    case True
    then show ?thesis using st st' Cons.IH [OF Cons.prems(1)] by simp
  next
    case False
    have ok: ok ok' using st st' False by (cases ok; cases ok'; simp)+
    have tt: "same_plan t t'" using AppendSegment_same [OF Cons.prems(1)] app app' ok by simp
    have "same_plan (take_rest c t e src d k) (take_rest c' t' e src d k)"
      using tt fc by (cases t; cases t') (simp add: same_plan_def take_rest_def Let_def)
    then show ?thesis using Cons.IH st st' False ok by simp
  qed
qed simp

lemma remainder_experts_same:
  assumes "same_ctx c c'" "same_plan s s'" "fatal (remainder_experts c es s) = PLAN_OK"
    "fatal (remainder_experts c' es s') = PLAN_OK"
  shows "same_plan (remainder_experts c es s) (remainder_experts c' es s')"
  using assms(2-4)
proof (induction es arbitrary: s s')
  case (Cons e es)
  note fc = same_ctx_fields [OF assms(1)]
  let ?h = "HomeRank e (c_expertsPerRank c)"
  obtain b t where rs: "remainder_sources c e ?h [0..c_rankSize c - 1] s = (b, t)" by fastforce
  obtain b' t' where rs': "remainder_sources c' e ?h [0..c_rankSize c - 1] s' = (b', t')" by fastforce
  have u: "remainder_experts c (e # es) s = (if b then remainder_experts c es t else t)" by (simp add: rs)
  have u': "remainder_experts c' (e # es) s' = (if b' then remainder_experts c' es t' else t')" by (simp add: fc rs')
  have b: b using remainder_sources_fatal [OF rs] Cons.prems(2) u by (cases b) simp_all
  have b': b' using remainder_sources_fatal [OF rs'] Cons.prems(3) u' by (cases b') simp_all
  have "same_plan t t'" using remainder_sources_same [OF assms(1) Cons.prems(1)] rs rs' b b' by simp
  then show ?case using Cons.IH [of t t'] Cons.prems(2,3) u u' b b' by simp
qed simp

section \<open>The layout of every rank\<close>

lemma insert_remote_same:
  assumes "same_ctx c c'" "same_plan s s'"
  shows "insert_remote c' s' d es row = insert_remote c s d es row"
  by (induction es arbitrary: row) (simp_all add: same_ctx_fields [OF assms(1)] same_plan_fields [OF assms(2)])

lemma layout_rows_same:
  assumes "same_ctx c c'" "same_plan s s'"
  shows "fst (layout_rows c' ds (s', a', m')) = fst (layout_rows c ds (s, a, m)) \<and>
    same_plan (fst (snd (layout_rows c ds (s, a, m)))) (fst (snd (layout_rows c' ds (s', a', m'))))"
  using assms(2)
proof (induction ds arbitrary: s s' a a' m m')
  case (Cons d ds)
  note fc = same_ctx_fields [OF assms(1)] and fs = same_plan_fields [OF Cons.prems]
  obtain ok row where ir: "insert_remote c s d [0..c_expertNum c - 1] [] = (ok, row)" by fastforce
  have ir': "insert_remote c' s' d [0..c_expertNum c' - 1] [] = (ok, row)"
    using insert_remote_same [OF assms(1) Cons.prems] ir fc by simp
  have up: "same_plan (s\<lparr> remoteExpertSet := f \<rparr>) (s'\<lparr> remoteExpertSet := f \<rparr>)" for f
    using Cons.prems by (cases s; cases s') (simp add: same_plan_def)
  show ?case
  proof (cases ok)
    case False
    then show ?thesis using ir ir' up by (simp add: Let_def fc fs)
  next
    case True
    obtain t b n where lr: "layout_remote c d row (s, a, m) = (t, b, n)" by (metis prod_cases3)
    obtain t' b' n' where lr': "layout_remote c' d row (s', a', m') = (t', b', n')" by (metis prod_cases3)
    have "same_plan t t'" using lr lr' up by (auto simp: layout_remote_def Let_def pad_row_def fc fs)
    from Cons.IH [OF this] show ?thesis using True ir ir' lr lr' by simp
  qed
qed simp

lemma layout_groups_same:
  assumes "same_ctx c c'"
  shows "\<exists>cu2 cu2'. let (ok, e, b, _) = layout_groups c cfg alc d row gs prev base cu in
    layout_groups c cfg alc d row gs prev base cu = (ok, e, b, cu2) \<and>
    layout_groups c' cfg alc d row gs prev base cu' = (ok, e, b, cu2')"
proof (induction gs arbitrary: prev base cu cu')
  case (Cons g gs)
  note fc = same_ctx_fields [OF assms]
  have ge: "group_expert c' row g = group_expert c row g" by (simp add: group_expert_def fc)
  define x where "x = group_expert c row g"
  define n where "n = (if x \<ge> 0 then alc (ReIndex d x (c_expertNum c)) else 0)"
  define base1 where "base1 = (if x \<ge> 0 then base(ReIndex d x (c_expertNum c) := prev) else base)"
  obtain ok p where al: "(if n = 0 then (True, 0) else AlignCount n (tokenPadding cfg)) = (ok, p)" by fastforce
  have body: "layout_groups c cfg alc d row (g # gs) prev base cu =
      (if \<not> ok \<or> p > nvS cfg - prev then (False, prev, base1, cu)
       else layout_groups c cfg alc d row gs (prev + p) base1 (if d = c_rank c then cu(g := prev + p) else cu))"
    by (simp only: layout_groups.simps x_def [symmetric] n_def [symmetric] base1_def [symmetric] Let_def al prod.case)
  have body': "layout_groups c' cfg alc d row (g # gs) prev base cu' =
      (if \<not> ok \<or> p > nvS cfg - prev then (False, prev, base1, cu')
       else layout_groups c' cfg alc d row gs (prev + p) base1 (if d = c_rank c' then cu'(g := prev + p) else cu'))"
    by (simp only: layout_groups.simps ge fc x_def [symmetric] n_def [symmetric] base1_def [symmetric] Let_def al prod.case)
  show ?case
  proof (cases "\<not> ok \<or> p > nvS cfg - prev")
    case True
    then show ?thesis unfolding body body' by auto
  next
    case False
    show ?thesis unfolding body body' if_not_P [OF False] by (rule Cons.IH)
  qed
qed auto

lemma layout_bases_same:
  assumes "same_ctx c c'" "same_plan s s'"
  shows "fst (layout_bases c' cfg ds (s', a', m')) = fst (layout_bases c cfg ds (s, a, m)) \<and>
    same_plan (fst (snd (layout_bases c cfg ds (s, a, m)))) (fst (snd (layout_bases c' cfg ds (s', a', m'))))"
  using assms(2)
proof (induction ds arbitrary: s s' a a' m m')
  case (Cons d ds)
  note fc = same_ctx_fields [OF assms(1)] and fs = same_plan_fields [OF Cons.prems]
  let ?row = "row_of (remoteExpertSet s) d (c_b c)" and ?gs = "[0..c_expertNum c + c_b c - 1]"
  obtain ok e b cu where lg: "layout_groups c cfg (alloc s) d ?row ?gs 0 (expertPhysicalBase s) (a_cuSeqlens a) = (ok, e, b, cu)"
    by (metis prod_cases4)
  obtain cu' where lg': "layout_groups c' cfg (alloc s) d ?row ?gs 0 (expertPhysicalBase s) (a_cuSeqlens a') = (ok, e, b, cu')"
    using layout_groups_same [OF assms(1), of cfg "alloc s" d ?row ?gs 0 "expertPhysicalBase s" "a_cuSeqlens a" "a_cuSeqlens a'"] lg
    by auto
  have up: "same_plan (s\<lparr> expertPhysicalBase := b \<rparr>) (s'\<lparr> expertPhysicalBase := b \<rparr>)"
    using Cons.prems by (cases s; cases s') (simp add: same_plan_def)
  show ?case
    using Cons.IH [OF up] up by (cases ok) (simp_all add: lg lg' fc fs Let_def)
qed simp

lemma BuildLayouts_same:
  assumes "same_ctx c c'" "same_plan s s'" "BuildLayouts c cfg s a = (st, s1, a1, m, e)"
    "BuildLayouts c' cfg s' a' = (st', s1', a1', m', e')"
  shows "st' = st \<and> same_plan s1 s1'"
proof -
  note fc = same_ctx_fields [OF assms(1)] and fs = same_plan_fields [OF assms(2)]
  obtain s0 a0 where r: "layout_reset c s a = (s0, a0)" by fastforce
  obtain s0' a0' where r': "layout_reset c' s' a' = (s0', a0')" by fastforce
  have s0: "same_plan s0 s0'"
    using r r' assms(2) by (cases s; cases s') (auto simp: layout_reset_def same_plan_def fc)
  obtain ok t b n where l: "layout_rows c [0..c_rankSize c - 1] (s0, a0, 0) = (ok, t, b, n)" by (metis prod_cases4)
  obtain ok' t' b' n' where l': "layout_rows c' [0..c_rankSize c - 1] (s0', a0', 0) = (ok', t', b', n')" by (metis prod_cases4)
  have t: "ok' = ok" "same_plan t t'"
    using layout_rows_same [OF assms(1) s0, of "[0..c_rankSize c - 1]" a0' 0 a0 0] l l' by simp_all
  obtain ok2 t2 b2 n2 where k: "layout_bases c cfg [0..c_rankSize c - 1] (t, b, 0) = (ok2, t2, b2, n2)" by (metis prod_cases4)
  obtain ok2' t2' b2' n2' where k': "layout_bases c' cfg [0..c_rankSize c - 1] (t', b', 0) = (ok2', t2', b2', n2')"
    by (metis prod_cases4)
  have t2: "ok2' = ok2" "same_plan t2 t2'"
    using layout_bases_same [OF assms(1) t(2), of cfg "[0..c_rankSize c - 1]" b' 0 b 0] k k' by simp_all
  show ?thesis using assms(3,4) t t2 by (cases ok) (auto simp: BuildLayouts_def r r' l l' k k' fc)
qed

end
