(* ===== verification/PlanRun.thy ===== *)
theory PlanRun
  imports PlanAgree
begin

text \<open>
  The planner as a whole: which statuses a run can return, what a successful run guarantees, and
  that the runs of all ranks together send every token to a place of its own.
\<close>

unbundle bit_operations_syntax

section \<open>The two fatal outcomes\<close>

text \<open>The only error a run can meet is that it has no room for its own segments: the ranks it
  sorts are always valid.\<close>

definition fatal_ok :: "plan_state \<Rightarrow> bool" where
  "fatal_ok s = (fatal s = PLAN_OK \<or> fatal s = PLAN_ERROR_MOVE_RECORD_OVERFLOW)"

lemma take_sources_fatal_ok: "fatal_ok s \<Longrightarrow> take_sources c e dst srcs s d a = (s', d', a') \<Longrightarrow> fatal_ok s'"
proof (induction srcs arbitrary: s d a)
  case (Cons src srcs)
  define k where "k = MinI32 (MinI32 (remainingTpe s (ReIndex src e (c_expertNum c))) d) (pair_remain c s src dst d)"
  obtain ok t where app: "AppendSegment c s e src dst (srcExpertCursor s (ReIndex src e (c_expertNum c)))
      (dstExpertCursor s (ReIndex dst e (c_expertNum c))) k = (ok, t)" by fastforce
  have st: "take_sources c e dst (src # srcs) s d a = (if d \<le> 0 then (s, d, a)
      else if k \<le> 0 then take_sources c e dst srcs s d a else if \<not> ok then (t, d, a)
      else take_sources c e dst srcs (record_take c t e src dst k) (d - k) (a + k))"
    by (simp only: take_sources.simps k_def [symmetric] Let_def app prod.case)
  have t: "fatal_ok t" using AppendSegment_frame(12,13) [OF app] Cons.prems(1) by (cases ok) (auto simp: fatal_ok_def)
  then have t2: "fatal_ok (record_take c t e src dst k)" by (simp add: fatal_ok_def)
  consider "d \<le> 0" | "0 < d" "k \<le> 0" | "0 < d" "0 < k" "\<not> ok" | "0 < d" "0 < k" ok by linarith
  then show ?case
  proof cases
    case 1 then show ?thesis using Cons.prems st by simp
  next
    case 2 then show ?thesis using Cons.prems Cons.IH [OF Cons.prems(1)] st by simp
  next
    case 3 then show ?thesis using Cons.prems st t by simp
  next
    case 4 then show ?thesis using Cons.prems Cons.IH [OF t2] st by simp
  qed
qed simp

lemma move_experts_fatal_ok: "fatal_ok s \<Longrightarrow> move_experts c h dst es s d f = (s', d', f') \<Longrightarrow> fatal_ok s'"
proof (induction es arbitrary: s d f)
  case (Cons e es)
  define av where "av = alloc s (ReIndex h e (c_expertNum c))"
  define ar where "ar = (FindRemote c s dst e \<ge> 0)"
  obtain t ed k where ts: "take_sources c e dst (row_of (affinityOrder s) dst (c_rankSize c)) s (MinI32 av d) 0 = (t, ed, k)"
    by (metis prod_cases3)
  define s3 where "s3 = (let s2 = (if k > 0 then commit_move c t h dst e ar k else t)
      in if ed > 0 then note_block c s2 dst e else s2)"
  have st: "move_experts c h dst (e # es) s d f = (if d \<le> 0 then (s, d, f) else if av \<le> 0 then move_experts c h dst es s d f
      else if \<not> ar \<and> remoteCount s dst \<ge> c_b c then move_experts c h dst es (s\<lparr> slotBlock := True \<rparr>) d f
      else if fatal t \<noteq> PLAN_OK then (t, d, True)
      else move_experts c h dst es s3 (if k > 0 then d - k else d) True)"
    by (simp add: av_def [symmetric] ar_def [symmetric] Let_def ts s3_def)
  note res = trans [OF st [symmetric] Cons.prems(2)]
  have t: "fatal_ok t" using take_sources_fatal_ok [OF Cons.prems(1) ts] .
  have s3: "fatal_ok s3" using t by (simp add: s3_def fatal_ok_def Let_def)
  have sb: "fatal_ok (s\<lparr> slotBlock := True \<rparr>)" using Cons.prems(1) by (simp add: fatal_ok_def)
  consider "d \<le> 0" | "0 < d" "av \<le> 0" | "0 < d" "0 < av" "\<not> ar \<and> remoteCount s dst \<ge> c_b c"
    | "0 < d" "0 < av" "\<not> (\<not> ar \<and> remoteCount s dst \<ge> c_b c)" by linarith
  then show ?case
  proof cases
    case 1 then show ?thesis using Cons.prems(1) res by simp
  next
    case 2 then show ?thesis using Cons.IH [OF Cons.prems(1)] res by simp
  next
    case 3 then show ?thesis using Cons.IH [OF sb] res by simp
  next
    case 4
    then have "(if fatal t \<noteq> PLAN_OK then (t, d, True)
        else move_experts c h dst es s3 (if k > 0 then d - k else d) True) = (s', d', f')" using res by auto
    then show ?thesis using Cons.IH [OF s3] t by (cases "fatal t = PLAN_OK") simp_all
  qed
qed simp

lemma ApplyExpertMove_fatal_ok:
  assumes "fatal_ok s" "ApplyExpertMove c s h dst r = (s', k)"
  shows "fatal_ok s'"
proof (cases "r \<le> 0 \<or> h = dst \<or> fatal s \<noteq> PLAN_OK")
  case False
  obtain t d f where mv: "move_experts c h dst (expert_order_of c s h) s r False = (t, d, f)" by (metis prod_cases3)
  have r: "(if fatal t \<noteq> PLAN_OK then (t, 0) else (if d > 0 \<and> \<not> f then t\<lparr> pairBlock := True \<rparr> else t, r - d)) = (s', k)"
    using assms(2) False by (simp add: ApplyExpertMove_def mv)
  have "fatal_ok t" using move_experts_fatal_ok [OF assms(1) mv] .
  then show ?thesis using r by (cases "fatal t = PLAN_OK"; cases "d > 0 \<and> \<not> f") (auto simp: fatal_ok_def)
qed (use assms in \<open>auto simp: ApplyExpertMove_def\<close>)

lemma SortRanks_sub_Some:
  assumes "distinct ranks" "set ranks \<subseteq> {0..<rankSize}" "0 \<le> rankSize"
  shows "\<exists>out. SortRanks ranks ld ids rankSize asc = Some out"
proof -
  have "card (set ranks) \<le> card {0..<rankSize}" using assms(2) by (intro card_mono) auto
  moreover have "length ranks = card (set ranks)" using assms(1) distinct_card by metis
  ultimately have "int (length ranks) \<le> rankSize" using assms(3) by simp
  moreover have "\<forall>x\<in>set ranks. rank_in_range rankSize x" using assms(2) by (auto simp: rank_in_range_def)
  ultimately show ?thesis using SortRanks_in_range by blast
qed

lemma SortRanks_filter_Some:
  assumes "0 \<le> rankSize"
  obtains out where "SortRanks (filter P [0..rankSize - 1]) ld ids rankSize asc = Some out"
proof -
  have "set (filter P [0..rankSize - 1]) \<subseteq> {0..<rankSize}" by auto
  then show thesis using SortRanks_sub_Some [of "filter P [0..rankSize - 1]" rankSize ld ids asc] assms that by auto
qed

section \<open>Properties that every move keeps\<close>

text \<open>A property of states that every move between two ranks keeps, also a move that ends with a
  fatal status, holds after the rounds.\<close>

locale move_kept =
  fixes c :: plan_ctx and P :: "plan_state \<Rightarrow> bool"
  assumes ranks: "P s \<Longrightarrow> 0 \<le> c_rankSize c"
    and move: "\<lbrakk>P s; ApplyExpertMove c s a b req = (s', k); a \<in> ranks_of c; b \<in> ranks_of c\<rbrakk> \<Longrightarrow> P s'"
    and flag: "P s \<Longrightarrow> P (s\<lparr> pairBlock := True \<rparr>)"
    and intra_count: "P s \<Longrightarrow> P (s\<lparr> intraRounds := n \<rparr>)"
    and inter_count: "P s \<Longrightarrow> P (s\<lparr> interRounds := n \<rparr>)"
begin

lemma run_pairs_kept:
  "\<lbrakk>P s; run_pairs c ps s acc = (s', n); \<forall>(a, b)\<in>set ps. a \<in> ranks_of c \<and> b \<in> ranks_of c\<rbrakk> \<Longrightarrow> P s'"
proof (induction ps arbitrary: s acc)
  case (Cons p ps)
  obtain a b where p: "p = (a, b)" by fastforce
  define req where "req = MinI32 (rankLoad s a - c_cap c) (c_cap c - rankLoad s b)"
  obtain s1 k where am: "(if req > 0 then ApplyExpertMove c s a b req else (s, 0)) = (s1, k)" by fastforce
  have st: "(if fatal s1 \<noteq> PLAN_OK then (s1, acc + k) else run_pairs c ps s1 (acc + k)) = (s', n)"
    using Cons.prems(2) by (simp only: p run_pairs.simps req_def [symmetric] Let_def am prod.case)
  have "P s1" using am move [OF Cons.prems(1), of a b req s1 k] Cons.prems(1,3) p by (cases "req > 0") auto
  then show ?case using Cons.IH [of s1] st Cons.prems(3) by (auto split: if_splits)
qed simp

lemma try_candidates_kept:
  "\<lbrakk>P s; try_candidates c senders dst srcs n occ s acc = (s', occ', m); set senders \<subseteq> ranks_of c; dst \<in> ranks_of c\<rbrakk> \<Longrightarrow> P s'"
proof (induction srcs arbitrary: n s)
  case (Cons src srcs)
  define req where "req = MinI32 (rankLoad s src - c_cap c) (c_cap c - rankLoad s dst)"
  obtain s1 k where ap: "ApplyExpertMove c s src dst req = (s1, k)" by fastforce
  have st: "(if n \<ge> kPlanCrossCandidateCount then (s, occ, acc)
      else if \<not> RankInList src senders then try_candidates c senders dst srcs n occ s acc
      else if src \<in> occ \<or> req \<le> 0 then try_candidates c senders dst srcs (n + 1) occ s acc
      else if fatal s1 \<noteq> PLAN_OK then (s1, occ, acc)
      else if k > 0 then (s1, insert src occ, acc + k)
      else try_candidates c senders dst srcs (n + 1) occ s1 acc) = (s', occ', m)"
    using Cons.prems(2) by (simp add: req_def [symmetric] ap Let_def split: if_splits)
  show ?case
  proof (cases "RankInList src senders")
    case True
    then have "src \<in> ranks_of c" using Cons.prems(3) by (auto simp: RankInList_def list_ex_iff)
    then have s1: "P s1" using move [OF Cons.prems(1) ap] Cons.prems(4) by simp
    show ?thesis using st True Cons.IH [OF Cons.prems(1) _ Cons.prems(3,4)] Cons.IH [OF s1 _ Cons.prems(3,4)] s1 Cons.prems(1)
      by (auto split: if_splits)
  qed (use st Cons in \<open>auto split: if_splits\<close>)
qed simp

lemma run_receivers_kept:
  "\<lbrakk>P s; run_receivers c senders dsts occ s acc = (s', m); set senders \<subseteq> ranks_of c; set dsts \<subseteq> ranks_of c\<rbrakk> \<Longrightarrow> P s'"
proof (induction dsts arbitrary: occ s acc)
  case (Cons dst dsts)
  obtain s1 occ1 m1 where tc: "try_candidates c senders dst (row_of (affinityOrder s) dst (c_rankSize c)) 0 occ s acc
      = (s1, occ1, m1)" by (metis prod_cases3)
  have s1: "P s1" using try_candidates_kept [OF Cons.prems(1) tc Cons.prems(3)] Cons.prems(4) by simp
  show ?case using Cons.prems(2-4) s1 Cons.IH [OF s1] by (cases "fatal s1 = PLAN_OK") (simp_all add: tc)
qed simp

lemma intra_round_kept:
  assumes "P s" "intra_round c key s = (s', go)"
  shows "P s'"
proof -
  let ?act = "filter (\<lambda>r. server_key c r = key \<and> rankLoad s r \<noteq> c_cap c) [0..c_rankSize c - 1]"
  obtain act where so: "SortRanks ?act (rankLoad s) (c_globalRankIds c) (c_rankSize c) False = Some act"
    using SortRanks_filter_Some [OF ranks [OF assms(1)]] by blast
  have sub: "set act \<subseteq> ranks_of c" unfolding SortRanks_set [OF so] by auto
  define mid where "mid = find_middle c s act (length act div 2)"
  define ps where "ps = zip (filter (\<lambda>r. rankLoad s r > c_cap c) (rev (take mid act)))
    (filter (\<lambda>r. rankLoad s r < c_cap c) (drop mid act))"
  obtain t m where rp: "run_pairs c ps s 0 = (t, m)" by fastforce
  have "a \<in> ranks_of c \<and> b \<in> ranks_of c" if "(a, b) \<in> set ps" for a b
  proof -
    have "a \<in> set (take mid act)" "b \<in> set (drop mid act)"
      using set_zip_leftD [OF that [unfolded ps_def]] set_zip_rightD [OF that [unfolded ps_def]] by simp_all
    then show ?thesis using sub in_set_takeD in_set_dropD by fast
  qed
  then have t: "P t" using run_pairs_kept [OF assms(1) rp] by blast
  have un: "intra_round c key s = (if length act < 2 \<or> rankLoad s (act ! 0) + rankLoad s (act ! 1) < c_cap c \<or>
            rankLoad s (act ! (length act - 1)) > c_cap c then (s, False)
      else if mid = 0 then (s, False) else if fatal t \<noteq> PLAN_OK then (t, False)
      else if m = 0 then (t\<lparr> pairBlock := True \<rparr>, False) else (t\<lparr> intraRounds := intraRounds t + 1 \<rparr>, True))"
    by (simp only: intra_round_def Let_def so option.case mid_def [symmetric] ps_def [symmetric] rp prod.case)
  note res = trans [OF un [symmetric] assms(2)]
  then show ?thesis using t assms(1) flag [OF t] intra_count [OF t] by (auto split: if_splits)
qed

lemma inter_round_kept:
  assumes "P s" "inter_round c s = (s', go)"
  shows "P s'"
proof -
  let ?act = "filter (\<lambda>r. rankLoad s r \<noteq> c_cap c) [0..c_rankSize c - 1]"
  let ?sort = "\<lambda>xs. SortRanks xs (rankLoad s) (c_globalRankIds c) (c_rankSize c)"
  obtain act where so: "?sort ?act False = Some act"
    using SortRanks_filter_Some [OF ranks [OF assms(1)]] by blast
  define u where "u = length (filter (\<lambda>r. rankLoad s r < c_cap c) ?act)"
  define n where "n = length act - min u (length act div 2)"
  have act: "distinct act" "set act \<subseteq> {0..<c_rankSize c}"
    using SortRanks_in_range [OF SortRanks_SomeD [OF so], of "rankLoad s" "c_globalRankIds c" False] so by auto
  obtain rec where so2: "?sort (drop n act) True = Some rec"
    using SortRanks_sub_Some [of "drop n act" "c_rankSize c" "rankLoad s" "c_globalRankIds c" True] ranks [OF assms(1)] act
      set_drop_subset [of n act] by auto
  obtain t m where rr: "run_receivers c (take n act) rec {} s 0 = (t, m)" by fastforce
  have sub: "set (take n act) \<subseteq> ranks_of c" "set rec \<subseteq> ranks_of c"
    using act(2) set_take_subset [of n act] set_drop_subset [of n act] SortRanks_set [OF so2] by blast+
  have t: "P t" by (rule run_receivers_kept [OF assms(1) rr sub])
  have un: "inter_round c s = (if length ?act < 2 \<or> u = 0 \<or> u = length ?act then (s, False)
      else if min u (length act div 2) = 0 then (s, False)
      else if fatal t \<noteq> PLAN_OK then (t, False) else if m = 0 then (t\<lparr> pairBlock := True \<rparr>, False)
      else (t\<lparr> interRounds := interRounds t + 1 \<rparr>, True))"
    by (simp only: inter_round_def Let_def u_def [symmetric] so option.case n_def [symmetric] so2 rr prod.case)
  note res = trans [OF un [symmetric] assms(2)]
  then show ?thesis using t assms(1) flag [OF t] inter_count [OF t] by (auto split: if_splits)
qed

lemma intra_server_kept: "P s \<Longrightarrow> P (intra_server c key s)"
proof (induction c' \<equiv> c key s rule: intra_server.induct)
  case (1 key s)
  obtain s1 go where r: "intra_round c key s = (s1, go)" by fastforce
  have "intra_server c key s = (if go then intra_server c key s1 else s1)" using r by (subst intra_server.simps) simp
  then show ?case using 1(1) [OF r [symmetric] refl] intra_round_kept [OF 1(2) r] by (cases go) simp_all
qed

lemma RunInter_kept: "P s \<Longrightarrow> P (RunInter c s)"
proof (induction c' \<equiv> c s rule: RunInter.induct)
  case (1 s)
  obtain s1 go where r: "inter_round c s = (s1, go)" by fastforce
  have "RunInter c s = (if go then RunInter c s1 else s1)" using r by (subst RunInter.simps) simp
  then show ?case using 1(1) [OF r [symmetric] refl] inter_round_kept [OF 1(2) r] by (cases go) simp_all
qed

lemma intra_servers_kept: "P s \<Longrightarrow> P (intra_servers c p s)"
proof (induction c' \<equiv> c p s rule: intra_servers.induct)
  case (1 p s)
  define key where "key = next_server_key c p"
  have u: "intra_servers c p s = (if key = INT32_MAX then s else if fatal (intra_server c key s) \<noteq> PLAN_OK
      then intra_server c key s else intra_servers c key (intra_server c key s))"
    by (subst intra_servers.simps) (simp add: key_def Let_def)
  have s1: "P (intra_server c key s)" by (rule intra_server_kept [OF 1(2)])
  show ?case using u 1(1) [OF key_def _ refl] 1(2) s1
    by (cases "key = INT32_MAX"; cases "fatal (intra_server c key s) = PLAN_OK") simp_all
qed

end

interpretation fatal_kept: move_kept c "\<lambda>s. 0 \<le> c_rankSize c \<and> fatal_ok s" for c
proof unfold_locales
  fix s s' a b req k
  assume "0 \<le> c_rankSize c \<and> fatal_ok s" "ApplyExpertMove c s a b req = (s', k)"
  then show "0 \<le> c_rankSize c \<and> fatal_ok s'" using ApplyExpertMove_fatal_ok by blast
qed (simp_all add: fatal_ok_def)

lemma remainder_experts_fatal_ok: "fatal_ok s \<Longrightarrow> fatal_ok (remainder_experts c es s)"
proof (induction es arbitrary: s)
  case (Cons e es)
  obtain b t where rs: "remainder_sources c e (HomeRank e (c_expertsPerRank c)) [0..c_rankSize c - 1] s = (b, t)" by fastforce
  have "fatal_ok t" using remainder_sources_fatal [OF rs] Cons.prems by (cases b) (simp_all add: fatal_ok_def)
  then show ?case using Cons.IH by (cases b) (simp_all add: rs)
qed simp

section \<open>The outcome of a validated run\<close>

lemma plan_balance_fatal_ok:
  fixes ws :: plan_workspace
  assumes ok: "plan_ctx_ok c" and nn: "\<forall>src\<in>ranks_of c. \<forall>e\<in>experts_of c. 0 \<le> at c (deref (in_tokensPerExpert inp)) src e"
    and cache: "affinity_cache_ok c ws"
  shows "fatal_ok (plan_balance c inp ws)"
proof -
  have R: "0 \<le> c_rankSize c" using ok by (simp add: plan_ctx_ok_def)
  define s1 where "s1 = (if ws_affinityOrderValid ws then plan_init c inp ws else BuildAffinity c (plan_init c inp ws))"
  define s2 where "s2 = RunIntra c s1"
  define s3 where "s3 = (if fatal s2 = PLAN_OK then RunInter c s2 else s2)"
  have "fatal s1 = PLAN_OK" using plan_start_inv(2) [OF ok nn refl cache] by (simp add: s1_def)
  then have "fatal_ok s2" using fatal_kept.intra_servers_kept [of c s1] R by (simp add: s2_def RunIntra_def fatal_ok_def)
  then have "fatal_ok s3" using fatal_kept.RunInter_kept [of c s2] R by (simp add: s3_def)
  then have "fatal_ok (if fatal s3 = PLAN_OK then AppendRemainders c s3 else s3)"
    using remainder_experts_fatal_ok by (simp add: AppendRemainders_def)
  then show ?thesis by (simp only: plan_balance_def s1_def s2_def s3_def Let_def)
qed

text \<open>The output with cleared status words, as the first lines of the algorithm leave it.\<close>

abbreviation cleared_out :: "plan_output \<Rightarrow> plan_output" where
  "cleared_out out \<equiv> out\<lparr> out_status := map_option (clear kPlanStatusWords 0) (out_status out) \<rparr>"

lemma Validate_cleared: "Validate inp (cleared_out out) ws = Validate inp out ws"
  by (simp add: Validate_def args_invalid_def)

text \<open>Everything a run that reaches the layout leaves behind.\<close>

lemma run_layout:
  fixes ws :: plan_workspace
  assumes val: "Validate inp out ws = PLAN_OK" and cache: "affinity_cache_ok (plan_ctx_of inp ws) ws"
  defines "c \<equiv> plan_ctx_of inp ws"
  assumes f: "fatal (plan_balance c inp ws) = PLAN_OK"
  obtains ls s1 a1 mr le where
    "BuildLayouts c (in_config inp) (plan_balance c inp ws) (arrays_of (cleared_out out)) = (ls, s1, a1, mr, le)"
    "ls = PLAN_OK \<or> ls = PLAN_ERROR_LAYOUT_EXCEEDS_NVS"
    "ls = PLAN_OK \<Longrightarrow> plan_ready c (in_config inp) (deref (in_tokensPerExpert inp)) (deref (in_topkExperts inp)) s1"
    "rankLoad s1 = rankLoad (plan_balance c inp ws)" "segmentLog s1 = segmentLog (plan_balance c inp ws)"
    "alloc s1 = alloc (plan_balance c inp ws)" "plan_full c (deref (in_tokensPerExpert inp)) s1"
    "s1 = (plan_balance c inp ws)\<lparr> remoteExpertSet := remoteExpertSet s1, expertPhysicalBase := expertPhysicalBase s1 \<rparr>"
    "run_state (RunPlanAlgorithm inp out ws) = Some s1"
    "run_status (RunPlanAlgorithm inp out ws) =
      (if fst (balance_status c (plan_balance c inp ws)) then ls else snd (balance_status c (plan_balance c inp ws)))"
    "ls = PLAN_OK \<Longrightarrow> \<exists>d. out_dst (run_out (RunPlanAlgorithm inp out ws)) = Some d \<and> (\<forall>r\<in>{0..<c_cap c}. d r =
      route_code c (in_config inp) s1 (deref (in_topkExperts inp)) (in_topK inp) r)"
proof -
  let ?cfg = "in_config inp" and ?tpe = "deref (in_tokensPerExpert inp)" and ?topk = "deref (in_topkExperts inp)"
  let ?s = "plan_balance c inp ws"
  have iok: "plan_input_ok inp ws" by (rule Validate_input_ok [OF val])
  have i: "plan_ctx_ok c" "c_rank c \<in> ranks_of c" "0 < in_s inp" "0 < in_topK inp" "c_cap c = in_s inp * in_topK inp"
    "c_cap c \<le> nvS ?cfg" "c_rankSize c * nvS ?cfg \<le> INT32_MAX" "0 < tokenPadding ?cfg"
    "\<forall>src\<in>ranks_of c. \<forall>e\<in>experts_of c. 0 \<le> at c ?tpe src e" "\<forall>r\<in>{0..<c_cap c}. ?topk r \<in> experts_of c"
    "\<forall>e\<in>experts_of c. at c ?tpe (c_rank c) e = int (card {r \<in> {0..<c_cap c}. ?topk r = e})"
    using iok unfolding plan_input_ok_def c_def Let_def by blast+
  note bd = plan_balance_done [OF i(1,9) refl cache [folded c_def] f]
  obtain ls s1 a1 mr le where bl: "BuildLayouts c ?cfg ?s (arrays_of (cleared_out out)) = (ls, s1, a1, mr, le)"
    by (metis prod_cases5)
  have nv: "0 \<le> nvS ?cfg" using i(1,6) by (simp add: plan_ctx_ok_def)
  note pl = BuildLayouts_placed [OF i(1) bd i(8) nv bl]
  have fields: "rankLoad s1 = rankLoad ?s" "segmentLog s1 = segmentLog ?s" "alloc s1 = alloc ?s"
    using arg_cong [OF pl(3), of rankLoad] arg_cong [OF pl(3), of segmentLog] arg_cong [OF pl(3), of alloc] by simp_all
  have full: "plan_full c ?tpe s1"
    using plan_full_layout [of c ?tpe "expertPhysicalBase s1" "remoteExpertSet s1" ?s, folded pl(3)] plan_done_full [OF bd(1)] by simp
  have rdy: "plan_ready c ?cfg ?tpe ?topk s1" if "ls = PLAN_OK"
    unfolding plan_ready_def using i full pl(2) [OF that] fields(3) by simp
  define dr where "dr = (if ls = PLAN_OK then BuildDst c inp s1 (a_dst a1) else (ls, a_dst a1))"
  have dr1: "fst dr = ls"
    using BuildDst_codes [OF rdy i(4,3,5), of "a_dst a1"] by (cases "ls = PLAN_OK") (auto simp: dr_def)
  have run: "RunPlanAlgorithm inp out ws = (let st = (if fst (balance_status c ?s) then fst dr else snd (balance_status c ?s))
      in \<lparr> run_status = st, run_out = output_of (cleared_out out)
            (a1\<lparr> a_dst := snd dr, a_status := FillStatus c s1 st mr le (a_status a1) \<rparr>), run_state = Some s1 \<rparr>)"
    unfolding RunPlanAlgorithm_def
    by (simp only: Let_def Validate_cleared val c_def [symmetric] f bl dr_def simp_thms if_False case_prod_unfold fst_conv snd_conv)
  show thesis
  proof (rule that [OF bl pl(1) rdy fields full pl(3)])
    show "run_state (RunPlanAlgorithm inp out ws) = Some s1" by (simp add: run Let_def)
    show "run_status (RunPlanAlgorithm inp out ws) = (if fst (balance_status c ?s) then ls else snd (balance_status c ?s))"
      by (simp add: run Let_def dr1)
    show "\<exists>d. out_dst (run_out (RunPlanAlgorithm inp out ws)) = Some d \<and> (\<forall>r\<in>{0..<c_cap c}. d r =
      route_code c ?cfg s1 ?topk (in_topK inp) r)" if o: "ls = PLAN_OK"
      using BuildDst_codes [OF rdy [OF o] i(4,3,5), of "a_dst a1"] o by (auto simp: run Let_def dr_def output_of_def)
  qed
qed

section \<open>Two ranks start from the same plan\<close>

text \<open>Inputs of two ranks of one job: everything but the rank and its own routes agrees.\<close>

definition same_tables :: "plan_input \<Rightarrow> plan_input \<Rightarrow> bool" where
  "same_tables inp inp' = (in_rankSize inp' = in_rankSize inp \<and> in_s inp' = in_s inp \<and> in_topK inp' = in_topK inp \<and>
    in_expertNum inp' = in_expertNum inp \<and> in_config inp' = in_config inp \<and>
    in_tokensPerExpert inp' = in_tokensPerExpert inp \<and> in_globalRankIds inp' = in_globalRankIds inp)"

lemma same_tables_ctx: "same_tables inp inp' \<Longrightarrow> same_ctx (plan_ctx_of inp ws) (plan_ctx_of inp' ws')"
  unfolding same_tables_def same_ctx_def plan_ctx_of_def by simp

lemma rows_extent_eq:
  fixes f g :: "int arr"
  assumes "0 < n" "\<forall>i. \<not> (0 \<le> i \<and> i < n * n) \<longrightarrow> f i = g i" "\<forall>d\<in>{0..<n}. row_of f d n = row_of g d n"
  shows "f = g"
proof
  fix i
  show "f i = g i"
  proof (cases "0 \<le> i \<and> i < n * n")
    case True
    have d: "i div n \<in> {0..<n}"
    proof -
      have "i div n < n"
      proof (rule ccontr)
        assume "\<not> i div n < n"
        then have "n * n \<le> (i div n) * n" using assms(1) by (intro mult_right_mono) auto
        also have "\<dots> \<le> i" using assms(1) by (metis div_mult_mod_eq le_add_same_cancel1 pos_mod_sign)
        finally show False using True by simp
      qed
      then show ?thesis using True assms(1) by (simp add: pos_imp_zdiv_nonneg_iff)
    qed
    have m: "i mod n \<in> set [0..n - 1]" using assms(1) by simp
    have "\<forall>j\<in>set [0..n - 1]. f (i div n * n + j) = g (i div n * n + j)"
      using bspec [OF assms(3) d] unfolding row_of_def map_eq_conv .
    then have "f (i div n * n + i mod n) = g (i div n * n + i mod n)" using m by blast
    then show ?thesis by simp
  qed (use assms(2) in blast)
qed

lemma BuildAffinity_outside:
  assumes "0 \<le> c_rankSize c" "\<not> (0 \<le> i \<and> i < c_rankSize c * c_rankSize c)"
  shows "affinityOrder (BuildAffinity c s) i = affinityOrder s i"
proof -
  have "affinityOrder (fold (\<lambda>dst s. s\<lparr> affinityOrder :=
      store_row (affinityOrder s) (dst * c_rankSize c) (affinity_row c dst) \<rparr>) dsts s) i = affinityOrder s i"
    if "set dsts \<subseteq> ranks_of c" for dsts
    using that
  proof (induction dsts arbitrary: s)
    case (Cons d dsts)
    have d: "0 \<le> d" "d + 1 \<le> c_rankSize c" using Cons.prems by auto
    have "(d + 1) * c_rankSize c \<le> c_rankSize c * c_rankSize c" using d assms(1) by (intro mult_right_mono) auto
    then have "\<not> (d * c_rankSize c \<le> i \<and> i < d * c_rankSize c + c_rankSize c)"
      using assms(2) mult_nonneg_nonneg [OF d(1) assms(1)] unfolding distrib_right by linarith
    then have "store_row (affinityOrder s) (d * c_rankSize c) (affinity_row c d) i = affinityOrder s i"
      using assms(1) by (auto simp: store_row_def length_affinity_row [OF assms(1)])
    then show ?case using Cons by simp
  qed simp
  moreover have "set [0..c_rankSize c - 1] \<subseteq> ranks_of c" by auto
  ultimately show ?thesis unfolding BuildAffinity_def by blast
qed

lemma fold_affinity_frame:
  assumes "\<And>e s. F e (s\<lparr> affinityOrder := g \<rparr>) = (F e s)\<lparr> affinityOrder := g \<rparr>"
  shows "fold F es (s\<lparr> affinityOrder := g \<rparr>) = (fold F es s)\<lparr> affinityOrder := g \<rparr>"
  by (induction es arbitrary: s) (simp_all only: fold.simps comp_apply id_apply assms)

lemma plan_init_same:
  assumes "same_ctx c c'" "same_tables inp inp'"
  shows "(plan_init c' inp' ws')\<lparr> affinityOrder := g \<rparr> = (plan_init c inp ws)\<lparr> affinityOrder := g \<rparr>"
proof -
  have tpe: "in_tokensPerExpert inp' = in_tokensPerExpert inp" using assms(2) by (simp add: same_tables_def)
  show ?thesis unfolding plan_init_def Let_def tpe same_ctx_fields [OF assms(1)]
    by (subst (1 2) fold_affinity_frame [symmetric]) simp_all
qed

lemma start_affinity:
  fixes ws :: plan_workspace
  assumes ok: "plan_ctx_ok c" and nn: "\<forall>src\<in>ranks_of c. \<forall>e\<in>experts_of c. 0 \<le> at c (deref (in_tokensPerExpert inp)) src e"
    and cache: "affinity_cache_ok c ws"
  defines "s \<equiv> (if ws_affinityOrderValid ws then plan_init c inp ws else BuildAffinity c (plan_init c inp ws))"
  shows "\<forall>i. \<not> (0 \<le> i \<and> i < c_rankSize c * c_rankSize c) \<longrightarrow> affinityOrder s i = 0"
    "\<forall>d\<in>ranks_of c. row_of (affinityOrder s) d (c_rankSize c) = affinity_row c d"
    "s = (plan_init c inp ws)\<lparr> affinityOrder := affinityOrder s \<rparr>"
proof -
  have R: "0 < c_rankSize c" using ok by (simp add: plan_ctx_ok_def)
  note i = plan_init_inv(2) [OF ok nn refl, of ws]
  show "\<forall>i. \<not> (0 \<le> i \<and> i < c_rankSize c * c_rankSize c) \<longrightarrow> affinityOrder s i = 0"
    using BuildAffinity_outside [of c _ "plan_init c inp ws"] R i by (auto simp: s_def)
  show "\<forall>d\<in>ranks_of c. row_of (affinityOrder s) d (c_rankSize c) = affinity_row c d"
    using BuildAffinity_rows [OF R] cache i row_of_extent [of _ "c_rankSize c"]
    by (cases "ws_affinityOrderValid ws") (auto simp: s_def affinity_cache_ok_def)
  show "s = (plan_init c inp ws)\<lparr> affinityOrder := affinityOrder s \<rparr>"
    using BuildAffinity_frame [of c "plan_init c inp ws"] by (auto simp: s_def)
qed

lemma affinity_row_same:
  assumes "same_ctx c c'"
  shows "affinity_row c' d = affinity_row c d"
  by (simp only: affinity_row_def same_ctx_fields [OF assms])

lemma start_same:
  fixes ws ws' :: plan_workspace
  assumes sc: "same_ctx c c'" and st: "same_tables inp inp'" and ok: "plan_ctx_ok c" "plan_ctx_ok c'"
    and nn: "\<forall>src\<in>ranks_of c. \<forall>e\<in>experts_of c. 0 \<le> at c (deref (in_tokensPerExpert inp)) src e"
      "\<forall>src\<in>ranks_of c'. \<forall>e\<in>experts_of c'. 0 \<le> at c' (deref (in_tokensPerExpert inp')) src e"
    and cache: "affinity_cache_ok c ws" "affinity_cache_ok c' ws'"
  defines "s \<equiv> (if ws_affinityOrderValid ws then plan_init c inp ws else BuildAffinity c (plan_init c inp ws))"
    and "s' \<equiv> (if ws_affinityOrderValid ws' then plan_init c' inp' ws' else BuildAffinity c' (plan_init c' inp' ws'))"
  shows "same_plan s s'"
proof -
  note a = start_affinity [OF ok(1) nn(1) cache(1), folded s_def]
    and a' = start_affinity [OF ok(2) nn(2) cache(2), folded s'_def, unfolded same_ctx_fields [OF sc] affinity_row_same [OF sc]]
  have R: "0 < c_rankSize c" using ok(1) by (simp add: plan_ctx_ok_def)
  have "affinityOrder s' = affinityOrder s"
    by (rule rows_extent_eq [OF R]) (use a a' in simp_all)
  then have "s' = s" using a(3) a'(3) plan_init_same [OF sc st, of "affinityOrder s" ws' ws] by metis
  then show ?thesis by (simp add: same_plan_def)
qed

lemma plan_balance_same:
  fixes ws ws' :: plan_workspace
  assumes sc: "same_ctx c c'" and st: "same_tables inp inp'" and ok: "plan_ctx_ok c" "plan_ctx_ok c'"
    and nn: "\<forall>src\<in>ranks_of c. \<forall>e\<in>experts_of c. 0 \<le> at c (deref (in_tokensPerExpert inp)) src e"
      "\<forall>src\<in>ranks_of c'. \<forall>e\<in>experts_of c'. 0 \<le> at c' (deref (in_tokensPerExpert inp')) src e"
    and cache: "affinity_cache_ok c ws" "affinity_cache_ok c' ws'"
    and f: "fatal (plan_balance c inp ws) = PLAN_OK" "fatal (plan_balance c' inp' ws') = PLAN_OK"
  shows "same_plan (plan_balance c inp ws) (plan_balance c' inp' ws')"
proof -
  define s s' where "s = (if ws_affinityOrderValid ws then plan_init c inp ws else BuildAffinity c (plan_init c inp ws))"
    and "s' = (if ws_affinityOrderValid ws' then plan_init c' inp' ws' else BuildAffinity c' (plan_init c' inp' ws'))"
  have run: "fatal (RunIntra c t) = PLAN_OK \<and> fatal (RunInter c (RunIntra c t)) = PLAN_OK \<and>
      plan_balance c i w = remainder_experts c [0..c_expertNum c - 1] (RunInter c (RunIntra c t))"
    if "t = (if ws_affinityOrderValid w then plan_init c i w else BuildAffinity c (plan_init c i w))"
      "fatal (plan_balance c i w) = PLAN_OK" for c i t and w :: plan_workspace
    using that(2) unfolding plan_balance_def Let_def that(1) [symmetric] AppendRemainders_def
    by (cases "fatal (RunIntra c t) = PLAN_OK"; cases "fatal (RunInter c (RunIntra c t)) = PLAN_OK") auto
  note r = run [OF s_def f(1)] and r' = run [OF s'_def f(2)]
  have "same_plan s s'" unfolding s_def s'_def by (rule start_same [OF sc st ok nn cache])
  then have "same_plan (RunIntra c s) (RunIntra c' s')"
    using intra_servers_same [OF sc] r r' by (simp add: RunIntra_def)
  then have "same_plan (RunInter c (RunIntra c s)) (RunInter c' (RunIntra c' s'))"
    using RunInter_same [OF sc] r r' by blast
  then show ?thesis
    using remainder_experts_same [OF sc] r r' f same_ctx_fields [OF sc] by metis
qed

section \<open>Destinations of all ranks\<close>

lemma route_raw_inj:
  assumes rdy: "plan_ready c cfg tpe topk s" "plan_ready c' cfg tpe topk' s'"
    and sc: "same_ctx c c'" and sp: "same_plan s s'"
    and r: "r \<in> {0..<c_cap c}" "r' \<in> {0..<c_cap c}"
    and eq: "route_raw c cfg s topk r = route_raw c' cfg s' topk' r'"
  shows "c_rank c = c_rank c' \<and> topk r = topk' r' \<and> ordinal_of topk r = ordinal_of topk' r'"
proof -
  note fc = same_ctx_fields [OF sc] and fs = same_plan_fields [OF sp]
  define m m' where "m = route_segment s topk r" and "m' = route_segment s' topk' r'"
  have at': "at c' = at c" by (simp add: fun_eq_iff at_def fc)
  have r2: "r' \<in> {0..<c_cap c'}" using r(2) by (simp add: fc)
  note p = route_segment_props [OF rdy(1) r(1), folded m_def]
    and p' = route_segment_props [OF rdy(2) r2, folded m'_def, unfolded fs at' fc]
  note b = route_offset_bounds [OF rdy(1) r(1), folded m_def]
    and b' = route_offset_bounds [OF rdy(2) r2, folded m'_def, unfolded fs at' fc]
  have off: "route_offset c s topk r = route_offset c' s' topk' r'" and d: "dstRank m = dstRank m'"
    using b(7,8) b'(7,8) eq by simp_all
  have e: "topk r \<in> experts_of c" "topk' r' \<in> experts_of c"
    using rdy r r2 fc unfolding plan_ready_def by auto
  have pl: "placed c (nvS cfg) (alloc s) (expertPhysicalBase s) (dstRank m)"
    using rdy(1) p(7) unfolding plan_ready_def by blast
  have te: "topk r = topk' r'"
  proof (rule ccontr)
    assume "topk r \<noteq> topk' r'"
    then show False using placed_disjoint [OF pl e] b(1,2) b'(1,2) off d by fastforce
  qed
  have flow: "inv_flow c tpe s" using rdy(1) unfolding plan_ready_def plan_full_def by blast
  have ch: "chained dstExpertBegin 0 (segs_to s (dstRank m) (topk r)) (at c (dstExpertCursor s) (dstRank m) (topk r))"
    using flow p(7) e unfolding inv_flow_def by blast
  have o: "route_offset c s topk r = at c (expertPhysicalBase s) (dstRank m) (topk r) + dstExpertBegin m +
      (ordinal_of topk r - srcExpertBegin m)" by (simp add: route_offset_def m_def Let_def)
  have o': "route_offset c' s' topk' r' = at c (expertPhysicalBase s) (dstRank m) (topk r) + dstExpertBegin m' +
      (ordinal_of topk' r' - srcExpertBegin m')" by (simp add: route_offset_def m'_def Let_def fs at' te d)
  have mm: "m = m'"
    by (rule chained_unique [OF ch, of m m' "dstExpertBegin m + (ordinal_of topk r - srcExpertBegin m)"])
      (use p p' d te o o' off in \<open>auto simp: segs_to_def\<close>)
  then show ?thesis using p(3) p'(3) te o o' off by simp
qed

section \<open>Totals\<close>

lemma sum_list_partition:
  fixes g :: "'a \<Rightarrow> int"
  assumes "finite A" "\<forall>m\<in>set ms. f m \<in> A"
  shows "(\<Sum>a\<in>A. sum_list (map g (filter (\<lambda>m. f m = a) ms))) = sum_list (map g ms)"
  using assms(2)
proof (induction ms)
  case (Cons m ms)
  have "(\<Sum>a\<in>A. sum_list (map g (filter (\<lambda>x. f x = a) (m # ms)))) =
      (\<Sum>a\<in>A. (if a = f m then g m else 0) + sum_list (map g (filter (\<lambda>x. f x = a) ms)))"
    by (intro sum.cong) auto
  also have "\<dots> = g m + sum_list (map g ms)" using Cons assms(1) by (simp add: sum.distrib)
  finally show ?case by simp
qed simp

text \<open>The tokens routed to an expert are the tokens allocated for it, over all ranks.\<close>

lemma plan_full_totals:
  assumes "plan_full c tpe s" "e \<in> experts_of c"
  shows "(\<Sum>r\<in>ranks_of c. at c (alloc s) r e) = (\<Sum>src\<in>ranks_of c. at c tpe src e)"
proof -
  define es where "es = filter (\<lambda>m. expertId m = e) (segmentLog s)"
  have flow: "inv_flow c tpe s" using assms(1) by (simp add: plan_full_def)
  have rng: "\<forall>m\<in>set es. dstRank m \<in> ranks_of c" "\<forall>m\<in>set es. srcRank m \<in> ranks_of c"
    using flow unfolding inv_flow_def es_def by auto
  have f: "filter (\<lambda>m. srcRank m = r) es = segs_from s r e" "filter (\<lambda>m. dstRank m = r) es = segs_to s r e" for r
    by (simp_all add: es_def segs_from_def segs_to_def conj_commute)
  have to: "sum_list (map tokenCount (segs_to s r e)) = at c (alloc s) r e" if "r \<in> ranks_of c" for r
  proof -
    have "chained dstExpertBegin 0 (segs_to s r e) (at c (dstExpertCursor s) r e)"
      using flow that assms(2) unfolding inv_flow_def by blast
    then show ?thesis using chained_total that assms unfolding plan_full_def by fastforce
  qed
  have from_: "sum_list (map tokenCount (segs_from s r e)) = at c tpe r e" if "r \<in> ranks_of c" for r
  proof -
    have "chained srcExpertBegin 0 (segs_from s r e) (at c (srcExpertCursor s) r e)"
      "at c (srcExpertCursor s) r e + at c (remainingTpe s) r e = at c tpe r e" "at c (remainingTpe s) r e = 0"
      using flow that assms unfolding inv_flow_def plan_full_def by blast+
    then show ?thesis using chained_total by fastforce
  qed
  show ?thesis
    using sum_list_partition [OF _ rng(1), of tokenCount] sum_list_partition [OF _ rng(2), of tokenCount]
    by (simp add: f to from_)
qed

section \<open>Runs that write destinations\<close>

text \<open>The run passed the validation, never overflowed its segment records, and found a layout
  that fits: these are the runs that write destinations, balanced or not.\<close>

definition plan_written :: "plan_input \<Rightarrow> plan_output \<Rightarrow> plan_workspace \<Rightarrow> bool" where
  "plan_written inp out ws =
    (let c = plan_ctx_of inp ws; s = plan_balance c inp ws
     in Validate inp out ws = PLAN_OK \<and> fatal s = PLAN_OK \<and>
        fst (BuildLayouts c (in_config inp) s (arrays_of (cleared_out out))) = PLAN_OK)"

text \<open>The plan of a run that writes destinations.\<close>

lemma plan_written_run:
  fixes ws :: plan_workspace
  assumes w: "plan_written inp out ws" and cache: "affinity_cache_ok (plan_ctx_of inp ws) ws"
  defines "c \<equiv> plan_ctx_of inp ws"
  obtains s d where "run_state (RunPlanAlgorithm inp out ws) = Some s" "out_dst (run_out (RunPlanAlgorithm inp out ws)) = Some d"
    "plan_ready c (in_config inp) (deref (in_tokensPerExpert inp)) (deref (in_topkExperts inp)) s"
    "\<forall>r\<in>{0..<c_cap c}. d r = route_code c (in_config inp) s (deref (in_topkExperts inp)) (in_topK inp) r"
    "\<exists>a a1 mr le. BuildLayouts c (in_config inp) (plan_balance c inp ws) a = (PLAN_OK, s, a1, mr, le)"
    "c_cap c = in_s inp * in_topK inp" "0 < in_topK inp" "0 < in_s inp"
proof -
  have v: "Validate inp out ws = PLAN_OK" and f: "fatal (plan_balance c inp ws) = PLAN_OK"
    and l: "fst (BuildLayouts c (in_config inp) (plan_balance c inp ws) (arrays_of (cleared_out out))) = PLAN_OK"
    using w by (simp_all add: plan_written_def Let_def c_def)
  have i: "c_cap c = in_s inp * in_topK inp" "0 < in_topK inp" "0 < in_s inp"
    using Validate_input_ok [OF v] unfolding plan_input_ok_def c_def Let_def by blast+
  show thesis
  proof (rule run_layout [OF v cache f [unfolded c_def], folded c_def])
    fix ls s1 a1 mr le
    assume bl: "BuildLayouts c (in_config inp) (plan_balance c inp ws) (arrays_of (cleared_out out)) = (ls, s1, a1, mr, le)"
      and rdy: "ls = PLAN_OK \<Longrightarrow> plan_ready c (in_config inp) (deref (in_tokensPerExpert inp)) (deref (in_topkExperts inp)) s1"
      and rs: "run_state (RunPlanAlgorithm inp out ws) = Some s1"
      and ds: "ls = PLAN_OK \<Longrightarrow> \<exists>d. out_dst (run_out (RunPlanAlgorithm inp out ws)) = Some d \<and> (\<forall>r\<in>{0..<c_cap c}. d r =
        route_code c (in_config inp) s1 (deref (in_topkExperts inp)) (in_topK inp) r)"
    have ls: "ls = PLAN_OK" using l bl by simp
    obtain d where d: "out_dst (run_out (RunPlanAlgorithm inp out ws)) = Some d"
      "\<forall>r\<in>{0..<c_cap c}. d r = route_code c (in_config inp) s1 (deref (in_topkExperts inp)) (in_topK inp) r"
      using ds [OF ls] by blast
    have "\<exists>a a1 mr le. BuildLayouts c (in_config inp) (plan_balance c inp ws) a = (PLAN_OK, s1, a1, mr, le)"
      using bl ls by blast
    from that [OF rs d(1) rdy [OF ls] d(2) this i] show thesis .
  qed
qed

lemma plan_written_same:
  fixes ws ws' :: plan_workspace
  assumes w: "plan_written inp out ws" "plan_written inp' out' ws'" and st: "same_tables inp inp'"
    and cache: "affinity_cache_ok (plan_ctx_of inp ws) ws" "affinity_cache_ok (plan_ctx_of inp' ws') ws'"
    and s: "run_state (RunPlanAlgorithm inp out ws) = Some s" "run_state (RunPlanAlgorithm inp' out' ws') = Some s'"
  shows "same_plan s s'"
proof -
  let ?c = "plan_ctx_of inp ws" and ?c' = "plan_ctx_of inp' ws'"
  note sc = same_tables_ctx [OF st, of ws ws']
  obtain a a1 mr le where b: "BuildLayouts ?c (in_config inp) (plan_balance ?c inp ws) a = (PLAN_OK, s, a1, mr, le)"
    using plan_written_run [OF w(1) cache(1)] s(1) by (metis option.inject)
  obtain a' a1' mr' le' where b': "BuildLayouts ?c' (in_config inp') (plan_balance ?c' inp' ws') a' = (PLAN_OK, s', a1', mr', le')"
    using plan_written_run [OF w(2) cache(2)] s(2) by (metis option.inject)
  have v: "Validate inp out ws = PLAN_OK" "Validate inp' out' ws' = PLAN_OK"
    and f: "fatal (plan_balance ?c inp ws) = PLAN_OK" "fatal (plan_balance ?c' inp' ws') = PLAN_OK"
    using w by (simp_all add: plan_written_def Let_def)
  have i: "plan_ctx_ok ?c" "\<forall>src\<in>ranks_of ?c. \<forall>e\<in>experts_of ?c. 0 \<le> at ?c (deref (in_tokensPerExpert inp)) src e"
    using Validate_input_ok [OF v(1)] unfolding plan_input_ok_def Let_def by blast+
  have i': "plan_ctx_ok ?c'" "\<forall>src\<in>ranks_of ?c'. \<forall>e\<in>experts_of ?c'. 0 \<le> at ?c' (deref (in_tokensPerExpert inp')) src e"
    using Validate_input_ok [OF v(2)] unfolding plan_input_ok_def Let_def by blast+
  have sp: "same_plan (plan_balance ?c inp ws) (plan_balance ?c' inp' ws')"
    by (rule plan_balance_same [OF sc st i(1) i'(1) i(2) i'(2) cache f])
  have "in_config inp' = in_config inp" using st by (simp add: same_tables_def)
  then show ?thesis using BuildLayouts_same [OF sc sp b] b' by simp
qed

lemma plan_ok_written:
  fixes ws :: plan_workspace
  assumes "run_status (RunPlanAlgorithm inp out ws) = PLAN_OK" "affinity_cache_ok (plan_ctx_of inp ws) ws"
  shows "plan_written inp out ws" "fst (balance_status (plan_ctx_of inp ws) (plan_balance (plan_ctx_of inp ws) inp ws))"
proof -
  let ?c = "plan_ctx_of inp ws"
  have v: "Validate inp out ws = PLAN_OK"
    using assms(1) by (cases "Validate inp out ws = PLAN_OK") (simp_all add: RunPlanAlgorithm_def Let_def Validate_cleared)
  have f: "fatal (plan_balance ?c inp ws) = PLAN_OK"
    using assms(1) v by (cases "fatal (plan_balance ?c inp ws) = PLAN_OK") (simp_all add: RunPlanAlgorithm_def Let_def Validate_cleared)
  have "fst (balance_status ?c (plan_balance ?c inp ws)) \<and>
      fst (BuildLayouts ?c (in_config inp) (plan_balance ?c inp ws) (arrays_of (cleared_out out))) = PLAN_OK"
  proof (rule run_layout [OF v assms(2) f])
    fix ls s1 a1 mr le
    assume bl: "BuildLayouts ?c (in_config inp) (plan_balance ?c inp ws) (arrays_of (cleared_out out)) = (ls, s1, a1, mr, le)"
      and st: "run_status (RunPlanAlgorithm inp out ws) =
        (if fst (balance_status ?c (plan_balance ?c inp ws)) then ls else snd (balance_status ?c (plan_balance ?c inp ws)))"
    have "fst (balance_status ?c (plan_balance ?c inp ws))"
      using st assms(1) by (rule_tac ccontr) (auto simp: balance_status_def Let_def split: if_splits)
    then show ?thesis using st assms(1) bl by simp
  qed
  then show "plan_written inp out ws" "fst (balance_status ?c (plan_balance ?c inp ws))"
    using v f by (simp_all add: plan_written_def Let_def)
qed

end
