(* ===== verification/PlanCapacity.thy ===== *)
theory PlanCapacity
  imports PlanRun
begin

text \<open>
  How many segment records a run needs: one per route of the rank is always enough, so no move and no
  remainder overflows them.
\<close>

section \<open>Room for one more segment\<close>

lemma length_le_tokens: "\<forall>m\<in>set ms. 0 < tokenCount m \<Longrightarrow> int (length ms) \<le> sum_list (map tokenCount ms)"
proof (induction ms)
  case (Cons m ms)
  then have "0 < tokenCount m" "int (length ms) \<le> sum_list (map tokenCount ms)" by simp_all
  then show ?case by simp
qed simp

lemma inv_flow_own_total:
  assumes "inv_flow c tpe s" "c_rank c \<in> ranks_of c"
  shows "sum_list (map tokenCount (tokenSegments s)) =
      (\<Sum>e\<in>experts_of c. at c tpe (c_rank c) e) - (\<Sum>e\<in>experts_of c. at c (remainingTpe s) (c_rank c) e)"
    "\<forall>m\<in>set (tokenSegments s). 0 < tokenCount m"
proof -
  let ?r = "c_rank c"
  have own: "tokenSegments s = filter (\<lambda>m. srcRank m = ?r) (segmentLog s)"
    and rng: "\<forall>m\<in>set (tokenSegments s). expertId m \<in> experts_of c"
    using assms(1) unfolding inv_flow_def by auto
  have ch: "at c (srcExpertCursor s) ?r e + at c (remainingTpe s) ?r e = at c tpe ?r e"
    "chained srcExpertBegin 0 (segs_from s ?r e) (at c (srcExpertCursor s) ?r e)" if "e \<in> experts_of c" for e
    using assms that unfolding inv_flow_def by blast+
  have f: "filter (\<lambda>m. expertId m = e) (tokenSegments s) = segs_from s ?r e" for e
    by (simp add: own segs_from_def conj_commute)
  have "sum_list (map tokenCount (tokenSegments s)) = (\<Sum>e\<in>experts_of c. sum_list (map tokenCount (segs_from s ?r e)))"
    using sum_list_partition [OF _ rng, of tokenCount] by (simp add: f)
  also have "\<dots> = (\<Sum>e\<in>experts_of c. at c tpe ?r e - at c (remainingTpe s) ?r e)"
  proof (rule sum.cong [OF refl])
    fix e assume "e \<in> experts_of c"
    from chained_total [OF ch(2) [OF this]] ch(1) [OF this]
    show "sum_list (map tokenCount (segs_from s ?r e)) = at c tpe ?r e - at c (remainingTpe s) ?r e" by simp
  qed
  finally show "sum_list (map tokenCount (tokenSegments s)) =
      (\<Sum>e\<in>experts_of c. at c tpe ?r e) - (\<Sum>e\<in>experts_of c. at c (remainingTpe s) ?r e)"
    by (simp add: sum_subtractf)
  show "\<forall>m\<in>set (tokenSegments s). 0 < tokenCount m"
  proof
    fix m assume m: "m \<in> set (tokenSegments s)"
    then have "m \<in> set (filter (\<lambda>x. expertId x = expertId m) (tokenSegments s))" by simp
    then have "m \<in> set (segs_from s ?r (expertId m))" unfolding f .
    then show "0 < tokenCount m" using chained_mem [OF ch(2)] rng m by blast
  qed
qed

text \<open>The records have room for all routes of the rank.\<close>

definition room :: "plan_ctx \<Rightarrow> int arr \<Rightarrow> bool" where
  "room c tpe = (c_rank c \<in> ranks_of c \<and> (\<Sum>e\<in>experts_of c. at c tpe (c_rank c) e) \<le> c_segmentCapacity c)"

lemma AppendSegment_room:
  assumes inv: "inv_flow c tpe s" and rm: "room c tpe" and e: "e \<in> experts_of c" and src: "src \<in> ranks_of c"
    and k: "0 < k" "k \<le> at c (remainingTpe s) src e"
  obtains s1 where "AppendSegment c s e src dst a b k = (True, s1)" "fatal s1 = fatal s"
proof (cases "src = c_rank c")
  case True
  note r = rm [unfolded room_def]
  note own = inv_flow_own_total [OF inv conjunct1 [OF r]]
  have nn: "\<forall>x\<in>experts_of c. 0 \<le> at c (remainingTpe s) (c_rank c) x" using inv r unfolding inv_flow_def by blast
  have "at c (remainingTpe s) (c_rank c) e \<le> (\<Sum>x\<in>experts_of c. at c (remainingTpe s) (c_rank c) x)"
    using nn e by (intro member_le_sum) auto
  then have "int (length (tokenSegments s)) < c_segmentCapacity c"
    using length_le_tokens [OF own(2)] own(1) conjunct2 [OF r] k unfolding True by linarith
  then have "\<not> c_segmentCapacity c \<le> int (length (tokenSegments s))" by simp
  then show thesis using that unfolding AppendSegment_def Let_def by (simp add: True)
qed (use that in \<open>simp add: AppendSegment_def Let_def\<close>)

lemma take_sources_room:
  "\<lbrakk>inv_flow c tpe s; inv_pairs c s; fatal s = PLAN_OK; set srcs \<subseteq> ranks_of c;
    take_sources c e dst srcs s d a = (s', d', a'); room c tpe; dst \<in> ranks_of c; e \<in> experts_of c\<rbrakk> \<Longrightarrow> fatal s' = PLAN_OK"
proof (induction srcs arbitrary: s d a)
  case (Cons src srcs)
  note p = Cons.prems
  define k where "k = MinI32 (MinI32 (remainingTpe s (ReIndex src e (c_expertNum c))) d) (pair_remain c s src dst d)"
  obtain ok t where app: "AppendSegment c s e src dst (srcExpertCursor s (ReIndex src e (c_expertNum c)))
      (dstExpertCursor s (ReIndex dst e (c_expertNum c))) k = (ok, t)" by fastforce
  have st: "take_sources c e dst (src # srcs) s d a = (if d \<le> 0 then (s, d, a)
      else if k \<le> 0 then take_sources c e dst srcs s d a else if \<not> ok then (t, d, a)
      else take_sources c e dst srcs (record_take c t e src dst k) (d - k) (a + k))" for srcs
    by (simp only: take_sources.simps k_def [symmetric] Let_def app prod.case)
  note res = trans [OF st [symmetric] p(5)]
  have sub: "set srcs \<subseteq> ranks_of c" "src \<in> ranks_of c" using p(4) by auto
  show ?case
  proof (cases "d \<le> 0 \<or> k \<le> 0")
    case True
    then show ?thesis using Cons.IH [OF p(1-3) sub(1) _ p(6-8)] p(3) res by (cases "d \<le> 0") simp_all
  next
    case False
    have kl: "k \<le> at c (remainingTpe s) src e" by (simp add: k_def at_def MinI32_def)
    obtain t' where "AppendSegment c s e src dst (srcExpertCursor s (ReIndex src e (c_expertNum c)))
      (dstExpertCursor s (ReIndex dst e (c_expertNum c))) k = (True, t')" "fatal t' = fatal s"
      by (rule AppendSegment_room [OF p(1,6,8) sub(2) _ kl]) (use False in auto)
    then have ok: "ok" "fatal t = PLAN_OK" using app p(3) by simp_all
    have f: "fatal (record_take c t e src dst k) = PLAN_OK" using ok(2) by simp
    have one: "take_sources c e dst [src] s d a = (record_take c t e src dst k, d - k, a + k)"
      unfolding st using False ok(1) by simp
    have s1: "inv_flow c tpe (record_take c t e src dst k)" "inv_pairs c (record_take c t e src dst k)"
      using take_sources_inv [OF one f p(1,2) _ p(7,8)] sub(2) by simp_all
    show ?thesis using Cons.IH [OF s1 f sub(1) _ p(6-8)] res False ok(1) by simp
  qed
qed simp

lemma home_expert_range:
  assumes "plan_ctx_ok c" "homeOf c e = home" "home \<in> ranks_of c"
  shows "e \<in> experts_of c"
proof -
  have E: "0 < c_expertsPerRank c" "c_expertNum c = c_rankSize c * c_expertsPerRank c"
    using assms(1) by (simp_all add: plan_ctx_ok_def)
  have "home * c_expertsPerRank c \<le> e" "e < home * c_expertsPerRank c + c_expertsPerRank c"
    using assms(2) home_iff [OF assms(1)] by blast+
  moreover have "(home + 1) * c_expertsPerRank c \<le> c_rankSize c * c_expertsPerRank c"
    using assms(3) E by (intro mult_right_mono) auto
  moreover have "0 \<le> home * c_expertsPerRank c" using assms(3) E by simp
  ultimately show ?thesis unfolding E(2) by (simp add: distrib_right)
qed

lemma move_experts_room:
  "\<lbrakk>plan_inv c tpe s; fatal s = PLAN_OK; move_experts c home dst es s d f = (s', d', f'); \<forall>e\<in>set es. homeOf c e = home;
    plan_ctx_ok c; room c tpe; dst \<in> ranks_of c; home \<in> ranks_of c; home \<noteq> dst\<rbrakk> \<Longrightarrow> fatal s' = PLAN_OK"
proof (induction es arbitrary: s d f)
  case (Cons e es)
  note p = Cons.prems
  define av where "av = alloc s (ReIndex home e (c_expertNum c))"
  define ar where "ar = (FindRemote c s dst e \<ge> 0)"
  obtain t ed k where ts: "take_sources c e dst (row_of (affinityOrder s) dst (c_rankSize c)) s (MinI32 av d) 0 = (t, ed, k)"
    by (metis prod_cases3)
  define s3 where "s3 = (let s2 = (if k > 0 then commit_move c t home dst e ar k else t)
      in if ed > 0 then note_block c s2 dst e else s2)"
  have st: "move_experts c home dst (e # es) s d f = (if d \<le> 0 then (s, d, f) else if av \<le> 0 then move_experts c home dst es s d f
      else if \<not> ar \<and> remoteCount s dst \<ge> c_b c then move_experts c home dst es (s\<lparr> slotBlock := True \<rparr>) d f
      else if fatal t \<noteq> PLAN_OK then (t, d, True)
      else move_experts c home dst es s3 (if k > 0 then d - k else d) True)" for es
    by (simp add: av_def [symmetric] ar_def [symmetric] Let_def ts s3_def)
  note res = trans [OF st [symmetric] p(3)]
  have he: "homeOf c e = home" "\<forall>e\<in>set es. homeOf c e = home" using p(4) by simp_all
  have er: "e \<in> experts_of c" by (rule home_expert_range [OF p(5) he(1) p(8)])
  have inv: "inv_flow c tpe s" "inv_pairs c s" "inv_affinity c s" using p(1) by (simp_all add: plan_inv_def)
  have row: "set (row_of (affinityOrder s) dst (c_rankSize c)) \<subseteq> ranks_of c"
  proof -
    have "mset (row_of (affinityOrder s) dst (c_rankSize c)) = mset [0..c_rankSize c - 1]"
      using inv(3) p(7) unfolding inv_affinity_def by blast
    from mset_eq_setD [OF this] show ?thesis by auto
  qed
  have ft: "fatal t = PLAN_OK" by (rule take_sources_room [OF inv(1,2) p(2) row ts p(6,7) er])
  have f3: "fatal s3 = PLAN_OK" using ft by (simp add: s3_def Let_def)
  show ?case
  proof (cases "d \<le> 0 \<or> av \<le> 0 \<or> \<not> ar \<and> remoteCount s dst \<ge> c_b c")
    case True
    have sb: "plan_inv c tpe (s\<lparr> slotBlock := True \<rparr>)" "fatal (s\<lparr> slotBlock := True \<rparr>) = PLAN_OK"
      using p(1,2) plan_inv_flags by simp_all
    show ?thesis using Cons.IH [OF p(1,2) _ he(2) p(5-9)] Cons.IH [OF sb _ he(2) p(5-9)] p(2) res True
      by (cases "d \<le> 0"; cases "av \<le> 0") simp_all
  next
    case False
    have one: "move_experts c home dst [e] s d f = (s3, if k > 0 then d - k else d, True)"
      unfolding st using False ft by auto
    have "plan_inv c tpe s3" by (rule move_experts_inv [OF p(5,1,7,8,9) one f3]) (use he in simp)
    then show ?thesis using Cons.IH [OF _ f3 _ he(2) p(5-9)] res False ft by auto
  qed
qed simp

lemma ApplyExpertMove_room:
  assumes "plan_ctx_ok c" "room c tpe" "plan_inv c tpe s" "fatal s = PLAN_OK" "home \<in> ranks_of c" "dst \<in> ranks_of c"
    "ApplyExpertMove c s home dst req = (s', k)"
  shows "fatal s' = PLAN_OK \<and> plan_inv c tpe s'"
proof -
  have "fatal s' = PLAN_OK"
  proof (cases "req \<le> 0 \<or> home = dst")
    case False
    obtain t d f where mv: "move_experts c home dst (expert_order_of c s home) s req False = (t, d, f)" by (metis prod_cases3)
    have "fatal t = PLAN_OK"
      by (rule move_experts_room [OF assms(3,4) mv _ assms(1,2,6,5)]) (use expert_order_home [OF assms(1)] False in auto)
    then show ?thesis using assms(7) False assms(4) by (auto simp: ApplyExpertMove_def mv split: if_splits)
  qed (use assms in \<open>auto simp: ApplyExpertMove_def\<close>)
  then show ?thesis using ApplyExpertMove_inv [OF assms(1,3,5,6,7)] by simp
qed

section \<open>No overflow in any round\<close>

interpretation room_kept: move_kept c "\<lambda>s. plan_ctx_ok c \<and> room c tpe \<and> fatal s = PLAN_OK \<and> plan_inv c tpe s" for c tpe
proof unfold_locales
  fix s s' a b req k
  assume "plan_ctx_ok c \<and> room c tpe \<and> fatal s = PLAN_OK \<and> plan_inv c tpe s" "ApplyExpertMove c s a b req = (s', k)"
    "a \<in> ranks_of c" "b \<in> ranks_of c"
  then show "plan_ctx_ok c \<and> room c tpe \<and> fatal s' = PLAN_OK \<and> plan_inv c tpe s'"
    using ApplyExpertMove_room [of c tpe s a b req s' k] by blast
qed (simp_all add: plan_ctx_ok_def)

text \<open>The remainders keep the flow of the tokens, which is all that the room needs.\<close>

lemma remainder_sources_room:
  "\<lbrakk>inv_flow c tpe s; fatal s = PLAN_OK; room c tpe; set srcs \<subseteq> ranks_of c; dst \<in> ranks_of c; e \<in> experts_of c;
    remainder_sources c e dst srcs s = (ok, s')\<rbrakk> \<Longrightarrow> ok \<and> fatal s' = PLAN_OK \<and> inv_flow c tpe s'"
proof (induction srcs arbitrary: s)
  case (Cons src srcs)
  note p = Cons.prems
  define k where "k = remainingTpe s (ReIndex src e (c_expertNum c))"
  have sub: "set srcs \<subseteq> ranks_of c" "src \<in> ranks_of c" using p(4) by auto
  show ?case
  proof (cases "k \<le> 0")
    case True
    then show ?thesis using Cons.IH [OF p(1-3) sub(1) p(5,6)] p(7) by (simp add: k_def [symmetric] Let_def)
  next
    case False
    have kr: "k \<le> at c (remainingTpe s) src e" by (simp add: k_def at_def)
    obtain t where app: "AppendSegment c s e src dst (srcExpertCursor s (ReIndex src e (c_expertNum c)))
        (dstExpertCursor s (ReIndex dst e (c_expertNum c))) k = (True, t)" "fatal t = fatal s"
      by (rule AppendSegment_room [OF p(1,3,6) sub(2) _ kr]) (use False in auto)
    have u: "remainder_sources c e dst (src # srcs) s = remainder_sources c e dst srcs (take_rest c t e src dst k)"
      using False app(1) by (simp add: k_def [symmetric] Let_def take_rest_def)
    have fr: "remainingTpe t = remainingTpe s" "srcExpertCursor t = srcExpertCursor s" "dstExpertCursor t = dstExpertCursor s"
      using AppendSegment_frame [OF app(1)] by simp_all
    have own: "tokenSegments s = filter (\<lambda>m. srcRank m = c_rank c) (segmentLog s)" using p(1) by (simp add: inv_flow_def)
    have "inv_flow c tpe (take_rest c t e src dst k)"
      by (rule inv_flow_step [OF p(1) sub(2) p(5,6) _ kr])
        (use False AppendSegment_take(1) [OF app(1)] AppendSegment_take(2) [OF app(1) own] in
          \<open>simp_all add: take_rest_def Let_def fr at_def k_def\<close>)
    moreover have "fatal (take_rest c t e src dst k) = PLAN_OK" using app(2) p(2) by (simp add: take_rest_def Let_def)
    ultimately show ?thesis using Cons.IH [OF _ _ p(3) sub(1) p(5,6)] p(7) u by simp
  qed
qed simp

lemma remainder_experts_room:
  "\<lbrakk>inv_flow c tpe s; fatal s = PLAN_OK; room c tpe; plan_ctx_ok c; set es \<subseteq> experts_of c\<rbrakk> \<Longrightarrow>
    fatal (remainder_experts c es s) = PLAN_OK"
proof (induction es arbitrary: s)
  case (Cons e es)
  obtain ok t where rs: "remainder_sources c e (homeOf c e) [0..c_rankSize c - 1] s = (ok, t)" by fastforce
  have e: "e \<in> experts_of c" "set es \<subseteq> experts_of c" using Cons.prems(5) by auto
  have "ok \<and> fatal t = PLAN_OK \<and> inv_flow c tpe t"
    by (rule remainder_sources_room [OF Cons.prems(1-3) _ home_range [OF Cons.prems(4) e(1)] e(1) rs]) auto
  then show ?case using Cons.IH [OF _ _ Cons.prems(3,4) e(2)] rs by simp
qed simp

lemma plan_balance_room:
  fixes ws :: plan_workspace
  assumes ok: "plan_ctx_ok c" and nn: "\<forall>src\<in>ranks_of c. \<forall>e\<in>experts_of c. 0 \<le> at c (deref (in_tokensPerExpert inp)) src e"
    and cache: "affinity_cache_ok c ws" and rm: "room c (deref (in_tokensPerExpert inp))"
  shows "fatal (plan_balance c inp ws) = PLAN_OK"
proof -
  let ?tpe = "deref (in_tokensPerExpert inp)"
  let ?P = "\<lambda>s. plan_ctx_ok c \<and> room c ?tpe \<and> fatal s = PLAN_OK \<and> plan_inv c ?tpe s"
  define t where "t = (if ws_affinityOrderValid ws then plan_init c inp ws else BuildAffinity c (plan_init c inp ws))"
  have "?P t" using plan_start_inv(1,2) [OF ok nn refl cache, folded t_def] ok rm by blast
  then have i: "?P (RunIntra c t)" unfolding RunIntra_def by (rule room_kept.intra_servers_kept)
  then have n: "?P (RunInter c (RunIntra c t))" by (rule room_kept.RunInter_kept)
  have "fatal (AppendRemainders c (RunInter c (RunIntra c t))) = PLAN_OK" unfolding AppendRemainders_def
    by (rule remainder_experts_room [of c ?tpe]) (use n in \<open>auto simp: plan_inv_def\<close>)
  then show ?thesis using i n unfolding plan_balance_def Let_def t_def [symmetric] by simp
qed

end
