(* ===== verification/PlanSimulate.thy ===== *)
theory PlanSimulate
  imports PlanCapacity PlanReference
begin

text \<open>
  The reference planner and the planner of a rank take the same steps: related states stay related
  through sources, experts, pairs and rounds.
\<close>

section \<open>Sorting\<close>

lemma mset_insert_by [simp]: "mset (insert_by lt x ys) = add_mset x (mset ys)"
  by (induction ys) auto

lemma mset_std_sort [simp]: "mset (std_sort lt xs) = mset xs"
  by (induction xs) (simp_all add: std_sort_def)

lemma set_std_sort [simp]: "set (std_sort lt xs) = set xs"
  by (metis mset_std_sort set_mset_mset)

lemma length_std_sort [simp]: "length (std_sort lt xs) = length xs"
  by (metis mset_std_sort size_mset)

context insertion_order
begin

lemma sorted_insert_by: "sorted_wrt before ys \<Longrightarrow> sorted_wrt before (insert_by better x ys)"
proof (induction ys)
  case (Cons y ys)
  show ?case
  proof (cases "better y x")
    case True
    have "set (insert_by better x ys) = insert x (set ys)" by (metis mset_insert_by set_mset_add_mset_insert set_mset_mset)
    then show ?thesis using Cons True by auto
  next
    case False
    then have "before x y" using better_total [of x y] by auto
    then show ?thesis using Cons.prems False before_trans by auto
  qed
qed simp

lemma sorted_std_sort: "sorted_wrt before (std_sort better xs)"
  by (induction xs) (simp_all add: std_sort_def sorted_insert_by)

lemma std_sort_eq: "std_sort better xs = insertion_sort better xs"
  by (rule sorted_unique [OF sorted_std_sort sorted_insertion_sort]) simp

end

text \<open>Sorting records by an order that a projection preserves sorts the projected values.\<close>

lemma std_sort_map:
  assumes "insertion_order better" "insertion_order lt"
    and mono: "\<And>a b. a \<in> set xs \<Longrightarrow> b \<in> set xs \<Longrightarrow> lt a b \<Longrightarrow> f a = f b \<or> better (f a) (f b)"
  shows "map f (std_sort lt xs) = insertion_sort better (map f xs)"
proof (rule insertion_order.sorted_unique [OF assms(1)])
  have "sorted_wrt (\<lambda>a b. a = b \<or> lt a b) (std_sort lt xs)" by (rule insertion_order.sorted_std_sort [OF assms(2)])
  then have "sorted_wrt (\<lambda>a b. f a = f b \<or> better (f a) (f b)) (std_sort lt xs)"
    by (rule sorted_wrt_mono_rel [rotated]) (use mono in auto)
  then show "sorted_wrt (\<lambda>a b. a = b \<or> better a b) (map f (std_sort lt xs))" by (simp add: sorted_wrt_map)
  show "sorted_wrt (\<lambda>a b. a = b \<or> better a b) (insertion_sort better (map f xs))"
    by (rule insertion_order.sorted_insertion_sort [OF assms(1)])
qed simp

section \<open>Related states\<close>

definition ref_ctx_sim :: "ref_ctx \<Rightarrow> plan_ctx \<Rightarrow> bool" where
  "ref_ctx_sim rc c = (rc_rankSize rc = c_rankSize c \<and> rc_expertNum rc = c_expertNum c \<and>
    rc_expertsPerRank rc = c_expertsPerRank c \<and> rc_cap rc = c_cap c \<and> rc_prefetchSlots rc = c_b c \<and>
    rc_routeLimit rc = c_routeLimit c \<and> rc_globalRankIds rc = c_globalRankIds c)"

text \<open>The state of the reference planner and of the planner of one rank: equal tables, the same
  segments, and sets of remote experts that the slots hold.\<close>

definition ref_sim :: "plan_ctx \<Rightarrow> ref_state \<Rightarrow> plan_state \<Rightarrow> bool" where
  "ref_sim c st s =
    ((\<forall>dst\<in>ranks_of c. rs_affinityOrder st dst = row_of (affinityOrder s) dst (c_rankSize c)) \<and>
     rs_remainingTpe st = remainingTpe s \<and> rs_srcExpertCursor st = srcExpertCursor s \<and>
     rs_dstExpertCursor st = dstExpertCursor s \<and> rs_routedPairTokens st = routedPairTokens s \<and>
     (\<forall>dst\<in>ranks_of c. rs_remoteExpertSets st dst = set (remote_row c s dst)) \<and>
     rs_sawSlotBlock st = slotBlock s \<and> rs_sawSupplyBlock st = supplyBlock s \<and>
     rs_rankLoad st = rankLoad s \<and> rs_alloc st = alloc s \<and> rs_segments st = segmentLog s \<and>
     int (length (rs_expertMoves st)) = expertMoves s)"

definition tables_nonneg :: "plan_state \<Rightarrow> bool" where
  "tables_nonneg s = (\<forall>i. 0 \<le> remainingTpe s i \<and> 0 \<le> srcExpertCursor s i \<and> 0 \<le> dstExpertCursor s i \<and>
    0 \<le> routedPairTokens s i)"

section \<open>Taking tokens from the sources\<close>

definition assign_of :: "plan_ctx \<Rightarrow> int \<Rightarrow> int \<Rightarrow> plan_state \<Rightarrow> int \<Rightarrow> int \<Rightarrow> token_segment_move list \<Rightarrow> assign_state" where
  "assign_of c e dst s d k segs =
    \<lparr> as_remaining = column (c_rankSize c) (remainingTpe s) (\<lambda>src. ReIndex src e (c_expertNum c)),
      as_routed = column (c_rankSize c) (routedPairTokens s) (\<lambda>src. PairIndex src dst (c_rankSize c)),
      as_cursor = column (c_rankSize c) (srcExpertCursor s) (\<lambda>src. ReIndex src e (c_expertNum c)),
      as_dstCursor = dstExpertCursor s (ReIndex dst e (c_expertNum c)), as_demand = d, as_assigned = k, as_segments = segs \<rparr>"

lemma ReIndex_src_inj: "0 < n \<Longrightarrow> (ReIndex r e n = ReIndex r' e n) = (r = r')"
  by (simp add: ReIndex_def)

lemma PairIndex_src_inj: "0 < n \<Longrightarrow> (PairIndex r d n = PairIndex r' d n) = (r = r')"
  by (simp add: PairIndex_def)

lemma column_upd:
  assumes "\<And>r r'. (index r = index r') = (r = r')"
  shows "column n (table(index src := v)) index = vec_set (column n table index) src v"
  using assms by (auto simp: column_def vec_set_def fun_eq_iff)

lemma store_column_eq:
  assumes "\<And>r r'. (index r = index r') = (r = r')" "\<forall>i. i \<notin> index ` {0..<n} \<longrightarrow> new i = old i"
  shows "store_column n old index (column n new index) = new"
proof -
  have "fold (\<lambda>src t. t(index src := new (index src))) srcs old = (\<lambda>i. if i \<in> index ` set srcs then new i else old i)" for srcs
    by (induction srcs rule: rev_induct) (auto simp: fun_eq_iff)
  moreover have "set [0..n - 1] = {0..<n}" by auto
  ultimately show ?thesis using assms(2) by (auto simp: store_column_def column_def fun_eq_iff)
qed

lemma record_take_tables:
  "remainingTpe (record_take c s e src dst k) = (remainingTpe s)(ReIndex src e (c_expertNum c) := remainingTpe s (ReIndex src e (c_expertNum c)) - k)"
  "srcExpertCursor (record_take c s e src dst k) = (srcExpertCursor s)(ReIndex src e (c_expertNum c) := srcExpertCursor s (ReIndex src e (c_expertNum c)) + k)"
  "dstExpertCursor (record_take c s e src dst k) = (dstExpertCursor s)(ReIndex dst e (c_expertNum c) := dstExpertCursor s (ReIndex dst e (c_expertNum c)) + k)"
  "routedPairTokens (record_take c s e src dst k) = (if c_routeLimit c \<noteq> 0
     then (routedPairTokens s)(PairIndex src dst (c_rankSize c) := routedPairTokens s (PairIndex src dst (c_rankSize c)) + k) else routedPairTokens s)"
  "segmentLog (record_take c s e src dst k) = segmentLog s" "slotBlock (record_take c s e src dst k) = slotBlock s"
  "supplyBlock (record_take c s e src dst k) = supplyBlock s" "expertMoves (record_take c s e src dst k) = expertMoves s"
  by (simp_all add: record_take_def Let_def)

lemma AppendSegment_flags:
  "AppendSegment c s e src dst sb db n = (ok, s') \<Longrightarrow> slotBlock s' = slotBlock s \<and> supplyBlock s' = supplyBlock s \<and> expertMoves s' = expertMoves s"
  by (auto simp: AppendSegment_def Let_def split: if_splits)

lemma take_sources_assign:
  assumes ok: "plan_ctx_ok c" and e: "0 \<le> e" and srcs: "set srcs \<subseteq> ranks_of c" and nn: "tables_nonneg s"
    and ts: "take_sources c e dst srcs s d k = (s', d', k')" and f: "fatal s' = PLAN_OK"
  shows "\<exists>ts. assign_loop e dst (c_routeLimit c) srcs (assign_of c e dst s d k segs) = Some (assign_of c e dst s' d' k' (segs @ ts)) \<and>
    segmentLog s' = segmentLog s @ ts \<and> tables_nonneg s' \<and>
    slotBlock s' = slotBlock s \<and> supplyBlock s' = supplyBlock s \<and> expertMoves s' = expertMoves s \<and>
    (\<forall>i. i \<notin> (\<lambda>src. ReIndex src e (c_expertNum c)) ` ranks_of c \<longrightarrow>
       remainingTpe s' i = remainingTpe s i \<and> srcExpertCursor s' i = srcExpertCursor s i) \<and>
    (\<forall>i. i \<notin> (\<lambda>src. PairIndex src dst (c_rankSize c)) ` ranks_of c \<longrightarrow> routedPairTokens s' i = routedPairTokens s i) \<and>
    (\<forall>i. i \<noteq> ReIndex dst e (c_expertNum c) \<longrightarrow> dstExpertCursor s' i = dstExpertCursor s i)"
  using srcs nn ts
proof (induction srcs arbitrary: s d k segs)
  case Nil
  then show ?case by simp
next
  case (Cons src srcs)
  let ?re = "ReIndex src e (c_expertNum c)" and ?pr = "PairIndex src dst (c_rankSize c)" and ?dre = "ReIndex dst e (c_expertNum c)"
  have R: "0 < c_rankSize c" "0 < c_expertNum c" using ok by (simp_all add: plan_ctx_ok_def)
  have sub: "set srcs \<subseteq> ranks_of c" "src \<in> ranks_of c" using Cons.prems(1) by auto
  define n where "n = MinI32 (MinI32 (remainingTpe s ?re) d) (pair_remain c s src dst d)"
  obtain b t where app: "AppendSegment c s e src dst (srcExpertCursor s ?re) (dstExpertCursor s ?dre) n = (b, t)" by fastforce
  have st: "take_sources c e dst (src # srcs) s d k = (if d \<le> 0 then (s, d, k)
      else if n \<le> 0 then take_sources c e dst srcs s d k else if \<not> b then (t, d, k)
      else take_sources c e dst srcs (record_take c t e src dst n) (d - n) (k + n))"
    by (simp only: take_sources.simps n_def [symmetric] Let_def app prod.case)
  note res = trans [OF st [symmetric] Cons.prems(3)]
  have nn: "0 \<le> remainingTpe s ?re" "0 \<le> srcExpertCursor s ?re" "0 \<le> dstExpertCursor s ?dre" "0 \<le> routedPairTokens s ?pr"
    using Cons.prems(2) by (simp_all add: tables_nonneg_def)
  define a where "a = assign_of c e dst s d k segs"
  have av: "cell (as_remaining a) src = remainingTpe s ?re" "cell (as_routed a) src = routedPairTokens s ?pr"
    "cell (as_cursor a) src = srcExpertCursor s ?re" "as_dstCursor a = dstExpertCursor s ?dre" "as_demand a = d"
    "vsize (as_remaining a) = c_rankSize c" "as_segments a = segs" "as_assigned a = k"
    by (simp_all add: a_def assign_of_def column_def)
  define a1 where "a1 = a\<lparr> as_segments := segs @ [\<lparr> expertId = e, srcRank = src, dstRank = dst,
      srcExpertBegin = srcExpertCursor s ?re, dstExpertBegin = dstExpertCursor s ?dre, tokenCount = n \<rparr>],
    as_remaining := vec_set (as_remaining a) src (remainingTpe s ?re - n),
    as_cursor := vec_set (as_cursor a) src (srcExpertCursor s ?re + n),
    as_dstCursor := dstExpertCursor s ?dre + n,
    as_routed := (if c_routeLimit c \<noteq> 0 then vec_set (as_routed a) src (routedPairTokens s ?pr + n) else as_routed a),
    as_assigned := k + n, as_demand := d - n \<rparr>"
  have tk: "d > 0 \<Longrightarrow> min (min (remainingTpe s ?re) d) (max (if c_routeLimit c \<noteq> 0 then c_routeLimit c - routedPairTokens s ?pr else d) 0) = n"
    by (auto simp: n_def MinI32_def pair_remain_def Let_def min_def max_def)
  have un: "assign_loop e dst (c_routeLimit c) (src # srcs) a = (if d \<le> 0 then Some a
      else if n \<le> 0 then assign_loop e dst (c_routeLimit c) srcs a else assign_loop e dst (c_routeLimit c) srcs a1)"
  proof (cases "d \<le> 0")
    case False
    then have d: "(d \<le> 0) = False" "0 < d" by simp_all
    have g: "(src < 0 \<or> c_rankSize c \<le> src) = False"
      "(remainingTpe s ?re < 0 \<or> routedPairTokens s ?pr < 0 \<or> srcExpertCursor s ?re < 0 \<or> dstExpertCursor s ?dre < 0) = False"
      using nn sub(2) by auto
    show ?thesis by (simp only: assign_loop.simps av d(1) g Let_def tk [OF d(2)] if_False a1_def)
  qed (simp add: av)
  show ?case
  proof (cases "d \<le> 0 \<or> n \<le> 0")
    case True
    then show ?thesis
    proof (cases "d \<le> 0")
      case True
      then show ?thesis using res un Cons.prems(2) by (simp add: a_def)
    next
      case False
      then have "take_sources c e dst srcs s d k = (s', d', k')" using res True by simp
      from Cons.IH [OF sub(1) Cons.prems(2) this, of segs] show ?thesis using un False True by (simp add: a_def)
    qed
  next
    case False
    have b: "b" using res False f AppendSegment_frame(13) [OF app] by (cases b) auto
    let ?s1 = "record_take c t e src dst n"
    have ts1: "take_sources c e dst srcs ?s1 (d - n) (k + n) = (s', d', k')" using res False b by simp
    note fr = AppendSegment_frame [OF app] and fl = AppendSegment_flags [OF app]
    have lg: "segmentLog t = segmentLog s @ [\<lparr> expertId = e, srcRank = src, dstRank = dst,
      srcExpertBegin = srcExpertCursor s ?re, dstExpertBegin = dstExpertCursor s ?dre, tokenCount = n \<rparr>]"
      using app b by (auto simp: AppendSegment_def Let_def split: if_splits)
    note rt = record_take_tables [of c t e src dst n, unfolded fr]
    have nl: "n \<le> remainingTpe s ?re" by (simp add: n_def MinI32_def)
    have nn1: "tables_nonneg ?s1"
      using Cons.prems(2) nl False nn unfolding tables_nonneg_def rt by auto
    have cu: "column (c_rankSize c) (tbl(?re := v)) (\<lambda>src. ReIndex src e (c_expertNum c)) =
        vec_set (column (c_rankSize c) tbl (\<lambda>src. ReIndex src e (c_expertNum c))) src v" for tbl v
      by (rule column_upd) (rule ReIndex_src_inj [OF R(2)])
    have cp: "column (c_rankSize c) (tbl(?pr := v)) (\<lambda>src. PairIndex src dst (c_rankSize c)) =
        vec_set (column (c_rankSize c) tbl (\<lambda>src. PairIndex src dst (c_rankSize c))) src v" for tbl v
      by (rule column_upd) (rule PairIndex_src_inj [OF R(1)])
    have a1: "a1 = assign_of c e dst ?s1 (d - n) (k + n) (segs @ [\<lparr> expertId = e, srcRank = src, dstRank = dst,
      srcExpertBegin = srcExpertCursor s ?re, dstExpertBegin = dstExpertCursor s ?dre, tokenCount = n \<rparr>])"
      unfolding assign_of_def rt by (simp add: a1_def a_def assign_of_def cu cp)
    from Cons.IH [OF sub(1) nn1 ts1, of "segs @ [\<lparr> expertId = e, srcRank = src, dstRank = dst,
      srcExpertBegin = srcExpertCursor s ?re, dstExpertBegin = dstExpertCursor s ?dre, tokenCount = n \<rparr>]", folded a1]
    obtain ts where ih: "assign_loop e dst (c_routeLimit c) srcs a1 = Some (assign_of c e dst s' d' k' (segs @ \<lparr> expertId = e, srcRank = src, dstRank = dst,
      srcExpertBegin = srcExpertCursor s ?re, dstExpertBegin = dstExpertCursor s ?dre, tokenCount = n \<rparr> # ts))"
      "segmentLog s' = segmentLog ?s1 @ ts" "tables_nonneg s'"
      "slotBlock s' = slotBlock ?s1" "supplyBlock s' = supplyBlock ?s1" "expertMoves s' = expertMoves ?s1"
      "\<forall>i. i \<notin> (\<lambda>src. ReIndex src e (c_expertNum c)) ` ranks_of c \<longrightarrow>
       remainingTpe s' i = remainingTpe ?s1 i \<and> srcExpertCursor s' i = srcExpertCursor ?s1 i"
      "\<forall>i. i \<notin> (\<lambda>src. PairIndex src dst (c_rankSize c)) ` ranks_of c \<longrightarrow> routedPairTokens s' i = routedPairTokens ?s1 i"
      "\<forall>i. i \<noteq> ?dre \<longrightarrow> dstExpertCursor s' i = dstExpertCursor ?s1 i" by auto
    show ?thesis
    proof (intro exI conjI)
      show "assign_loop e dst (c_routeLimit c) (src # srcs) (assign_of c e dst s d k segs) = Some (assign_of c e dst s' d' k' (segs @ (\<lparr> expertId = e, srcRank = src, dstRank = dst,
      srcExpertBegin = srcExpertCursor s ?re, dstExpertBegin = dstExpertCursor s ?dre, tokenCount = n \<rparr> # ts)))"
        using un ih(1) False by (simp add: a_def)
    qed (use ih(2-9) sub(2) fl lg in \<open>auto simp: rt\<close>)
  qed
qed

section \<open>Moving experts\<close>

abbreviation re_of :: "plan_ctx \<Rightarrow> int \<Rightarrow> int \<Rightarrow> int" where "re_of c e \<equiv> (\<lambda>src. ReIndex src e (c_expertNum c))"
abbreviation pair_of :: "plan_ctx \<Rightarrow> int \<Rightarrow> int \<Rightarrow> int" where "pair_of c dst \<equiv> (\<lambda>src. PairIndex src dst (c_rankSize c))"

lemma AssignTokenSources_ref:
  assumes ok: "plan_ctx_ok c" and e: "e \<in> experts_of c" and dst: "dst \<in> ranks_of c" and row: "set row \<subseteq> ranks_of c"
    and nn: "tables_nonneg s" and d: "0 \<le> d" and ts: "take_sources c e dst row s d 0 = (t, ed, k)" and f: "fatal t = PLAN_OK"
  obtains sg where
    "AssignTokenSources e dst d (c_routeLimit c) row (column (c_rankSize c) (remainingTpe s) (re_of c e))
       (column (c_rankSize c) (routedPairTokens s) (pair_of c dst)) (column (c_rankSize c) (srcExpertCursor s) (re_of c e))
       (dstExpertCursor s (ReIndex dst e (c_expertNum c))) =
     Some (column (c_rankSize c) (remainingTpe t) (re_of c e), column (c_rankSize c) (routedPairTokens t) (pair_of c dst),
       column (c_rankSize c) (srcExpertCursor t) (re_of c e), dstExpertCursor t (ReIndex dst e (c_expertNum c)),
       \<lparr> sa_actualAssigned = k, sa_unmetDemand = ed,
         sa_supplyExhausted = (ed > 0 \<and> sum_list (map (\<lambda>src. remainingTpe t (re_of c e src)) [0..c_rankSize c - 1]) = 0),
         sa_routeLimited = (ed > 0 \<and> list_ex (\<lambda>src. c_routeLimit c \<noteq> 0 \<and> remainingTpe t (re_of c e src) > 0 \<and>
            routedPairTokens t (pair_of c dst src) \<ge> c_routeLimit c) [0..c_rankSize c - 1]),
         sa_segments = sg \<rparr>)"
    "segmentLog t = segmentLog s @ sg" "tables_nonneg t"
    "slotBlock t = slotBlock s \<and> supplyBlock t = supplyBlock s \<and> expertMoves t = expertMoves s"
    "store_column (c_rankSize c) (remainingTpe s) (re_of c e) (column (c_rankSize c) (remainingTpe t) (re_of c e)) = remainingTpe t"
    "store_column (c_rankSize c) (srcExpertCursor s) (re_of c e) (column (c_rankSize c) (srcExpertCursor t) (re_of c e)) = srcExpertCursor t"
    "store_column (c_rankSize c) (routedPairTokens s) (pair_of c dst) (column (c_rankSize c) (routedPairTokens t) (pair_of c dst)) = routedPairTokens t"
    "(dstExpertCursor s)(ReIndex dst e (c_expertNum c) := dstExpertCursor t (ReIndex dst e (c_expertNum c))) = dstExpertCursor t"
proof -
  have R: "0 < c_rankSize c" "0 < c_expertNum c" "0 \<le> c_routeLimit c" using ok by (simp_all add: plan_ctx_ok_def)
  have ee: "0 \<le> e" "0 \<le> dst" using e dst by simp_all
  from take_sources_assign [OF ok ee(1) row nn ts f, of "[]"]
  obtain sg where a: "assign_loop e dst (c_routeLimit c) row (assign_of c e dst s d 0 []) = Some (assign_of c e dst t ed k sg)"
    and l: "segmentLog t = segmentLog s @ sg" "tables_nonneg t"
      "slotBlock t = slotBlock s \<and> supplyBlock t = supplyBlock s \<and> expertMoves t = expertMoves s"
    and fr: "\<forall>i. i \<notin> re_of c e ` ranks_of c \<longrightarrow> remainingTpe t i = remainingTpe s i \<and> srcExpertCursor t i = srcExpertCursor s i"
      "\<forall>i. i \<notin> pair_of c dst ` ranks_of c \<longrightarrow> routedPairTokens t i = routedPairTokens s i"
      "\<forall>i. i \<noteq> ReIndex dst e (c_expertNum c) \<longrightarrow> dstExpertCursor t i = dstExpertCursor s i" by auto
  show thesis
  proof (rule that [OF _ l])
    show "AssignTokenSources e dst d (c_routeLimit c) row (column (c_rankSize c) (remainingTpe s) (re_of c e))
       (column (c_rankSize c) (routedPairTokens s) (pair_of c dst)) (column (c_rankSize c) (srcExpertCursor s) (re_of c e))
       (dstExpertCursor s (ReIndex dst e (c_expertNum c))) =
     Some (column (c_rankSize c) (remainingTpe t) (re_of c e), column (c_rankSize c) (routedPairTokens t) (pair_of c dst),
       column (c_rankSize c) (srcExpertCursor t) (re_of c e), dstExpertCursor t (ReIndex dst e (c_expertNum c)),
       \<lparr> sa_actualAssigned = k, sa_unmetDemand = ed,
         sa_supplyExhausted = (ed > 0 \<and> sum_list (map (\<lambda>src. remainingTpe t (re_of c e src)) [0..c_rankSize c - 1]) = 0),
         sa_routeLimited = (ed > 0 \<and> list_ex (\<lambda>src. c_routeLimit c \<noteq> 0 \<and> remainingTpe t (re_of c e src) > 0 \<and>
            routedPairTokens t (pair_of c dst src) \<ge> c_routeLimit c) [0..c_rankSize c - 1]),
         sa_segments = sg \<rparr>)"
      using a ee d R(3) by (simp add: AssignTokenSources_def assign_of_def column_def Let_def)
    show "(dstExpertCursor s)(ReIndex dst e (c_expertNum c) := dstExpertCursor t (ReIndex dst e (c_expertNum c))) = dstExpertCursor t"
      using fr(3) by (auto simp: fun_eq_iff)
  qed (rule store_column_eq, use fr ReIndex_src_inj [OF R(2)] PairIndex_src_inj [OF R(1)] in auto)+
qed

lemma ref_sim_fields:
  assumes "ref_sim c st s"
  shows "rs_remainingTpe st = remainingTpe s" "rs_srcExpertCursor st = srcExpertCursor s" "rs_dstExpertCursor st = dstExpertCursor s"
    "rs_routedPairTokens st = routedPairTokens s" "rs_rankLoad st = rankLoad s" "rs_alloc st = alloc s" "rs_segments st = segmentLog s"
    "rs_sawSlotBlock st = slotBlock s" "rs_sawSupplyBlock st = supplyBlock s" "int (length (rs_expertMoves st)) = expertMoves s"
    "dst \<in> ranks_of c \<Longrightarrow> rs_affinityOrder st dst = row_of (affinityOrder s) dst (c_rankSize c)"
    "dst \<in> ranks_of c \<Longrightarrow> rs_remoteExpertSets st dst = set (remote_row c s dst)"
  using assms unfolding ref_sim_def by blast+

lemma ref_ctx_sim_fields:
  assumes "ref_ctx_sim rc c"
  shows "rc_rankSize rc = c_rankSize c" "rc_expertNum rc = c_expertNum c" "rc_expertsPerRank rc = c_expertsPerRank c"
    "rc_cap rc = c_cap c" "rc_prefetchSlots rc = c_b c" "rc_routeLimit rc = c_routeLimit c" "rc_globalRankIds rc = c_globalRankIds c"
  using assms unfolding ref_ctx_sim_def by blast+

lemma ref_sim_flags:
  assumes "ref_sim c st s"
  shows "ref_sim c (st\<lparr> rs_sawSlotBlock := True \<rparr>) (s\<lparr> slotBlock := True \<rparr>)"
    "ref_sim c (st\<lparr> rs_sawSupplyBlock := True \<rparr>) (s\<lparr> supplyBlock := True \<rparr>)"
    "ref_sim c (st\<lparr> rs_sawRouteOrPairBlock := b \<rparr>) s" "ref_sim c st (s\<lparr> pairBlock := b \<rparr>)"
    "ref_sim c st (s\<lparr> intraRounds := n \<rparr>)" "ref_sim c st (s\<lparr> interRounds := n \<rparr>)"
  using assms by (simp_all add: ref_sim_def remote_row_def)

lemma remote_row_cong:
  "\<lbrakk>remoteExpertSet s' = remoteExpertSet s; remoteCount s' = remoteCount s\<rbrakk> \<Longrightarrow> remote_row c s' dst = remote_row c s dst"
  by (simp add: remote_row_def)

text \<open>The state after the sources of one expert were taken, and after the move was committed.\<close>

lemma ref_sim_take:
  assumes sim: "ref_sim c st s" and acc: "take_sources c e dst row s d 0 = (t, ed, k)"
    and fl: "slotBlock t = slotBlock s \<and> supplyBlock t = supplyBlock s \<and> expertMoves t = expertMoves s"
    and lg: "segmentLog t = segmentLog s @ sg"
  shows "ref_sim c (st\<lparr> rs_remainingTpe := remainingTpe t, rs_routedPairTokens := routedPairTokens t,
      rs_srcExpertCursor := srcExpertCursor t, rs_dstExpertCursor := dstExpertCursor t, rs_segments := rs_segments st @ sg \<rparr>) t"
proof -
  note a = take_sources_account [OF acc] and f = ref_sim_fields [OF sim]
  have "remote_row c t x = remote_row c s x" for x using a by (intro remote_row_cong) simp_all
  then show ?thesis using a fl lg f unfolding ref_sim_def by simp
qed

lemma ref_sim_commit:
  assumes rc: "ref_ctx_sim rc c" and dst: "dst \<in> ranks_of c"
    and st: "ref_sim c (st1\<lparr> rs_segments := rs_segments st1 @ sa_segments asg \<rparr>) t"
    and slots: "\<forall>x\<in>ranks_of c. 0 \<le> remoteCount t x \<and> remoteCount t x \<le> c_b c" and free: "ar \<or> remoteCount t dst < c_b c"
  shows "ref_sim c (ref_commit rc rnd home dst e req ar asg st1) (commit_move c t home dst e ar (sa_actualAssigned asg))"
proof -
  note f = ref_sim_fields [OF st, simplified] and rf = ref_ctx_sim_fields [OF rc]
  have row: "set (remote_row c (commit_move c t home dst e ar (sa_actualAssigned asg)) x) =
      (if x = dst \<and> \<not> ar then insert e (set (remote_row c t x)) else set (remote_row c t x))" if "x \<in> ranks_of c" for x
    using commit_slots_self(1) [of t dst c home e ar] commit_slots_other(1) [of x dst t c ar home e] slots free dst that
    by (cases "x = dst") auto
  let ?s = "commit_move c t home dst e ar (sa_actualAssigned asg)"
  have cm: "alloc ?s = ((alloc t)(ReIndex home e (c_expertNum c) := alloc t (ReIndex home e (c_expertNum c)) - sa_actualAssigned asg))
      (ReIndex dst e (c_expertNum c) := ((alloc t)(ReIndex home e (c_expertNum c) := alloc t (ReIndex home e (c_expertNum c)) - sa_actualAssigned asg))
        (ReIndex dst e (c_expertNum c)) + sa_actualAssigned asg)"
    "rankLoad ?s = ((rankLoad t)(home := rankLoad t home - sa_actualAssigned asg))
      (dst := ((rankLoad t)(home := rankLoad t home - sa_actualAssigned asg)) dst + sa_actualAssigned asg)"
    "expertMoves ?s = expertMoves t + 1" "slotBlock ?s = slotBlock t" "supplyBlock ?s = supplyBlock t"
    by (simp_all add: commit_move_def Let_def)
  show ?thesis
    unfolding ref_sim_def using f row dst by (simp add: cm ref_commit_def Let_def rf)
qed

text \<open>The states of the planner that the simulation is about: the invariant holds, the tables are
  non-negative, and there is room for all segments.\<close>

definition steady :: "plan_ctx \<Rightarrow> int arr \<Rightarrow> plan_state \<Rightarrow> bool" where
  "steady c tpe s = (plan_ctx_ok c \<and> room c tpe \<and> fatal s = PLAN_OK \<and> plan_inv c tpe s \<and> tables_nonneg s)"

lemma tables_nonneg_flags [simp]:
  "tables_nonneg (s\<lparr> slotBlock := b \<rparr>) = tables_nonneg s" "tables_nonneg (s\<lparr> supplyBlock := b \<rparr>) = tables_nonneg s"
  "tables_nonneg (s\<lparr> pairBlock := b \<rparr>) = tables_nonneg s" "tables_nonneg (s\<lparr> intraRounds := n \<rparr>) = tables_nonneg s"
  "tables_nonneg (s\<lparr> interRounds := n \<rparr>) = tables_nonneg s" "tables_nonneg (commit_move c s h dst e ar k) = tables_nonneg s"
  "tables_nonneg (note_block c s dst e) = tables_nonneg s"
  by (simp_all add: tables_nonneg_def)

lemma steady_flags [simp]:
  "steady c tpe (s\<lparr> slotBlock := b \<rparr>) = steady c tpe s" "steady c tpe (s\<lparr> pairBlock := b \<rparr>) = steady c tpe s"
  "steady c tpe (s\<lparr> intraRounds := n \<rparr>) = steady c tpe s" "steady c tpe (s\<lparr> interRounds := n \<rparr>) = steady c tpe s"
  by (simp_all add: steady_def)

lemma steady_row:
  assumes "steady c tpe s" "dst \<in> ranks_of c"
  shows "set (row_of (affinityOrder s) dst (c_rankSize c)) \<subseteq> ranks_of c"
proof -
  have "mset (row_of (affinityOrder s) dst (c_rankSize c)) = mset [0..c_rankSize c - 1]"
    using assms unfolding steady_def plan_inv_def inv_affinity_def by blast
  from mset_eq_setD [OF this] show ?thesis by auto
qed

lemma steady_slots:
  assumes "steady c tpe s" "dst \<in> ranks_of c"
  shows "int (card (set (remote_row c s dst))) = remoteCount s dst" "0 \<le> remoteCount s dst" "remoteCount s dst \<le> c_b c"
proof -
  have s: "0 \<le> remoteCount s dst" "remoteCount s dst \<le> c_b c" "distinct (remote_row c s dst)"
    using assms unfolding steady_def plan_inv_def inv_slots_def by blast+
  have "length (remote_row c s dst) = nat (remoteCount s dst)" by (simp add: remote_row_def)
  then show "int (card (set (remote_row c s dst))) = remoteCount s dst" using distinct_card [OF s(3)] s(1) by simp
  show "0 \<le> remoteCount s dst" "remoteCount s dst \<le> c_b c" using s by simp_all
qed

lemma note_block_ref:
  assumes "ref_sim c st s"
  shows "ref_sim c (if list_ex (\<lambda>src. c_routeLimit c \<noteq> 0 \<and> remainingTpe s (re_of c e src) > 0 \<and>
            routedPairTokens s (pair_of c dst src) \<ge> c_routeLimit c) [0..c_rankSize c - 1] then st\<lparr> rs_sawRouteOrPairBlock := True \<rparr>
       else if sum_list (map (\<lambda>src. remainingTpe s (re_of c e src)) [0..c_rankSize c - 1]) = 0 then st\<lparr> rs_sawSupplyBlock := True \<rparr>
       else st) (note_block c s dst e)"
  using assms ref_sim_flags(2) [OF assms] ref_sim_flags(3) [OF ref_sim_flags(4) [OF assms], of True True]
  by (simp add: note_block_def Let_def)

lemma move_experts_ref:
  assumes rc: "ref_ctx_sim rc c" and dst: "dst \<in> ranks_of c" and home: "home \<in> ranks_of c" "home \<noteq> dst"
  shows "\<lbrakk>steady c tpe s; ref_sim c st s; move_experts c home dst es s d f = (s', d', f'); \<forall>e\<in>set es. homeOf c e = home\<rbrakk> \<Longrightarrow>
    \<exists>st'. ref_move_experts rc rnd home dst es st d f = (st', d', f') \<and> ref_sim c st' s' \<and> steady c tpe s'"
proof (induction es arbitrary: s st d f)
  case (Cons e es)
  note p = Cons.prems and rf = ref_ctx_sim_fields [OF rc] and sf = ref_sim_fields [OF Cons.prems(2)]
  have sd: "plan_ctx_ok c" "room c tpe" "fatal s = PLAN_OK" "plan_inv c tpe s" "tables_nonneg s"
    using p(1) by (simp_all add: steady_def)
  have he: "homeOf c e = home" "\<forall>e\<in>set es. homeOf c e = home" using p(4) by simp_all
  have er: "e \<in> experts_of c" by (rule home_expert_range [OF sd(1) he(1) home(1)])
  define row where "row = row_of (affinityOrder s) dst (c_rankSize c)"
  define av where "av = alloc s (ReIndex home e (c_expertNum c))"
  define ar where "ar = (FindRemote c s dst e \<ge> 0)"
  obtain t ed k where ts: "take_sources c e dst row s (MinI32 av d) 0 = (t, ed, k)" by (metis prod_cases3)
  define s3 where "s3 = (let s2 = (if k > 0 then commit_move c t home dst e ar k else t)
      in if ed > 0 then note_block c s2 dst e else s2)"
  have st: "move_experts c home dst (e # es) s d f = (if d \<le> 0 then (s, d, f) else if av \<le> 0 then move_experts c home dst es s d f
      else if \<not> ar \<and> remoteCount s dst \<ge> c_b c then move_experts c home dst es (s\<lparr> slotBlock := True \<rparr>) d f
      else if fatal t \<noteq> PLAN_OK then (t, d, True)
      else move_experts c home dst es s3 (if k > 0 then d - k else d) True)" for es
    by (simp add: av_def [symmetric] ar_def [symmetric] row_def [symmetric] Let_def ts s3_def)
  note res = trans [OF st [symmetric] p(3)]
  have ar: "(e \<in> rs_remoteExpertSets st dst) = ar" using sf(12) [OF dst] FindRemote_iff by (simp add: ar_def)
  have cd: "int (card (rs_remoteExpertSets st dst)) = remoteCount s dst"
    using sf(12) [OF dst] steady_slots(1) [OF p(1) dst] by simp
  have ao: "rs_affinityOrder st dst = row" using sf(11) [OF dst] by (simp add: row_def)
  have sr: "set row \<subseteq> ranks_of c" unfolding row_def by (rule steady_row [OF p(1) dst])
  have inv: "inv_flow c tpe s" "inv_pairs c s" using sd(4) by (simp_all add: plan_inv_def)
  have ft: "fatal t = PLAN_OK" by (rule take_sources_room [OF inv sd(3) sr ts sd(2) dst er])
  consider "d \<le> 0" | "0 < d" "av \<le> 0" | "0 < d" "0 < av" "\<not> ar \<and> remoteCount s dst \<ge> c_b c"
    | "0 < d" "0 < av" "\<not> (\<not> ar \<and> remoteCount s dst \<ge> c_b c)" by linarith
  then show ?case
  proof cases
    case 1
    then show ?thesis using res p(1,2) by simp
  next
    case 2
    then have "move_experts c home dst es s d f = (s', d', f')" using res by simp
    from Cons.IH [OF p(1,2) this he(2)] show ?thesis using 2 by (simp add: sf rf av_def [symmetric] Let_def)
  next
    case 3
    then have mv: "move_experts c home dst es (s\<lparr> slotBlock := True \<rparr>) d f = (s', d', f')" using res by simp
    have "ref_sim c (st\<lparr> rs_sawSlotBlock := True \<rparr>) (s\<lparr> slotBlock := True \<rparr>)" by (rule ref_sim_flags(1) [OF p(2)])
    from Cons.IH [OF _ this mv he(2)] show ?thesis using 3 p(1) by (simp add: sf rf av_def [symmetric] Let_def ar cd)
  next
    case 4
    have d0: "0 \<le> MinI32 av d" using 4 by (simp add: MinI32_def)
    have mn: "min av d = MinI32 av d" by (simp add: MinI32_def min_def)
    obtain sg where as: "AssignTokenSources e dst (MinI32 av d) (c_routeLimit c) row (column (c_rankSize c) (remainingTpe s) (re_of c e))
       (column (c_rankSize c) (routedPairTokens s) (pair_of c dst)) (column (c_rankSize c) (srcExpertCursor s) (re_of c e))
       (dstExpertCursor s (ReIndex dst e (c_expertNum c))) =
     Some (column (c_rankSize c) (remainingTpe t) (re_of c e), column (c_rankSize c) (routedPairTokens t) (pair_of c dst),
       column (c_rankSize c) (srcExpertCursor t) (re_of c e), dstExpertCursor t (ReIndex dst e (c_expertNum c)),
       \<lparr> sa_actualAssigned = k, sa_unmetDemand = ed,
         sa_supplyExhausted = (ed > 0 \<and> sum_list (map (\<lambda>src. remainingTpe t (re_of c e src)) [0..c_rankSize c - 1]) = 0),
         sa_routeLimited = (ed > 0 \<and> list_ex (\<lambda>src. c_routeLimit c \<noteq> 0 \<and> remainingTpe t (re_of c e src) > 0 \<and>
            routedPairTokens t (pair_of c dst src) \<ge> c_routeLimit c) [0..c_rankSize c - 1]),
         sa_segments = sg \<rparr>)"
      and lg: "segmentLog t = segmentLog s @ sg" and nt: "tables_nonneg t"
      and fl: "slotBlock t = slotBlock s \<and> supplyBlock t = supplyBlock s \<and> expertMoves t = expertMoves s"
      and sc: "store_column (c_rankSize c) (remainingTpe s) (re_of c e) (column (c_rankSize c) (remainingTpe t) (re_of c e)) = remainingTpe t"
        "store_column (c_rankSize c) (srcExpertCursor s) (re_of c e) (column (c_rankSize c) (srcExpertCursor t) (re_of c e)) = srcExpertCursor t"
        "store_column (c_rankSize c) (routedPairTokens s) (pair_of c dst) (column (c_rankSize c) (routedPairTokens t) (pair_of c dst)) = routedPairTokens t"
        "(dstExpertCursor s)(ReIndex dst e (c_expertNum c) := dstExpertCursor t (ReIndex dst e (c_expertNum c))) = dstExpertCursor t"
      by (rule AssignTokenSources_ref [OF sd(1) er dst sr sd(5) d0 ts ft])
    define asg where "asg = \<lparr> sa_actualAssigned = k, sa_unmetDemand = ed,
         sa_supplyExhausted = (ed > 0 \<and> sum_list (map (\<lambda>src. remainingTpe t (re_of c e src)) [0..c_rankSize c - 1]) = 0),
         sa_routeLimited = (ed > 0 \<and> list_ex (\<lambda>src. c_routeLimit c \<noteq> 0 \<and> remainingTpe t (re_of c e src) > 0 \<and>
            routedPairTokens t (pair_of c dst src) \<ge> c_routeLimit c) [0..c_rankSize c - 1]),
         sa_segments = sg \<rparr>"
    define st1 where "st1 = st\<lparr> rs_remainingTpe := remainingTpe t, rs_routedPairTokens := routedPairTokens t,
        rs_srcExpertCursor := srcExpertCursor t, rs_dstExpertCursor := dstExpertCursor t \<rparr>"
    define st2 where "st2 = (if k > 0 then ref_commit rc rnd home dst e (MinI32 av d) ar asg st1 else st1)"
    define st3 where "st3 = (if ed > 0 then if sa_routeLimited asg then st2\<lparr> rs_sawRouteOrPairBlock := True \<rparr>
        else if sa_supplyExhausted asg then st2\<lparr> rs_sawSupplyBlock := True \<rparr> else st2 else st2)"
    have acc: "remoteCount t = remoteCount s" "0 \<le> k" using take_sources_account [OF ts] by simp_all
    have sim1: "ref_sim c (st1\<lparr> rs_segments := rs_segments st1 @ sa_segments asg \<rparr>) t"
      using ref_sim_take [OF p(2) ts fl lg] by (simp add: st1_def asg_def)
    have sim2: "ref_sim c st2 (if k > 0 then commit_move c t home dst e ar k else t)"
    proof (cases "k > 0")
      case True
      have "ref_sim c (ref_commit rc rnd home dst e (MinI32 av d) ar asg st1) (commit_move c t home dst e ar (sa_actualAssigned asg))"
        by (rule ref_sim_commit [OF rc dst sim1]) (use steady_slots [OF p(1)] 4(3) acc(1) in auto)
      then show ?thesis using True by (simp add: st2_def asg_def)
    next
      case False
      then have "k = 0" using acc(2) by simp
      then have "t = s" using take_sources_idle [of c e dst row s "MinI32 av d" 0] ts ft by blast
      then have "sg = []" using lg by simp
      then show ?thesis using sim1 False by (simp add: st2_def asg_def)
    qed
    have sim3: "ref_sim c st3 s3"
    proof (cases "ed > 0")
      case True
      have tb: "remainingTpe (if k > 0 then commit_move c t home dst e ar k else t) = remainingTpe t"
        "routedPairTokens (if k > 0 then commit_move c t home dst e ar k else t) = routedPairTokens t" by simp_all
      have "s3 = note_block c (if k > 0 then commit_move c t home dst e ar k else t) dst e" using True by (simp only: s3_def Let_def if_True)
      moreover have "st3 = (if list_ex (\<lambda>src. c_routeLimit c \<noteq> 0 \<and> remainingTpe t (re_of c e src) > 0 \<and>
            routedPairTokens t (pair_of c dst src) \<ge> c_routeLimit c) [0..c_rankSize c - 1] then st2\<lparr> rs_sawRouteOrPairBlock := True \<rparr>
         else if sum_list (map (\<lambda>src. remainingTpe t (re_of c e src)) [0..c_rankSize c - 1]) = 0 then st2\<lparr> rs_sawSupplyBlock := True \<rparr>
         else st2)"
        unfolding st3_def asg_def using True by simp
      ultimately show ?thesis using note_block_ref [OF sim2, of e dst] unfolding tb by (simp only:)
    next
      case False
      then show ?thesis using sim2 by (simp add: st3_def s3_def Let_def)
    qed
    have one: "move_experts c home dst [e] s d f = (s3, if k > 0 then d - k else d, True)"
      unfolding st using 4 ft by auto
    have f3: "fatal s3 = PLAN_OK" using ft by (simp add: s3_def Let_def)
    have "plan_inv c tpe s3" by (rule move_experts_inv [OF sd(1,4) dst home one f3]) (use he in simp)
    then have sd3: "steady c tpe s3" using sd f3 nt by (simp add: steady_def s3_def Let_def)
    have mv: "move_experts c home dst es s3 (if k > 0 then d - k else d) True = (s', d', f')" using res 4 ft by auto
    have un: "ref_move_experts rc rnd home dst (e # es) st d f =
        ref_move_experts rc rnd home dst es st3 (if k > 0 then d - k else d) True"
    proof -
      have g: "(d \<le> 0) = False" "(av \<le> 0) = False" "(\<not> ar \<and> remoteCount s dst \<ge> c_b c) = False" using 4 by auto
      have q: "sa_actualAssigned asg = k" "sa_unmetDemand asg = ed" by (simp_all add: asg_def)
      show ?thesis
        by (simp only: ref_move_experts.simps sf rf ar cd ao mn av_def [symmetric] g Let_def as asg_def [symmetric] sc
            st1_def [symmetric] if_False option.case prod.case q st2_def [symmetric] st3_def [symmetric])
    qed
    show ?thesis using Cons.IH [OF sd3 sim3 mv he(2)] un by simp
  qed
qed simp

text \<open>Both planners sort the experts of the sender the same way.\<close>

lemma ref_expert_order_eq:
  assumes "ref_ctx_sim rc c" "ref_sim c st s"
  shows "ref_expert_order rc st home = expert_order_of c s home"
proof -
  note rf = ref_ctx_sim_fields [OF assms(1)] and sf = ref_sim_fields [OF assms(2)]
  let ?lt = "\<lambda>lhs rhs. let lhsAlloc = alloc s (ReIndex home lhs (c_expertNum c)); rhsAlloc = alloc s (ReIndex home rhs (c_expertNum c))
    in if lhsAlloc \<noteq> rhsAlloc then lhsAlloc > rhsAlloc else lhs < rhs"
  have o: "insertion_order ?lt" by unfold_locales (auto simp: Let_def split: if_splits)
  have "std_sort ?lt xs = insertion_sort (expert_better (alloc s) (c_expertNum c) home) xs" for xs
    using std_sort_map [OF expert_order.insertion_order_axioms o, of xs "\<lambda>x. x" "alloc s" "c_expertNum c" home]
    by (simp add: expert_better_def Let_def split: if_splits)
  then show ?thesis by (simp add: ref_expert_order_def expert_order_of_def Let_def rf sf)
qed

lemma ApplyExpertMove_ref:
  assumes rc: "ref_ctx_sim rc c" and sd: "steady c tpe s" and sim: "ref_sim c st s"
    and dst: "dst \<in> ranks_of c" and home: "home \<in> ranks_of c" and am: "ApplyExpertMove c s home dst req = (s', k)"
  shows "\<exists>st'. ref_ApplyExpertMove rc st home dst req rnd = (st', k) \<and> ref_sim c st' s' \<and> steady c tpe s'"
proof (cases "req \<le> 0 \<or> home = dst")
  case True
  then show ?thesis using am sd sim by (auto simp: ApplyExpertMove_def ref_ApplyExpertMove_def)
next
  case False
  have ok: "plan_ctx_ok c" "fatal s = PLAN_OK" using sd by (simp_all add: steady_def)
  obtain t d f where mv: "move_experts c home dst (expert_order_of c s home) s req False = (t, d, f)" by (metis prod_cases3)
  have hm: "\<forall>e\<in>set (expert_order_of c s home). homeOf c e = home" using expert_order_home [OF ok(1)] by blast
  obtain st' where st': "ref_move_experts rc rnd home dst (expert_order_of c s home) st req False = (st', d, f)"
    "ref_sim c st' t" "steady c tpe t"
    using move_experts_ref [OF rc dst home _ sd sim mv hm] False by blast
  have ft: "fatal t = PLAN_OK" using st'(3) by (simp add: steady_def)
  have r: "s' = (if d > 0 \<and> \<not> f then t\<lparr> pairBlock := True \<rparr> else t)" "k = req - d"
    using am False ok(2) ft by (simp_all add: ApplyExpertMove_def mv)
  have "ref_ApplyExpertMove rc st home dst req rnd = (if d > 0 \<and> \<not> f then st'\<lparr> rs_sawRouteOrPairBlock := True \<rparr> else st', k)"
    using False st'(1) by (simp add: ref_ApplyExpertMove_def ref_expert_order_eq [OF rc sim] r(2))
  moreover have "ref_sim c (if d > 0 \<and> \<not> f then st'\<lparr> rs_sawRouteOrPairBlock := True \<rparr> else st') s'"
    using ref_sim_flags(3) [OF ref_sim_flags(4) [OF st'(2)]] st'(2) by (simp add: r(1))
  ultimately show ?thesis using st'(3) by (simp add: r(1))
qed

end
