(* ===== verification/PlanSimRounds.thy ===== *)
theory PlanSimRounds
  imports PlanSimulate
begin

text \<open>
  The rounds within and across servers of the reference planner and of the planner of a rank.
\<close>

section \<open>Rounds of one server\<close>

interpretation ranked_order: insertion_order "load_before descending" for descending
proof unfold_locales
  fix a b :: ranked_load
  assume "a \<noteq> b"
  then show "load_before descending a b \<or> load_before descending b a"
    by (cases a; cases b) (auto simp: load_before_def)
qed (auto simp: load_before_def split: if_splits)

text \<open>The loads of the members as the reference planner sorts them, and as the planner sorts the ranks.\<close>

definition member_loads :: "plan_ctx \<Rightarrow> plan_state \<Rightarrow> int list \<Rightarrow> ranked_load list" where
  "member_loads c s members = std_sort (load_before True)
    (map (\<lambda>rank. \<lparr> rl_rank = rank, rl_load = rankLoad s (members ! nat rank), rl_globalRankId = c_globalRankIds c (members ! nat rank) \<rparr>)
      (filter (\<lambda>rank. rankLoad s (members ! nat rank) \<noteq> c_cap c) [0..int (length members) - 1]))"

abbreviation member_of :: "int list \<Rightarrow> ranked_load \<Rightarrow> int" where "member_of members l \<equiv> members ! nat (rl_rank l)"

lemma nth_upto_self: "map (\<lambda>i. xs ! nat i) [0..int (length xs) - 1] = xs"
  by (rule nth_equalityI) simp_all

lemma member_loads_ranks:
  assumes "sorted_wrt (<) members"
  shows "map (member_of members) (member_loads c s members) =
      insertion_sort (rank_better (rankLoad s) (c_globalRankIds c) False) (filter (\<lambda>r. rankLoad s r \<noteq> c_cap c) members)"
    "\<forall>l\<in>set (member_loads c s members). rl_load l = rankLoad s (member_of members l)"
proof -
  let ?mk = "\<lambda>rank. \<lparr> rl_rank = rank, rl_load = rankLoad s (members ! nat rank), rl_globalRankId = c_globalRankIds c (members ! nat rank) \<rparr>"
  let ?is = "filter (\<lambda>rank. rankLoad s (members ! nat rank) \<noteq> c_cap c) [0..int (length members) - 1]"
  have "map (member_of members) (member_loads c s members) =
      insertion_sort (rank_better (rankLoad s) (c_globalRankIds c) False) (map (member_of members) (map ?mk ?is))"
    unfolding member_loads_def
  proof (rule std_sort_map [OF rank_order.insertion_order_axioms ranked_order.insertion_order_axioms])
    fix a b assume ab: "a \<in> set (map ?mk ?is)" "b \<in> set (map ?mk ?is)" and lt: "load_before True a b"
    obtain i j where i: "a = ?mk i" "0 \<le> i" "i < int (length members)" and j: "b = ?mk j" "0 \<le> j" "j < int (length members)"
      using ab by auto
    have "members ! nat i < members ! nat j" if "i < j"
      using sorted_wrt_nth_less [OF assms, of "nat i" "nat j"] that i j by simp
    then show "member_of members a = member_of members b \<or>
        rank_better (rankLoad s) (c_globalRankIds c) False (member_of members a) (member_of members b)"
      using lt by (auto simp: i(1) j(1) load_before_def rank_better_def split: if_splits)
  qed
  also have "map (member_of members) (map ?mk ?is) = filter (\<lambda>r. rankLoad s r \<noteq> c_cap c) (map (\<lambda>i. members ! nat i) [0..int (length members) - 1])"
    by (simp add: filter_map comp_def)
  finally show "map (member_of members) (member_loads c s members) =
      insertion_sort (rank_better (rankLoad s) (c_globalRankIds c) False) (filter (\<lambda>r. rankLoad s r \<noteq> c_cap c) members)"
    by (simp only: nth_upto_self)
  show "\<forall>l\<in>set (member_loads c s members). rl_load l = rankLoad s (member_of members l)"
    by (auto simp: member_loads_def)
qed

lemma load_middle_eq:
  assumes "m < length act" "\<forall>l\<in>set act. rl_load l = rankLoad s (g l)"
  shows "load_middle (c_cap c) (map rl_load act) m = find_middle c s (map g act) m"
  using assms(1)
proof (induction m)
  case (Suc m)
  have "rl_load (act ! m) = rankLoad s (g (act ! m))" "rl_load (act ! Suc m) = rankLoad s (g (act ! Suc m))"
    using assms(2) Suc.prems by (simp_all add: nth_mem)
  then show ?case using Suc by simp
qed simp

text \<open>The pairs of one round.\<close>

definition pairs_at :: "plan_ctx \<Rightarrow> plan_state \<Rightarrow> int list \<Rightarrow> (int \<times> int) list option" where
  "pairs_at c s act =
    (if length act < 2 \<or> rankLoad s (act ! 0) + rankLoad s (act ! 1) < c_cap c \<or> rankLoad s (act ! (length act - 1)) > c_cap c then None
     else let mid = find_middle c s act (length act div 2)
       in if mid = 0 then None
          else Some (zip (filter (\<lambda>r. rankLoad s r > c_cap c) (rev (take mid act)))
                         (filter (\<lambda>r. rankLoad s r < c_cap c) (drop mid act))))"

lemma BuildIntraServerPairs_eq:
  assumes mem: "sorted_wrt (<) members" and cap: "0 < c_cap c"
    and nn: "\<forall>r\<in>set members. 0 \<le> rankLoad s r \<and> 0 \<le> c_globalRankIds c r"
  defines "act \<equiv> insertion_sort (rank_better (rankLoad s) (c_globalRankIds c) False) (filter (\<lambda>r. rankLoad s r \<noteq> c_cap c) members)"
  obtains pairs where "BuildIntraServerPairs (member_vec (rankLoad s) members) (member_vec (c_globalRankIds c) members) (c_cap c) = Some pairs"
    "map (\<lambda>p. (members ! nat (rp_srcRank p), members ! nat (rp_dstRank p))) pairs = (case pairs_at c s act of None \<Rightarrow> [] | Some ps \<Rightarrow> ps)"
    "\<forall>p\<in>set pairs. rp_requestedUnits p = min (rankLoad s (members ! nat (rp_srcRank p)) - c_cap c) (c_cap c - rankLoad s (members ! nat (rp_dstRank p)))
      \<and> 0 < rp_requestedUnits p"
proof -
  define al where "al = member_loads c s members"
  define g where "g = member_of members"
  have ml: "map g al = act" "\<forall>l\<in>set al. rl_load l = rankLoad s (g l)"
    using member_loads_ranks [OF mem, of c s] by (simp_all add: al_def g_def act_def)
  let ?L = "member_vec (rankLoad s) members" and ?G = "member_vec (c_globalRankIds c) members"
  have c1: "\<not> (c_cap c \<le> 0 \<or> vsize ?L \<noteq> vsize ?G)" using cap by (simp add: member_vec_def)
  have c2: "\<not> list_ex (\<lambda>rank. cell ?L rank < 0 \<or> cell ?G rank < 0) [0..vsize ?L - 1]"
    using nn by (auto simp: member_vec_def list_ex_iff not_less)
  have a: "std_sort (load_before True) (map (\<lambda>rank. \<lparr> rl_rank = rank, rl_load = cell ?L rank, rl_globalRankId = cell ?G rank \<rparr>)
      (filter (\<lambda>rank. cell ?L rank \<noteq> c_cap c) [0..vsize ?L - 1])) = al"
    by (simp add: al_def member_loads_def member_vec_def)
  have len: "length act = length al" by (simp flip: ml(1))
  have ld: "rl_load (al ! i) = rankLoad s (act ! i)" if "i < length al" for i
    using ml(2) that by (simp flip: ml(1))
  let ?early = "length al < 2 \<or> rl_load (al ! 0) + rl_load (al ! 1) < c_cap c \<or> rl_load (al ! (length al - 1)) > c_cap c"
  have early: "?early = (length act < 2 \<or> rankLoad s (act ! 0) + rankLoad s (act ! 1) < c_cap c \<or> rankLoad s (act ! (length act - 1)) > c_cap c)"
  proof (cases "length al < 2")
    case False
    then have "0 < length al" "1 < length al" "length al - 1 < length al" by linarith+
    then show ?thesis using False by (simp only: ld len)
  qed (simp add: len)
  define mid where "mid = load_middle (c_cap c) (map rl_load al) (length al div 2)"
  have mid: "mid = find_middle c s act (length act div 2)" if "\<not> length al < 2"
    using load_middle_eq [of "length al div 2" al s g c] ml that by (simp add: mid_def len)
  define S where "S = filter (\<lambda>l. rl_load l > c_cap c) (rev (take mid al))"
  define T where "T = filter (\<lambda>l. rl_load l < c_cap c) (drop mid al)"
  let ?mk = "\<lambda>(snd, rcv). \<lparr> rp_srcRank = rl_rank snd, rp_dstRank = rl_rank rcv,
      rp_requestedUnits = min (rl_load snd - c_cap c) (c_cap c - rl_load rcv) \<rparr>"
  have sl: "\<forall>l\<in>set S. rl_load l = rankLoad s (g l) \<and> c_cap c < rl_load l" "\<forall>l\<in>set T. rl_load l = rankLoad s (g l) \<and> rl_load l < c_cap c"
    using ml(2) by (auto simp: S_def T_def dest: in_set_takeD in_set_dropD)
  have pos: "filter (\<lambda>p. rp_requestedUnits p > 0) (map ?mk (zip S T)) = map ?mk (zip S T)"
  proof (unfold filter_id_conv, intro ballI)
    fix p assume "p \<in> set (map ?mk (zip S T))"
    then obtain a b where p: "p = ?mk (a, b)" and z: "(a, b) \<in> set (zip S T)" by auto
    have "c_cap c < rl_load a" "rl_load b < c_cap c" using sl set_zip_leftD [OF z] set_zip_rightD [OF z] by blast+
    then show "0 < rp_requestedUnits p" by (simp add: p)
  qed
  have mS: "map g S = filter (\<lambda>r. rankLoad s r > c_cap c) (rev (take mid act))"
    "map g T = filter (\<lambda>r. rankLoad s r < c_cap c) (drop mid act)"
  proof -
    have "\<forall>l\<in>set (take mid al). rl_load l = rankLoad s (g l)" "\<forall>l\<in>set (drop mid al). rl_load l = rankLoad s (g l)"
      using ml(2) in_set_takeD in_set_dropD by fast+
    then show "map g S = filter (\<lambda>r. rankLoad s r > c_cap c) (rev (take mid act))"
      "map g T = filter (\<lambda>r. rankLoad s r < c_cap c) (drop mid act)"
      unfolding ml(1) [symmetric] S_def T_def
      by (auto simp: filter_map take_map drop_map rev_map comp_def intro!: arg_cong [of _ _ "map g"] filter_cong)
  qed
  define pairs where "pairs = (if ?early then [] else if mid = 0 then [] else map ?mk (zip S T))"
  show thesis
  proof (rule that)
    show "BuildIntraServerPairs ?L ?G (c_cap c) = Some pairs"
      unfolding BuildIntraServerPairs_def Let_def a using c1 c2
      by (simp add: pairs_def mid_def [symmetric] S_def [symmetric] T_def [symmetric] pos)
    show "map (\<lambda>p. (members ! nat (rp_srcRank p), members ! nat (rp_dstRank p))) pairs = (case pairs_at c s act of None \<Rightarrow> [] | Some ps \<Rightarrow> ps)"
    proof (cases ?early)
      case False
      have "map (\<lambda>p. (members ! nat (rp_srcRank p), members ! nat (rp_dstRank p))) (map ?mk (zip S T)) = zip (map g S) (map g T)"
        by (simp add: zip_map_map g_def split_def comp_def)
      then show ?thesis using False early mid mS by (simp add: pairs_def pairs_at_def Let_def)
    qed (use early in \<open>simp add: pairs_def pairs_at_def\<close>)
    show "\<forall>p\<in>set pairs. rp_requestedUnits p = min (rankLoad s (members ! nat (rp_srcRank p)) - c_cap c)
        (c_cap c - rankLoad s (members ! nat (rp_dstRank p))) \<and> 0 < rp_requestedUnits p"
    proof
      fix p assume "p \<in> set pairs"
      then obtain a b where p: "p = ?mk (a, b)" and z: "(a, b) \<in> set (zip S T)" by (auto simp: pairs_def split: if_splits)
      have "rl_load a = rankLoad s (members ! nat (rl_rank a))" "c_cap c < rl_load a"
        "rl_load b = rankLoad s (members ! nat (rl_rank b))" "rl_load b < c_cap c"
        using sl set_zip_leftD [OF z] set_zip_rightD [OF z] unfolding g_def by blast+
      then show "rp_requestedUnits p = min (rankLoad s (members ! nat (rp_srcRank p)) - c_cap c)
        (c_cap c - rankLoad s (members ! nat (rp_dstRank p))) \<and> 0 < rp_requestedUnits p" by (simp add: p)
    qed
  qed
qed

lemma run_pairs_rounds:
  "run_pairs c ps s n = (s', m) \<Longrightarrow> fatal s' = PLAN_OK \<Longrightarrow> intraRounds s' = intraRounds s \<and> interRounds s' = interRounds s"
proof (induction ps arbitrary: s n)
  case (Cons p ps)
  obtain a b where p: "p = (a, b)" by fastforce
  define r where "r = MinI32 (rankLoad s a - c_cap c) (c_cap c - rankLoad s b)"
  obtain t k where am: "(if r > 0 then ApplyExpertMove c s a b r else (s, 0)) = (t, k)" by fastforce
  have st: "(if fatal t \<noteq> PLAN_OK then (t, n + k) else run_pairs c ps t (n + k)) = (s', m)"
    using Cons.prems(1) by (simp only: p run_pairs.simps r_def [symmetric] Let_def am prod.case)
  then have ft: "fatal t = PLAN_OK" using Cons.prems(2) by (auto split: if_splits)
  then have "intraRounds t = intraRounds s \<and> interRounds t = interRounds s"
    using am ApplyExpertMove_account(5,6) [of c s a b r t k] by (auto split: if_splits)
  then show ?case using Cons.IH [of t "n + k"] st ft Cons.prems(2) by simp
qed simp

text \<open>The requests of a round are fixed before its first move; a move changes the loads of its own
  pair only.\<close>

lemma run_pairs_ref:
  assumes rc: "ref_ctx_sim rc c"
  shows "\<lbrakk>steady c tpe s; ref_sim c st s; run_pairs c (map (\<lambda>p. (members ! nat (rp_srcRank p), members ! nat (rp_dstRank p))) pairs) s n = (s', m);
    set members \<subseteq> ranks_of c; \<forall>p\<in>set pairs. members ! nat (rp_srcRank p) \<in> ranks_of c \<and> members ! nat (rp_dstRank p) \<in> ranks_of c;
    distinct (map (\<lambda>p. members ! nat (rp_srcRank p)) pairs @ map (\<lambda>p. members ! nat (rp_dstRank p)) pairs);
    \<forall>p\<in>set pairs. rp_requestedUnits p = min (rankLoad s (members ! nat (rp_srcRank p)) - c_cap c)
      (c_cap c - rankLoad s (members ! nat (rp_dstRank p))) \<and> 0 < rp_requestedUnits p\<rbrakk> \<Longrightarrow>
    \<exists>st'. ref_run_pairs rc members rnd pairs st n = (st', m) \<and> ref_sim c st' s' \<and> steady c tpe s'"
proof (induction pairs arbitrary: s st n)
  case (Cons p pairs)
  let ?a = "members ! nat (rp_srcRank p)" and ?b = "members ! nat (rp_dstRank p)"
  note q = Cons.prems
  have u: "MinI32 (rankLoad s ?a - c_cap c) (c_cap c - rankLoad s ?b) = rp_requestedUnits p" "0 < rp_requestedUnits p"
    using q(7) by (simp_all add: MinI32_def min_def)
  obtain t k where am: "ApplyExpertMove c s ?a ?b (rp_requestedUnits p) = (t, k)" by fastforce
  obtain st1 where st1: "ref_ApplyExpertMove rc st ?a ?b (rp_requestedUnits p) rnd = (st1, k)" "ref_sim c st1 t" "steady c tpe t"
    using ApplyExpertMove_ref [OF rc q(1,2) _ _ am] q(5) by auto
  have ft: "fatal t = PLAN_OK" using st1(3) by (simp add: steady_def)
  have rp: "run_pairs c (map (\<lambda>p. (members ! nat (rp_srcRank p), members ! nat (rp_dstRank p))) pairs) t (n + k) = (s', m)"
    using q(3) u by (simp add: Let_def am ft)
  have ab: "?a \<noteq> ?b" using q(6) by auto
  have ld: "rankLoad t = (rankLoad s)(?a := rankLoad s ?a - k, ?b := rankLoad s ?b + k)"
    using ApplyExpertMove_account(1) [OF am ft ab] .
  have same: "rankLoad t (members ! nat (rp_srcRank x)) = rankLoad s (members ! nat (rp_srcRank x))"
    "rankLoad t (members ! nat (rp_dstRank x)) = rankLoad s (members ! nat (rp_dstRank x))" if "x \<in> set pairs" for x
  proof -
    have "members ! nat (rp_srcRank x) \<in> (\<lambda>p. members ! nat (rp_srcRank p)) ` set pairs"
      "members ! nat (rp_dstRank x) \<in> (\<lambda>p. members ! nat (rp_dstRank p)) ` set pairs" using that by simp_all
    then have "members ! nat (rp_srcRank x) \<notin> {?a, ?b}" "members ! nat (rp_dstRank x) \<notin> {?a, ?b}" using q(6) by auto
    then show "rankLoad t (members ! nat (rp_srcRank x)) = rankLoad s (members ! nat (rp_srcRank x))"
      "rankLoad t (members ! nat (rp_dstRank x)) = rankLoad s (members ! nat (rp_dstRank x))" unfolding ld by simp_all
  qed
  have "\<exists>st'. ref_run_pairs rc members rnd pairs st1 (n + k) = (st', m) \<and> ref_sim c st' s' \<and> steady c tpe s'"
    by (rule Cons.IH [OF st1(3,2) rp q(4)]) (use q(5-7) same in auto)
  then show ?case by (simp add: st1(1))
qed simp

lemma zip_distinct_sides:
  assumes "distinct (xs @ ys)"
  shows "distinct (map fst (zip xs ys) @ map snd (zip xs ys))"
  using assms by (simp add: map_fst_zip_take map_snd_zip_take) (metis disjoint_iff in_set_takeD)

lemma pairs_at_sides:
  assumes "pairs_at c s act = Some ps" "distinct act"
  shows "distinct (map fst ps @ map snd ps)" "\<forall>(a, b)\<in>set ps. a \<in> set act \<and> b \<in> set act"
proof -
  obtain mid where ps: "ps = zip (filter (\<lambda>r. rankLoad s r > c_cap c) (rev (take mid act)))
      (filter (\<lambda>r. rankLoad s r < c_cap c) (drop mid act))"
    using assms(1) by (auto simp: pairs_at_def Let_def split: if_splits)
  show "distinct (map fst ps @ map snd ps)" unfolding ps
    by (rule zip_distinct_sides) (use assms(2) in auto)
  show "\<forall>(a, b)\<in>set ps. a \<in> set act \<and> b \<in> set act"
  proof clarify
    fix a b assume "(a, b) \<in> set ps"
    then have "a \<in> set (take mid act)" "b \<in> set (drop mid act)" unfolding ps by (auto dest: set_zip_leftD set_zip_rightD)
    then show "a \<in> set act \<and> b \<in> set act" using in_set_takeD in_set_dropD by fast
  qed
qed

definition active_of :: "plan_ctx \<Rightarrow> int \<Rightarrow> plan_state \<Rightarrow> int list" where
  "active_of c key s = insertion_sort (rank_better (rankLoad s) (c_globalRankIds c) False)
    (filter (\<lambda>r. server_key c r = key \<and> rankLoad s r \<noteq> c_cap c) [0..c_rankSize c - 1])"

lemma intra_round_pairs:
  assumes ok: "plan_ctx_ok c"
  shows "intra_round c key s = (case pairs_at c s (active_of c key s) of None \<Rightarrow> (s, False)
    | Some ps \<Rightarrow> (let (t, m) = run_pairs c ps s 0 in if fatal t \<noteq> PLAN_OK then (t, False)
        else if m = 0 then (t\<lparr> pairBlock := True \<rparr>, False) else (t\<lparr> intraRounds := intraRounds t + 1 \<rparr>, True)))"
proof -
  let ?f = "filter (\<lambda>r. server_key c r = key \<and> rankLoad s r \<noteq> c_cap c) [0..c_rankSize c - 1]"
  have R: "0 \<le> c_rankSize c" using ok by (simp add: plan_ctx_ok_def)
  have "length ?f \<le> length [0..c_rankSize c - 1]" by (rule length_filter_le)
  then have "SortRanks ?f (rankLoad s) (c_globalRankIds c) (c_rankSize c) False = Some (active_of c key s)"
    unfolding active_of_def using R by (intro SortRanks_in_range) (auto simp: rank_in_range_def)
  then show ?thesis by (simp add: intra_round_def pairs_at_def Let_def)
qed

lemma steady_loads:
  assumes "steady c tpe s" "r \<in> ranks_of c"
  shows "0 \<le> rankLoad s r"
proof -
  have "rankLoad s r = (\<Sum>e\<in>experts_of c. at c (alloc s) r e)" "\<forall>e\<in>experts_of c. 0 \<le> at c (alloc s) r e"
    using assms unfolding steady_def plan_inv_def inv_alloc_def by blast+
  then show ?thesis using sum_nonneg [of "experts_of c" "at c (alloc s) r"] by simp
qed

lemma server_loop_round:
  assumes rc: "ref_ctx_sim rc c" and sd: "steady c tpe s" and sim: "ref_sim c st s" and cap: "0 < c_cap c"
    and ids: "\<forall>r\<in>ranks_of c. 0 \<le> c_globalRankIds c r" and ir: "intra_round c key s = (s', go)"
  defines "members \<equiv> filter (\<lambda>r. server_key c r = key) [0..c_rankSize c - 1]"
  shows "\<exists>st' k. server_loop rc members st i n = (if go then server_loop rc members st' (i + 1) (n + 1) else Some (st', k, n)) \<and>
    ref_sim c st' s' \<and> steady c tpe s' \<and> intraRounds s' = (if go then intraRounds s + 1 else intraRounds s)"
proof -
  note rf = ref_ctx_sim_fields [OF rc] and sf = ref_sim_fields [OF sim]
  have ok: "plan_ctx_ok c" using sd by (simp add: steady_def)
  have mem: "sorted_wrt (<) members" "set members \<subseteq> ranks_of c"
    by (auto simp: members_def intro!: sorted_wrt_filter)
  have act: "insertion_sort (rank_better (rankLoad s) (c_globalRankIds c) False) (filter (\<lambda>r. rankLoad s r \<noteq> c_cap c) members) = active_of c key s"
    by (simp add: active_of_def members_def conj_commute)
  have nn: "\<forall>r\<in>set members. 0 \<le> rankLoad s r \<and> 0 \<le> c_globalRankIds c r" using mem(2) steady_loads [OF sd] ids by auto
  obtain pairs where bp: "BuildIntraServerPairs (member_vec (rankLoad s) members) (member_vec (c_globalRankIds c) members) (c_cap c) = Some pairs"
    and mp: "map (\<lambda>p. (members ! nat (rp_srcRank p), members ! nat (rp_dstRank p))) pairs =
      (case pairs_at c s (active_of c key s) of None \<Rightarrow> [] | Some ps \<Rightarrow> ps)"
    and un: "\<forall>p\<in>set pairs. rp_requestedUnits p = min (rankLoad s (members ! nat (rp_srcRank p)) - c_cap c)
      (c_cap c - rankLoad s (members ! nat (rp_dstRank p))) \<and> 0 < rp_requestedUnits p"
    by (rule BuildIntraServerPairs_eq [OF mem(1) cap nn]) (simp only: act)
  have sl: "server_loop rc members st i n = (if pairs = [] then Some (st, i, n)
      else let (st1, m) = ref_run_pairs rc members i pairs st 0
        in if m = 0 then Some (st1\<lparr> rs_sawRouteOrPairBlock := True \<rparr>, i + 1, n) else server_loop rc members st1 (i + 1) (n + 1))"
    by (subst server_loop.simps) (simp add: sf rf bp)
  note ip = intra_round_pairs [OF ok, of key s]
  show ?thesis
  proof (cases "pairs_at c s (active_of c key s)")
    case None
    then have "pairs = []" "s' = s" "\<not> go" using mp ip ir by simp_all
    then show ?thesis using sl sim sd by auto
  next
    case (Some ps)
    then have ps: "map (\<lambda>p. (members ! nat (rp_srcRank p), members ! nat (rp_dstRank p))) pairs = ps" using mp by simp
    have "distinct (active_of c key s)" "set (active_of c key s) \<subseteq> ranks_of c" by (auto simp: active_of_def)
    note sides = pairs_at_sides [OF Some this(1)] and sub = this(2)
    obtain t m where rp: "run_pairs c ps s 0 = (t, m)" by fastforce
    have rng: "\<forall>p\<in>set pairs. members ! nat (rp_srcRank p) \<in> ranks_of c \<and> members ! nat (rp_dstRank p) \<in> ranks_of c"
      using sides(2) sub unfolding ps [symmetric] by auto
    have dis: "distinct (map (\<lambda>p. members ! nat (rp_srcRank p)) pairs @ map (\<lambda>p. members ! nat (rp_dstRank p)) pairs)"
      using sides(1) unfolding ps [symmetric] by (simp add: comp_def)
    obtain st1 where st1: "ref_run_pairs rc members i pairs st 0 = (st1, m)" "ref_sim c st1 t" "steady c tpe t"
      using run_pairs_ref [OF rc sd sim rp [folded ps] mem(2) rng dis un] by blast
    have ft: "fatal t = PLAN_OK" using st1(3) by (simp add: steady_def)
    have cnt: "intraRounds t = intraRounds s" using run_pairs_rounds [OF rp ft] by simp
    have res: "(s', go) = (if m = 0 then (t\<lparr> pairBlock := True \<rparr>, False) else (t\<lparr> intraRounds := intraRounds t + 1 \<rparr>, True))"
      using ir ip Some rp ft by simp
    show ?thesis
    proof (cases "m = 0")
      case True
      then have "server_loop rc members st i n = Some (if pairs = [] then st1 else st1\<lparr> rs_sawRouteOrPairBlock := True \<rparr>, if pairs = [] then i else i + 1, n)"
        using sl st1(1) by auto
      then show ?thesis using True res st1 cnt ref_sim_flags [OF st1(2)] ref_sim_flags(3) [OF ref_sim_flags(4) [OF st1(2)]]
        by (intro exI [of _ "if pairs = [] then st1 else st1\<lparr> rs_sawRouteOrPairBlock := True \<rparr>"] exI [of _ "if pairs = [] then i else i + 1"]) auto
    next
      case False
      then have "pairs \<noteq> []" using st1(1) by auto
      then show ?thesis using False res st1 cnt sl ref_sim_flags(5) [OF st1(2)] by auto
    qed
  qed
qed

lemma server_loop_ref:
  assumes rc: "ref_ctx_sim rc c" and cap: "0 < c_cap c" and ids: "\<forall>r\<in>ranks_of c. 0 \<le> c_globalRankIds c r"
  shows "steady c tpe s \<Longrightarrow> ref_sim c st s \<Longrightarrow>
    \<exists>st' k. server_loop rc (filter (\<lambda>r. server_key c r = key) [0..c_rankSize c - 1]) st i n =
        Some (st', k, n + (intraRounds (intra_server c key s) - intraRounds s)) \<and>
      ref_sim c st' (intra_server c key s) \<and> steady c tpe (intra_server c key s)"
proof (induction c' \<equiv> c key s arbitrary: st i n rule: intra_server.induct)
  case (1 key s)
  let ?m = "filter (\<lambda>r. server_key c r = key) [0..c_rankSize c - 1]"
  obtain t go where r: "intra_round c key s = (t, go)" by fastforce
  have u: "intra_server c key s = (if go then intra_server c key t else t)" using r by (subst intra_server.simps) simp
  obtain st1 k where st1: "server_loop rc ?m st i n = (if go then server_loop rc ?m st1 (i + 1) (n + 1) else Some (st1, k, n))"
    "ref_sim c st1 t" "steady c tpe t" "intraRounds t = (if go then intraRounds s + 1 else intraRounds s)"
    using server_loop_round [OF rc 1(2,3) cap ids r] by blast
  show ?case
  proof (cases go)
    case True
    from 1(1) [OF refl r [symmetric] True st1(3,2), of "i + 1" "n + 1"]
    obtain st' k' where "server_loop rc ?m st1 (i + 1) (n + 1) = Some (st', k', n + 1 + (intraRounds (intra_server c key t) - intraRounds t))"
      "ref_sim c st' (intra_server c key t)" "steady c tpe (intra_server c key t)" by blast
    then show ?thesis using True st1(1,4) u by (intro exI [of _ st'] exI [of _ k']) simp
  next
    case False
    then show ?thesis using st1 u by auto
  qed
qed

section \<open>The servers in order\<close>

lemma next_server_key_Min:
  "next_server_key c p = Min (insert INT32_MAX (server_key c ` {r \<in> ranks_of c. server_key c r > p}))"
proof -
  let ?F = "\<lambda>r k. if server_key c r > p \<and> server_key c r < k then server_key c r else k"
  have "fold ?F xs k = Min (insert k (server_key c ` {r \<in> set xs. server_key c r > p}))" for xs k
  proof (induction xs arbitrary: k)
    case (Cons x xs)
    define S where "S = server_key c ` {r \<in> set xs. server_key c r > p}"
    have fin: "finite S" by (simp add: S_def)
    have "fold ?F (x # xs) k = Min (insert (?F x k) S)" using Cons.IH by (simp add: S_def)
    also have "\<dots> = Min (insert k (server_key c ` {r \<in> set (x # xs). server_key c r > p}))"
    proof (cases "server_key c x > p")
      case True
      have "server_key c ` {r \<in> set (x # xs). server_key c r > p} = insert (server_key c x) S" using True by (auto simp: S_def)
      moreover have "Min (insert k (insert (server_key c x) S)) = Min (insert (min k (server_key c x)) S)"
        using fin by (cases "S = {}") (simp_all add: min.assoc)
      moreover have "?F x k = min k (server_key c x)" using True by simp
      ultimately show ?thesis by simp
    next
      case False
      then have "server_key c ` {r \<in> set (x # xs). server_key c r > p} = S" by (auto simp: S_def)
      then show ?thesis using False by simp
    qed
    finally show ?case .
  qed simp
  moreover have "set [0..c_rankSize c - 1] = ranks_of c" by auto
  ultimately show ?thesis by (simp add: next_server_key_def)
qed

lemma next_server_key_list:
  assumes "sorted_wrt (<) ks" "set ks = server_key c ` {r \<in> ranks_of c. server_key c r > p}"
    "\<forall>k\<in>set ks. k < INT32_MAX"
  shows "next_server_key c p = (case ks of [] \<Rightarrow> INT32_MAX | k # _ \<Rightarrow> k)"
proof (cases ks)
  case Nil
  then have "server_key c ` {r \<in> ranks_of c. server_key c r > p} = {}" using assms(2) by simp
  then show ?thesis using Nil by (simp only: next_server_key_Min list.case Min_singleton)
next
  case (Cons k rest)
  have "next_server_key c p = Min (insert INT32_MAX (set ks))" by (simp only: next_server_key_Min assms(2))
  also have "\<dots> = k" using assms(1,3) Cons by (intro Min_eqI) (auto simp: less_imp_le)
  finally show ?thesis using Cons by simp
qed

lemma server_stage_ref:
  assumes rc: "ref_ctx_sim rc c" and cap: "0 < c_cap c" and ids: "\<forall>r\<in>ranks_of c. 0 \<le> c_globalRankIds c r"
  shows "\<lbrakk>steady c tpe s; ref_sim c st s; sorted_wrt (<) ks; set ks = server_key c ` {r \<in> ranks_of c. server_key c r > p};
      \<forall>k\<in>set ks. k < INT32_MAX\<rbrakk> \<Longrightarrow>
    \<exists>st' k. server_stage rc ks st i n = Some (st', k, n + (intraRounds (intra_servers c p s) - intraRounds s)) \<and>
      ref_sim c st' (intra_servers c p s) \<and> steady c tpe (intra_servers c p s)"
proof (induction ks arbitrary: s st i n p)
  case Nil
  have "next_server_key c p = INT32_MAX" using next_server_key_list [OF Nil(3-5)] by simp
  then have "intra_servers c p s = s" by (subst intra_servers.simps) simp
  then show ?case using Nil(1,2) by simp
next
  case (Cons key ks)
  note q = Cons.prems and rf = ref_ctx_sim_fields [OF rc]
  define t where "t = intra_server c key s"
  have nk: "next_server_key c p = key" "key \<noteq> INT32_MAX" using next_server_key_list [OF q(3-5)] q(5) by auto
  have m: "filter (\<lambda>rank. rc_globalRankIds rc rank div kPlanCardsPerServer = key) [0..rc_rankSize rc - 1] =
      filter (\<lambda>r. server_key c r = key) [0..c_rankSize c - 1]" by (simp add: rf server_key_def)
  obtain st1 k1 where st1: "server_loop rc (filter (\<lambda>r. server_key c r = key) [0..c_rankSize c - 1]) st i n =
      Some (st1, k1, n + (intraRounds t - intraRounds s))" "ref_sim c st1 t" "steady c tpe t"
    using server_loop_ref [OF rc cap ids q(1,2)] unfolding t_def by blast
  have ft: "fatal t = PLAN_OK" using st1(3) by (simp add: steady_def)
  have u: "intra_servers c p s = intra_servers c key t"
    using nk ft by (subst intra_servers.simps) (simp add: t_def Let_def)
  have ks: "set ks = server_key c ` {r \<in> ranks_of c. server_key c r > key}"
  proof -
    have a: "\<forall>x\<in>set ks. key < x" using q(3) by simp
    have "key \<in> server_key c ` {r \<in> ranks_of c. server_key c r > p}" using q(4) by (metis list.set_intros(1))
    then have pk: "p < key" by auto
    show ?thesis
    proof (intro equalityI subsetI)
      fix x assume x: "x \<in> set ks"
      then have "x \<in> server_key c ` {r \<in> ranks_of c. server_key c r > p}" using q(4) by (metis list.set_intros(2))
      then show "x \<in> server_key c ` {r \<in> ranks_of c. server_key c r > key}" using a x by auto
    next
      fix x assume "x \<in> server_key c ` {r \<in> ranks_of c. server_key c r > key}"
      then obtain r where r: "r \<in> ranks_of c" "x = server_key c r" "key < x" by auto
      then have "x \<in> set (key # ks)" unfolding q(4) using pk by auto
      then show "x \<in> set ks" using r(3) by simp
    qed
  qed
  obtain st' k' where "server_stage rc ks st1 k1 (n + (intraRounds t - intraRounds s)) =
      Some (st', k', n + (intraRounds t - intraRounds s) + (intraRounds (intra_servers c key t) - intraRounds t))"
    "ref_sim c st' (intra_servers c key t)" "steady c tpe (intra_servers c key t)"
    using Cons.IH [OF st1(3,2) _ ks, of k1 "n + (intraRounds t - intraRounds s)"] q(3,5) by auto
  then show ?case using st1(1) u by (simp add: m)
qed

lemma server_keys_eq:
  assumes "ref_ctx_sim rc c"
  shows "sorted_wrt (<) (server_keys rc)" "set (server_keys rc) = server_key c ` ranks_of c"
proof -
  note rf = ref_ctx_sim_fields [OF assms]
  let ?F = "\<lambda>rank keys. let key = rc_globalRankIds rc rank div kPlanCardsPerServer in if key \<in> set keys then keys else keys @ [key]"
  have "distinct ks \<Longrightarrow> distinct (fold ?F xs ks) \<and> set (fold ?F xs ks) = set ks \<union> server_key c ` set xs" for xs ks
    by (induction xs arbitrary: ks) (auto simp: Let_def rf server_key_def)
  from this [of "[]" "[0..rc_rankSize rc - 1]"]
  have f: "distinct (fold ?F [0..rc_rankSize rc - 1] [])" "set (fold ?F [0..rc_rankSize rc - 1] []) = server_key c ` ranks_of c"
    by (auto simp: rf)
  have "insertion_order ((<) :: int \<Rightarrow> int \<Rightarrow> bool)" by unfold_locales auto
  from insertion_order.sorted_std_sort [OF this, of "fold ?F [0..rc_rankSize rc - 1] []"]
  have "sorted_wrt (\<lambda>a b. a = b \<or> a < b) (server_keys rc)" by (simp add: server_keys_def)
  moreover have "distinct (server_keys rc)"
    using f(1) unfolding server_keys_def mset_eq_imp_distinct_iff [OF mset_std_sort] .
  ultimately show "sorted_wrt (<) (server_keys rc)"
    by (auto simp: sorted_wrt_iff_nth_less distinct_conv_nth)
  show "set (server_keys rc) = server_key c ` ranks_of c" using f(2) by (simp add: server_keys_def)
qed

text \<open>The stage within the servers.\<close>

lemma RunIntraServerStage_ref:
  assumes rc: "ref_ctx_sim rc c" and cap: "0 < c_cap c"
    and ids: "\<forall>r\<in>ranks_of c. 0 \<le> c_globalRankIds c r \<and> c_globalRankIds c r \<le> INT32_MAX"
    and sd: "steady c tpe s" and sim: "ref_sim c st s"
  shows "\<exists>st' k. RunIntraServerStage rc st i = Some (st', k, intraRounds (RunIntra c s) - intraRounds s) \<and>
      ref_sim c st' (RunIntra c s) \<and> steady c tpe (RunIntra c s)"
proof -
  have key: "0 \<le> server_key c r" "server_key c r < INT32_MAX" if "r \<in> ranks_of c" for r
    using bspec [OF ids that] by (auto simp: server_key_def kPlanCardsPerServer_def INT32_MAX_def)
  have "set (server_keys rc) = server_key c ` {r \<in> ranks_of c. server_key c r > INT32_MIN}"
    using server_keys_eq(2) [OF rc] key by (force simp: INT32_MIN_def)
  then show ?thesis
    using server_stage_ref [OF rc cap _ sd sim server_keys_eq(1) [OF rc], of INT32_MIN i 0] ids key server_keys_eq(2) [OF rc]
    by (auto simp: RunIntraServerStage_def RunIntra_def)
qed

section \<open>One round across the servers\<close>

lemma top_candidates_take:
  "top_candidates S order cs = cs @ take (nat (kPlanCrossCandidateCount - int (length cs))) (filter (\<lambda>r. r \<in> S) order)"
proof (induction order arbitrary: cs)
  case (Cons r order)
  have "nat (kPlanCrossCandidateCount - int (length cs)) = Suc (nat (kPlanCrossCandidateCount - int (length (cs @ [r]))))"
    if "\<not> kPlanCrossCandidateCount \<le> int (length cs)" using that by simp
  then show ?case using Cons by simp
qed simp

lemma RankInList_set: "RankInList r xs = (r \<in> set xs)"
  by (auto simp: RankInList_def list_ex_iff)

lemma try_candidates_ref:
  assumes rc: "ref_ctx_sim rc c" and dst: "dst \<in> ranks_of c" and senders: "set senders \<subseteq> ranks_of c"
  shows "\<lbrakk>steady c tpe s; ref_sim c st s; try_candidates c senders dst srcs n occ s m = (s', occ', m'); dst \<notin> set senders\<rbrakk> \<Longrightarrow>
    \<exists>st'. ref_try rc rnd dst (take (nat (kPlanCrossCandidateCount - n)) (filter (\<lambda>r. r \<in> set senders) srcs)) occ st m = (st', occ', m') \<and>
      ref_sim c st' s' \<and> steady c tpe s' \<and> intraRounds s' = intraRounds s \<and> interRounds s' = interRounds s"
proof (induction srcs arbitrary: s st n occ m)
  case (Cons src srcs)
  note q = Cons.prems and rf = ref_ctx_sim_fields [OF rc] and sf = ref_sim_fields [OF q(2)]
  let ?rest = "\<lambda>n. take (nat (kPlanCrossCandidateCount - n)) (filter (\<lambda>r. r \<in> set senders) srcs)"
  consider (full) "n \<ge> kPlanCrossCandidateCount" | (other) "n < kPlanCrossCandidateCount" "src \<notin> set senders"
    | (attempt) "n < kPlanCrossCandidateCount" "src \<in> set senders" by linarith
  then show ?case
  proof cases
    case full
    then show ?thesis using q by simp
  next
    case other
    then show ?thesis using q Cons.IH [OF q(1,2), of n occ m] by (simp add: RankInList_set)
  next
    case attempt
    have t: "take (nat (kPlanCrossCandidateCount - n)) (filter (\<lambda>r. r \<in> set senders) (src # srcs)) = src # ?rest (n + 1)"
      using attempt by (cases "nat (kPlanCrossCandidateCount - n)") (auto intro!: arg_cong2 [of _ _ _ _ take])
    define r where "r = MinI32 (rankLoad s src - c_cap c) (c_cap c - rankLoad s dst)"
    have r: "min (rs_rankLoad st src - rc_cap rc) (rc_cap rc - rs_rankLoad st dst) = r"
      by (simp add: r_def MinI32_def sf rf min_def)
    show ?thesis
    proof (cases "src \<in> occ \<or> r \<le> 0")
      case True
      have "try_candidates c senders dst srcs (n + 1) occ s m = (s', occ', m')"
        using q(3) attempt True by (cases "src \<in> occ") (simp_all add: RankInList_set r_def Let_def)
      from Cons.IH [OF q(1,2) this q(4)] show ?thesis using True unfolding t by (auto simp: r Let_def)
    next
      case False
      obtain u k where am: "ApplyExpertMove c s src dst r = (u, k)" by fastforce
      obtain st1 where st1: "ref_ApplyExpertMove rc st src dst r rnd = (st1, k)" "ref_sim c st1 u" "steady c tpe u"
        using ApplyExpertMove_ref [OF rc q(1,2) dst _ am] attempt(2) senders by blast
      have fu: "fatal u = PLAN_OK" using st1(3) by (simp add: steady_def)
      have cnt: "intraRounds u = intraRounds s" "interRounds u = interRounds s"
        using ApplyExpertMove_account(5,6) [OF am fu] attempt(2) q(4) by auto
      have tc: "(if k > 0 then (u, insert src occ, m + k) else try_candidates c senders dst srcs (n + 1) occ u m) = (s', occ', m')"
        using q(3) attempt False fu by (simp add: RankInList_set r_def [symmetric] Let_def am)
      show ?thesis
      proof (cases "k > 0")
        case True
        then show ?thesis using tc False st1 cnt unfolding t by (simp add: r Let_def)
      next
        case nk: False
        then have "try_candidates c senders dst srcs (n + 1) occ u m = (s', occ', m')" using tc by simp
        from Cons.IH [OF st1(3,2) this q(4)] show ?thesis using False nk st1(1) cnt unfolding t by (simp add: r Let_def)
      qed
    qed
  qed
qed simp

lemma run_receivers_ref:
  assumes rc: "ref_ctx_sim rc c" and senders: "set senders \<subseteq> ranks_of c"
  shows "\<lbrakk>steady c tpe s; ref_sim c st s; run_receivers c senders dsts occ s m = (s', m'); set dsts \<subseteq> ranks_of c - set senders\<rbrakk> \<Longrightarrow>
    \<exists>st'. ref_receivers rc rnd senders dsts occ st m = (st', m') \<and>
      ref_sim c st' s' \<and> steady c tpe s' \<and> intraRounds s' = intraRounds s \<and> interRounds s' = interRounds s"
proof (induction dsts arbitrary: s st occ m)
  case (Cons dst dsts)
  note q = Cons.prems
  have dst: "dst \<in> ranks_of c" "dst \<notin> set senders" using q(4) by auto
  obtain t occ1 k where tc: "try_candidates c senders dst (row_of (affinityOrder s) dst (c_rankSize c)) 0 occ s m = (t, occ1, k)"
    by (metis prod_cases3)
  obtain st1 where st1: "ref_try rc rnd dst (take (nat kPlanCrossCandidateCount) (filter (\<lambda>r. r \<in> set senders)
      (row_of (affinityOrder s) dst (c_rankSize c)))) occ st m = (st1, occ1, k)"
    "ref_sim c st1 t" "steady c tpe t" "intraRounds t = intraRounds s" "interRounds t = interRounds s"
    using try_candidates_ref [OF rc dst(1) senders q(1,2) tc dst(2)] by auto
  have ft: "fatal t = PLAN_OK" using st1(3) by (simp add: steady_def)
  have row: "rs_affinityOrder st dst = row_of (affinityOrder s) dst (c_rankSize c)"
    using q(2) dst(1) by (simp only: ref_sim_def)
  have "run_receivers c senders dsts occ1 t k = (s', m')" using q(3) by (simp add: tc ft)
  from Cons.IH [OF st1(3,2) this] q(4)
  obtain st' where "ref_receivers rc rnd senders dsts occ1 st1 k = (st', m')"
      "ref_sim c st' s'" "steady c tpe s'" "intraRounds s' = intraRounds t" "interRounds s' = interRounds t" by auto
  moreover have "(case BuildStaticTopCandidates dst senders (rs_affinityOrder st dst) of None \<Rightarrow> [] | Some c \<Rightarrow> c) =
      take (nat kPlanCrossCandidateCount) (filter (\<lambda>r. r \<in> set senders) (row_of (affinityOrder s) dst (c_rankSize c)))"
    using dst(1) by (simp add: BuildStaticTopCandidates_def top_candidates_take row)
  ultimately show ?case using st1 by simp
qed simp

abbreviation loads_of :: "plan_ctx \<Rightarrow> plan_state \<Rightarrow> int list \<Rightarrow> ranked_load list" where
  "loads_of c s \<equiv> map (\<lambda>rank. \<lparr> rl_rank = rank, rl_load = rankLoad s rank, rl_globalRankId = c_globalRankIds c rank \<rparr>)"

lemma sort_loads:
  assumes "\<forall>l\<in>set ls. rl_load l = rankLoad s (rl_rank l) \<and> rl_globalRankId l = c_globalRankIds c (rl_rank l)"
  shows "map rl_rank (std_sort (load_before (\<not> asc)) ls) = insertion_sort (rank_better (rankLoad s) (c_globalRankIds c) asc) (map rl_rank ls)"
proof (rule std_sort_map [OF rank_order.insertion_order_axioms ranked_order.insertion_order_axioms])
  fix x y assume "x \<in> set ls" "y \<in> set ls" "load_before (\<not> asc) x y"
  then show "rl_rank x = rl_rank y \<or> rank_better (rankLoad s) (c_globalRankIds c) asc (rl_rank x) (rl_rank y)"
    using assms by (auto simp: load_before_def rank_better_def split: if_splits)
qed

lemma inter_loop_round:
  assumes rc: "ref_ctx_sim rc c" and sd: "steady c tpe s" and sim: "ref_sim c st s" and ir: "inter_round c s = (s', go)"
  shows "\<exists>st' k. inter_loop rc st i n = (if go then inter_loop rc st' (i + 1) (n + 1) else Some (st', k, n)) \<and>
    ref_sim c st' s' \<and> steady c tpe s' \<and> intraRounds s' = intraRounds s \<and> interRounds s' = (if go then interRounds s + 1 else interRounds s)"
proof -
  note rf = ref_ctx_sim_fields [OF rc] and sf = ref_sim_fields [OF sim]
  define act0 where "act0 = filter (\<lambda>r. rankLoad s r \<noteq> c_cap c) [0..c_rankSize c - 1]"
  define u where "u = length (filter (\<lambda>r. rankLoad s r < c_cap c) act0)"
  define al where "al = std_sort (load_before True) (loads_of c s act0)"
  define act where "act = insertion_sort (rank_better (rankLoad s) (c_globalRankIds c) False) act0"
  define n0 where "n0 = length act - min u (length act div 2)"
  define rec where "rec = insertion_sort (rank_better (rankLoad s) (c_globalRankIds c) True) (drop n0 act)"
  have ok: "plan_ctx_ok c" using sd by (simp add: steady_def)
  have len: "length al = length act" "length act = length act0" by (simp_all add: al_def act_def)
  have al: "\<forall>l\<in>set al. rl_load l = rankLoad s (rl_rank l) \<and> rl_globalRankId l = c_globalRankIds c (rl_rank l)"
    by (auto simp: al_def)
  have mal: "map rl_rank al = act" using sort_loads [of "loads_of c s act0" s c False] by (simp add: al_def act_def comp_def)
  have mrec: "map rl_rank (std_sort (load_before False) (drop n0 al)) = rec"
    using sort_loads [of "drop n0 al" s c True] al by (simp add: rec_def drop_map flip: mal) (meson in_set_dropD)
  have act: "distinct act" "set act \<subseteq> ranks_of c" by (auto simp: act_def act0_def)
  have il: "inter_loop rc st i n = (if length act0 < 2 \<or> u = 0 \<or> u = length act0 \<or> min u (length act div 2) = 0 then Some (st, i, n)
      else let (st1, m) = ref_receivers rc i (take n0 act) rec {} st 0
        in if m = 0 then Some (st1\<lparr> rs_sawRouteOrPairBlock := True \<rparr>, i + 1, n) else inter_loop rc st1 (i + 1) (n + 1))"
  proof -
    have a: "map (\<lambda>rank. \<lparr> rl_rank = rank, rl_load = rs_rankLoad st rank, rl_globalRankId = rc_globalRankIds rc rank \<rparr>)
        (filter (\<lambda>rank. rs_rankLoad st rank \<noteq> rc_cap rc) [0..rc_rankSize rc - 1]) = loads_of c s act0"
      by (simp add: sf rf act0_def)
    have b: "length (filter (\<lambda>l. rl_load l < rc_cap rc) (loads_of c s act0)) = u"
      by (simp add: u_def rf filter_map comp_def)
    have n0': "length act0 - min u (length act0 div 2) = n0" by (simp add: n0_def len)
    have d: "map rl_rank (take n0 al) = take n0 act" by (simp add: take_map flip: mal)
    show ?thesis
      by (subst inter_loop.simps, simp only: a Let_def b al_def [symmetric] len n0' d mrec length_map) auto
  qed
  have R: "0 \<le> c_rankSize c" using ok by (simp add: plan_ctx_ok_def)
  have l0: "length act0 \<le> nat (c_rankSize c)" unfolding act0_def by (rule order_trans [OF length_filter_le]) simp
  have so: "SortRanks act0 (rankLoad s) (c_globalRankIds c) (c_rankSize c) False = Some act"
    unfolding act_def using R l0 by (intro SortRanks_in_range) (auto simp: rank_in_range_def act0_def)
  have so2: "SortRanks (drop n0 act) (rankLoad s) (c_globalRankIds c) (c_rankSize c) True = Some rec"
    unfolding rec_def using R l0 act(2) len by (intro SortRanks_in_range) (auto simp: rank_in_range_def dest: in_set_dropD)
  have ir': "inter_round c s = (if length act0 < 2 \<or> u = 0 \<or> u = length act0 \<or> min u (length act div 2) = 0 then (s, False)
      else let (t, m) = run_receivers c (take n0 act) rec {} s 0 in if fatal t \<noteq> PLAN_OK then (t, False)
        else if m = 0 then (t\<lparr> pairBlock := True \<rparr>, False) else (t\<lparr> interRounds := interRounds t + 1 \<rparr>, True))"
    by (simp only: inter_round_def Let_def act0_def [symmetric] u_def [symmetric] so n0_def [symmetric] so2 option.case) auto
  show ?thesis
  proof (cases "length act0 < 2 \<or> u = 0 \<or> u = length act0 \<or> min u (length act div 2) = 0")
    case True
    then have "s' = s" "\<not> go" using ir ir' by simp_all
    then show ?thesis using True il sim sd by auto
  next
    case False
    obtain t m where rr: "run_receivers c (take n0 act) rec {} s 0 = (t, m)" by fastforce
    have sub: "set (take n0 act) \<subseteq> ranks_of c" "set rec \<subseteq> ranks_of c - set (take n0 act)"
      using act(2) set_take_disj_set_drop_if_distinct [OF act(1) order_refl, of n0] set_drop_subset [of n0 act] set_take_subset [of n0 act]
      by (auto simp: rec_def)
    obtain st1 where st1: "ref_receivers rc i (take n0 act) rec {} st 0 = (st1, m)" "ref_sim c st1 t" "steady c tpe t"
        "intraRounds t = intraRounds s" "interRounds t = interRounds s"
      using run_receivers_ref [OF rc sub(1) sd sim rr sub(2)] by blast
    have ft: "fatal t = PLAN_OK" using st1(3) by (simp add: steady_def)
    have res: "(s', go) = (if m = 0 then (t\<lparr> pairBlock := True \<rparr>, False) else (t\<lparr> interRounds := interRounds t + 1 \<rparr>, True))"
      using ir ir' False rr ft by simp
    have il': "inter_loop rc st i n = (if m = 0 then Some (st1\<lparr> rs_sawRouteOrPairBlock := True \<rparr>, i + 1, n) else inter_loop rc st1 (i + 1) (n + 1))"
      using il False st1(1) by simp
    show ?thesis
    proof (cases "m = 0")
      case True
      then show ?thesis using res il' st1(3-5) ref_sim_flags(3) [OF ref_sim_flags(4) [OF st1(2)]] by auto
    next
      case False
      then show ?thesis using res il' st1(3-5) ref_sim_flags(6) [OF st1(2)] by auto
    qed
  qed
qed

lemma RunInterServerStage_ref:
  assumes rc: "ref_ctx_sim rc c"
  shows "steady c tpe s \<Longrightarrow> ref_sim c st s \<Longrightarrow>
    \<exists>st' k. inter_loop rc st i n = Some (st', k, n + (interRounds (RunInter c s) - interRounds s)) \<and>
      ref_sim c st' (RunInter c s) \<and> steady c tpe (RunInter c s)"
proof (induction c' \<equiv> c s arbitrary: st i n rule: RunInter.induct)
  case (1 s)
  obtain t go where r: "inter_round c s = (t, go)" by fastforce
  have u: "RunInter c s = (if go then RunInter c t else t)" using r by (subst RunInter.simps) simp
  obtain st1 k where st1: "inter_loop rc st i n = (if go then inter_loop rc st1 (i + 1) (n + 1) else Some (st1, k, n))"
    "ref_sim c st1 t" "steady c tpe t" "interRounds t = (if go then interRounds s + 1 else interRounds s)"
    using inter_loop_round [OF rc 1(2,3) r] by blast
  show ?case
  proof (cases go)
    case True
    from 1(1) [OF refl r [symmetric] True st1(3,2), of "i + 1" "n + 1"]
    obtain st' k' where "inter_loop rc st1 (i + 1) (n + 1) = Some (st', k', n + 1 + (interRounds (RunInter c t) - interRounds t))"
      "ref_sim c st' (RunInter c t)" "steady c tpe (RunInter c t)" by blast
    then show ?thesis using True st1(1,4) u by (intro exI [of _ st'] exI [of _ k']) simp
  next
    case False
    then show ?thesis using st1 u by auto
  qed
qed

section \<open>Remainders\<close>

lemma remainder_sources_ref:
  assumes rc: "ref_ctx_sim rc c" and dst: "dst \<in> ranks_of c" and e: "e \<in> experts_of c" and rm: "room c tpe"
  shows "\<lbrakk>inv_flow c tpe s; fatal s = PLAN_OK; set srcs \<subseteq> ranks_of c; ref_sim c st s\<rbrakk> \<Longrightarrow>
    \<exists>s'. remainder_sources c e dst srcs s = (True, s') \<and> ref_sim c (ref_remainder_sources rc e dst srcs st) s' \<and>
      inv_flow c tpe s' \<and> fatal s' = PLAN_OK \<and> intraRounds s' = intraRounds s \<and> interRounds s' = interRounds s"
proof (induction srcs arbitrary: s st)
  case (Cons src srcs)
  note p = Cons.prems and rf = ref_ctx_sim_fields [OF rc] and sf = ref_sim_fields [OF p(4)]
  define k where "k = remainingTpe s (ReIndex src e (c_expertNum c))"
  have sub: "set srcs \<subseteq> ranks_of c" "src \<in> ranks_of c" using p(3) by auto
  show ?case
  proof (cases "k \<le> 0")
    case True
    then show ?thesis using Cons.IH [OF p(1,2) sub(1) p(4)] by (simp add: k_def [symmetric] Let_def sf rf)
  next
    case False
    have kr: "k \<le> at c (remainingTpe s) src e" by (simp add: k_def at_def)
    obtain t where app: "AppendSegment c s e src dst (srcExpertCursor s (ReIndex src e (c_expertNum c)))
        (dstExpertCursor s (ReIndex dst e (c_expertNum c))) k = (True, t)" "fatal t = fatal s"
      by (rule AppendSegment_room [OF p(1) rm e sub(2) _ kr]) (use False in auto)
    have u: "remainder_sources c e dst (src # srcs) s = remainder_sources c e dst srcs (take_rest c t e src dst k)"
      "remainder_sources c e dst [src] s = (True, take_rest c t e src dst k)"
      using False app(1) by (simp_all add: k_def [symmetric] Let_def take_rest_def)
    have kept: "fatal (take_rest c t e src dst k) = PLAN_OK" "inv_flow c tpe (take_rest c t e src dst k)"
      using remainder_sources_room [OF p(1,2) rm _ dst e u(2)] sub(2) by simp_all
    define st1 where "st1 = st\<lparr> rs_segments := rs_segments st @ [\<lparr> expertId = e, srcRank = src, dstRank = dst,
        srcExpertBegin = srcExpertCursor s (re_of c e src), dstExpertBegin = dstExpertCursor s (re_of c e dst), tokenCount = k \<rparr>],
      rs_remainingTpe := (remainingTpe s)(re_of c e src := 0),
      rs_srcExpertCursor := (srcExpertCursor s)(re_of c e src := srcExpertCursor s (re_of c e src) + k),
      rs_dstExpertCursor := (dstExpertCursor s)(re_of c e dst := dstExpertCursor s (re_of c e dst) + k) \<rparr>"
    have r1: "ref_remainder_sources rc e dst (src # srcs) st = ref_remainder_sources rc e dst srcs st1"
      using False by (simp add: k_def [symmetric] Let_def sf rf st1_def)
    have "ref_sim c st1 (take_rest c t e src dst k)"
      using p(4) AppendSegment_frame [OF app(1)] AppendSegment_flags [OF app(1)] AppendSegment_take(1) [OF app(1)]
      by (simp add: ref_sim_def st1_def take_rest_def Let_def remote_row_def taken_segment_def at_def)
    from Cons.IH [OF kept(2,1) sub(1) this] show ?thesis
      using AppendSegment_frame [OF app(1)] unfolding u(1) r1 by (simp add: take_rest_def Let_def)
  qed
qed simp

lemma AppendRemainders_ref:
  assumes rc: "ref_ctx_sim rc c" and sd: "steady c tpe s" and sim: "ref_sim c st s"
  shows "ref_sim c (AppendRemainderSegments rc st) (AppendRemainders c s) \<and> fatal (AppendRemainders c s) = PLAN_OK \<and>
    intraRounds (AppendRemainders c s) = intraRounds s \<and> interRounds (AppendRemainders c s) = interRounds s"
proof -
  note rf = ref_ctx_sim_fields [OF rc]
  have ok: "plan_ctx_ok c" and rm: "room c tpe" and fl: "inv_flow c tpe s" "fatal s = PLAN_OK"
    using sd by (simp_all add: steady_def plan_inv_def)
  have ranks: "set [0..c_rankSize c - 1] \<subseteq> ranks_of c" by auto
  have "\<lbrakk>inv_flow c tpe s; fatal s = PLAN_OK; set es \<subseteq> experts_of c; ref_sim c st s\<rbrakk> \<Longrightarrow>
      ref_sim c (fold (\<lambda>expert. ref_remainder_sources rc expert (HomeRank expert (rc_expertsPerRank rc)) [0..rc_rankSize rc - 1]) es st)
        (remainder_experts c es s) \<and> fatal (remainder_experts c es s) = PLAN_OK \<and>
      intraRounds (remainder_experts c es s) = intraRounds s \<and> interRounds (remainder_experts c es s) = interRounds s" for es
  proof (induction es arbitrary: s st)
    case (Cons e es)
    have e: "e \<in> experts_of c" "set es \<subseteq> experts_of c" using Cons.prems(3) by auto
    obtain s' where "remainder_sources c e (homeOf c e) [0..c_rankSize c - 1] s = (True, s')"
      "ref_sim c (ref_remainder_sources rc e (homeOf c e) [0..c_rankSize c - 1] st) s'"
      "inv_flow c tpe s'" "fatal s' = PLAN_OK" "intraRounds s' = intraRounds s" "interRounds s' = interRounds s"
      using remainder_sources_ref [OF rc home_range [OF ok e(1)] e(1) rm Cons.prems(1,2) ranks Cons.prems(4)] by blast
    then show ?case using Cons.IH [OF _ _ e(2)] by (simp add: rf)
  qed simp
  moreover have "set [0..c_expertNum c - 1] \<subseteq> experts_of c" by auto
  ultimately show ?thesis unfolding AppendRemainders_def AppendRemainderSegments_def rf(2) using sim fl by blast
qed

end
