(* ===== verification/PlanSimBalance.thy ===== *)
theory PlanSimBalance
  imports PlanSimRounds
begin

text \<open>
  One job for both planners: the start of a run and the balanced plan, up to the remainders.
\<close>

section \<open>One job, seen by a rank\<close>

text \<open>The input of a rank of the job: the tables are common to all ranks, the routes are its own.\<close>

definition rank_input :: "ref_input \<Rightarrow> int \<Rightarrow> plan_input" where
  "rank_input ri r = \<lparr> in_rank = r, in_rankSize = ri_rankSize ri, in_s = ri_s ri, in_topK = ri_topK ri,
     in_expertNum = ri_expertNum ri, in_config = ri_config ri,
     in_topkExperts = Some (\<lambda>route. cell (ri_topkExperts ri) (r * (ri_s ri * ri_topK ri) + route)),
     in_tokensPerExpert = Some (cell (ri_tokensPerExpert ri)), in_globalRankIds = Some (cell (ri_globalRankIds ri)) \<rparr>"

lemma rank_input_fields [simp]:
  "in_rank (rank_input ri r) = r" "in_rankSize (rank_input ri r) = ri_rankSize ri" "in_s (rank_input ri r) = ri_s ri"
  "in_topK (rank_input ri r) = ri_topK ri" "in_expertNum (rank_input ri r) = ri_expertNum ri"
  "in_config (rank_input ri r) = ri_config ri"
  "in_topkExperts (rank_input ri r) = Some (\<lambda>route. cell (ri_topkExperts ri) (r * (ri_s ri * ri_topK ri) + route))"
  "in_tokensPerExpert (rank_input ri r) = Some (cell (ri_tokensPerExpert ri))"
  "in_globalRankIds (rank_input ri r) = Some (cell (ri_globalRankIds ri))"
  by (simp_all add: rank_input_def)

lemma rank_ctx_sim [simp]: "ref_ctx_sim (ref_ctx_of ri) (plan_ctx_of (rank_input ri r) ws)"
  by (simp add: ref_ctx_sim_def ref_ctx_of_def plan_ctx_of_def deref_def)

section \<open>The start of both planners\<close>

lemma clear_zero [simp]: "clear n 0 (\<lambda>_. 0) = (\<lambda>_. 0)"
  by (simp add: clear_def fun_eq_iff)

lemma init_expert_frame:
  "fold (init_expert c tpe) es s = s\<lparr> alloc := alloc (fold (init_expert c tpe) es s), rankLoad := rankLoad (fold (init_expert c tpe) es s) \<rparr>"
proof (induction es arbitrary: s)
  case (Cons e es)
  show ?case by (subst fold_simps(2), subst fold_simps(2), subst (1) Cons.IH) (simp add: init_expert_def Let_def)
qed simp

lemma ref_init_fold:
  assumes rf: "rc_expertNum rc = c_expertNum c" "rc_rankSize rc = c_rankSize c" "rc_expertsPerRank rc = c_expertsPerRank c"
  shows "\<lbrakk>rs_alloc st = alloc s; rs_rankLoad st = rankLoad s\<rbrakk> \<Longrightarrow>
    fold (\<lambda>expert st. let cnt = sum_list (map (\<lambda>src. tpe (ReIndex src expert (rc_expertNum rc))) [0..rc_rankSize rc - 1]);
                home = HomeRank expert (rc_expertsPerRank rc)
            in st\<lparr> rs_alloc := (rs_alloc st)(ReIndex home expert (rc_expertNum rc) := cnt),
                   rs_rankLoad := (rs_rankLoad st)(home := rs_rankLoad st home + cnt) \<rparr>) es st =
    st\<lparr> rs_alloc := alloc (fold (init_expert c tpe) es s), rs_rankLoad := rankLoad (fold (init_expert c tpe) es s) \<rparr>"
proof (induction es arbitrary: s st)
  case (Cons e es)
  show ?case
    unfolding fold_simps by (subst Cons.IH [of _ "init_expert c tpe e s"]) (simp_all add: init_expert_def Let_def Cons.prems rf)
qed simp

lemma BuildAffinityOrders_rows:
  assumes rc: "ref_ctx_sim rc c"
  shows "\<exists>f. BuildAffinityOrders rc st = st\<lparr> rs_affinityOrder := f \<rparr> \<and> (\<forall>dst\<in>ranks_of c. f dst = affinity_row c dst)"
proof -
  note rf = ref_ctx_sim_fields [OF rc]
  let ?F = "\<lambda>dst st. st\<lparr> rs_affinityOrder := (rs_affinityOrder st)(dst := affinity_row c dst) \<rparr>"
  have "fold ?F dsts st = st\<lparr> rs_affinityOrder := (\<lambda>d. if d \<in> set dsts then affinity_row c d else rs_affinityOrder st d) \<rparr>" for dsts
  proof (induction dsts arbitrary: st)
    case (Cons d dsts)
    have "fold ?F (d # dsts) st = st\<lparr> rs_affinityOrder := (\<lambda>x. if x \<in> set dsts then affinity_row c x
        else ((rs_affinityOrder st)(d := affinity_row c d)) x) \<rparr>" unfolding fold_simps by (subst Cons.IH) (simp cong: if_cong)
    also have "(\<lambda>x. if x \<in> set dsts then affinity_row c x else ((rs_affinityOrder st)(d := affinity_row c d)) x) =
        (\<lambda>x. if x \<in> set (d # dsts) then affinity_row c x else rs_affinityOrder st x)" by auto
    finally show ?case .
  qed (simp add: ref_state.surjective)
  moreover have "BuildAffinityOrders rc st = fold ?F [0..c_rankSize c - 1] st"
    by (simp add: BuildAffinityOrders_def rf affinity_row_def affinity_order.std_sort_eq)
  ultimately show ?thesis by auto
qed

lemma flat_index_div: "i < n * m \<Longrightarrow> 0 < m \<Longrightarrow> i div m < (n::int)"
proof (rule ccontr)
  assume a: "i < n * m" "0 < m" "\<not> i div m < n"
  then have "n * m \<le> (i div m) * m" by (intro mult_right_mono) auto
  moreover have "(i div m) * m \<le> i" using div_mult_mod_eq [of i m] pos_mod_sign [OF a(2), of i] by linarith
  ultimately show False using a(1) by simp
qed

lemma start_rows:
  fixes ws :: plan_workspace
  assumes ok: "plan_ctx_ok c" and cache: "affinity_cache_ok c ws"
    and nn: "\<forall>src\<in>ranks_of c. \<forall>e\<in>experts_of c. 0 \<le> at c (deref (in_tokensPerExpert inp)) src e"
  shows "\<exists>g. (if ws_affinityOrderValid ws then plan_init c inp ws else BuildAffinity c (plan_init c inp ws)) =
      (plan_init c inp ws)\<lparr> affinityOrder := g \<rparr> \<and> (\<forall>dst\<in>ranks_of c. row_of g dst (c_rankSize c) = affinity_row c dst)"
proof (cases "ws_affinityOrderValid ws")
  case True
  have "affinityOrder (plan_init c inp ws) =
      (\<lambda>i. if 0 \<le> i \<and> i < c_rankSize c * c_rankSize c then deref (ws_affinityOrder ws) i else 0)"
    by (rule plan_init_inv(2) [OF ok nn refl])
  then show ?thesis using True cache
    by (intro exI [of _ "affinityOrder (plan_init c inp ws)"]) (simp add: row_of_extent affinity_cache_ok_def)
next
  case False
  obtain g where g: "BuildAffinity c (plan_init c inp ws) = (plan_init c inp ws)\<lparr> affinityOrder := g \<rparr>"
    using BuildAffinity_frame by blast
  have R: "0 < c_rankSize c" using ok by (simp add: plan_ctx_ok_def)
  have "row_of g dst (c_rankSize c) = affinity_row c dst" if "dst \<in> ranks_of c" for dst
    using BuildAffinity_rows [OF R that, of "plan_init c inp ws"] unfolding g by simp
  then show ?thesis using False g by auto
qed

lemma ref_start_sim:
  fixes ws :: plan_workspace
  assumes rc: "ref_ctx_sim (ref_ctx_of ri) c" and ok: "plan_ctx_ok c" and cache: "affinity_cache_ok c ws"
    and nn: "\<forall>src\<in>ranks_of c. \<forall>e\<in>experts_of c. 0 \<le> at c (cell (ri_tokensPerExpert ri)) src e"
    and tpe: "in_tokensPerExpert inp = Some (cell (ri_tokensPerExpert ri))" "vsize (ri_tokensPerExpert ri) = c_rankSize c * c_expertNum c"
    and rm: "room c (cell (ri_tokensPerExpert ri))"
  defines "s \<equiv> (if ws_affinityOrderValid ws then plan_init c inp ws else BuildAffinity c (plan_init c inp ws))"
  shows "ref_sim c (BuildAffinityOrders (ref_ctx_of ri) (ref_init (ref_ctx_of ri) ri)) s" "steady c (cell (ri_tokensPerExpert ri)) s"
    "intraRounds s = 0" "interRounds s = 0"
proof -
  let ?T = "cell (ri_tokensPerExpert ri)"
  note rf = ref_ctx_sim_fields [OF rc]
  have d: "deref (in_tokensPerExpert inp) = ?T" by (simp add: tpe deref_def)
  note st = plan_start_inv [OF ok, of ?T inp ws, folded s_def, OF nn d [symmetric] cache]
  show "intraRounds s = 0" "interRounds s = 0" using st by simp_all
  define p0 where "p0 = \<lparr> rankLoad = (\<lambda>_. 0), remainingTpe = (\<lambda>i. if 0 \<le> i \<and> i < c_rankSize c * c_expertNum c then ?T i else 0),
    alloc = (\<lambda>_. 0), remoteExpertSet = clear (c_rankSize c * c_b c) (-1) (\<lambda>_. 0), remoteCount = (\<lambda>_. 0), srcExpertCursor = (\<lambda>_. 0),
    dstExpertCursor = (\<lambda>_. 0), expertPhysicalBase = (\<lambda>_. 0), routedPairTokens = (\<lambda>_. 0),
    affinityOrder = (\<lambda>i. if 0 \<le> i \<and> i < c_rankSize c * c_rankSize c then deref (ws_affinityOrder ws) i else 0),
    tokenSegments = [], segmentLog = [], globalSegments = 0, expertMoves = 0, intraRounds = 0, interRounds = 0,
    slotBlock = False, supplyBlock = False, pairBlock = False, fatal = PLAN_OK \<rparr>"
  define p where "p = fold (init_expert c ?T) [0..c_expertNum c - 1] p0"
  have pi: "plan_init c inp ws = p"
    unfolding plan_init_def Let_def clear_zero d p_def p0_def init_expert_def [abs_def, unfolded Let_def] ..
  have pf: "p = p0\<lparr> alloc := alloc p, rankLoad := rankLoad p \<rparr>" unfolding p_def by (rule init_expert_frame)
  define st0 where "st0 = \<lparr> rs_affinityOrder = (\<lambda>_. []), rs_remainingTpe = remainingTpe p0,
    rs_srcExpertCursor = (\<lambda>_. 0), rs_dstExpertCursor = (\<lambda>_. 0), rs_routedPairTokens = (\<lambda>_. 0),
    rs_remoteExpertSets = (\<lambda>_. {}), rs_sawSlotBlock = False, rs_sawSupplyBlock = False,
    rs_sawRouteOrPairBlock = False, rs_rankLoad = rankLoad p0, rs_alloc = alloc p0, rs_segments = [], rs_expertMoves = [] \<rparr>"
  have ri: "ref_init (ref_ctx_of ri) ri = st0\<lparr> rs_alloc := alloc p, rs_rankLoad := rankLoad p \<rparr>"
    using ref_init_fold [OF rf(2,1,3), of st0 p0 ?T "[0..c_expertNum c - 1]"]
    by (simp add: ref_init_def Let_def st0_def p0_def p_def tpe(2) rf)
  obtain f where f: "BuildAffinityOrders (ref_ctx_of ri) (ref_init (ref_ctx_of ri) ri) =
      st0\<lparr> rs_alloc := alloc p, rs_rankLoad := rankLoad p, rs_affinityOrder := f \<rparr>" "\<forall>dst\<in>ranks_of c. f dst = affinity_row c dst"
    using BuildAffinityOrders_rows [OF rc, of "ref_init (ref_ctx_of ri) ri"] unfolding ri by auto
  obtain g where g: "s = p\<lparr> affinityOrder := g \<rparr>" "\<forall>dst\<in>ranks_of c. row_of g dst (c_rankSize c) = affinity_row c dst"
    using start_rows [OF ok cache, of inp] nn unfolding d s_def pi by blast
  have sg: "s = p0\<lparr> alloc := alloc p, rankLoad := rankLoad p, affinityOrder := g \<rparr>" unfolding g(1) by (subst pf) simp
  show "ref_sim c (BuildAffinityOrders (ref_ctx_of ri) (ref_init (ref_ctx_of ri) ri)) s"
    unfolding f(1) sg using f(2) g(2) by (simp add: ref_sim_def st0_def p0_def remote_row_def)
  have "0 \<le> remainingTpe p0 i" for i
  proof (cases "0 \<le> i \<and> i < c_rankSize c * c_expertNum c")
    case True
    have E: "0 < c_expertNum c" using True ok by (auto simp: plan_ctx_ok_def zero_less_mult_iff)
    have "i div c_expertNum c \<in> ranks_of c" "i mod c_expertNum c \<in> experts_of c"
      using True E flat_index_div [of i "c_rankSize c" "c_expertNum c"] by (auto simp: pos_imp_zdiv_nonneg_iff)
    then have "0 \<le> at c ?T (i div c_expertNum c) (i mod c_expertNum c)" using nn by blast
    then show ?thesis using True by (simp add: p0_def at_def ReIndex_def)
  qed (auto simp: p0_def)
  then have "tables_nonneg s" unfolding sg tables_nonneg_def by (simp add: p0_def)
  then show "steady c ?T s" using ok rm st by (simp add: steady_def)
qed
section \<open>The balanced plans agree\<close>

lemma ref_balance_sim:
  fixes ws :: plan_workspace
  assumes rc: "ref_ctx_sim (ref_ctx_of ri) c" and ok: "plan_ctx_ok c" and cache: "affinity_cache_ok c ws"
    and nn: "\<forall>src\<in>ranks_of c. \<forall>e\<in>experts_of c. 0 \<le> at c (cell (ri_tokensPerExpert ri)) src e"
    and tpe: "in_tokensPerExpert inp = Some (cell (ri_tokensPerExpert ri))" "vsize (ri_tokensPerExpert ri) = c_rankSize c * c_expertNum c"
    and rm: "room c (cell (ri_tokensPerExpert ri))" and cap: "0 < c_cap c"
    and ids: "\<forall>r\<in>ranks_of c. 0 \<le> c_globalRankIds c r \<and> c_globalRankIds c r \<le> INT32_MAX"
  shows "\<exists>st. ref_balance (ref_ctx_of ri) ri =
      Some (st, intraRounds (plan_balance c inp ws), interRounds (plan_balance c inp ws)) \<and>
    ref_sim c st (plan_balance c inp ws) \<and> fatal (plan_balance c inp ws) = PLAN_OK"
proof -
  let ?T = "cell (ri_tokensPerExpert ri)" and ?rc = "ref_ctx_of ri"
  define s where "s = (if ws_affinityOrderValid ws then plan_init c inp ws else BuildAffinity c (plan_init c inp ws))"
  note st = ref_start_sim [OF rc ok cache nn tpe rm, folded s_def]
  define s1 where "s1 = RunIntra c s"
  define s2 where "s2 = RunInter c s1"
  obtain st1 k where i: "RunIntraServerStage ?rc (BuildAffinityOrders ?rc (ref_init ?rc ri)) 0 = Some (st1, k, intraRounds s1)"
    "ref_sim c st1 s1" "steady c ?T s1"
    using RunIntraServerStage_ref [OF rc cap ids st(2,1), of 0] unfolding s1_def [symmetric] st(3) by auto
  have f1: "fatal s1 = PLAN_OK" using i(3) by (simp add: steady_def)
  have r1: "interRounds s1 = 0"
    using intra_servers_account [of c INT32_MIN s] f1 st(4) by (simp add: s1_def RunIntra_def)
  obtain st2 k2 where n: "RunInterServerStage ?rc st1 k = Some (st2, k2, interRounds s2)" "ref_sim c st2 s2" "steady c ?T s2"
    using RunInterServerStage_ref [OF rc i(3,2), of k 0] unfolding s2_def [symmetric] r1 RunInterServerStage_def by auto
  have f2: "fatal s2 = PLAN_OK" using n(3) by (simp add: steady_def)
  have r2: "intraRounds s2 = intraRounds s1" using RunInter_account [of c s1] f2 by (simp add: s2_def)
  have pb: "plan_balance c inp ws = AppendRemainders c s2"
    unfolding plan_balance_def Let_def s_def [symmetric] s1_def [symmetric] using f1 f2 by (simp add: s2_def)
  note ar = AppendRemainders_ref [OF rc n(3,2)]
  have "ref_balance ?rc ri = Some (AppendRemainderSegments ?rc st2, intraRounds s1, interRounds s2)"
    by (simp add: ref_balance_def i(1) n(1))
  then show ?thesis using ar r2 unfolding pb by auto
qed

end
