(* ===== verification/PlanSimLayout.thy ===== *)
theory PlanSimLayout
  imports PlanSimBalance
begin

text \<open>
  The layouts of both planners: remote rows, statistics, targets, group ends and physical bases.
\<close>

unbundle bit_operations_syntax

section \<open>Remote rows\<close>

lemma ref_remote_eq:
  assumes "ref_ctx_sim rc c"
  shows "ref_remote rc alc dst = remote_order_of c alc dst"
proof -
  note rf = ref_ctx_sim_fields [OF assms]
  have "(\<lambda>lhs rhs. let lhsAlloc = alc (ReIndex dst lhs (rc_expertNum rc)); rhsAlloc = alc (ReIndex dst rhs (rc_expertNum rc))
      in if lhsAlloc \<noteq> rhsAlloc then lhsAlloc > rhsAlloc else lhs < rhs) = BetterRemote alc (c_expertNum c) dst"
    by (auto simp: fun_eq_iff BetterRemote_def Let_def rf)
  then show ?thesis by (simp add: ref_remote_def remote_order_of_def remotes_def rf at_def remote_order.std_sort_eq)
qed

text \<open>What the rank of the context sees of the vectors of all ranks.\<close>

definition layout_view :: "plan_ctx \<Rightarrow> ref_layout \<Rightarrow> plan_arrays \<Rightarrow> bool" where
  "layout_view c ly a =
    ((\<forall>slot\<in>{0..<c_b c}. cell (ly_expertsToCopy ly) (c_rank c * c_b c + slot) = a_expertsToCopy a slot) \<and>
     cell (ly_remoteStats ly) (c_rank c * 2) = a_remoteStats a 0 \<and>
     cell (ly_remoteStats ly) (c_rank c * 2 + 1) = a_remoteStats a 1 \<and>
     (a_remoteExperts a \<noteq> None \<longrightarrow> (\<forall>i\<in>{0..<c_expertsPerRank c * target_words c}.
        cell (ly_expertTargets ly) (c_rank c * c_expertsPerRank c * target_words c + i) = a_expertTargets a i)))"

lemma store_row_Cons: "store_row t b (x # xs) = store_row (t(b := x)) (b + 1) xs"
proof
  fix i
  show "store_row t b (x # xs) i = store_row (t(b := x)) (b + 1) xs i"
  proof (cases "b < i \<and> i < b + 1 + int (length xs)")
    case True
    then have "nat (i - b) = Suc (nat (i - (b + 1)))" by arith
    then show ?thesis using True by (simp add: store_row_def)
  qed (auto simp: store_row_def)
qed

definition mark_all :: "plan_ctx \<Rightarrow> int \<Rightarrow> int list \<Rightarrow> nat arr \<Rightarrow> nat arr" where
  "mark_all c dst row t = fold (\<lambda>e t. let i = e * target_words c + dst div 64 in t(i := t i OR push_bit (nat (dst mod 64)) 1)) row t"

definition row_placed :: "plan_ctx \<Rightarrow> int \<Rightarrow> int \<Rightarrow> int list \<Rightarrow> ref_layout \<Rightarrow> ref_layout \<Rightarrow> bool" where
  "row_placed c dst k row ly ly' =
    (cell (ly_expertsToCopy ly') = store_row (cell (ly_expertsToCopy ly)) (dst * c_b c + k) row \<and>
     (\<forall>h. cell (ly_remoteStats ly') (h * 2) = cell (ly_remoteStats ly) (h * 2) \<and>
       cell (ly_remoteStats ly') (h * 2 + 1) = cell (ly_remoteStats ly) (h * 2 + 1) + int (length (filter (\<lambda>e. homeOf c e = h) row))) \<and>
     cell (ly_expertTargets ly') = mark_all c dst row (cell (ly_expertTargets ly)) \<and>
     ly_cuSeqlens ly' = ly_cuSeqlens ly \<and> ly_base ly' = ly_base ly)"

lemma place_row:
  assumes "ref_ctx_sim rc c"
  shows "row_placed c dst k row ly (fold (ref_place_remote rc dst) (zip [k..k + int (length row) - 1] row) ly)"
proof (induction row arbitrary: ly k)
  case Nil
  show ?case by (simp add: row_placed_def mark_all_def store_row_def fun_eq_iff)
next
  case (Cons e row)
  note rf = ref_ctx_sim_fields [OF assms]
  define ly1 where "ly1 = ref_place_remote rc dst (k, e) ly"
  have up: "[k..k + int (length (e # row)) - 1] = k # [k + 1..k + 1 + int (length row) - 1]"
    using upto_rec1 [of k "k + int (length (e # row)) - 1"] by (simp add: algebra_simps)
  have f: "fold (ref_place_remote rc dst) (zip [k..k + int (length (e # row)) - 1] (e # row)) ly =
      fold (ref_place_remote rc dst) (zip [k + 1..k + 1 + int (length row) - 1] row) ly1"
    unfolding up by (simp add: ly1_def)
  have l: "cell (ly_expertsToCopy ly1) = (cell (ly_expertsToCopy ly))(dst * c_b c + k := e)"
    "cell (ly_remoteStats ly1) = (cell (ly_remoteStats ly))(homeOf c e * 2 + 1 := cell (ly_remoteStats ly) (homeOf c e * 2 + 1) + 1)"
    "mark_all c dst (e # row) (cell (ly_expertTargets ly)) = mark_all c dst row (cell (ly_expertTargets ly1))"
    "ly_cuSeqlens ly1 = ly_cuSeqlens ly" "ly_base ly1 = ly_base ly"
    by (simp_all add: ly1_def ref_place_remote_def Let_def rf vec_set_def target_words_def mark_all_def)
  have st: "store_row (cell (ly_expertsToCopy ly)) (dst * c_b c + k) (e # row) =
      store_row (cell (ly_expertsToCopy ly1)) (dst * c_b c + (k + 1)) row"
    by (simp only: store_row_Cons l(1) add.assoc)
  have odd: "h * 2 \<noteq> homeOf c e * 2 + 1" for h by presburger
  have stats: "cell (ly_remoteStats ly1) (h * 2) = cell (ly_remoteStats ly) (h * 2)"
    "cell (ly_remoteStats ly1) (h * 2 + 1) + int (length (filter (\<lambda>e. homeOf c e = h) row)) =
      cell (ly_remoteStats ly) (h * 2 + 1) + int (length (filter (\<lambda>e. homeOf c e = h) (e # row)))" for h
    using odd [of h] by (auto simp: l(2))
  note ih = Cons.IH [of "k + 1" ly1, unfolded row_placed_def stats l(4,5)]
  show ?case unfolding f row_placed_def st l(3) using ih by blast
qed

lemma target_word_range:
  assumes "plan_ctx_ok c" "dst \<in> ranks_of c"
  shows "0 \<le> dst div 64" "dst div 64 < target_words c"
  using assms by (auto simp: target_words_def plan_ctx_ok_def)

text \<open>A mark outside the experts of the rank is outside its block of the table.\<close>

lemma mark_index:
  assumes ok: "plan_ctx_ok c" and w: "0 \<le> w" "w < target_words c" and i: "i \<in> {0..<c_expertsPerRank c * target_words c}"
  shows "(r * c_expertsPerRank c * target_words c + i = e * target_words c + w) =
    (homeOf c e = r \<and> i = (e - r * c_expertsPerRank c) * target_words c + w)"
proof
  let ?P = "c_expertsPerRank c" and ?W = "target_words c"
  have W: "0 < ?W" using w by simp
  assume eq: "r * ?P * ?W + i = e * ?W + w"
  then have i': "i = (e - r * ?P) * ?W + w" by (simp add: algebra_simps)
  have "0 \<le> e - r * ?P"
  proof (rule ccontr)
    assume "\<not> 0 \<le> e - r * ?P"
    then have "(e - r * ?P) * ?W \<le> - 1 * ?W" using W by (intro mult_right_mono) auto
    then show False using i i' w by simp
  qed
  moreover have "e - r * ?P < ?P"
  proof (rule ccontr)
    assume "\<not> e - r * ?P < ?P"
    then have "?P * ?W \<le> (e - r * ?P) * ?W" using W by (intro mult_right_mono) auto
    moreover have "(e - r * ?P) * ?W + w < ?P * ?W" using i i' by simp
    ultimately show False using w by linarith
  qed
  ultimately show "homeOf c e = r \<and> i = (e - r * ?P) * ?W + w" using home_iff [OF ok, of e r] i' by simp
qed (simp add: algebra_simps)

lemma mark_targets_view:
  assumes ok: "plan_ctx_ok c" and dst: "dst \<in> ranks_of c"
  shows "\<lbrakk>\<forall>e\<in>set row. 0 \<le> e; \<forall>i\<in>{0..<c_expertsPerRank c * target_words c}. T (c_rank c * c_expertsPerRank c * target_words c + i) = t i\<rbrakk> \<Longrightarrow>
    \<forall>i\<in>{0..<c_expertsPerRank c * target_words c}.
      mark_all c dst row T (c_rank c * c_expertsPerRank c * target_words c + i) = mark_targets c dst row t i"
proof (induction row arbitrary: T t)
  case (Cons e row)
  let ?g = "e * target_words c + dst div 64" and ?l = "(e - c_rank c * c_expertsPerRank c) * target_words c + dst div 64"
  let ?T = "T(?g := T ?g OR push_bit (nat (dst mod 64)) 1)"
  let ?t = "if homeOf c e = c_rank c then t(?l := t ?l OR push_bit (nat (dst mod 64)) 1) else t"
  note mi = mark_index [OF ok target_word_range [OF ok dst], of _ "c_rank c" e]
  have one: "?T (c_rank c * c_expertsPerRank c * target_words c + i) = ?t i" if i: "i \<in> {0..<c_expertsPerRank c * target_words c}" for i
    using mi [OF i] bspec [OF Cons.prems(2) i] by auto
  have e: "0 \<le> e" "\<forall>e\<in>set row. 0 \<le> e" using Cons.prems(1) by simp_all
  have step: "mark_all c dst (e # row) T = mark_all c dst row ?T" "mark_targets c dst (e # row) t = mark_targets c dst row ?t"
    unfolding mark_all_def mark_targets_def fold_simps Let_def using e(1) by simp_all
  show ?case unfolding step by (rule Cons.IH [OF e(2)], intro ballI, rule one)
qed (simp add: mark_all_def mark_targets_def)

lemma mark_targets_pad: "mark_targets c dst (pad_row c row) t = mark_targets c dst row t"
proof -
  have "fold (\<lambda>e t. if 0 \<le> e \<and> P e then f e t else t) (replicate n (-1)) t = t" for P n t and f :: "int \<Rightarrow> nat arr \<Rightarrow> nat arr"
    by (induction n arbitrary: t) simp_all
  then show ?thesis by (simp add: mark_targets_def pad_row_def)
qed

lemma store_row_view:
  assumes "int (length row) \<le> b" "0 \<le> slot" "slot < b"
  shows "store_row f (dst * b) row (r * b + slot) =
    (if dst = r \<and> slot < int (length row) then row ! nat slot else f (r * b + slot))"
proof -
  have "dst = r" if "dst * b \<le> r * b + slot" "r * b + slot < dst * b + int (length row)"
  proof -
    have "0 \<le> r * b + slot - dst * b" "r * b + slot - dst * b < b" using that assms(1) by linarith+
    from flat_index_inj [OF this assms(2,3), of dst r] show ?thesis by simp
  qed
  moreover have "dst * b \<le> r * b + slot \<and> r * b + slot < dst * b + int (length row)" if "dst = r" "slot < int (length row)"
    using that assms(2) by simp
  ultimately show ?thesis by (auto simp: store_row_def)
qed

lemma pad_row_nth:
  "0 \<le> slot \<Longrightarrow> slot < c_b c \<Longrightarrow> pad_row c row ! nat slot = (if slot < int (length row) then row ! nat slot else -1)"
  by (auto simp: pad_row_def nth_append)

text \<open>One destination of the first loop.\<close>

lemma layout_row_ref:
  assumes rc: "ref_ctx_sim rc c" and ok: "plan_ctx_ok c" and dst: "dst \<in> ranks_of c"
    and row: "int (length row) \<le> c_b c" "\<forall>e\<in>set row. 0 \<le> e" and v: "layout_view c ly a"
    and empty: "\<forall>slot\<in>{0..<c_b c}. cell (ly_expertsToCopy ly) (dst * c_b c + slot) = -1"
    and lr: "layout_remote c dst row (s, a, m) = (s', a', m')"
  defines "ly' \<equiv> fold (ref_place_remote rc dst) (zip [0..int (length row) - 1] row)
      (ly\<lparr> ly_remoteStats := vec_set (ly_remoteStats ly) (dst * 2) (int (length row)) \<rparr>)"
  shows "layout_view c ly' a'"
    "ly_cuSeqlens ly' = ly_cuSeqlens ly" "ly_base ly' = ly_base ly"
    "\<forall>d. cell (ly_remoteStats ly') (d * 2) = (if d = dst then int (length row) else cell (ly_remoteStats ly) (d * 2))"
    "\<forall>d slot. d \<noteq> dst \<longrightarrow> 0 \<le> slot \<longrightarrow> slot < c_b c \<longrightarrow>
      cell (ly_expertsToCopy ly') (d * c_b c + slot) = cell (ly_expertsToCopy ly) (d * c_b c + slot)"
proof -
  define ly0 where "ly0 = ly\<lparr> ly_remoteStats := vec_set (ly_remoteStats ly) (dst * 2) (int (length row)) \<rparr>"
  have rp: "row_placed c dst 0 row ly0 ly'" unfolding ly'_def ly0_def using place_row [OF rc, of dst 0 row] by simp
  have e: "cell (ly_expertsToCopy ly') = store_row (cell (ly_expertsToCopy ly)) (dst * c_b c) row"
    and st: "cell (ly_remoteStats ly') (h * 2) = cell (ly_remoteStats ly0) (h * 2)"
      "cell (ly_remoteStats ly') (h * 2 + 1) = cell (ly_remoteStats ly0) (h * 2 + 1) + int (length (filter (\<lambda>e. homeOf c e = h) row))"
    and tg: "cell (ly_expertTargets ly') = mark_all c dst row (cell (ly_expertTargets ly))"
    and fr: "ly_cuSeqlens ly' = ly_cuSeqlens ly" "ly_base ly' = ly_base ly" for h
    using rp by (simp_all add: row_placed_def ly0_def)
  have odd: "h * 2 + 1 \<noteq> dst * 2" for h by presburger
  have s0: "cell (ly_remoteStats ly0) (h * 2) = (if h = dst then int (length row) else cell (ly_remoteStats ly) (h * 2))"
    "cell (ly_remoteStats ly0) (h * 2 + 1) = cell (ly_remoteStats ly) (h * 2 + 1)" for h
    using odd [of h] by (auto simp: ly0_def vec_set_def)
  note a' = lr [unfolded layout_remote_def Let_def prod.case, symmetric]
  have pl: "int (length (pad_row c row)) = c_b c" by (rule length_pad_row [OF row(1)])
  show "ly_cuSeqlens ly' = ly_cuSeqlens ly" "ly_base ly' = ly_base ly" by (rule fr)+
  show "\<forall>d. cell (ly_remoteStats ly') (d * 2) = (if d = dst then int (length row) else cell (ly_remoteStats ly) (d * 2))"
    by (simp add: st s0)
  show "\<forall>d slot. d \<noteq> dst \<longrightarrow> 0 \<le> slot \<longrightarrow> slot < c_b c \<longrightarrow>
      cell (ly_expertsToCopy ly') (d * c_b c + slot) = cell (ly_expertsToCopy ly) (d * c_b c + slot)"
    by (simp add: e store_row_view [OF row(1)])
  have "cell (ly_expertsToCopy ly') (c_rank c * c_b c + slot) = a_expertsToCopy a' slot" if "slot \<in> {0..<c_b c}" for slot
  proof -
    have s: "0 \<le> slot" "slot < c_b c" using that by simp_all
    have "a_expertsToCopy a' slot = (if dst = c_rank c then pad_row c row ! nat slot else a_expertsToCopy a slot)"
      using a' s pl by (simp add: store_row_def)
    moreover have "cell (ly_expertsToCopy ly) (c_rank c * c_b c + slot) = a_expertsToCopy a slot"
      using v that by (simp add: layout_view_def)
    moreover have "cell (ly_expertsToCopy ly) (dst * c_b c + slot) = -1" using empty that by blast
    ultimately show ?thesis unfolding e store_row_view [OF row(1) s] pad_row_nth [OF s] by auto
  qed
  moreover have "cell (ly_remoteStats ly') (c_rank c * 2) = a_remoteStats a' 0"
    "cell (ly_remoteStats ly') (c_rank c * 2 + 1) = a_remoteStats a' 1"
    using v a' by (auto simp: st s0 layout_view_def)
  moreover have "cell (ly_expertTargets ly') (c_rank c * c_expertsPerRank c * target_words c + i) = a_expertTargets a' i"
    if "a_remoteExperts a' \<noteq> None" "i \<in> {0..<c_expertsPerRank c * target_words c}" for i
  proof -
    have some: "a_remoteExperts a \<noteq> None" using that(1) a' by auto
    then have "a_expertTargets a' = mark_targets c dst row (a_expertTargets a)" using a' by (auto simp: mark_targets_pad)
    moreover have "\<forall>i\<in>{0..<c_expertsPerRank c * target_words c}.
        cell (ly_expertTargets ly) (c_rank c * c_expertsPerRank c * target_words c + i) = a_expertTargets a i"
      using v some by (simp add: layout_view_def)
    ultimately show ?thesis using mark_targets_view [OF ok dst row(2)] that(2) by (simp add: tg)
  qed
  ultimately show "layout_view c ly' a'" by (simp add: layout_view_def)
qed

section \<open>The first loop\<close>

lemma layout_rows_ref:
  assumes rc: "ref_ctx_sim rc c" and ok: "plan_ctx_ok c"
  shows "\<lbrakk>layout_view c ly a; set dsts \<subseteq> ranks_of c; distinct dsts; \<forall>dst\<in>set dsts. int (length (remotes c (alloc s) dst)) \<le> c_b c;
      \<forall>dst\<in>set dsts. \<forall>slot\<in>{0..<c_b c}. cell (ly_expertsToCopy ly) (dst * c_b c + slot) = -1\<rbrakk> \<Longrightarrow>
    \<exists>ly' s' a'. ref_layout_rows rc (alloc s) dsts ly = (True, ly') \<and>
      layout_rows c dsts (s, a, m) = (True, s', a', fold (\<lambda>d m. MaxI32 m (int (length (remotes c (alloc s) d)))) dsts m) \<and>
      layout_view c ly' a' \<and> ly_cuSeqlens ly' = ly_cuSeqlens ly \<and> ly_base ly' = ly_base ly \<and> a_cuSeqlens a' = a_cuSeqlens a \<and>
      (\<forall>d. cell (ly_remoteStats ly') (d * 2) =
        (if d \<in> set dsts then int (length (remotes c (alloc s) d)) else cell (ly_remoteStats ly) (d * 2)))"
proof (induction dsts arbitrary: ly s a m)
  case (Cons dst dsts)
  note q = Cons.prems
  define row where "row = remote_order_of c (alloc s) dst"
  have len: "int (length row) \<le> c_b c" "length row = length (remotes c (alloc s) dst)" using q(4) by (simp_all add: row_def length_remote_order)
  have rr: "ref_remote rc (alloc s) dst = row" by (simp add: row_def ref_remote_eq [OF rc])
  have ir: "insert_remote c s dst [0..c_expertNum c - 1] [] = (True, row)"
    unfolding row_def by (rule insert_remote_row) (use q(4) in simp)
  have nn: "\<forall>e\<in>set row. 0 \<le> e" by (auto simp: row_def set_remote_order)
  define ly1 where "ly1 = fold (ref_place_remote rc dst) (zip [0..int (length row) - 1] row)
      (ly\<lparr> ly_remoteStats := vec_set (ly_remoteStats ly) (dst * 2) (int (length row)) \<rparr>)"
  obtain s1 a1 m1 where lr: "layout_remote c dst row (s, a, m) = (s1, a1, m1)" by (metis prod_cases3)
  have al: "alloc s1 = alloc s" and m1: "m1 = MaxI32 m (int (length (remotes c (alloc s) dst)))" and cu: "a_cuSeqlens a1 = a_cuSeqlens a"
    using lr len(2) by (auto simp: layout_remote_def Let_def)
  have d: "dst \<in> ranks_of c" "set dsts \<subseteq> ranks_of c" using q(2) by auto
  have em: "\<forall>slot\<in>{0..<c_b c}. cell (ly_expertsToCopy ly) (dst * c_b c + slot) = -1" using q(5) by simp
  note one = layout_row_ref [OF rc ok d(1) len(1) nn q(1) em lr, folded ly1_def]
  have em1: "\<forall>x\<in>set dsts. \<forall>slot\<in>{0..<c_b c}. cell (ly_expertsToCopy ly1) (x * c_b c + slot) = -1"
    using one(5) q(3,5) by (metis atLeastLessThan_iff distinct.simps(2) list.set_intros(2))
  have l1: "\<forall>x\<in>set dsts. int (length (remotes c (alloc s1) x)) \<le> c_b c" using q(4) by (simp add: al)
  obtain ly' s' a' where ih: "ref_layout_rows rc (alloc s) dsts ly1 = (True, ly')"
      "layout_rows c dsts (s1, a1, m1) = (True, s', a', fold (\<lambda>d m. MaxI32 m (int (length (remotes c (alloc s) d)))) dsts m1)"
      "layout_view c ly' a'" "ly_cuSeqlens ly' = ly_cuSeqlens ly1" "ly_base ly' = ly_base ly1" "a_cuSeqlens a' = a_cuSeqlens a1"
      "\<forall>d. cell (ly_remoteStats ly') (d * 2) = (if d \<in> set dsts then int (length (remotes c (alloc s) d)) else cell (ly_remoteStats ly1) (d * 2))"
    using Cons.IH [OF one(1) d(2) _ l1 em1, of m1] q(3) unfolding al by auto
  have "ref_layout_rows rc (alloc s) (dst # dsts) ly = (True, ly')"
    using ih(1) len(1) ref_ctx_sim_fields [OF rc] by (simp add: rr ly1_def)
  moreover have "layout_rows c (dst # dsts) (s, a, m) =
      (True, s', a', fold (\<lambda>d m. MaxI32 m (int (length (remotes c (alloc s) d)))) (dst # dsts) m)"
    using ih(2) by (simp add: ir lr m1)
  ultimately show ?case using ih(3-7) one(2-4) cu len(2) by (intro exI [of _ ly'] exI [of _ s'] exI [of _ a']) auto
qed simp

section \<open>The groups of a destination\<close>

lemma slot_of_expert_iff: "(slot_of_expert row e < 0) = (e \<notin> set row)"
proof -
  have "(fold (\<lambda>(slot, expert) f. f(expert := slot)) (zip is row) f e < 0) = (e \<notin> set row \<and> f e < 0)"
    if "length is = length row" "\<forall>i\<in>set is. 0 \<le> (i::int)" for "is" f
    using that by (induction row arbitrary: "is" f) (auto simp: length_Suc_conv split: if_splits)
  from this [of "[0..int (length row) - 1]" "\<lambda>_. -1"] show ?thesis by (simp add: slot_of_expert_def)
qed

lemma AlignUp_AlignCount: "0 \<le> v \<Longrightarrow> 0 < n \<Longrightarrow> AlignUp v n = AlignCount v n"
  by (simp add: AlignUp_def AlignCount_def)

lemma group_expert_pad:
  assumes "int (length row) \<le> c_b c" "\<forall>e\<in>set row. 0 \<le> e" "0 \<le> g" "g < c_expertNum c + c_b c"
  shows "group_expert c (pad_row c row) g =
    (if g < c_expertNum c then if g \<in> set row then -1 else g
     else if g - c_expertNum c < int (length row) then row ! nat (g - c_expertNum c) else -1)"
proof (cases "g < c_expertNum c")
  case True
  have "list_ex (\<lambda>e. e = g) (pad_row c row) = (g \<in> set row)" using assms(3) by (auto simp: pad_row_def list_ex_iff)
  then show ?thesis using True by (simp add: group_expert_def)
next
  case False
  let ?s = "g - c_expertNum c"
  have s: "0 \<le> ?s" "?s < c_b c" using False assms(4) by simp_all
  have "0 \<le> row ! nat ?s" if "?s < int (length row)" using assms(2) s(1) that by (simp add: nth_mem)
  then show ?thesis using False s by (auto simp: group_expert_def Let_def pad_row_nth [OF s])
qed

definition cu_view :: "plan_ctx \<Rightarrow> int vec \<Rightarrow> int arr \<Rightarrow> bool" where
  "cu_view c v cu = (\<forall>g\<in>{0..<c_expertNum c + c_b c}. cell v (c_rank c * (c_expertNum c + c_b c) + g) = cu g)"

lemma cu_view_set:
  assumes "cu_view c v cu" "0 \<le> g" "g < c_expertNum c + c_b c"
  shows "cu_view c (vec_set v (dst * (c_expertNum c + c_b c) + g) x) (if dst = c_rank c then cu(g := x) else cu)"
  unfolding cu_view_def
proof
  fix h assume h: "h \<in> {0..<c_expertNum c + c_b c}"
  let ?G = "c_expertNum c + c_b c"
  have "(c_rank c * ?G + h = dst * ?G + g) = (c_rank c = dst \<and> h = g)" using flat_index_inj [of h ?G g "c_rank c" dst] h assms(2,3) by simp
  moreover have "cell v (c_rank c * ?G + h) = cu h" using assms(1) h by (simp only: cu_view_def)
  ultimately show "cell (vec_set v (dst * ?G + g) x) (c_rank c * ?G + h) = (if dst = c_rank c then cu(g := x) else cu) h"
    by (auto simp: vec_set_def)
qed

definition base_view :: "plan_ctx \<Rightarrow> int arr \<Rightarrow> int arr \<Rightarrow> bool" where
  "base_view c b1 b2 = (\<forall>i\<in>{0..<c_rankSize c * c_expertNum c}. b1 i = b2 i)"

lemma base_view_upd: "base_view c b1 b2 \<Longrightarrow> base_view c (b1(i := x)) (b2(i := x))"
  by (simp add: base_view_def)

lemma layout_groups_ref:
  assumes rc: "ref_ctx_sim rc c" and row: "int (length row) \<le> c_b c" "set row \<subseteq> experts_of c"
    and nn: "\<forall>e\<in>experts_of c. 0 \<le> at c alc dst e" and pad: "0 < tokenPadding cfg"
  shows "\<lbrakk>cu_view c (ly_cuSeqlens ly) cu; base_view c (ly_base ly) base; set gs \<subseteq> {0..<c_expertNum c + c_b c};
      layout_groups c cfg alc dst (pad_row c row) gs prev base cu = (okk, e, base', cu')\<rbrakk> \<Longrightarrow>
    \<exists>V B. ref_layout_groups rc cfg alc dst row (slot_of_expert row) gs prev ly = (okk, ly\<lparr> ly_base := B, ly_cuSeqlens := V \<rparr>) \<and>
      cu_view c V cu' \<and> base_view c B base'"
proof (induction gs arbitrary: ly cu base prev)
  case Nil
  then show ?case by (intro exI [of _ "ly_cuSeqlens ly"] exI [of _ "ly_base ly"]) simp
next
  case (Cons g gs)
  note q = Cons.prems and rf = ref_ctx_sim_fields [OF rc]
  have g: "0 \<le> g" "g < c_expertNum c + c_b c" "set gs \<subseteq> {0..<c_expertNum c + c_b c}" using q(3) by auto
  have rn: "\<forall>e\<in>set row. 0 \<le> e" using row(2) by auto
  define ph where "ph = group_expert c (pad_row c row) g"
  define i where "i = ReIndex dst ph (c_expertNum c)"
  define n where "n = (if ph \<ge> 0 then alc i else 0)"
  define B1 where "B1 = (if ph \<ge> 0 then (ly_base ly)(i := prev) else ly_base ly)"
  define b1 where "b1 = (if ph \<ge> 0 then base(i := prev) else base)"
  define aok where "aok = fst (if n = 0 then (True, 0) else AlignCount n (tokenPadding cfg))"
  define k where "k = snd (if n = 0 then (True, 0) else AlignCount n (tokenPadding cfg))"
  have al: "(if n = 0 then (True, 0) else AlignCount n (tokenPadding cfg)) = (aok, k)" by (simp add: aok_def k_def)
  have phE: "0 \<le> ph \<Longrightarrow> ph \<in> experts_of c" unfolding ph_def by (rule group_expert_range [OF row _]) (use g in auto)
  then have n0: "0 \<le> n" using nn by (auto simp: n_def i_def at_def)
  have al': "(if n = 0 then (True, 0) else AlignUp n (tokenPadding cfg)) = (aok, k)"
    unfolding AlignUp_AlignCount [OF n0 pad] by (rule al)
  have bv: "base_view c B1 b1" using q(2) base_view_upd by (simp add: B1_def b1_def)
  have ref: "ref_layout_groups rc cfg alc dst row (slot_of_expert row) (g # gs) prev ly =
      (if \<not> aok \<or> k > nvS cfg - prev then (False, ly\<lparr> ly_base := B1 \<rparr>)
       else ref_layout_groups rc cfg alc dst row (slot_of_expert row) gs (prev + k)
          (ly\<lparr> ly_base := B1, ly_cuSeqlens := vec_set (ly_cuSeqlens ly) (dst * (c_expertNum c + c_b c) + g) (prev + k) \<rparr>))"
  proof -
    have "(if g < c_expertNum c
        then if slot_of_expert row g < 0 then (alc (ReIndex dst g (c_expertNum c)), (ly_base ly)(ReIndex dst g (c_expertNum c) := prev))
             else (0, ly_base ly)
        else if g - c_expertNum c < int (length row)
             then let expert = row ! nat (g - c_expertNum c)
               in (alc (ReIndex dst expert (c_expertNum c)), (ly_base ly)(ReIndex dst expert (c_expertNum c) := prev))
             else (0, ly_base ly)) = (n, B1)"
      using g(1) rn group_expert_pad [OF row(1) rn g(1,2)]
      by (auto simp: n_def B1_def i_def ph_def slot_of_expert_iff Let_def nth_mem)
    then show ?thesis unfolding ref_layout_groups.simps rf Let_def [of "c_expertNum c + c_b c"] Let_def [of "g - c_expertNum c"]
      by (simp only: prod.case al' Let_def [of "(n, B1)"] Let_def [of "(aok, k)"])
  qed
  have st: "(if \<not> aok \<or> k > nvS cfg - prev then (False, prev, b1, cu)
      else layout_groups c cfg alc dst (pad_row c row) gs (prev + k) b1 (if dst = c_rank c then cu(g := prev + k) else cu)) = (okk, e, base', cu')"
    using q(4) by (simp only: layout_groups.simps ph_def [symmetric] i_def [symmetric] n_def [symmetric] b1_def [symmetric] Let_def al prod.case)
  show ?case
  proof (cases "\<not> aok \<or> k > nvS cfg - prev")
    case True
    have "ref_layout_groups rc cfg alc dst row (slot_of_expert row) (g # gs) prev ly = (False, ly\<lparr> ly_base := B1, ly_cuSeqlens := ly_cuSeqlens ly \<rparr>)"
      unfolding ref using True by simp
    moreover have "okk = False" "base' = b1" "cu' = cu" using st True by auto
    ultimately show ?thesis using q(1) bv by metis
  next
    case False
    define ly1 where "ly1 = ly\<lparr> ly_base := B1, ly_cuSeqlens := vec_set (ly_cuSeqlens ly) (dst * (c_expertNum c + c_b c) + g) (prev + k) \<rparr>"
    have cv: "cu_view c (ly_cuSeqlens ly1) (if dst = c_rank c then cu(g := prev + k) else cu)"
      unfolding ly1_def using cu_view_set [OF q(1) g(1,2)] by simp
    have bv1: "base_view c (ly_base ly1) b1" using bv by (simp add: ly1_def)
    obtain V B where "ref_layout_groups rc cfg alc dst row (slot_of_expert row) gs (prev + k) ly1 =
        (okk, ly1\<lparr> ly_base := B, ly_cuSeqlens := V \<rparr>)" "cu_view c V cu'" "base_view c B base'"
      using Cons.IH [OF cv bv1 g(3), of "prev + k"] st False by auto
    moreover have "ref_layout_groups rc cfg alc dst row (slot_of_expert row) (g # gs) prev ly =
        ref_layout_groups rc cfg alc dst row (slot_of_expert row) gs (prev + k) ly1" unfolding ref ly1_def using False by simp
    moreover have "ly1\<lparr> ly_base := B, ly_cuSeqlens := V \<rparr> = ly\<lparr> ly_base := B, ly_cuSeqlens := V \<rparr>" for B V by (simp add: ly1_def)
    ultimately show ?thesis by metis
  qed
qed

text \<open>The end of the last group of a destination.\<close>

lemma layout_groups_end:
  "\<lbrakk>layout_groups c cfg alc dst row gs prev base cu = (okk, e, base', cu'); distinct gs; gs \<noteq> []\<rbrakk> \<Longrightarrow>
    cu' (last gs) = (if okk \<and> dst = c_rank c then e else cu (last gs))"
proof (induction gs arbitrary: prev base cu)
  case (Cons g gs)
  define ph where "ph = group_expert c row g"
  define n where "n = (if ph \<ge> 0 then alc (ReIndex dst ph (c_expertNum c)) else 0)"
  obtain aok k where al: "(if n = 0 then (True, 0) else AlignCount n (tokenPadding cfg)) = (aok, k)" by fastforce
  define b1 where "b1 = (if ph \<ge> 0 then base(ReIndex dst ph (c_expertNum c) := prev) else base)"
  define cu1 where "cu1 = (if dst = c_rank c then cu(g := prev + k) else cu)"
  have st: "(if \<not> aok \<or> k > nvS cfg - prev then (False, prev, b1, cu)
      else layout_groups c cfg alc dst row gs (prev + k) b1 cu1) = (okk, e, base', cu')"
    using Cons.prems(1)
    by (simp only: layout_groups.simps ph_def [symmetric] n_def [symmetric] b1_def [symmetric] Let_def al prod.case cu1_def)
  show ?case
  proof (cases "\<not> aok \<or> k > nvS cfg - prev")
    case True
    then show ?thesis using st by auto
  next
    case False
    then have r: "layout_groups c cfg alc dst row gs (prev + k) b1 cu1 = (okk, e, base', cu')" using st by simp
    show ?thesis
    proof (cases "gs = []")
      case True
      then show ?thesis using r by (auto simp: cu1_def)
    next
      case gs: False
      then have "last gs \<noteq> g" using Cons.prems(2) by auto
      then show ?thesis using Cons.IH [OF r _ gs] Cons.prems(2) gs by (simp add: cu1_def)
    qed
  qed
qed simp

section \<open>The second loop\<close>

lemma layout_bases_ref:
  assumes rc: "ref_ctx_sim rc c" and pad: "0 < tokenPadding cfg" and G: "0 < c_expertNum c + c_b c"
  defines "last_group \<equiv> c_expertNum c + c_b c - 1"
  shows "\<lbrakk>cu_view c (ly_cuSeqlens ly) (a_cuSeqlens a); base_view c (ly_base ly) (expertPhysicalBase s);
      \<forall>dst\<in>set dsts. row_of (remoteExpertSet s) dst (c_b c) = pad_row c (remote_order_of c (alloc s) dst) \<and>
        int (length (remotes c (alloc s) dst)) \<le> c_b c \<and> (\<forall>e\<in>experts_of c. 0 \<le> at c (alloc s) dst e);
      a_cuSeqlens a last_group = le; layout_bases c cfg dsts (s, a, le) = (okk, s', a', le')\<rbrakk> \<Longrightarrow>
    \<exists>V B. ref_layout_bases rc cfg (alloc s) dsts ly = (okk, ly\<lparr> ly_base := B, ly_cuSeqlens := V \<rparr>) \<and>
      cu_view c V (a_cuSeqlens a') \<and> base_view c B (expertPhysicalBase s') \<and> a_cuSeqlens a' last_group = le' \<and>
      a' = a\<lparr> a_cuSeqlens := a_cuSeqlens a' \<rparr>"
proof (induction dsts arbitrary: ly s a le)
  case Nil
  then show ?case by (intro exI [of _ "ly_cuSeqlens ly"] exI [of _ "ly_base ly"]) simp
next
  case (Cons dst dsts)
  note q = Cons.prems and rf = ref_ctx_sim_fields [OF rc]
  let ?row = "remote_order_of c (alloc s) dst" and ?gs = "[0..c_expertNum c + c_b c - 1]"
  have h: "row_of (remoteExpertSet s) dst (c_b c) = pad_row c ?row" "int (length ?row) \<le> c_b c" "\<forall>e\<in>experts_of c. 0 \<le> at c (alloc s) dst e"
    using q(3) by (simp_all add: length_remote_order)
  have sub: "set ?row \<subseteq> experts_of c" "set ?gs \<subseteq> {0..<c_expertNum c + c_b c}" by (auto simp: set_remote_order)
  obtain ok1 pe base cu where lg: "layout_groups c cfg (alloc s) dst (pad_row c ?row) ?gs 0 (expertPhysicalBase s) (a_cuSeqlens a) =
      (ok1, pe, base, cu)" by (metis prod_cases4)
  obtain V B where vb: "ref_layout_groups rc cfg (alloc s) dst ?row (slot_of_expert ?row) ?gs 0 ly =
      (ok1, ly\<lparr> ly_base := B, ly_cuSeqlens := V \<rparr>)" "cu_view c V cu" "base_view c B base"
    using layout_groups_ref [OF rc h(2) sub(1) h(3) pad q(1,2) sub(2) lg] by blast
  have gl: "last ?gs = last_group" "?gs \<noteq> []" using G by (simp_all add: last_group_def upto_rec2)
  have e: "cu last_group = (if ok1 \<and> dst = c_rank c then pe else le)" using layout_groups_end [OF lg _ gl(2)] q(4) gl(1) by simp
  have st: "(if \<not> ok1 then (False, s\<lparr> expertPhysicalBase := base \<rparr>, a\<lparr> a_cuSeqlens := cu \<rparr>, le)
      else layout_bases c cfg dsts (s\<lparr> expertPhysicalBase := base \<rparr>, a\<lparr> a_cuSeqlens := cu \<rparr>, if dst = c_rank c then pe else le)) = (okk, s', a', le')"
    using q(5) by (simp only: layout_bases.simps prod.case h(1) lg Let_def)
  have rb: "ref_layout_bases rc cfg (alloc s) (dst # dsts) ly = (if ok1 then ref_layout_bases rc cfg (alloc s) dsts (ly\<lparr> ly_base := B, ly_cuSeqlens := V \<rparr>)
      else (False, ly\<lparr> ly_base := B, ly_cuSeqlens := V \<rparr>))"
    by (simp add: ref_remote_eq [OF rc] rf vb(1))
  show ?case
  proof (cases ok1)
    case False
    then show ?thesis using rb vb e st by (intro exI [of _ V] exI [of _ B]) auto
  next
    case True
    let ?s = "s\<lparr> expertPhysicalBase := base \<rparr>" and ?a = "a\<lparr> a_cuSeqlens := cu \<rparr>" and ?ly = "ly\<lparr> ly_base := B, ly_cuSeqlens := V \<rparr>"
    have "\<exists>V' B'. ref_layout_bases rc cfg (alloc ?s) dsts ?ly = (okk, ?ly\<lparr> ly_base := B', ly_cuSeqlens := V' \<rparr>) \<and>
      cu_view c V' (a_cuSeqlens a') \<and> base_view c B' (expertPhysicalBase s') \<and> a_cuSeqlens a' last_group = le' \<and>
      a' = ?a\<lparr> a_cuSeqlens := a_cuSeqlens a' \<rparr>"
      by (rule Cons.IH [of ?ly ?a ?s "if dst = c_rank c then pe else le"]) (use vb q(3) e st True in simp_all)
    then show ?thesis using rb True by auto
  qed
qed

section \<open>Both layouts\<close>

lemma layout_start_view:
  assumes "ref_ctx_sim rc c" "c_rank c \<in> ranks_of c"
  shows "layout_view c (ref_layout_init rc) (snd (layout_reset c s a))"
    "cu_view c (ly_cuSeqlens (ref_layout_init rc)) (a_cuSeqlens (snd (layout_reset c s a)))"
    "base_view c (ly_base (ref_layout_init rc)) (expertPhysicalBase (fst (layout_reset c s a)))"
  by (auto simp: layout_view_def cu_view_def base_view_def ref_layout_init_def layout_reset_def Let_def clear_def vec_fill_def)

definition same_sizes :: "ref_layout \<Rightarrow> ref_layout \<Rightarrow> bool" where
  "same_sizes ly ly' = (vsize (ly_cuSeqlens ly') = vsize (ly_cuSeqlens ly) \<and> vsize (ly_expertsToCopy ly') = vsize (ly_expertsToCopy ly) \<and>
    vsize (ly_remoteStats ly') = vsize (ly_remoteStats ly) \<and> vsize (ly_expertTargets ly') = vsize (ly_expertTargets ly))"

lemma same_sizes_trans: "same_sizes ly ly' \<Longrightarrow> same_sizes ly' ly'' \<Longrightarrow> same_sizes ly ly''"
  by (simp add: same_sizes_def)

lemma place_sizes: "same_sizes ly (fold (ref_place_remote rc dst) es ly)"
proof (induction es arbitrary: ly)
  case (Cons e es)
  have "same_sizes ly (ref_place_remote rc dst e ly)"
    by (simp add: same_sizes_def ref_place_remote_def Let_def vec_set_def split: prod.split)
  then show ?case using Cons.IH same_sizes_trans by fastforce
qed (simp add: same_sizes_def)

lemma rows_sizes: "same_sizes ly (snd (ref_layout_rows rc alc dsts ly))"
proof (induction dsts arbitrary: ly)
  case (Cons dst dsts)
  let ?n = "int (length (ref_remote rc alc dst))"
  have "same_sizes ly (ly\<lparr> ly_remoteStats := vec_set (ly_remoteStats ly) (dst * 2) ?n \<rparr>)" by (simp add: same_sizes_def vec_set_def)
  from same_sizes_trans [OF same_sizes_trans [OF this place_sizes] Cons.IH] show ?case by (simp add: Let_def same_sizes_def)
qed (simp add: same_sizes_def)

lemma groups_sizes: "same_sizes ly (snd (ref_layout_groups rc cfg alc dst row slots gs prev ly))"
proof (induction gs arbitrary: prev ly)
  case (Cons g gs)
  have upd: "same_sizes ly (ly\<lparr> ly_base := B, ly_cuSeqlens := vec_set (ly_cuSeqlens ly) i x \<rparr>)" "same_sizes ly (snd (False, ly\<lparr> ly_base := B \<rparr>))" for B i x
    by (simp_all add: same_sizes_def vec_set_def)
  have cond: "same_sizes ly (snd x) \<Longrightarrow> same_sizes ly (snd y) \<Longrightarrow> same_sizes ly (snd (if P then x else y))" for P and x y :: "bool \<times> ref_layout" by simp
  show ?case unfolding ref_layout_groups.simps Let_def split_def
    by (rule cond [OF upd(2) same_sizes_trans [OF upd(1) Cons.IH]])
qed (simp add: same_sizes_def)

lemma bases_sizes: "same_sizes ly (snd (ref_layout_bases rc cfg alc dsts ly))"
proof (induction dsts arbitrary: ly)
  case (Cons dst dsts)
  let ?row = "ref_remote rc alc dst"
  obtain b ly1 where g: "ref_layout_groups rc cfg alc dst ?row (slot_of_expert ?row) [0..rc_expertNum rc + rc_prefetchSlots rc - 1] 0 ly = (b, ly1)"
    by fastforce
  then have "same_sizes ly ly1" using groups_sizes by (metis snd_conv)
  then show ?case using same_sizes_trans [OF _ Cons.IH] g by (auto simp: Let_def)
qed (simp add: same_sizes_def)

lemma ref_BuildLayouts_sizes: "same_sizes (ref_layout_init rc) (snd (ref_BuildLayouts rc cfg alc))"
proof -
  obtain b ly where r: "ref_layout_rows rc alc [0..rc_rankSize rc - 1] (ref_layout_init rc) = (b, ly)" by fastforce
  then have "same_sizes (ref_layout_init rc) ly" using rows_sizes by (metis snd_conv)
  then show ?thesis using same_sizes_trans [OF _ bases_sizes] by (auto simp: ref_BuildLayouts_def r Let_def split_def)
qed

lemma BuildLayouts_ref:
  assumes rc: "ref_ctx_sim rc c" and ok: "plan_ctx_ok c" and r: "c_rank c \<in> ranks_of c" and pad: "0 < tokenPadding cfg"
    and slots: "\<forall>dst\<in>ranks_of c. int (length (remotes c (alloc s) dst)) \<le> c_b c"
    and nn: "\<forall>dst\<in>ranks_of c. \<forall>e\<in>experts_of c. 0 \<le> at c (alloc s) dst e"
    and bl: "BuildLayouts c cfg s a = (st, s', a', mr, le)"
  shows "\<exists>ly. ref_BuildLayouts rc cfg (alloc s) = (st, ly) \<and> layout_view c ly a' \<and> cu_view c (ly_cuSeqlens ly) (a_cuSeqlens a') \<and>
    base_view c (ly_base ly) (expertPhysicalBase s') \<and> a_cuSeqlens a' (c_expertNum c + c_b c - 1) = le \<and>
    mr = fold (\<lambda>d m. max m (cell (ly_remoteStats ly) (d * 2))) [0..c_rankSize c - 1] 0"
proof -
  note rf = ref_ctx_sim_fields [OF rc]
  let ?ds = "[0..c_rankSize c - 1]"
  obtain s0 a0 where res: "layout_reset c s a = (s0, a0)" by fastforce
  have al: "alloc s0 = alloc s" using res by (auto simp: layout_reset_def)
  note v0 = layout_start_view [OF rc r, of s a, unfolded res, simplified]
  have ds: "set ?ds = ranks_of c" "distinct ?ds" by auto
  have sl0: "\<forall>dst\<in>set ?ds. int (length (remotes c (alloc s0) dst)) \<le> c_b c" using slots by (simp only: ds al)
  have em: "\<forall>dst\<in>set ?ds. \<forall>slot\<in>{0..<c_b c}. cell (ly_expertsToCopy (ref_layout_init rc)) (dst * c_b c + slot) = -1"
    by (simp add: ref_layout_init_def Let_def vec_fill_def)
  obtain ly1 s1 a1 where rows: "ref_layout_rows rc (alloc s) ?ds (ref_layout_init rc) = (True, ly1)"
      "layout_rows c ?ds (s0, a0, 0) = (True, s1, a1, fold (\<lambda>d m. MaxI32 m (int (length (remotes c (alloc s) d)))) ?ds 0)"
      "layout_view c ly1 a1" "ly_cuSeqlens ly1 = ly_cuSeqlens (ref_layout_init rc)" "ly_base ly1 = ly_base (ref_layout_init rc)"
      "a_cuSeqlens a1 = a_cuSeqlens a0"
      "\<forall>d. cell (ly_remoteStats ly1) (d * 2) = (if d \<in> set ?ds then int (length (remotes c (alloc s) d)) else cell (ly_remoteStats (ref_layout_init rc)) (d * 2))"
    using layout_rows_ref [OF rc ok v0(1) _ ds(2) sl0 em, of 0] ds(1) unfolding al by blast
  have al1: "alloc s1 = alloc s" and rw: "\<forall>dst\<in>ranks_of c. row_of (remoteExpertSet s1) dst (c_b c) = pad_row c (remote_order_of c (alloc s) dst)"
    and b1: "expertPhysicalBase s1 = expertPhysicalBase s0"
  proof -
    obtain s1' a1' m' where l: "layout_rows c ?ds (s0, a0, 0) = (True, s1', a1', m')"
      "s1' = s0\<lparr> remoteExpertSet := remoteExpertSet s1' \<rparr>"
      "\<forall>dst. row_of (remoteExpertSet s1') dst (c_b c) = (if dst \<in> set ?ds then pad_row c (remote_order_of c (alloc s0) dst) else row_of (remoteExpertSet s0) dst (c_b c))"
      using layout_rows_ok [OF sl0 ds(2), of a0 0] by blast
    have e: "s1' = s1" using l(1) rows(2) by simp
    show "alloc s1 = alloc s" "expertPhysicalBase s1 = expertPhysicalBase s0"
      using arg_cong [OF l(2), of alloc] arg_cong [OF l(2), of expertPhysicalBase] al e by simp_all
    show "\<forall>dst\<in>ranks_of c. row_of (remoteExpertSet s1) dst (c_b c) = pad_row c (remote_order_of c (alloc s) dst)"
      using l(3) unfolding e al ds(1) by simp
  qed
  obtain ok2 where bs: "layout_bases c cfg ?ds (s1, a1, 0) = (ok2, s', a', le)" "st = (if ok2 then PLAN_OK else PLAN_ERROR_LAYOUT_EXCEEDS_NVS)"
    and mr: "mr = fold (\<lambda>d m. MaxI32 m (int (length (remotes c (alloc s) d)))) ?ds 0"
    using bl rows(2) by (auto simp: BuildLayouts_def res split: prod.splits)
  have G: "0 < c_expertNum c + c_b c" using ok by (simp add: plan_ctx_ok_def add_nonneg_pos)
  have cu0: "a_cuSeqlens a1 (c_expertNum c + c_b c - 1) = 0" using res G rows(6) by (auto simp: layout_reset_def clear_def)
  have pre: "\<forall>dst\<in>set ?ds. row_of (remoteExpertSet s1) dst (c_b c) = pad_row c (remote_order_of c (alloc s1) dst) \<and>
      int (length (remotes c (alloc s1) dst)) \<le> c_b c \<and> (\<forall>e\<in>experts_of c. 0 \<le> at c (alloc s1) dst e)"
    using rw slots nn unfolding al1 ds(1) by blast
  have cv: "cu_view c (ly_cuSeqlens ly1) (a_cuSeqlens a1)" "base_view c (ly_base ly1) (expertPhysicalBase s1)"
    using v0(2,3) rows(4,5,6) b1 by simp_all
  obtain V B where vb: "ref_layout_bases rc cfg (alloc s) ?ds ly1 = (ok2, ly1\<lparr> ly_base := B, ly_cuSeqlens := V \<rparr>)"
      "cu_view c V (a_cuSeqlens a')" "base_view c B (expertPhysicalBase s')" "a_cuSeqlens a' (c_expertNum c + c_b c - 1) = le"
      "a' = a1\<lparr> a_cuSeqlens := a_cuSeqlens a' \<rparr>"
    using layout_bases_ref [OF rc pad G cv pre cu0 bs(1)] unfolding al1 by blast
  have view: "layout_view c (ly1\<lparr> ly_base := B, ly_cuSeqlens := V \<rparr>) a'"
  proof -
    obtain cu where "a' = a1\<lparr> a_cuSeqlens := cu \<rparr>" using vb(5) by blast
    then show ?thesis using rows(3) by (simp add: layout_view_def)
  qed
  have mx: "mr = fold (\<lambda>d m. max m (cell (ly_remoteStats ly1) (d * 2))) ?ds 0"
    unfolding mr using rows(7) by (intro fold_cong) (auto simp: MaxI32_def max_def)
  have "ref_BuildLayouts rc cfg (alloc s) = (st, ly1\<lparr> ly_base := B, ly_cuSeqlens := V \<rparr>)"
    using rows(1) vb(1) bs(2) by (simp add: ref_BuildLayouts_def rf)
  then show ?thesis using view vb(2-4) mx by (intro exI [of _ "ly1\<lparr> ly_base := B, ly_cuSeqlens := V \<rparr>"]) simp
qed

end
