(* ===== verification/PlanSimDst.thy ===== *)
theory PlanSimDst
  imports PlanSimLayout
begin

text \<open>
  The destinations of the reference planner are the codes of the routes that each rank computes for itself.
\<close>

unbundle bit_operations_syntax

section \<open>The segment of a route\<close>

text \<open>What both planners agree on when the destinations of one source are computed.\<close>

definition dst_sim :: "ref_ctx \<Rightarrow> ref_input \<Rightarrow> token_segment_move list \<Rightarrow> int arr \<Rightarrow> plan_ctx \<Rightarrow> int arr \<Rightarrow> int arr \<Rightarrow> plan_state \<Rightarrow> bool" where
  "dst_sim rc inp segs base c tpe topk s =
    (ref_ctx_sim rc c \<and> plan_ready c (ri_config inp) tpe topk s \<and> segs = segmentLog s \<and> base_view c base (expertPhysicalBase s) \<and>
     0 < ri_topK inp \<and> c_cap c = ri_s inp * ri_topK inp \<and> topk = (\<lambda>x. cell (ri_topkExperts inp) (c_rank c * c_cap c + x)))"

lemma dst_sim_segment:
  assumes ds: "dst_sim rc inp segs base c tpe topk s" and r: "route \<in> {0..<c_cap c}"
  defines "oo \<equiv> ordinal_of topk route"
  shows "List.find (\<lambda>m. oo \<ge> srcExpertBegin m \<and> oo < srcExpertBegin m + tokenCount m) (segments_of rc segs (c_rank c) (topk route)) =
    Some (route_segment s topk route)"
proof -
  have rdy: "plan_ready c (ri_config inp) tpe topk s" and rc: "ref_ctx_sim rc c" and lg: "segs = segmentLog s"
    using ds unfolding dst_sim_def by blast+
  note p = route_segment_props [OF rdy r]
  let ?e = "topk route" and ?m = "route_segment s topk route"
  have fl: "inv_flow c tpe s" and rk: "c_rank c \<in> ranks_of c" and e: "?e \<in> experts_of c"
    using rdy r unfolding plan_ready_def plan_full_def by blast+
  have rng: "\<forall>m\<in>set (segmentLog s). expertId m \<in> experts_of c" using fl unfolding inv_flow_def by blast
  have set: "set (segments_of rc segs (c_rank c) ?e) = set (segs_from s (c_rank c) ?e)"
  proof -
    have "(ReIndex (srcRank m) (expertId m) (c_expertNum c) = ReIndex (c_rank c) ?e (c_expertNum c)) =
        (srcRank m = c_rank c \<and> expertId m = ?e)" if "m \<in> set (segmentLog s)" for m
      using flat_index_inj [of "expertId m" "c_expertNum c" ?e "srcRank m" "c_rank c"] bspec [OF rng that] e by (simp add: ReIndex_def)
    then show ?thesis by (auto simp: segments_of_def segs_from_def lg ref_ctx_sim_fields [OF rc])
  qed
  have m: "?m \<in> set (segments_of rc segs (c_rank c) ?e)" unfolding set using p(2,3,4) by (simp add: segs_from_def)
  then obtain x where x: "List.find (\<lambda>m. oo \<ge> srcExpertBegin m \<and> oo < srcExpertBegin m + tokenCount m) (segments_of rc segs (c_rank c) ?e) = Some x"
    using find_exists [of "segments_of rc segs (c_rank c) ?e" "\<lambda>m. oo \<ge> srcExpertBegin m \<and> oo < srcExpertBegin m + tokenCount m"] p(5,6)
    unfolding oo_def by blast
  have ch: "chained srcExpertBegin 0 (segs_from s (c_rank c) ?e) (at c (srcExpertCursor s) (c_rank c) ?e)"
    using inv_flow_srcD [OF fl rk e] by blast
  have xs: "x \<in> set (segs_from s (c_rank c) ?e)" "srcExpertBegin x \<le> oo" "oo < srcExpertBegin x + tokenCount x"
    using find_Some_spec [OF x] unfolding set by blast+
  have "x = ?m" using chained_unique [OF ch xs(1) m [unfolded set] xs(2,3)] p(5,6) by (simp add: oo_def)
  then show ?thesis using x by simp
qed

section \<open>The routes of a token\<close>

definition ordinals_at :: "int arr \<Rightarrow> int \<Rightarrow> int arr \<Rightarrow> bool" where
  "ordinals_at topk n ord = (\<forall>e. ord e = int (card {r \<in> {0..<n}. topk r = e}))"

lemma ordinals_at_Suc:
  assumes "ordinals_at topk n ord" "0 \<le> n"
  shows "ord (topk n) = ordinal_of topk n" "ordinals_at topk (n + 1) (ord(topk n := ord (topk n) + 1))"
proof -
  show "ord (topk n) = ordinal_of topk n" using assms(1) by (simp add: ordinals_at_def ordinal_of_def)
  have "{0..<n + 1} = insert n {0..<n}" using assms(2) by auto
  then have cs: "{r \<in> {0..<n + 1}. topk r = e} = (if topk n = e then insert n else id) {r \<in> {0..<n}. topk r = e}" for e by auto
  have "card (insert n {r \<in> {0..<n}. topk r = e}) = Suc (card {r \<in> {0..<n}. topk r = e})" for e
    using finite_filter_range by (subst card_insert_disjoint) auto
  then show "ordinals_at topk (n + 1) (ord(topk n := ord (topk n) + 1))"
    using assms(1) unfolding ordinals_at_def cs by auto
qed

definition codes_written :: "plan_ctx \<Rightarrow> plan_config \<Rightarrow> plan_state \<Rightarrow> int arr \<Rightarrow> int \<Rightarrow> int \<Rightarrow> int \<Rightarrow> int vec \<Rightarrow> int vec \<Rightarrow> bool" where
  "codes_written c cfg s topk K lo hi d d' = (vsize d' = vsize d \<and>
    (\<forall>i. cell d' i = (if c_rank c * c_cap c + lo \<le> i \<and> i < c_rank c * c_cap c + hi
       then route_code c cfg s topk K (i - c_rank c * c_cap c) else cell d i)))"

lemma codes_written_refl: "codes_written c cfg s topk K lo lo d d"
  by (auto simp: codes_written_def)

lemma codes_written_trans:
  "\<lbrakk>codes_written c cfg s topk K lo mi d d'; codes_written c cfg s topk K mi hi d' d''; lo \<le> mi; mi \<le> hi\<rbrakk> \<Longrightarrow>
    codes_written c cfg s topk K lo hi d d''"
  by (auto simp: codes_written_def)

lemma codes_written_one:
  "codes_written c cfg s topk K n (n + 1) d (vec_set d (c_rank c * c_cap c + n) (route_code c cfg s topk K n))"
  by (auto simp: codes_written_def vec_set_def)

lemma ref_token_codes:
  assumes ds: "dst_sim rc inp segs base c tpe topk s" and tok: "0 \<le> token" "token < ri_s inp"
  defines "K \<equiv> ri_topK inp"
  shows "\<lbrakk>0 \<le> k; k \<le> K; ordinals_at topk (token * K + k) ord;
      seen = (\<lambda>x. dstRank (route_segment s topk x)) ` {token * K..<token * K + k}\<rbrakk> \<Longrightarrow>
    \<exists>ord' d'. ref_token rc inp segs base (c_rank c) token [k..K - 1] ord seen d = (PLAN_OK, ord', d') \<and>
      ordinals_at topk (token * K + K) ord' \<and> codes_written c (ri_config inp) s topk K (token * K + k) (token * K + K) d d'"
proof (induction "nat (K - k)" arbitrary: k ord seen d)
  case 0
  then show ?case by (simp add: codes_written_refl)
next
  case (Suc n)
  let ?cfg = "ri_config inp"
  have rdy: "plan_ready c ?cfg tpe topk s" and rc: "ref_ctx_sim rc c" and bv: "base_view c base (expertPhysicalBase s)"
    and K: "0 < K" "c_cap c = ri_s inp * K" and tk: "topk = (\<lambda>x. cell (ri_topkExperts inp) (c_rank c * c_cap c + x))"
    using ds unfolding dst_sim_def K_def by blast+
  note rf = ref_ctx_sim_fields [OF rc]
  define r where "r = token * K + k"
  have k: "k < K" using Suc(2) by simp
  have rr: "r \<in> {0..<c_cap c}"
  proof -
    have "(token + 1) * K \<le> ri_s inp * K" using tok K(1) by (intro mult_right_mono) auto
    then show ?thesis using tok K Suc(3) k by (simp add: r_def algebra_simps)
  qed
  define m where "m = route_segment s topk r"
  note p = route_segment_props [OF rdy rr, folded m_def] and b = route_offset_bounds [OF rdy rr, folded m_def]
  have od: "ord (topk r) = ordinal_of topk r" and od': "ordinals_at topk (token * K + (k + 1)) (ord(topk r := ordinal_of topk r + 1))"
    using ordinals_at_Suc [of topk r ord] Suc(5) rr by (simp_all add: r_def add.assoc)
  have ex: "cell (ri_topkExperts inp) (c_rank c * rc_cap rc + (token * ri_topK inp + k)) = topk r"
    by (simp add: tk r_def rf K_def)
  have fd: "List.find (\<lambda>m. ordinal_of topk r \<ge> srcExpertBegin m \<and> ordinal_of topk r < srcExpertBegin m + tokenCount m)
      (segments_of rc segs (c_rank c) (topk r)) = Some m"
    unfolding m_def by (rule dst_sim_segment [OF ds rr])
  have e: "topk r \<in> experts_of c" using rdy rr unfolding plan_ready_def by blast
  have bs: "base (ReIndex (dstRank m) (topk r) (c_expertNum c)) = at c (expertPhysicalBase s) (dstRank m) (topk r)"
    using bv ReIndex_range [OF p(7) e] by (simp add: base_view_def at_def)
  have off: "base (ReIndex (dstRank m) (topk r) (rc_expertNum rc)) + dstExpertBegin m + (ordinal_of topk r - srcExpertBegin m) =
      route_offset c s topk r" by (simp add: route_offset_def Let_def m_def rf bs [unfolded m_def])
  have raw: "dstRank m * nvS ?cfg + route_offset c s topk r = route_raw c ?cfg s topk r" by (simp add: route_raw_def m_def)
  have mx: "c_rankSize c * nvS ?cfg \<le> INT32_MAX" using rdy unfolding plan_ready_def by blast
  have chk: "(route_offset c s topk r < 0 \<or> route_offset c s topk r \<ge> nvS ?cfg \<or> route_raw c ?cfg s topk r < 0 \<or>
      route_raw c ?cfg s topk r > INT32_MAX) = False"
    using b(3-6) mx by auto
  have first: "(dstRank m \<in> seen) = (\<not> route_first s topk K r)"
  proof -
    have "r mod K = k" "r - r mod K = token * K" using Suc(3) k by (simp_all add: r_def)
    then have "route_first s topk K r = (\<forall>prior\<in>{0..<k}. dstRank (route_segment s topk (token * K + prior)) \<noteq> dstRank m)"
      by (simp only: route_first_def m_def)
    moreover have "{token * K..<token * K + k} = (\<lambda>x. token * K + x) ` {0..<k}" by auto
    ultimately show ?thesis unfolding Suc(6) by (simp only: image_image image_iff) metis
  qed
  let ?d = "vec_set d (c_rank c * c_cap c + r) (route_code c ?cfg s topk K r)"
  have up: "[k..K - 1] = k # [k + 1..K - 1]" using k by (simp add: upto_rec1)
  have one: "ref_token rc inp segs base (c_rank c) token [k..K - 1] ord seen d =
      ref_token rc inp segs base (c_rank c) token [k + 1..K - 1] (ord(topk r := ordinal_of topk r + 1)) (insert (dstRank m) seen) ?d"
    unfolding up ref_token.simps Let_def ex od fd option.case off raw chk if_False first
    by (simp add: route_code_def rf r_def K_def)
  have sn: "insert (dstRank m) seen = (\<lambda>x. dstRank (route_segment s topk x)) ` {token * K..<token * K + (k + 1)}"
  proof -
    have "{token * K..<token * K + (k + 1)} = insert r {token * K..<token * K + k}" using Suc(3) by (auto simp: r_def)
    then show ?thesis by (simp add: Suc(6) m_def)
  qed
  have nk: "n = nat (K - (k + 1))" and k1: "0 \<le> k + 1" and k2: "k + 1 \<le> K" using Suc(2,3) k by arith+
  obtain ord' d' where "ref_token rc inp segs base (c_rank c) token [k + 1..K - 1] (ord(topk r := ordinal_of topk r + 1)) (insert (dstRank m) seen) ?d =
      (PLAN_OK, ord', d')" "ordinals_at topk (token * K + K) ord'"
      "codes_written c ?cfg s topk K (token * K + (k + 1)) (token * K + K) ?d d'"
    using Suc(1) [OF nk k1 k2 od' sn, of ?d] by blast
  then show ?case using codes_written_trans [OF codes_written_one [of c ?cfg s topk K r d], of "token * K + K" d'] k
    unfolding one by (simp add: r_def add.assoc)
qed

lemma ref_tokens_codes:
  assumes ds: "dst_sim rc inp segs base c tpe topk s"
  defines "K \<equiv> ri_topK inp"
  shows "\<lbrakk>0 \<le> token; token \<le> ri_s inp; ordinals_at topk (token * K) ord\<rbrakk> \<Longrightarrow>
    \<exists>d'. ref_tokens rc inp segs base (c_rank c) [token..ri_s inp - 1] ord d = (PLAN_OK, d') \<and>
      codes_written c (ri_config inp) s topk K (token * K) (ri_s inp * K) d d'"
proof (induction "nat (ri_s inp - token)" arbitrary: token ord d)
  case 0
  then show ?case by (simp add: codes_written_refl)
next
  case (Suc n)
  have t: "token < ri_s inp" using Suc(2) by simp
  have K: "0 < K" using ds unfolding dst_sim_def K_def by blast
  obtain ord' d1 where one: "ref_token rc inp segs base (c_rank c) token [0..K - 1] ord {} d = (PLAN_OK, ord', d1)"
      "ordinals_at topk (token * K + K) ord'" "codes_written c (ri_config inp) s topk K (token * K) (token * K + K) d d1"
    using ref_token_codes [OF ds Suc(3) t, of 0 ord "{}" d] Suc(5) K unfolding K_def by auto
  have eq: "token * K + K = (token + 1) * K" by (simp add: algebra_simps)
  have nn: "n = nat (ri_s inp - (token + 1))" using Suc(2) by arith
  obtain d' where rest: "ref_tokens rc inp segs base (c_rank c) [token + 1..ri_s inp - 1] ord' d1 = (PLAN_OK, d')"
      "codes_written c (ri_config inp) s topk K ((token + 1) * K) (ri_s inp * K) d1 d'"
    using Suc(1) [OF nn _ _ one(2) [unfolded eq], of d1] Suc(3) t by auto
  have up: "[token..ri_s inp - 1] = token # [token + 1..ri_s inp - 1]" using t by (simp add: upto_rec1)
  have "(token + 1) * K \<le> ri_s inp * K" using t K by (intro mult_right_mono) auto
  moreover have "token * K \<le> (token + 1) * K" using K by (simp add: algebra_simps)
  ultimately have "codes_written c (ri_config inp) s topk K (token * K) (ri_s inp * K) d d'"
    using codes_written_trans [OF one(3) [unfolded eq] rest(2)] by blast
  then show ?case using one(1) rest(1) unfolding up by (simp add: K_def)
qed

section \<open>All sources\<close>

lemma ref_sources_codes:
  assumes cap: "\<forall>src. c_cap (cs src) = cap" and K: "K = ri_topK inp" "0 \<le> ri_s inp"
  shows "\<lbrakk>\<forall>src\<in>set srcs. c_rank (cs src) = src \<and> dst_sim rc inp segs base (cs src) tpe (topk src) (ss src); distinct srcs\<rbrakk> \<Longrightarrow>
    \<exists>d'. ref_sources rc inp segs base srcs d = (PLAN_OK, d') \<and> vsize d' = vsize d \<and>
      (\<forall>src. \<forall>x\<in>{0..<cap}. cell d' (src * cap + x) =
        (if src \<in> set srcs then route_code (cs src) (ri_config inp) (ss src) (topk src) K x else cell d (src * cap + x)))"
proof (induction srcs arbitrary: d)
  case (Cons src srcs)
  have ds: "dst_sim rc inp segs base (cs src) tpe (topk src) (ss src)" and r: "c_rank (cs src) = src" using Cons.prems(1) by simp_all
  have cap': "ri_s inp * K = cap" using ds cap unfolding dst_sim_def K(1) by metis
  have o0: "ordinals_at (topk src) (0 * ri_topK inp) (\<lambda>_. 0)" by (simp add: ordinals_at_def)
  obtain d1 where one: "ref_tokens rc inp segs base src [0..ri_s inp - 1] (\<lambda>_. 0) d = (PLAN_OK, d1)"
      "codes_written (cs src) (ri_config inp) (ss src) (topk src) K 0 cap d d1"
    using ref_tokens_codes [OF ds order_refl K(2) o0, of d] unfolding r K(1) [symmetric] cap' by auto
  obtain d' where rest: "ref_sources rc inp segs base srcs d1 = (PLAN_OK, d')" "vsize d' = vsize d1"
      "\<forall>src. \<forall>x\<in>{0..<cap}. cell d' (src * cap + x) =
        (if src \<in> set srcs then route_code (cs src) (ri_config inp) (ss src) (topk src) K x else cell d1 (src * cap + x))"
    using Cons.IH [of d1] Cons.prems by auto
  have blk: "(src * cap \<le> a * cap + x \<and> a * cap + x < src * cap + cap) = (a = src)" if "x \<in> {0..<cap}" for a x
  proof
    assume h: "src * cap \<le> a * cap + x \<and> a * cap + x < src * cap + cap"
    define e where "e = a * cap + x - src * cap"
    have e: "0 \<le> e" "e < cap" using h unfolding e_def by linarith+
    have x: "0 \<le> x" "x < cap" using that by simp_all
    have "src * cap + e = a * cap + x" by (simp add: e_def)
    then show "a = src" unfolding flat_index_inj [OF e x] by blast
  qed (use that in simp)
  have d1: "cell d1 (a * cap + x) = (if a = src then route_code (cs src) (ri_config inp) (ss src) (topk src) K x else cell d (a * cap + x))"
    if x: "x \<in> {0..<cap}" for a x
    using one(2) blk [OF x, of a] cap r by (auto simp: codes_written_def)
  have v: "vsize d1 = vsize d" using one(2) by (simp add: codes_written_def)
  have "\<forall>a. \<forall>x\<in>{0..<cap}. cell d' (a * cap + x) =
      (if a \<in> set (src # srcs) then route_code (cs a) (ri_config inp) (ss a) (topk a) K x else cell d (a * cap + x))"
    using rest(3) d1 by auto
  then show ?case using one(1) rest(1,2) v by (intro exI [of _ d']) simp
qed simp

end
