(* ===== verification/PlanSimJob.thy ===== *)
theory PlanSimJob
  imports PlanSimDst
begin

text \<open>
  One rank of a job against the reference plan: status words, written arrays and the facts both share.
\<close>

section \<open>Status words\<close>

lemma set_words:
  "cell (fold (\<lambda>(i, x) v. vec_set v (b + i) x) (zip [k..k + int (length ws) - 1] ws) v) = store_row (cell v) (b + k) ws \<and>
   vsize (fold (\<lambda>(i, x) v. vec_set v (b + i) x) (zip [k..k + int (length ws) - 1] ws) v) = vsize v"
proof (induction ws arbitrary: k v)
  case Nil
  show ?case by (simp add: store_row_def fun_eq_iff)
next
  case (Cons w ws)
  have up: "[k..k + int (length (w # ws)) - 1] = k # [k + 1..k + 1 + int (length ws) - 1]"
    using upto_rec1 [of k "k + int (length (w # ws)) - 1"] by (simp add: algebra_simps)
  have "cell (vec_set v (b + k) w) = (cell v)(b + k := w)" "vsize (vec_set v (b + k) w) = vsize v" by (simp_all add: vec_set_def)
  then show ?case unfolding up store_row_Cons using Cons.IH [of "k + 1" "vec_set v (b + k) w"] by (simp add: add.assoc del: fun_upd_apply)
qed

lemma set_word_rows:
  fixes f :: "int \<Rightarrow> int list"
  assumes "\<forall>r. int (length (f r)) = n"
  shows "distinct rs \<Longrightarrow> 0 \<le> i \<Longrightarrow> i < n \<Longrightarrow>
    cell (fold (\<lambda>r v. fold (\<lambda>(i, x) v. vec_set v (r * n + i) x) (zip [0..n - 1] (f r)) v) rs v) (r * n + i) =
      (if r \<in> set rs then f r ! nat i else cell v (r * n + i))"
proof (induction rs arbitrary: v)
  case (Cons a rs)
  let ?v = "fold (\<lambda>(i, x) v. vec_set v (a * n + i) x) (zip [0..n - 1] (f a)) v"
  have "cell ?v = store_row (cell v) (a * n) (f a)" using set_words [of "a * n" 0 "f a" v] assms by simp
  then have "cell ?v (r * n + i) = (if a = r then f a ! nat i else cell v (r * n + i))"
    using store_row_view [of "f a" n i "cell v" a r] assms Cons.prems by simp
  then show ?case using Cons.IH [of ?v] Cons.prems by auto
qed simp

lemma ref_status_words:
  assumes rc: "ref_ctx_sim rc c" and r: "c_rank c \<in> ranks_of c" and i: "0 \<le> i" "i < kPlanStatusWords"
    and f: "cell (ro_rankLoad out) = rankLoad s" "vsize (ro_remoteStats out) \<noteq> 0" "vsize (ro_cuSeqlens out) \<noteq> 0"
      "mr = fold (\<lambda>d m. max m (cell (ro_remoteStats out) (d * 2))) [0..c_rankSize c - 1] 0"
      "cell (ro_cuSeqlens out) ((c_rank c + 1) * (c_expertNum c + c_b c) - 1) = le"
      "int (length (ro_expertMoves out)) = expertMoves s" "tokenSegments s = filter (\<lambda>m. srcRank m = c_rank c) (ro_segments out)"
  shows "cell (ro_statusByRank (ref_FillStatus rc st (intraRounds s) (interRounds s) out)) (c_rank c * kPlanStatusWords + i) =
    FillStatus c s st mr le t i"
proof -
  note rf = ref_ctx_sim_fields [OF rc]
  let ?def = "sum_list (map (\<lambda>rank. let delta = cell (ro_rankLoad out) rank - rc_cap rc in if delta < 0 then - delta else 0) [0..rc_rankSize rc - 1])"
  define D where "D = ?def"
  define W where "W = (\<lambda>rank. [status_code st, intraRounds s, interRounds s, D, mr,
      cell (ro_cuSeqlens out) ((rank + 1) * (c_expertNum c + c_b c) - 1), int (length (ro_expertMoves out)),
      int (length (filter (\<lambda>m. srcRank m = rank) (ro_segments out)))])"
  have len: "\<forall>r. int (length (W r)) = kPlanStatusWords" by (simp add: W_def kPlanStatusWords_def)
  have d: "D = sum_list (map (\<lambda>r. if rankLoad s r < c_cap c then c_cap c - rankLoad s r else 0) [0..c_rankSize c - 1])"
    unfolding D_def rf f(1) by (rule arg_cong [of _ _ sum_list], rule map_cong) (auto simp: Let_def)
  have "ro_statusByRank (ref_FillStatus rc st (intraRounds s) (interRounds s) out) =
      fold (\<lambda>rank v. fold (\<lambda>(i, x) v. vec_set v (rank * kPlanStatusWords + i) x) (zip [0..kPlanStatusWords - 1] (W rank)) v)
        [0..c_rankSize c - 1] (vec_fill (c_rankSize c * kPlanStatusWords) 0)"
    using f(2,3) by (simp add: ref_FillStatus_def Let_def W_def D_def rf f(4))
  then have w: "cell (ro_statusByRank (ref_FillStatus rc st (intraRounds s) (interRounds s) out)) (c_rank c * kPlanStatusWords + i) =
      W (c_rank c) ! nat i"
    using set_word_rows [OF len, of "[0..c_rankSize c - 1]" i _ "c_rank c"] i r by simp
  have "i = 0 \<or> i = 1 \<or> i = 2 \<or> i = 3 \<or> i = 4 \<or> i = 5 \<or> i = 6 \<or> i = 7" using i unfolding kPlanStatusWords_def by presburger
  then show ?thesis unfolding w W_def d f(6) FillStatus_def Let_def f(7) by (elim disjE) (simp_all add: f(5))
qed

section \<open>The outputs of a rank\<close>

lemma BuildLayouts_targets:
  assumes "BuildLayouts c cfg s a = (st, s', a', mr, le)"
  shows "(a_remoteExperts a' = None) = (a_remoteExperts a = None)"
proof -
  have rows: "layout_rows c ds (s, a, m) = (ok, s', a', m') \<Longrightarrow> (a_remoteExperts a' = None) = (a_remoteExperts a = None)" for ds s a m ok s' a' m'
    by (induction ds arbitrary: s a m) (auto simp: Let_def layout_remote_def split: prod.splits if_splits)
  have bases: "layout_bases c cfg ds (s, a, m) = (ok, s', a', m') \<Longrightarrow> a_remoteExperts a' = a_remoteExperts a" for ds s a m ok s' a' m'
  proof (induction ds arbitrary: s a m)
    case (Cons d ds)
    then show ?case by (fastforce simp: Let_def split: prod.splits if_splits)
  qed simp
  obtain s0 a0 where r: "layout_reset c s a = (s0, a0)" by fastforce
  have r0: "(a_remoteExperts a0 = None) = (a_remoteExperts a = None)" using r by (auto simp: layout_reset_def)
  obtain ok s1 a1 m1 where l: "layout_rows c [0..c_rankSize c - 1] (s0, a0, 0) = (ok, s1, a1, m1)" by (metis prod_cases4)
  show ?thesis
  proof (cases ok)
    case True
    then show ?thesis using assms rows [OF l] r0 bases by (auto simp: BuildLayouts_def r l split: prod.splits)
  next
    case False
    then show ?thesis using assms rows [OF l] r0 by (auto simp: BuildLayouts_def r l)
  qed
qed

lemma run_out_layout:
  assumes val: "Validate inp out ws = PLAN_OK" and c: "c = plan_ctx_of inp ws"
    and f: "fatal (plan_balance c inp ws) = PLAN_OK"
    and bl: "BuildLayouts c (in_config inp) (plan_balance c inp ws) (arrays_of (cleared_out out)) = (ls, s1, a1, mr, le)"
  shows "\<exists>d. run_out (RunPlanAlgorithm inp out ws) = output_of (cleared_out out)
      (a1\<lparr> a_dst := d, a_status := FillStatus c s1 (run_status (RunPlanAlgorithm inp out ws)) mr le (a_status a1) \<rparr>)"
  unfolding RunPlanAlgorithm_def
  by (rule exI) (simp only: Let_def Validate_cleared val c [symmetric] f bl simp_thms if_False case_prod_unfold fst_conv snd_conv plan_run.simps)

section \<open>One rank of a job\<close>

text \<open>A rank that may run: its input passes the validation, its records have room for its routes, and
  a cached affinity order is the right one.\<close>

definition rank_ready :: "ref_input \<Rightarrow> int \<Rightarrow> plan_output \<Rightarrow> plan_workspace \<Rightarrow> bool" where
  "rank_ready ri r out ws = (Validate (rank_input ri r) out ws = PLAN_OK \<and> ri_s ri * ri_topK ri \<le> ws_tokenSegmentCapacity ws \<and>
    affinity_cache_ok (plan_ctx_of (rank_input ri r) ws) ws)"

text \<open>The outputs of a run of rank \<open>r\<close> are its rows of the reference plan.\<close>

definition rank_agrees :: "ref_input \<Rightarrow> ref_output \<Rightarrow> int \<Rightarrow> plan_run \<Rightarrow> bool" where
  "rank_agrees ri ro r run =
    (let cap = ri_s ri * ri_topK ri; b = prefetchSlots (ri_config ri); groups = ri_expertNum ri + b; out = run_out run;
         words = ri_expertNum ri div ri_rankSize ri * ((ri_rankSize ri + 63) div 64)
     in run_status run = ro_finalStatus ro \<and>
        (\<forall>i\<in>{0..<kPlanStatusWords}. deref (out_status out) i = cell (ro_statusByRank ro) (r * kPlanStatusWords + i)) \<and>
        (\<forall>g\<in>{0..<groups}. deref (out_cuSeqlens out) g = cell (ro_cuSeqlens ro) (r * groups + g)) \<and>
        (\<forall>slot\<in>{0..<b}. deref (out_expertsToCopy out) slot = cell (ro_expertsToCopy ro) (r * b + slot)) \<and>
        (\<forall>i\<in>{0, 1}. deref (out_remoteStats out) i = cell (ro_remoteStats ro) (r * 2 + i)) \<and>
        (\<forall>t. out_expertTargets out = Some t \<longrightarrow> (\<forall>i\<in>{0..<words}. t i = cell (ro_expertTargets ro) (r * words + i))) \<and>
        (vsize (ro_dst ro) \<noteq> 0 \<longrightarrow> (\<forall>x\<in>{0..<cap}. deref (out_dst out) x = cell (ro_dst ro) (r * cap + x))))"

lemma ValidateInput_shapes:
  assumes "ValidateInput ri = PLAN_OK"
  shows "vsize (ri_tokensPerExpert ri) = ri_rankSize ri * ri_expertNum ri"
  using assms by (auto simp: ValidateInput_def ref_shapes_invalid_def CheckedProduct_def Let_def split: option.splits if_splits)

text \<open>The tables of a finished plan: every token in a segment, the segments filling the allocations, loads
  that are the sums of the allocations, and remote experts within the prefetch slots.\<close>

definition plan_tables :: "plan_ctx \<Rightarrow> int arr \<Rightarrow> plan_state \<Rightarrow> bool" where
  "plan_tables c tpe s = (plan_ctx_ok c \<and> plan_full c tpe s \<and> (\<forall>r\<in>ranks_of c. \<forall>e\<in>experts_of c. 0 \<le> at c (alloc s) r e) \<and>
    (\<forall>r\<in>ranks_of c. rankLoad s r = (\<Sum>e\<in>experts_of c. at c (alloc s) r e)) \<and>
    (\<forall>r\<in>ranks_of c. int (length (remotes c (alloc s) r)) \<le> c_b c))"

text \<open>What the run of one rank has in common with the reference plan.\<close>

lemma job_rank:
  assumes v: "ValidateInput ri = PLAN_OK" and rr: "rank_ready ri r out ws"
    and ids: "\<forall>i\<in>{0..<ri_rankSize ri}. cell (ri_globalRankIds ri) i \<le> INT32_MAX"
  defines "inp \<equiv> rank_input ri r" and "c \<equiv> plan_ctx_of (rank_input ri r) ws" and "rc \<equiv> ref_ctx_of ri"
  obtains st ly ls s1 a1 mr le where
    "ref_balance rc ri = Some (st, intraRounds s1, interRounds s1)" "ref_BuildLayouts rc (ri_config ri) (rs_alloc st) = (ls, ly)"
    "rs_rankLoad st = rankLoad s1" "rs_segments st = segmentLog s1" "int (length (rs_expertMoves st)) = expertMoves s1"
    "ref_balance_status rc st = balance_status c s1"
    "BuildLayouts c (ri_config ri) (plan_balance c inp ws) (arrays_of (cleared_out out)) = (ls, s1, a1, mr, le)"
    "fatal (plan_balance c inp ws) = PLAN_OK"
    "layout_view c ly a1" "cu_view c (ly_cuSeqlens ly) (a_cuSeqlens a1)" "base_view c (ly_base ly) (expertPhysicalBase s1)"
    "a_cuSeqlens a1 (c_expertNum c + c_b c - 1) = le"
    "mr = fold (\<lambda>d m. max m (cell (ly_remoteStats ly) (d * 2))) [0..c_rankSize c - 1] 0"
    "tokenSegments s1 = filter (\<lambda>m. srcRank m = r) (segmentLog s1)" "plan_ctx_ok c" "c_rank c \<in> ranks_of c"
    "run_status (RunPlanAlgorithm inp out ws) = (if fst (balance_status c s1) then ls else snd (balance_status c s1))"
    "ls = PLAN_OK \<Longrightarrow> dst_sim rc ri (segmentLog s1) (ly_base ly) c (cell (ri_tokensPerExpert ri)) (deref (in_topkExperts inp)) s1"
    "ls = PLAN_OK \<Longrightarrow> \<exists>d. out_dst (run_out (RunPlanAlgorithm inp out ws)) = Some d \<and> (\<forall>x\<in>{0..<c_cap c}. d x =
      route_code c (ri_config ri) s1 (deref (in_topkExperts inp)) (ri_topK ri) x)"
    "rs_alloc st = alloc s1" "plan_tables c (cell (ri_tokensPerExpert ri)) s1"
proof -
  let ?T = "cell (ri_tokensPerExpert ri)"
  have val: "Validate inp out ws = PLAN_OK" and cap: "ri_s ri * ri_topK ri \<le> ws_tokenSegmentCapacity ws" and cache: "affinity_cache_ok c ws"
    using rr by (simp_all add: rank_ready_def inp_def c_def)
  have tp: "deref (in_tokensPerExpert inp) = ?T" "in_tokensPerExpert inp = Some ?T" by (simp_all add: inp_def deref_def)
  have ceq: "plan_ctx_of inp ws = c" "in_config inp = ri_config ri" "in_topK inp = ri_topK ri" "in_s inp = ri_s ri" by (simp_all add: c_def inp_def)
  have ids_eq: "c_globalRankIds c = deref (in_globalRankIds inp)" by (simp add: c_def inp_def plan_ctx_of_def)
  note iok = Validate_input_ok [OF val, unfolded plan_input_ok_def Let_def ceq tp(1)]
  have i: "plan_ctx_ok c" "c_rank c \<in> ranks_of c" "0 < ri_s ri" "0 < ri_topK ri" "c_cap c = ri_s ri * ri_topK ri" "0 < tokenPadding (ri_config ri)"
    "\<forall>x\<in>ranks_of c. 0 \<le> c_globalRankIds c x" "\<forall>src\<in>ranks_of c. \<forall>e\<in>experts_of c. 0 \<le> at c ?T src e"
    "\<forall>src\<in>ranks_of c. (\<Sum>e\<in>experts_of c. at c ?T src e) = c_cap c"
    unfolding ids_eq by (insert iok, (elim conjE, assumption)+)
  have rc: "ref_ctx_sim rc c" by (simp add: rc_def c_def)
  have rm: "room c ?T" using i(2,5,9) cap by (simp add: room_def c_def plan_ctx_of_def)
  have idr: "\<forall>x\<in>ranks_of c. 0 \<le> c_globalRankIds c x \<and> c_globalRankIds c x \<le> INT32_MAX"
    using i(7) ids by (simp add: c_def plan_ctx_of_def deref_def)
  have vs: "vsize (ri_tokensPerExpert ri) = c_rankSize c * c_expertNum c"
    using ValidateInput_shapes [OF v] by (simp add: c_def plan_ctx_of_def)
  have cpos: "0 < c_cap c" using i(3,4,5) by simp
  let ?s = "plan_balance c inp ws"
  obtain st where st: "ref_balance rc ri = Some (st, intraRounds ?s, interRounds ?s)" "ref_sim c st ?s" and f: "fatal ?s = PLAN_OK"
    using ref_balance_sim [OF rc [unfolded rc_def] i(1) cache i(8) tp(2) vs rm cpos idr] unfolding rc_def by blast
  note sf = ref_sim_fields [OF st(2)]
  note bd = plan_balance_done [OF i(1) i(8) tp(1) [symmetric] cache f]
  show thesis
  proof (rule run_layout [OF val cache [unfolded c_def, folded inp_def] f [unfolded c_def, folded inp_def]])
    fix ls s1 a1 mr le
    assume bl0: "BuildLayouts (plan_ctx_of inp ws) (in_config inp) (plan_balance (plan_ctx_of inp ws) inp ws) (arrays_of (cleared_out out)) = (ls, s1, a1, mr, le)"
      and rdy0: "ls = PLAN_OK \<Longrightarrow> plan_ready (plan_ctx_of inp ws) (in_config inp) (deref (in_tokensPerExpert inp)) (deref (in_topkExperts inp)) s1"
      and fs: "rankLoad s1 = rankLoad (plan_balance (plan_ctx_of inp ws) inp ws)" "segmentLog s1 = segmentLog (plan_balance (plan_ctx_of inp ws) inp ws)"
        "alloc s1 = alloc (plan_balance (plan_ctx_of inp ws) inp ws)" "plan_full (plan_ctx_of inp ws) (deref (in_tokensPerExpert inp)) s1"
      and s1: "s1 = (plan_balance (plan_ctx_of inp ws) inp ws)\<lparr> remoteExpertSet := remoteExpertSet s1, expertPhysicalBase := expertPhysicalBase s1 \<rparr>"
      and rs: "run_status (RunPlanAlgorithm inp out ws) = (if fst (balance_status (plan_ctx_of inp ws) (plan_balance (plan_ctx_of inp ws) inp ws)) then ls
        else snd (balance_status (plan_ctx_of inp ws) (plan_balance (plan_ctx_of inp ws) inp ws)))"
      and dd: "ls = PLAN_OK \<Longrightarrow> \<exists>d. out_dst (run_out (RunPlanAlgorithm inp out ws)) = Some d \<and> (\<forall>r\<in>{0..<c_cap (plan_ctx_of inp ws)}. d r =
        route_code (plan_ctx_of inp ws) (in_config inp) s1 (deref (in_topkExperts inp)) (in_topK inp) r)"
    note bl = bl0 [unfolded ceq] and rdy = rdy0 [unfolded ceq tp(1)] and fs = fs [unfolded ceq tp(1)] and s1 = s1 [unfolded ceq]
      and rs = rs [unfolded ceq] and dd = dd [unfolded ceq]
    have sl: "\<forall>dst\<in>ranks_of c. int (length (remotes c (alloc ?s) dst)) \<le> c_b c"
      using inv_slots_remotes [of c ?s] bd(1) unfolding plan_done_def by simp
    obtain ly where ly: "ref_BuildLayouts rc (ri_config ri) (alloc ?s) = (ls, ly)" "layout_view c ly a1" "cu_view c (ly_cuSeqlens ly) (a_cuSeqlens a1)"
        "base_view c (ly_base ly) (expertPhysicalBase s1)" "a_cuSeqlens a1 (c_expertNum c + c_b c - 1) = le"
        "mr = fold (\<lambda>d m. max m (cell (ly_remoteStats ly) (d * 2))) [0..c_rankSize c - 1] 0"
      using BuildLayouts_ref [OF rc i(1,2,6) sl bd(2) bl] by blast
    define R B where "R = remoteExpertSet s1" and "B = expertPhysicalBase s1"
    have e: "s1 = ?s\<lparr> remoteExpertSet := R, expertPhysicalBase := B \<rparr>" unfolding R_def B_def by (rule s1)
    have ef: "intraRounds s1 = intraRounds ?s" "interRounds s1 = interRounds ?s" "expertMoves s1 = expertMoves ?s"
      "balance_status c s1 = balance_status c ?s" by (simp_all add: e balance_status_def)
    have own: "tokenSegments s1 = filter (\<lambda>m. srcRank m = r) (segmentLog s1)"
      using fs(4) by (simp add: plan_full_def inv_flow_def c_def plan_ctx_of_def)
    have bst: "ref_balance_status rc st = balance_status c s1"
      unfolding ef(4) ref_balance_status_def balance_status_def sf ref_ctx_sim_fields [OF rc] by (simp add: e)
    have bal: "ref_balance rc ri = Some (st, intraRounds s1, interRounds s1)" unfolding ef by (rule st(1))
    have lay: "ref_BuildLayouts rc (ri_config ri) (rs_alloc st) = (ls, ly)" unfolding sf by (rule ly(1))
    have com: "rs_rankLoad st = rankLoad s1" "rs_segments st = segmentLog s1" "int (length (rs_expertMoves st)) = expertMoves s1"
      unfolding sf fs ef using st(2) by (simp_all add: ref_sim_def)
    have ds: "dst_sim rc ri (segmentLog s1) (ly_base ly) c ?T (deref (in_topkExperts inp)) s1" if "ls = PLAN_OK"
    proof -
      have "deref (in_topkExperts inp) = (\<lambda>x. cell (ri_topkExperts ri) (c_rank c * c_cap c + x))"
        by (simp add: inp_def deref_def i(5)) (simp add: c_def plan_ctx_of_def)
      then show ?thesis unfolding dst_sim_def using rc rdy [OF that] ly(4) i(4,5) by blast
    qed
    have al: "rs_alloc st = alloc s1" unfolding sf fs ..
    have tab: "plan_tables c ?T s1"
      unfolding plan_tables_def fs(1,3) using i(1) fs(4) bd sl unfolding plan_done_def by blast
    show thesis by (rule that [OF bal lay com bst bl f ly(2-6) own i(1,2) rs [folded ef(4)] ds dd al tab])
  qed
qed
section \<open>The plan of a job\<close>

lemma rank_block: "r * p * w + i = r * (p * w) + (i :: int)" by (simp add: mult.assoc)

lemma output_of_fields [simp]:
  "deref (out_dst (output_of out a)) = a_dst a" "deref (out_cuSeqlens (output_of out a)) = a_cuSeqlens a"
  "deref (out_expertsToCopy (output_of out a)) = a_expertsToCopy a" "deref (out_remoteStats (output_of out a)) = a_remoteStats a"
  "deref (out_status (output_of out a)) = a_status a"
  "out_expertTargets (output_of out a) = (if out_expertTargets out = None then None else Some (a_expertTargets a))"
  by (simp_all add: output_of_def deref_def)

lemma ValidateInput_pos:
  assumes "ValidateInput ri = PLAN_OK"
  shows "0 < ri_rankSize ri" "0 < ri_expertNum ri" "0 < prefetchSlots (ri_config ri)" "0 < ri_s ri" "0 < ri_topK ri"
    "rankTokenCapacity (ri_config ri) = ri_s ri * ri_topK ri"
  using assms by (auto simp: ValidateInput_def ref_config_invalid_def CheckedProduct_def Let_def split: option.splits if_splits)

lemma Validate_targets: "Validate inp out ws = PLAN_OK \<Longrightarrow> (out_remoteExperts out = None) = (out_expertTargets out = None)"
  by (auto simp: Validate_def args_invalid_def Let_def split: if_splits)

text \<open>Everything the reference planner computes before the destinations, and the part of one rank.\<close>

definition rank_part :: "ref_input \<Rightarrow> ref_state \<Rightarrow> plan_status \<Rightarrow> ref_layout \<Rightarrow> int \<Rightarrow> plan_output \<Rightarrow> plan_workspace \<Rightarrow> plan_state \<Rightarrow> bool" where
  "rank_part ri st ls ly r out ws s1 =
    (let inp = rank_input ri r; c = plan_ctx_of inp ws; run = RunPlanAlgorithm inp out ws
     in rs_rankLoad st = rankLoad s1 \<and> rs_segments st = segmentLog s1 \<and> int (length (rs_expertMoves st)) = expertMoves s1 \<and>
        ref_balance (ref_ctx_of ri) ri = Some (st, intraRounds s1, interRounds s1) \<and>
        ref_balance_status (ref_ctx_of ri) st = balance_status c s1 \<and>
        run_status run = (if fst (balance_status c s1) then ls else snd (balance_status c s1)) \<and>
        (ls = PLAN_OK \<longrightarrow> dst_sim (ref_ctx_of ri) ri (segmentLog s1) (ly_base ly) c (cell (ri_tokensPerExpert ri)) (deref (in_topkExperts inp)) s1 \<and>
          (\<forall>x\<in>{0..<c_cap c}. deref (out_dst (run_out run)) x = route_code c (ri_config ri) s1 (deref (in_topkExperts inp)) (ri_topK ri) x)) \<and>
        (\<exists>a1 mr le d. run_out run = output_of (cleared_out out) (a1\<lparr> a_dst := d, a_status := FillStatus c s1 (run_status run) mr le (a_status a1) \<rparr>) \<and>
          layout_view c ly a1 \<and> cu_view c (ly_cuSeqlens ly) (a_cuSeqlens a1) \<and> a_cuSeqlens a1 (c_expertNum c + c_b c - 1) = le \<and>
          mr = fold (\<lambda>d m. max m (cell (ly_remoteStats ly) (d * 2))) [0..c_rankSize c - 1] 0 \<and>
          (out_expertTargets out \<noteq> None \<longrightarrow> a_remoteExperts a1 \<noteq> None)) \<and>
        tokenSegments s1 = filter (\<lambda>m. srcRank m = r) (segmentLog s1) \<and> r \<in> ranks_of c \<and> rs_alloc st = alloc s1 \<and>
        plan_tables c (cell (ri_tokensPerExpert ri)) s1 \<and> (ls = PLAN_OK \<longrightarrow> plan_written inp out ws))"

lemma job_rank_part:
  assumes v: "ValidateInput ri = PLAN_OK" and rr: "rank_ready ri r out ws"
    and ids: "\<forall>i\<in>{0..<ri_rankSize ri}. cell (ri_globalRankIds ri) i \<le> INT32_MAX"
  obtains st ls ly s1 where "rank_part ri st ls ly r out ws s1" "ref_BuildLayouts (ref_ctx_of ri) (ri_config ri) (rs_alloc st) = (ls, ly)"
proof (rule job_rank [OF v rr ids])
  let ?inp = "rank_input ri r"
  let ?c = "plan_ctx_of ?inp ws" and ?run = "RunPlanAlgorithm ?inp out ws"
  fix st ly ls s1 a1 mr le
  assume h: "ref_balance (ref_ctx_of ri) ri = Some (st, intraRounds s1, interRounds s1)" "ref_BuildLayouts (ref_ctx_of ri) (ri_config ri) (rs_alloc st) = (ls, ly)"
      "rs_rankLoad st = rankLoad s1" "rs_segments st = segmentLog s1" "int (length (rs_expertMoves st)) = expertMoves s1"
      "ref_balance_status (ref_ctx_of ri) st = balance_status ?c s1"
    and bl: "BuildLayouts ?c (ri_config ri) (plan_balance ?c ?inp ws) (arrays_of (cleared_out out)) = (ls, s1, a1, mr, le)"
    and f: "fatal (plan_balance ?c ?inp ws) = PLAN_OK"
    and w: "layout_view ?c ly a1" "cu_view ?c (ly_cuSeqlens ly) (a_cuSeqlens a1)" "a_cuSeqlens a1 (c_expertNum ?c + c_b ?c - 1) = le"
      "mr = fold (\<lambda>d m. max m (cell (ly_remoteStats ly) (d * 2))) [0..c_rankSize ?c - 1] 0"
    and own: "tokenSegments s1 = filter (\<lambda>m. srcRank m = r) (segmentLog s1)" and rk: "c_rank ?c \<in> ranks_of ?c"
    and rs: "run_status ?run = (if fst (balance_status ?c s1) then ls else snd (balance_status ?c s1))"
    and ds: "ls = PLAN_OK \<Longrightarrow> dst_sim (ref_ctx_of ri) ri (segmentLog s1) (ly_base ly) ?c (cell (ri_tokensPerExpert ri)) (deref (in_topkExperts ?inp)) s1"
    and dd: "ls = PLAN_OK \<Longrightarrow> \<exists>d. out_dst (run_out ?run) = Some d \<and> (\<forall>x\<in>{0..<c_cap ?c}. d x =
      route_code ?c (ri_config ri) s1 (deref (in_topkExperts ?inp)) (ri_topK ri) x)"
    and al: "rs_alloc st = alloc s1" and tab: "plan_tables ?c (cell (ri_tokensPerExpert ri)) s1"
  have val: "Validate ?inp out ws = PLAN_OK" using rr by (simp add: rank_ready_def)
  have bl': "BuildLayouts ?c (in_config ?inp) (plan_balance ?c ?inp ws) (arrays_of (cleared_out out)) = (ls, s1, a1, mr, le)"
    unfolding rank_input_fields by (rule bl)
  obtain d where ro: "run_out ?run = output_of (cleared_out out) (a1\<lparr> a_dst := d, a_status := FillStatus ?c s1 (run_status ?run) mr le (a_status a1) \<rparr>)"
    using run_out_layout [OF val refl f bl'] by blast
  have tg: "out_expertTargets out \<noteq> None \<longrightarrow> a_remoteExperts a1 \<noteq> None"
    using BuildLayouts_targets [OF bl] Validate_targets [OF val] by (simp add: arrays_of_def)
  have dst: "\<forall>x\<in>{0..<c_cap ?c}. deref (out_dst (run_out ?run)) x = route_code ?c (ri_config ri) s1 (deref (in_topkExperts ?inp)) (ri_topK ri) x"
    if "ls = PLAN_OK" using dd [OF that] by (auto simp: deref_def)
  have rk': "r \<in> ranks_of ?c" using rk by (simp add: plan_ctx_of_def)
  have pw: "plan_written ?inp out ws" if "ls = PLAN_OK"
    using val f bl' that by (simp only: plan_written_def Let_def fst_conv)
  have "rank_part ri st ls ly r out ws s1"
    unfolding rank_part_def Let_def by (intro conjI impI h(1,3-6) rs ds dst own rk' al tab pw) (use ro w tg in blast)+
  then show thesis using h(2) by (rule that)
qed

end
