(* ===== verification/PlanTheorems.thy ===== *)
theory PlanTheorems
  imports PlanCapacity
begin

text \<open>
  What a run of the planner guarantees: its outcomes, the balance of a successful plan, destinations
  that never collide across the ranks of a job, and the number of rounds.
\<close>

unbundle bit_operations_syntax

section \<open>A job of two ranks\<close>

text \<open>Both ranks route their only token to expert 0, so one of the two tokens moves to rank 1.\<close>

definition job_config :: plan_config where
  "job_config = \<lparr> prefetchSlots = 1, rankTokenCapacity = 1, nvS = 2, tokenPadding = 1,
     tokenRouteLimitPerPair = 0, cardsPerServer = kPlanCardsPerServer, cardsPerCabinet = kPlanCardsPerCabinet,
     crossCandidateCount = kPlanCrossCandidateCount \<rparr>"

definition job_input :: "int \<Rightarrow> plan_input" where
  "job_input r = \<lparr> in_rank = r, in_rankSize = 2, in_s = 1, in_topK = 1, in_expertNum = 2, in_config = job_config,
     in_topkExperts = Some (\<lambda>_. 0), in_tokensPerExpert = Some (\<lambda>i. if i mod 2 = 0 then 1 else 0),
     in_globalRankIds = Some (\<lambda>i. i) \<rparr>"

definition job_output :: plan_output where
  "job_output = \<lparr> out_dst = Some (\<lambda>_. 0), out_cuSeqlens = Some (\<lambda>_. 0), out_expertsToCopy = Some (\<lambda>_. 0),
     out_remoteExperts = None, out_expertTargets = None, out_remoteStats = Some (\<lambda>_. 0), out_status = Some (\<lambda>_. 0) \<rparr>"

definition job_workspace :: plan_workspace where
  "job_workspace = \<lparr> ws_expertCount = Some (\<lambda>_. 0), ws_rankLoad = Some (\<lambda>_. 0), ws_remainingTpe = Some (\<lambda>_. 0),
     ws_alloc = Some (\<lambda>_. 0), ws_remoteExpertSet = Some (\<lambda>_. 0), ws_srcExpertCursor = Some (\<lambda>_. 0),
     ws_dstExpertCursor = Some (\<lambda>_. 0), ws_expertPhysicalBase = Some (\<lambda>_. 0), ws_localExpertOrdinal = Some (\<lambda>_. 0),
     ws_tokenSegments = Some (\<lambda>_. \<lparr> expertId = 0, srcRank = 0, dstRank = 0, srcExpertBegin = 0, dstExpertBegin = 0, tokenCount = 0 \<rparr>),
     ws_tokenSegmentCapacity = 8, ws_routedPairTokens = None, ws_scratch = Some (\<lambda>_. 0), ws_scratchCount = 64,
     ws_affinityOrder = Some (\<lambda>_. 0), ws_affinityOrderValid = False \<rparr>"

lemma job_cache [simp]: "affinity_cache_ok c job_workspace"
  by (simp add: affinity_cache_ok_def job_workspace_def)

lemma job_ok0: "run_status (RunPlanAlgorithm (job_input 0) job_output job_workspace) = PLAN_OK"
  by code_simp

lemma job_ok1: "run_status (RunPlanAlgorithm (job_input 1) job_output job_workspace) = PLAN_OK"
  by code_simp

lemmas job_ok = job_ok0 job_ok1

lemmas job_written = plan_ok_written(1) [OF job_ok(1) job_cache] plan_ok_written(1) [OF job_ok(2) job_cache]

section \<open>The outcome of a run\<close>

lemma rejected_output:
  assumes "Validate inp out ws \<noteq> PLAN_OK"
  shows "run_out (RunPlanAlgorithm inp out ws) = out\<lparr> out_status := map_option (\<lambda>f i. if i = 0 then status_code (Validate inp out ws)
    else if 0 < i \<and> i < kPlanStatusWords then 0 else f i) (out_status out) \<rparr>"
proof -
  have "(clear kPlanStatusWords 0 f)(0 := v) = (\<lambda>i. if i = 0 then v else if 0 < i \<and> i < kPlanStatusWords then 0 else f i)" for f :: "int arr" and v
    by (auto simp: clear_def)
  then show ?thesis using assms by (simp add: RunPlanAlgorithm_def Let_def Validate_cleared option.map_comp comp_def)
qed

lemma status_word:
  "Validate inp out ws = PLAN_OK \<Longrightarrow>
    deref (out_status (run_out (RunPlanAlgorithm inp out ws))) 0 = status_code (run_status (RunPlanAlgorithm inp out ws))"
  by (auto simp: RunPlanAlgorithm_def Let_def Validate_cleared output_of_def FillStatus_def deref_def split: prod.split)

text \<open>C9: A run is rejected by the validation, which then decides its status; the run writes nothing but
  the status words, the status code to the first and 0 to the others.  Or it returns: success, one of
  the partial statuses, an overflow of its segment records, or a layout that does not fit, and the first
  status word holds that status.  The internal-invariant error never occurs.\<close>

theorem plan_outcomes:
  assumes "affinity_cache_ok (plan_ctx_of inp ws) ws"
  shows "(Validate inp out ws \<noteq> PLAN_OK \<and> run_state (RunPlanAlgorithm inp out ws) = None \<and>
      run_status (RunPlanAlgorithm inp out ws) = Validate inp out ws \<and>
      run_out (RunPlanAlgorithm inp out ws) = out\<lparr> out_status := map_option (\<lambda>f i. if i = 0 then status_code (Validate inp out ws)
        else if 0 < i \<and> i < kPlanStatusWords then 0 else f i) (out_status out) \<rparr>) \<or>
    (Validate inp out ws = PLAN_OK \<and> run_state (RunPlanAlgorithm inp out ws) \<noteq> None \<and>
      run_status (RunPlanAlgorithm inp out ws) \<in> {PLAN_OK, PLAN_PARTIAL_NO_FEASIBLE_PAIR, PLAN_PARTIAL_PREFETCH_SLOT_EXHAUSTED,
        PLAN_PARTIAL_TOKEN_SUPPLY, PLAN_ERROR_LAYOUT_EXCEEDS_NVS, PLAN_ERROR_MOVE_RECORD_OVERFLOW} \<and>
      deref (out_status (run_out (RunPlanAlgorithm inp out ws))) 0 = status_code (run_status (RunPlanAlgorithm inp out ws)))"
proof (cases "Validate inp out ws = PLAN_OK")
  case False
  then show ?thesis by (simp add: rejected_output) (simp add: RunPlanAlgorithm_def Let_def Validate_cleared)
next
  case v: True
  let ?c = "plan_ctx_of inp ws"
  let ?s = "plan_balance ?c inp ws" and ?R = "RunPlanAlgorithm inp out ws"
  have i: "plan_ctx_ok ?c" "\<forall>src\<in>ranks_of ?c. \<forall>e\<in>experts_of ?c. 0 \<le> at ?c (deref (in_tokensPerExpert inp)) src e"
    using Validate_input_ok [OF v] unfolding plan_input_ok_def Let_def by blast+
  have "run_state ?R \<noteq> None \<and>
      run_status ?R \<in> {PLAN_OK, PLAN_PARTIAL_NO_FEASIBLE_PAIR, PLAN_PARTIAL_PREFETCH_SLOT_EXHAUSTED,
        PLAN_PARTIAL_TOKEN_SUPPLY, PLAN_ERROR_LAYOUT_EXCEEDS_NVS, PLAN_ERROR_MOVE_RECORD_OVERFLOW}"
  proof (cases "fatal ?s = PLAN_OK")
    case True
    show ?thesis
    proof (rule run_layout [OF v assms True])
      fix ls s1
      assume ls: "ls = PLAN_OK \<or> ls = PLAN_ERROR_LAYOUT_EXCEEDS_NVS" and "run_state ?R = Some s1"
        and st: "run_status ?R = (if fst (balance_status ?c ?s) then ls else snd (balance_status ?c ?s))"
      have "snd (balance_status ?c ?s) \<in> {PLAN_OK, PLAN_PARTIAL_NO_FEASIBLE_PAIR, PLAN_PARTIAL_PREFETCH_SLOT_EXHAUSTED,
          PLAN_PARTIAL_TOKEN_SUPPLY}" by (simp add: balance_status_def Let_def)
      then show ?thesis using \<open>run_state ?R = Some s1\<close> ls unfolding st by auto
    qed
  next
    case False
    have "fatal ?s = PLAN_ERROR_MOVE_RECORD_OVERFLOW"
      using plan_balance_fatal_ok [OF i assms] False by (simp add: fatal_ok_def)
    then show ?thesis using v by (simp add: RunPlanAlgorithm_def Let_def Validate_cleared)
  qed
  then show ?thesis using v status_word [OF v] by blast
qed

theorem plan_outcomes_witness:
  "affinity_cache_ok (plan_ctx_of (job_input 2) job_workspace) job_workspace \<and>
    Validate (job_input 2) job_output job_workspace = PLAN_ERROR_CONFIG_MISMATCH \<and>
    run_status (RunPlanAlgorithm (job_input 2) job_output job_workspace) = PLAN_ERROR_CONFIG_MISMATCH"
proof -
  have "Validate (job_input 2) job_output job_workspace = PLAN_ERROR_CONFIG_MISMATCH"
    by (simp add: Validate_def args_invalid_def job_input_def)
  then show ?thesis using plan_outcomes [of "job_input 2" job_workspace job_output] by simp
qed

text \<open>C8: When the status is success, every rank is loaded with exactly its capacity, its load is the
  sum of what it was allocated, no allocation is negative, and for every expert the allocations of all
  ranks add up to the tokens that all ranks route to it.\<close>

theorem plan_ok_balanced:
  assumes "run_status (RunPlanAlgorithm inp out ws) = PLAN_OK" "affinity_cache_ok (plan_ctx_of inp ws) ws"
  shows "\<exists>s. run_state (RunPlanAlgorithm inp out ws) = Some s \<and>
    (\<forall>r\<in>{0..<in_rankSize inp}. rankLoad s r = rankTokenCapacity (in_config inp) \<and>
       (\<Sum>e\<in>{0..<in_expertNum inp}. alloc s (ReIndex r e (in_expertNum inp))) = rankTokenCapacity (in_config inp)) \<and>
    (\<forall>e\<in>{0..<in_expertNum inp}.
       (\<forall>r\<in>{0..<in_rankSize inp}. 0 \<le> alloc s (ReIndex r e (in_expertNum inp))) \<and>
       (\<Sum>r\<in>{0..<in_rankSize inp}. alloc s (ReIndex r e (in_expertNum inp))) =
       (\<Sum>src\<in>{0..<in_rankSize inp}. deref (in_tokensPerExpert inp) (ReIndex src e (in_expertNum inp))))"
proof -
  let ?c = "plan_ctx_of inp ws" and ?tpe = "deref (in_tokensPerExpert inp)"
  let ?s = "plan_balance ?c inp ws"
  note w = plan_ok_written [OF assms]
  have v: "Validate inp out ws = PLAN_OK" and f: "fatal ?s = PLAN_OK" using w(1) by (simp_all add: plan_written_def Let_def)
  have i: "plan_ctx_ok ?c" "\<forall>src\<in>ranks_of ?c. \<forall>e\<in>experts_of ?c. 0 \<le> at ?c ?tpe src e"
    using Validate_input_ok [OF v] unfolding plan_input_ok_def Let_def by blast+
  note bd = plan_balance_done [OF i refl assms(2) f]
  have fld: "c_rankSize ?c = in_rankSize inp" "c_expertNum ?c = in_expertNum inp" "c_cap ?c = rankTokenCapacity (in_config inp)"
    by (simp_all add: plan_ctx_of_def)
  have load: "rankLoad ?s r = c_cap ?c" if "r \<in> ranks_of ?c" for r
    using w(2) that by (auto simp: balance_status_def Let_def list_all_iff)
  have sums: "\<forall>r\<in>ranks_of ?c. rankLoad ?s r = (\<Sum>e\<in>experts_of ?c. at ?c (alloc ?s) r e)"
    using bd(1) unfolding plan_done_def by blast
  note tot = plan_full_totals [OF plan_done_full [OF bd(1)]]
  show ?thesis
  proof (rule run_layout [OF v assms(2) f])
    fix s1 assume "run_state (RunPlanAlgorithm inp out ws) = Some s1" "rankLoad s1 = rankLoad ?s" "alloc s1 = alloc ?s"
    then show ?thesis using load sums tot bd(2) by (simp add: at_def fld)
  qed
qed

theorem plan_ok_balanced_witness:
  "\<exists>s. run_state (RunPlanAlgorithm (job_input 0) job_output job_workspace) = Some s \<and> rankLoad s 1 = 1"
  using plan_ok_balanced [OF job_ok(1) job_cache] by (auto simp: job_input_def job_config_def)

section \<open>Destinations\<close>

lemma run_destinations_inj:
  assumes "plan_written inp out ws" "plan_written inp' out' ws'" "same_tables inp inp'"
    "in_rank inp = in_rank inp' \<Longrightarrow> in_topkExperts inp = in_topkExperts inp'"
    "affinity_cache_ok (plan_ctx_of inp ws) ws" "affinity_cache_ok (plan_ctx_of inp' ws') ws'"
    "out_dst (run_out (RunPlanAlgorithm inp out ws)) = Some d" "out_dst (run_out (RunPlanAlgorithm inp' out' ws')) = Some d'"
    "r \<in> {0..<in_s inp * in_topK inp}" "r' \<in> {0..<in_s inp * in_topK inp}" "raw_of (d r) = raw_of (d' r')"
  shows "in_rank inp = in_rank inp' \<and> r = r'"
proof -
  let ?c = "plan_ctx_of inp ws" and ?c' = "plan_ctx_of inp' ws'"
  let ?topk = "deref (in_topkExperts inp)" and ?topk' = "deref (in_topkExperts inp')"
  have cfg: "in_config inp' = in_config inp" and tpe: "in_tokensPerExpert inp' = in_tokensPerExpert inp"
    using assms(3) by (simp_all add: same_tables_def)
  note sc = same_tables_ctx [OF assms(3), of ws ws']
  obtain s where s: "run_state (RunPlanAlgorithm inp out ws) = Some s"
    "plan_ready ?c (in_config inp) (deref (in_tokensPerExpert inp)) ?topk s"
    "\<forall>r\<in>{0..<c_cap ?c}. d r = route_code ?c (in_config inp) s ?topk (in_topK inp) r"
    "c_cap ?c = in_s inp * in_topK inp"
    by (rule plan_written_run [OF assms(1,5)]) (use assms(7) in auto)
  obtain s' where s': "run_state (RunPlanAlgorithm inp' out' ws') = Some s'"
    "plan_ready ?c' (in_config inp) (deref (in_tokensPerExpert inp)) ?topk' s'"
    "\<forall>r\<in>{0..<c_cap ?c'}. d' r = route_code ?c' (in_config inp) s' ?topk' (in_topK inp') r"
    by (rule plan_written_run [OF assms(2,6)]) (use assms(8) cfg tpe in auto)
  have r: "r \<in> {0..<c_cap ?c}" "r' \<in> {0..<c_cap ?c}" "r' \<in> {0..<c_cap ?c'}"
    using assms(9,10) s(4) same_ctx_fields(4) [OF sc] by simp_all
  have "raw_of (d r) = route_raw ?c (in_config inp) s ?topk r" "raw_of (d' r') = route_raw ?c' (in_config inp) s' ?topk' r'"
    using s(3) s'(3) r raw_of_code [OF route_offset_bounds(5) [OF s(2) r(1)]] raw_of_code [OF route_offset_bounds(5) [OF s'(2) r(3)]]
    by simp_all
  then have eq: "route_raw ?c (in_config inp) s ?topk r = route_raw ?c' (in_config inp) s' ?topk' r'" using assms(11) by simp
  have sp: "same_plan s s'" by (rule plan_written_same [OF assms(1-3,5,6) s(1) s'(1)])
  note q = route_raw_inj [OF s(2) s'(2) sc sp r(1,2) eq]
  then have rk: "in_rank inp = in_rank inp'" by (simp add: plan_ctx_of_def)
  show ?thesis using ordinal_inj [OF r(1,2)] q rk assms(4) by metis
qed

text \<open>C7: Two runs of one job, on the same tables and configuration, never send two routes to the same
  place: equal destinations mean the same rank and the same route.  This holds for balanced and for
  partial plans alike, as long as the layout fits.\<close>

theorem plan_destinations_distinct:
  assumes "plan_written inp out ws" "plan_written inp' out' ws'" "same_tables inp inp'"
    "in_rank inp = in_rank inp' \<Longrightarrow> in_topkExperts inp = in_topkExperts inp'"
    "affinity_cache_ok (plan_ctx_of inp ws) ws" "affinity_cache_ok (plan_ctx_of inp' ws') ws'"
    "out_dst (run_out (RunPlanAlgorithm inp out ws)) = Some d" "out_dst (run_out (RunPlanAlgorithm inp' out' ws')) = Some d'"
    "r \<in> {0..<in_s inp * in_topK inp}" "r' \<in> {0..<in_s inp * in_topK inp}" "raw_of (d r) = raw_of (d' r')"
  shows "in_rank inp = in_rank inp' \<and> r = r'"
  using assms by (rule run_destinations_inj)

theorem plan_destinations_distinct_witness:
  "\<exists>d d'. out_dst (run_out (RunPlanAlgorithm (job_input 0) job_output job_workspace)) = Some d \<and>
    out_dst (run_out (RunPlanAlgorithm (job_input 1) job_output job_workspace)) = Some d' \<and> raw_of (d 0) \<noteq> raw_of (d' 0)"
proof -
  obtain d where d: "out_dst (run_out (RunPlanAlgorithm (job_input 0) job_output job_workspace)) = Some d"
    by (rule plan_written_run [OF job_written(1) job_cache])
  obtain d' where d': "out_dst (run_out (RunPlanAlgorithm (job_input 1) job_output job_workspace)) = Some d'"
    by (rule plan_written_run [OF job_written(2) job_cache])
  have "same_tables (job_input 0) (job_input 1)" by (simp add: same_tables_def job_input_def)
  from plan_destinations_distinct [OF job_written this _ job_cache job_cache d d', of 0 0]
  show ?thesis using d d' by (auto simp: job_input_def)
qed

text \<open>C13: The destination of a route is an offset below \<open>nvS\<close> in the window of a rank of the job, it
  lies in the interval that the destination reserves for the expert of the route, and it is stored
  complemented exactly when an earlier route of the same token already goes to that rank.\<close>

theorem plan_destination_meaning:
  assumes "plan_written inp out ws" "affinity_cache_ok (plan_ctx_of inp ws) ws"
    "out_dst (run_out (RunPlanAlgorithm inp out ws)) = Some d" "run_state (RunPlanAlgorithm inp out ws) = Some s"
    "r \<in> {0..<in_s inp * in_topK inp}"
  defines "dst \<equiv> \<lambda>route. raw_of (d route) div nvS (in_config inp)"
    and "off \<equiv> raw_of (d r) mod nvS (in_config inp)"
    and "re \<equiv> ReIndex (raw_of (d r) div nvS (in_config inp)) (deref (in_topkExperts inp) r) (in_expertNum inp)"
  shows "dst r \<in> {0..<in_rankSize inp} \<and> raw_of (d r) = dst r * nvS (in_config inp) + off \<and>
    off \<in> {expertPhysicalBase s re..<expertPhysicalBase s re + alloc s re} \<and> off < nvS (in_config inp) \<and>
    (0 \<le> d r \<longleftrightarrow> dst r \<notin> dst ` {r - r mod in_topK inp..<r})"
proof -
  let ?c = "plan_ctx_of inp ws" and ?topk = "deref (in_topkExperts inp)" and ?cfg = "in_config inp" and ?K = "in_topK inp"
  obtain rdy: "plan_ready ?c ?cfg (deref (in_tokensPerExpert inp)) ?topk s"
    and code: "\<forall>r\<in>{0..<c_cap ?c}. d r = route_code ?c ?cfg s ?topk ?K r"
    and cap: "c_cap ?c = in_s inp * ?K" and K: "0 < ?K"
    by (rule plan_written_run [OF assms(1,2)]) (use assms(3,4) in auto)
  have raw: "raw_of (d q) = route_raw ?c ?cfg s ?topk q" "dst q = dstRank (route_segment s ?topk q)"
    if q: "q \<in> {0..<c_cap ?c}" for q
    using code q raw_of_code [OF route_offset_bounds(5) [OF rdy q]] route_offset_bounds(7) [OF rdy q] by (simp_all add: dst_def)
  have r: "r \<in> {0..<c_cap ?c}" using assms(5) cap by simp
  have b: "r - r mod ?K \<ge> 0" "r mod ?K \<ge> 0"
    using r K by (simp_all add: zmod_le_nonneg_dividend)
  note o = route_offset_bounds [OF rdy r] and p = route_segment_props [OF rdy r]
  have fst: "route_first s ?topk ?K r = (dst r \<notin> dst ` {r - r mod ?K..<r})"
  proof -
    let ?seg = "\<lambda>k. dstRank (route_segment s ?topk (r - r mod ?K + k))"
    have eq: "dst (r - r mod ?K + k) = ?seg k" if "k \<in> {0..<r mod ?K}" for k
      using raw(2) [of "r - r mod ?K + k"] that r b by auto
    have "{r - r mod ?K..<r} = (\<lambda>k. r - r mod ?K + k) ` {0..<r mod ?K}" by simp
    then have "dst ` {r - r mod ?K..<r} = (\<lambda>k. dst (r - r mod ?K + k)) ` {0..<r mod ?K}" by (simp only: image_image)
    also have "\<dots> = ?seg ` {0..<r mod ?K}" using eq by (rule image_cong [OF refl])
    finally have img: "dst ` {r - r mod ?K..<r} = ?seg ` {0..<r mod ?K}" .
    show ?thesis unfolding img route_first_def raw(2) [OF r] image_iff by metis
  qed
  have sg: "(0 \<le> d r) = route_first s ?topk ?K r"
    using code r o(5) by (simp add: route_code_def not_int_def)
  have re: "expertPhysicalBase s re = at ?c (expertPhysicalBase s) (dst r) (?topk r)" "alloc s re = at ?c (alloc s) (dst r) (?topk r)"
    by (simp_all add: at_def re_def dst_def plan_ctx_of_def)
  have off: "off = route_offset ?c s ?topk r" using raw(1) [OF r] o(8) by (simp add: off_def)
  show ?thesis
  proof (intro conjI)
    have rs: "c_rankSize ?c = in_rankSize inp" by (simp add: plan_ctx_of_def)
    show "dst r \<in> {0..<in_rankSize inp}" using p(7) raw(2) [OF r] unfolding rs by simp
    show "raw_of (d r) = dst r * nvS ?cfg + off" unfolding dst_def off_def by (rule div_mult_mod_eq [symmetric])
    show "off \<in> {expertPhysicalBase s re..<expertPhysicalBase s re + alloc s re}"
      unfolding off re raw(2) [OF r] using o(1,2) by simp
    show "off < nvS ?cfg" using o(4) off by simp
    show "0 \<le> d r \<longleftrightarrow> dst r \<notin> dst ` {r - r mod ?K..<r}" using sg fst by blast
  qed
qed

theorem plan_destination_meaning_witness:
  "\<exists>d. out_dst (run_out (RunPlanAlgorithm (job_input 1) job_output job_workspace)) = Some d \<and>
    raw_of (d 0) div 2 \<in> {0..<2} \<and> 0 \<le> d 0"
proof -
  obtain s d where "run_state (RunPlanAlgorithm (job_input 1) job_output job_workspace) = Some s"
    and d: "out_dst (run_out (RunPlanAlgorithm (job_input 1) job_output job_workspace)) = Some d"
    by (rule plan_written_run [OF job_written(2) job_cache])
  from plan_destination_meaning [OF job_written(2) job_cache d this(1), of 0] d
  show ?thesis by (simp add: job_input_def job_config_def)
qed

section \<open>Rounds\<close>

lemma AppendSegment_rounds:
  "AppendSegment c s e src dst a b n = (ok, s') \<Longrightarrow>
    rankLoad s' = rankLoad s \<and> intraRounds s' = intraRounds s \<and> interRounds s' = interRounds s"
  by (auto simp: AppendSegment_def Let_def split: if_splits)

lemma remainder_sources_rounds:
  "remainder_sources c e dst srcs s = (ok, s') \<Longrightarrow>
    rankLoad s' = rankLoad s \<and> intraRounds s' = intraRounds s \<and> interRounds s' = interRounds s"
proof (induction srcs arbitrary: s)
  case (Cons src srcs)
  define n where "n = remainingTpe s (ReIndex src e (c_expertNum c))"
  obtain b t where a: "AppendSegment c s e src dst (srcExpertCursor s (ReIndex src e (c_expertNum c)))
      (dstExpertCursor s (ReIndex dst e (c_expertNum c))) n = (b, t)" by fastforce
  show ?case using Cons.prems Cons.IH AppendSegment_rounds [OF a] by (cases "n \<le> 0"; cases b) (auto simp: Let_def a n_def [symmetric])
qed simp

lemma remainder_experts_rounds:
  "rankLoad (remainder_experts c es s) = rankLoad s \<and> intraRounds (remainder_experts c es s) = intraRounds s \<and>
   interRounds (remainder_experts c es s) = interRounds s"
proof (induction es arbitrary: s)
  case (Cons e es)
  obtain b t where "remainder_sources c e (HomeRank e (c_expertsPerRank c)) [0..c_rankSize c - 1] s = (b, t)" by fastforce
  then show ?case using remainder_sources_rounds Cons.IH [of t] by simp
qed simp

lemma overload_le_load:
  assumes "\<forall>r\<in>ranks_of c. 0 \<le> rankLoad s r" "0 \<le> c_cap c"
  shows "overload c s \<le> (\<Sum>r\<in>ranks_of c. rankLoad s r)"
  unfolding overload_def by (rule sum_mono) (use assms in auto)

lemma plan_init_load:
  fixes ws :: plan_workspace
  assumes ok: "plan_ctx_ok c" and nn: "\<forall>src\<in>ranks_of c. \<forall>e\<in>experts_of c. 0 \<le> at c (deref (in_tokensPerExpert inp)) src e"
    and row: "\<forall>src\<in>ranks_of c. (\<Sum>e\<in>experts_of c. at c (deref (in_tokensPerExpert inp)) src e) = c_cap c"
  shows "overload c (plan_init c inp ws) \<le> c_rankSize c * c_cap c"
proof -
  let ?tpe = "deref (in_tokensPerExpert inp)" and ?s = "plan_init c inp ws"
  have ia: "inv_alloc c ?s" and al: "\<forall>r\<in>ranks_of c. \<forall>e\<in>experts_of c. at c (alloc ?s) r e = (if r = homeOf c e then expert_total c ?tpe e else 0)"
    using plan_init_inv [OF ok nn refl, of ws] by blast+
  have ld: "\<forall>r\<in>ranks_of c. rankLoad ?s r = (\<Sum>e\<in>experts_of c. at c (alloc ?s) r e)" using ia by (simp add: inv_alloc_def)
  have "\<forall>r\<in>ranks_of c. 0 \<le> rankLoad ?s r" using ld ia by (auto simp: inv_alloc_def intro: sum_nonneg)
  then have "overload c ?s \<le> (\<Sum>r\<in>ranks_of c. rankLoad ?s r)" using ok by (intro overload_le_load) (auto simp: plan_ctx_ok_def)
  also have "\<dots> = (\<Sum>r\<in>ranks_of c. \<Sum>e\<in>experts_of c. at c (alloc ?s) r e)" using ld by simp
  also have "\<dots> = (\<Sum>e\<in>experts_of c. \<Sum>r\<in>ranks_of c. at c (alloc ?s) r e)" by (rule sum.swap)
  also have "\<dots> = (\<Sum>e\<in>experts_of c. expert_total c ?tpe e)"
  proof (rule sum.cong [OF refl])
    fix e assume e: "e \<in> experts_of c"
    have "(\<Sum>r\<in>ranks_of c. at c (alloc ?s) r e) = (\<Sum>r\<in>ranks_of c. if r = homeOf c e then expert_total c ?tpe e else 0)"
      using al e by (intro sum.cong) auto
    then show "(\<Sum>r\<in>ranks_of c. at c (alloc ?s) r e) = expert_total c ?tpe e" using home_range [OF ok e] by simp
  qed
  also have "\<dots> = (\<Sum>src\<in>ranks_of c. \<Sum>e\<in>experts_of c. at c ?tpe src e)" unfolding expert_total_def by (rule sum.swap)
  also have "\<dots> = c_rankSize c * c_cap c" using row ok by (simp add: plan_ctx_ok_def)
  finally show ?thesis .
qed

lemma plan_balance_stages:
  assumes "fatal (plan_balance c inp ws) = PLAN_OK"
  defines "t \<equiv> (if ws_affinityOrderValid ws then plan_init c inp ws else BuildAffinity c (plan_init c inp ws))"
  shows "fatal (RunIntra c t) = PLAN_OK" "fatal (RunInter c (RunIntra c t)) = PLAN_OK"
    "plan_balance c inp ws = AppendRemainders c (RunInter c (RunIntra c t))"
  using assms(1) unfolding plan_balance_def Let_def t_def [symmetric]
  by (cases "fatal (RunIntra c t) = PLAN_OK"; cases "fatal (RunInter c (RunIntra c t)) = PLAN_OK"; simp)+

text \<open>C11: In a run that does not overflow its segment records the balancing loops end quickly: every round moves at least one token off an overloaded rank,
  so the rounds of a run and the tokens still in excess never exceed the initial excess, which is at
  most \<open>rankSize * s * topK\<close>.\<close>

theorem plan_rounds_bounded:
  assumes "Validate inp out ws = PLAN_OK" "affinity_cache_ok (plan_ctx_of inp ws) ws"
    "run_status (RunPlanAlgorithm inp out ws) \<noteq> PLAN_ERROR_MOVE_RECORD_OVERFLOW"
  defines "c \<equiv> plan_ctx_of inp ws"
  shows "\<exists>s. run_state (RunPlanAlgorithm inp out ws) = Some s \<and>
    overload c s + intraRounds s + interRounds s \<le> overload c (plan_init c inp ws) \<and>
    overload c (plan_init c inp ws) \<le> in_rankSize inp * (in_s inp * in_topK inp)"
proof -
  let ?s = "plan_balance c inp ws"
  define t where "t = (if ws_affinityOrderValid ws then plan_init c inp ws else BuildAffinity c (plan_init c inp ws))"
  have i: "plan_ctx_ok c" "\<forall>src\<in>ranks_of c. \<forall>e\<in>experts_of c. 0 \<le> at c (deref (in_tokensPerExpert inp)) src e"
    "\<forall>src\<in>ranks_of c. (\<Sum>e\<in>experts_of c. at c (deref (in_tokensPerExpert inp)) src e) = c_cap c" "c_cap c = in_s inp * in_topK inp"
    using Validate_input_ok [OF assms(1)] unfolding plan_input_ok_def Let_def c_def by blast+
  have cache: "affinity_cache_ok c ws" using assms(2) by (simp add: c_def)
  have f: "fatal ?s = PLAN_OK"
    using plan_balance_fatal_ok [OF i(1,2) cache] assms(1,3) unfolding fatal_ok_def c_def
    by (cases "fatal (plan_balance (plan_ctx_of inp ws) inp ws) = PLAN_OK") (simp_all add: RunPlanAlgorithm_def Let_def Validate_cleared)
  note g = plan_balance_stages [OF f, folded t_def] and st = plan_start_inv [OF i(1,2) refl cache, folded t_def]
  have ov: "overload c t = overload c (plan_init c inp ws)" using st(5) by (simp add: overload_def)
  note a1 = intra_servers_account [OF g(1) [unfolded RunIntra_def], folded RunIntra_def]
    and a2 = RunInter_account [OF g(2)]
  have "overload c ?s + intraRounds ?s + interRounds ?s \<le> overload c (plan_init c inp ws)"
    using a1 a2 st(3,4) ov remainder_experts_rounds [of c _ "RunInter c (RunIntra c t)"]
    unfolding g(3) AppendRemainders_def overload_def by simp
  moreover have "overload c (plan_init c inp ws) \<le> in_rankSize inp * (in_s inp * in_topK inp)"
    using plan_init_load [OF i(1-3), of ws] i(4) by (simp add: c_def plan_ctx_of_def)
  moreover obtain s1 where "run_state (RunPlanAlgorithm inp out ws) = Some s1" "rankLoad s1 = rankLoad ?s"
    "intraRounds s1 = intraRounds ?s" "interRounds s1 = interRounds ?s"
  proof (rule run_layout [OF assms(1,2) f [unfolded c_def], folded c_def])
    fix s1 assume rs: "run_state (RunPlanAlgorithm inp out ws) = Some s1" "rankLoad s1 = rankLoad ?s"
      and eq: "s1 = ?s\<lparr> remoteExpertSet := remoteExpertSet s1, expertPhysicalBase := expertPhysicalBase s1 \<rparr>"
    show thesis using that [OF rs] arg_cong [OF eq, of intraRounds] arg_cong [OF eq, of interRounds] by simp
  qed
  ultimately show ?thesis unfolding overload_def by auto
qed

theorem plan_rounds_bounded_witness:
  "\<exists>s. run_state (RunPlanAlgorithm (job_input 0) job_output job_workspace) = Some s \<and> intraRounds s + interRounds s \<le> 2"
proof -
  have v: "Validate (job_input 0) job_output job_workspace = PLAN_OK"
    using job_written(1) by (simp add: plan_written_def Let_def)
  have n: "run_status (RunPlanAlgorithm (job_input 0) job_output job_workspace) \<noteq> PLAN_ERROR_MOVE_RECORD_OVERFLOW"
    using job_ok(1) by simp
  obtain s where s: "run_state (RunPlanAlgorithm (job_input 0) job_output job_workspace) = Some s"
    "overload (plan_ctx_of (job_input 0) job_workspace) s + intraRounds s + interRounds s \<le> 2"
    using plan_rounds_bounded [OF v job_cache n] by (auto simp: job_input_def)
  then show ?thesis using overload_nonneg [of "plan_ctx_of (job_input 0) job_workspace" s] by (intro exI [of _ s]) linarith
qed

section \<open>The invariant\<close>

text \<open>C10: In a run that does not overflow its segment records the balancing rounds keep the bookkeeping consistent: tokens of every source and expert are
  taken in adjacent segments, as are the segments of every destination, loads and allocations agree
  with them, remote slots hold exactly the foreign experts of a rank and never exceed the prefetch
  slots, and the tokens moved between two ranks respect the route limit.\<close>

theorem plan_rounds_invariant:
  assumes "Validate inp out ws = PLAN_OK" "affinity_cache_ok (plan_ctx_of inp ws) ws"
    "run_status (RunPlanAlgorithm inp out ws) \<noteq> PLAN_ERROR_MOVE_RECORD_OVERFLOW"
  defines "c \<equiv> plan_ctx_of inp ws" and "tpe \<equiv> deref (in_tokensPerExpert inp)"
  defines "s \<equiv> (if ws_affinityOrderValid ws then plan_init c inp ws else BuildAffinity c (plan_init c inp ws))"
  shows "plan_inv c tpe s \<and> plan_inv c tpe (RunIntra c s) \<and> plan_inv c tpe (RunInter c (RunIntra c s)) \<and>
    plan_done c tpe (AppendRemainders c (RunInter c (RunIntra c s)))"
proof -
  have i: "plan_ctx_ok c" "\<forall>src\<in>ranks_of c. \<forall>e\<in>experts_of c. 0 \<le> at c tpe src e"
    using Validate_input_ok [OF assms(1)] unfolding plan_input_ok_def Let_def c_def tpe_def by blast+
  have cache: "affinity_cache_ok c ws" using assms(2) by (simp add: c_def)
  have f: "fatal (plan_balance c inp ws) = PLAN_OK"
    using plan_balance_fatal_ok [OF i(1) i(2) [unfolded tpe_def] cache] assms(1,3) unfolding fatal_ok_def c_def
    by (cases "fatal (plan_balance (plan_ctx_of inp ws) inp ws) = PLAN_OK") (simp_all add: RunPlanAlgorithm_def Let_def Validate_cleared)
  note g = plan_balance_stages [OF f, folded s_def] and st = plan_start_inv(1) [OF i tpe_def [THEN meta_eq_to_obj_eq] cache, folded s_def]
  have intra: "plan_inv c tpe (RunIntra c s)" using RunIntra_inv [OF g(1)] st i(1) by blast
  have inter: "plan_inv c tpe (RunInter c (RunIntra c s))" using RunInter_inv [OF g(2)] intra i(1) by blast
  have "plan_done c tpe (plan_balance c inp ws)"
    by (rule plan_balance_done(1) [OF i tpe_def [THEN meta_eq_to_obj_eq] cache f])
  then show ?thesis using st intra inter g(3) by simp
qed

theorem plan_rounds_invariant_witness:
  "plan_inv (plan_ctx_of (job_input 0) job_workspace) (\<lambda>i. if i mod 2 = 0 then 1 else 0)
    (RunIntra (plan_ctx_of (job_input 0) job_workspace)
      (BuildAffinity (plan_ctx_of (job_input 0) job_workspace)
        (plan_init (plan_ctx_of (job_input 0) job_workspace) (job_input 0) job_workspace)))"
proof -
  have v: "Validate (job_input 0) job_output job_workspace = PLAN_OK"
    using job_written(1) by (simp add: plan_written_def Let_def)
  have n: "run_status (RunPlanAlgorithm (job_input 0) job_output job_workspace) \<noteq> PLAN_ERROR_MOVE_RECORD_OVERFLOW"
    using job_ok(1) by simp
  have "deref (in_tokensPerExpert (job_input 0)) = (\<lambda>i. if i mod 2 = 0 then 1 else 0)" by (simp add: job_input_def deref_def)
  moreover have "\<not> ws_affinityOrderValid job_workspace" by (simp add: job_workspace_def)
  ultimately show ?thesis using plan_rounds_invariant [OF v job_cache n] by simp
qed

theorem plan_affinity_rows_witness:
  "mset (row_of (affinityOrder (BuildAffinity (plan_ctx_of (job_input 0) job_workspace)
      (plan_init (plan_ctx_of (job_input 0) job_workspace) (job_input 0) job_workspace))) 1 2) = mset [0..1] \<and>
    (hd (row_of (affinityOrder (BuildAffinity (plan_ctx_of (job_input 0) job_workspace)
      (plan_init (plan_ctx_of (job_input 0) job_workspace) (job_input 0) job_workspace))) 1 2) mod 4294967296) XOR 1 = 0"
  using plan_affinity_rows [of "plan_ctx_of (job_input 0) job_workspace" 1
      "plan_init (plan_ctx_of (job_input 0) job_workspace) (job_input 0) job_workspace"]
  by (simp add: Let_def plan_ctx_of_def job_input_def deref_def)

section \<open>Segment records\<close>

lemma check_tpe_row_outcomes:
  "check_tpe_row tpe cnt n own cap src es acc \<in> {PLAN_OK, PLAN_ERROR_CONFIG_MISMATCH, PLAN_ERROR_TPE_MISMATCH}"
  by (induction es arbitrary: acc) (simp_all add: Let_def)

lemma check_tpe_rows_outcomes:
  "check_tpe_rows tpe cnt n r cap srcs \<in> {PLAN_OK, PLAN_ERROR_CONFIG_MISMATCH, PLAN_ERROR_TPE_MISMATCH}"
proof (induction srcs)
  case (Cons src srcs)
  then show ?case using check_tpe_row_outcomes [of tpe cnt n "src = r" cap src "[0..n - 1]" 0] by (auto simp: Let_def)
qed simp

lemma Validate_outcomes:
  "Validate inp out ws \<in> {PLAN_OK, PLAN_ERROR_CONFIG_MISMATCH, PLAN_ERROR_TPE_MISMATCH}"
proof -
  have "check_tpe_rows tpe cnt n r cap srcs \<in> {PLAN_OK, PLAN_ERROR_CONFIG_MISMATCH, PLAN_ERROR_TPE_MISMATCH}"
    for tpe cnt n r cap srcs by (rule check_tpe_rows_outcomes)
  then show ?thesis unfolding Validate_def Let_def by (auto split: option.split)
qed

text \<open>C12: One segment record per route of the rank, as the kernel provides, is always enough: such a
  run never ends with an overflow of the records.\<close>

theorem plan_no_overflow:
  assumes "affinity_cache_ok (plan_ctx_of inp ws) ws" "in_s inp * in_topK inp \<le> ws_tokenSegmentCapacity ws"
  shows "run_status (RunPlanAlgorithm inp out ws) \<noteq> PLAN_ERROR_MOVE_RECORD_OVERFLOW"
proof (cases "Validate inp out ws = PLAN_OK")
  case v: True
  let ?c = "plan_ctx_of inp ws" and ?tpe = "deref (in_tokensPerExpert inp)"
  have i: "plan_ctx_ok ?c" "\<forall>src\<in>ranks_of ?c. \<forall>e\<in>experts_of ?c. 0 \<le> at ?c ?tpe src e" "c_rank ?c \<in> ranks_of ?c"
    "\<forall>src\<in>ranks_of ?c. (\<Sum>e\<in>experts_of ?c. at ?c ?tpe src e) = c_cap ?c" "c_cap ?c = in_s inp * in_topK inp"
    using Validate_input_ok [OF v] unfolding plan_input_ok_def Let_def by blast+
  have "room ?c ?tpe" using i(3,4,5) assms(2) by (simp add: room_def plan_ctx_of_def)
  then have "fatal (plan_balance ?c inp ws) = PLAN_OK" by (rule plan_balance_room [OF i(1,2) assms(1)])
  then show ?thesis
  proof (rule run_layout [OF v assms(1)])
    fix ls
    assume ls: "ls = PLAN_OK \<or> ls = PLAN_ERROR_LAYOUT_EXCEEDS_NVS"
      and st: "run_status (RunPlanAlgorithm inp out ws) = (if fst (balance_status ?c (plan_balance ?c inp ws)) then ls
        else snd (balance_status ?c (plan_balance ?c inp ws)))"
    have "snd (balance_status ?c (plan_balance ?c inp ws)) \<noteq> PLAN_ERROR_MOVE_RECORD_OVERFLOW"
      by (simp add: balance_status_def Let_def)
    then show ?thesis using ls unfolding st by auto
  qed
next
  case False
  have "Validate inp out ws \<noteq> PLAN_ERROR_MOVE_RECORD_OVERFLOW"
    using Validate_outcomes [of inp out ws] by auto
  then show ?thesis using False by (simp add: RunPlanAlgorithm_def Let_def Validate_cleared)
qed

theorem plan_no_overflow_witness:
  "in_s (job_input 0) * in_topK (job_input 0) \<le> ws_tokenSegmentCapacity job_workspace \<and>
    run_status (RunPlanAlgorithm (job_input 0) job_output job_workspace) \<noteq> PLAN_ERROR_MOVE_RECORD_OVERFLOW"
  using plan_no_overflow [OF job_cache, of "job_input 0"] by (simp add: job_input_def job_workspace_def)

end
