(* ===== verification/PlanEquivalence.thy ===== *)
theory PlanEquivalence
  imports PlanSimJob PlanTheorems
begin

text \<open>
  The planner of a rank computes its rows of the reference plan.
\<close>

lemma rank_part_same:
  assumes "rank_part ri st ls ly r out ws s1" "ref_BuildLayouts (ref_ctx_of ri) (ri_config ri) (rs_alloc st) = (ls, ly)"
    "rank_part ri st' ls' ly' r' out' ws' s1'" "ref_BuildLayouts (ref_ctx_of ri) (ri_config ri) (rs_alloc st') = (ls', ly')"
  shows "st' = st \<and> ls' = ls \<and> ly' = ly"
proof -
  have "\<exists>a b. ref_balance (ref_ctx_of ri) ri = Some (st, a, b)" "\<exists>a b. ref_balance (ref_ctx_of ri) ri = Some (st', a, b)"
    using assms(1,3) unfolding rank_part_def Let_def by blast+
  then show ?thesis using assms(2,4) by auto
qed

lemma rank_part_agrees:
  assumes p: "rank_part ri st ls ly r out ws s1" and v: "ValidateInput ri = PLAN_OK"
    and ro: "ro = ref_FillStatus (ref_ctx_of ri) stt (intraRounds s1) (interRounds s1)
        (empty_output\<lparr> ro_dst := dst, ro_cuSeqlens := ly_cuSeqlens ly, ro_expertsToCopy := ly_expertsToCopy ly,
           ro_expertTargets := ly_expertTargets ly, ro_remoteStats := ly_remoteStats ly,
           ro_rankLoad := \<lparr> vsize = ri_rankSize ri, cell = rs_rankLoad st \<rparr>,
           ro_alloc := \<lparr> vsize = n, cell = rs_alloc st \<rparr>,
           ro_segments := rs_segments st, ro_expertMoves := rs_expertMoves st \<rparr>)"
    and stt: "stt = (if fst (ref_balance_status (ref_ctx_of ri) st) then ls else snd (ref_balance_status (ref_ctx_of ri) st))"
    and sz: "vsize (ly_remoteStats ly) \<noteq> 0" "vsize (ly_cuSeqlens ly) \<noteq> 0"
    and dst: "vsize dst \<noteq> 0 \<Longrightarrow> ls = PLAN_OK \<and> (\<forall>x\<in>{0..<ri_s ri * ri_topK ri}. cell dst (r * (ri_s ri * ri_topK ri) + x) =
        route_code (plan_ctx_of (rank_input ri r) ws) (ri_config ri) s1 (deref (in_topkExperts (rank_input ri r))) (ri_topK ri) x)"
  shows "rank_agrees ri ro r (RunPlanAlgorithm (rank_input ri r) out ws)"
proof -
  let ?inp = "rank_input ri r"
  define c where "c = plan_ctx_of ?inp ws"
  define run where "run = RunPlanAlgorithm ?inp out ws"
  note pos = ValidateInput_pos [OF v]
  have cf: "c_rank c = r" "c_rankSize c = ri_rankSize ri" "c_expertNum c = ri_expertNum ri" "c_b c = prefetchSlots (ri_config ri)"
    "c_expertsPerRank c = ri_expertNum ri div ri_rankSize ri" "c_cap c = ri_s ri * ri_topK ri"
    using pos(6) by (simp_all add: c_def plan_ctx_of_def)
  note q = p [unfolded rank_part_def Let_def, folded c_def run_def]
  obtain a1 mr le d where out: "run_out run = output_of (cleared_out out) (a1\<lparr> a_dst := d, a_status := FillStatus c s1 (run_status run) mr le (a_status a1) \<rparr>)"
    and w: "layout_view c ly a1" "cu_view c (ly_cuSeqlens ly) (a_cuSeqlens a1)" "a_cuSeqlens a1 (c_expertNum c + c_b c - 1) = le"
      "mr = fold (\<lambda>d m. max m (cell (ly_remoteStats ly) (d * 2))) [0..c_rankSize c - 1] 0"
    and tg: "out_expertTargets out \<noteq> None \<longrightarrow> a_remoteExperts a1 \<noteq> None"
    using q by blast
  have st: "run_status run = stt" using q stt by simp
  have rof: "ro_finalStatus ro = stt" "ro_dst ro = dst" "ro_cuSeqlens ro = ly_cuSeqlens ly" "ro_expertsToCopy ro = ly_expertsToCopy ly"
    "ro_expertTargets ro = ly_expertTargets ly" "ro_remoteStats ro = ly_remoteStats ly" by (simp_all add: ro ref_FillStatus_def Let_def)
  have rk: "c_rank c \<in> ranks_of c" using q by (simp add: cf)
  have G: "0 < ri_expertNum ri + prefetchSlots (ri_config ri)" using pos by simp
  have le: "cell (ly_cuSeqlens ly) ((c_rank c + 1) * (c_expertNum c + c_b c) - 1) = le"
  proof -
    have "cell (ly_cuSeqlens ly) (c_rank c * (c_expertNum c + c_b c) + (c_expertNum c + c_b c - 1)) = le"
      using w(2,3) G unfolding cu_view_def by (simp add: cf)
    then show ?thesis by (simp add: algebra_simps)
  qed
  have words: "deref (out_status (run_out run)) i = cell (ro_statusByRank ro) (r * kPlanStatusWords + i)" if "i \<in> {0..<kPlanStatusWords}" for i
  proof -
    have rc: "ref_ctx_sim (ref_ctx_of ri) c" by (simp add: c_def)
    have i: "0 \<le> i" "i < kPlanStatusWords" using that by simp_all
    have "cell (ro_statusByRank ro) (c_rank c * kPlanStatusWords + i) = FillStatus c s1 stt mr le (a_status a1) i"
      unfolding ro by (rule ref_status_words [OF rc rk i]) (use q sz w(4) le cf(1) in simp_all)
    then show ?thesis by (simp add: out st cf)
  qed
  have view: "\<forall>slot\<in>{0..<c_b c}. cell (ly_expertsToCopy ly) (r * c_b c + slot) = a_expertsToCopy a1 slot"
    "cell (ly_remoteStats ly) (r * 2) = a_remoteStats a1 0" "cell (ly_remoteStats ly) (r * 2 + 1) = a_remoteStats a1 1"
    using w(1) unfolding layout_view_def cf(1) by blast+
  have tgt: "t i = cell (ro_expertTargets ro) (r * (c_expertsPerRank c * target_words c) + i)"
    if "out_expertTargets (run_out run) = Some t" "i \<in> {0..<c_expertsPerRank c * target_words c}" for t i
  proof -
    have "t = a_expertTargets a1" "a_remoteExperts a1 \<noteq> None" using that(1) tg by (auto simp: out split: if_splits)
    then show ?thesis using w(1) that(2) unfolding layout_view_def cf(1) rof by (simp add: mult.assoc)
  qed
  have dd: "deref (out_dst (run_out run)) x = cell (ro_dst ro) (r * (ri_s ri * ri_topK ri) + x)"
    if "vsize (ro_dst ro) \<noteq> 0" "x \<in> {0..<ri_s ri * ri_topK ri}" for x
    using dst [folded c_def] that q unfolding rof cf by simp
  show ?thesis unfolding rank_agrees_def Let_def run_def [symmetric]
  proof (intro conjI ballI allI impI)
    fix t i assume "out_expertTargets (run_out run) = Some t"
      "i \<in> {0..<ri_expertNum ri div ri_rankSize ri * ((ri_rankSize ri + 63) div 64)}"
    then show "t i = cell (ro_expertTargets ro) (r * (ri_expertNum ri div ri_rankSize ri * ((ri_rankSize ri + 63) div 64)) + i)"
      using tgt [of t i] by (simp only: cf target_words_def)
  qed (use words dd st rof view w(2) in \<open>auto simp: out cf cu_view_def\<close>)
qed

lemma ref_layout_vsizes:
  assumes "ref_BuildLayouts rc cfg alc = (ls, ly)"
  shows "vsize (ly_remoteStats ly) = rc_rankSize rc * 2" "vsize (ly_cuSeqlens ly) = rc_rankSize rc * (rc_expertNum rc + rc_prefetchSlots rc)"
  using ref_BuildLayouts_sizes [of rc cfg alc] assms by (simp_all add: same_sizes_def ref_layout_init_def Let_def vec_fill_def)

text \<open>The destinations of all ranks.\<close>

lemma ref_BuildDst_codes:
  assumes p: "\<forall>r\<in>{0..<ri_rankSize ri}. rank_part ri st PLAN_OK ly r (outs r) (wss r) (ss r)" and v: "ValidateInput ri = PLAN_OK"
  defines "cap \<equiv> ri_s ri * ri_topK ri"
  shows "\<exists>d. ref_BuildDst (ref_ctx_of ri) ri (rs_segments st) (ly_base ly) = (PLAN_OK, d) \<and> vsize d = ri_rankSize ri * cap \<and>
    (\<forall>r\<in>{0..<ri_rankSize ri}. \<forall>x\<in>{0..<cap}. cell d (r * cap + x) =
      route_code (plan_ctx_of (rank_input ri r) (wss r)) (ri_config ri) (ss r) (deref (in_topkExperts (rank_input ri r))) (ri_topK ri) x)"
proof -
  let ?cs = "\<lambda>r. plan_ctx_of (rank_input ri r) (wss r)" and ?tk = "\<lambda>r. deref (in_topkExperts (rank_input ri r))"
  note pos = ValidateInput_pos [OF v]
  have rcf: "rc_rankSize (ref_ctx_of ri) = ri_rankSize ri" "rc_cap (ref_ctx_of ri) = cap" using pos(6) by (simp_all add: ref_ctx_of_def cap_def)
  have cap: "\<forall>src. c_cap (?cs src) = cap" using pos(6) by (simp add: plan_ctx_of_def cap_def)
  have ds: "\<forall>src\<in>set [0..ri_rankSize ri - 1]. c_rank (?cs src) = src \<and>
      dst_sim (ref_ctx_of ri) ri (rs_segments st) (ly_base ly) (?cs src) (cell (ri_tokensPerExpert ri)) (?tk src) (ss src)"
  proof
    fix src assume "src \<in> set [0..ri_rankSize ri - 1]"
    then have "rank_part ri st PLAN_OK ly src (outs src) (wss src) (ss src)" using p by simp
    then show "c_rank (?cs src) = src \<and>
      dst_sim (ref_ctx_of ri) ri (rs_segments st) (ly_base ly) (?cs src) (cell (ri_tokensPerExpert ri)) (?tk src) (ss src)"
      unfolding rank_part_def Let_def by (simp add: plan_ctx_of_def)
  qed
  from ref_sources_codes [OF cap refl less_imp_le [OF pos(4)] ds distinct_upto, of "vec_fill (ri_rankSize ri * cap) 0"]
  show ?thesis by (fastforce simp: ref_BuildDst_def rcf vec_fill_def)
qed

text \<open>The reference plan of a job whose ranks may run.\<close>

definition plan_of_parts :: "ref_input \<Rightarrow> ref_state \<Rightarrow> plan_status \<Rightarrow> ref_layout \<Rightarrow> int vec \<Rightarrow> int \<Rightarrow> int \<Rightarrow> ref_output" where
  "plan_of_parts ri st ls ly dst within across =
    ref_FillStatus (ref_ctx_of ri) (if fst (ref_balance_status (ref_ctx_of ri) st) then ls else snd (ref_balance_status (ref_ctx_of ri) st))
      within across
      (empty_output\<lparr> ro_dst := dst, ro_cuSeqlens := ly_cuSeqlens ly, ro_expertsToCopy := ly_expertsToCopy ly,
         ro_expertTargets := ly_expertTargets ly, ro_remoteStats := ly_remoteStats ly,
         ro_rankLoad := \<lparr> vsize = ri_rankSize ri, cell = rs_rankLoad st \<rparr>,
         ro_alloc := \<lparr> vsize = ri_rankSize ri * ri_expertNum ri, cell = rs_alloc st \<rparr>,
         ro_segments := rs_segments st, ro_expertMoves := rs_expertMoves st \<rparr>)"

lemma ref_plan_parts:
  assumes v: "ValidateInput ri = PLAN_OK" and rr: "\<forall>r\<in>{0..<ri_rankSize ri}. rank_ready ri r (outs r) (wss r)"
    and ids: "\<forall>i\<in>{0..<ri_rankSize ri}. cell (ri_globalRankIds ri) i \<le> INT32_MAX"
  obtains st ls ly ss dst within across where
    "BuildReferencePlan ri = Some (plan_of_parts ri st ls ly dst within across)"
    "\<forall>r\<in>{0..<ri_rankSize ri}. rank_part ri st ls ly r (outs r) (wss r) (ss r)"
    "\<forall>r\<in>{0..<ri_rankSize ri}. intraRounds (ss r) = within \<and> interRounds (ss r) = across"
    "ref_BuildLayouts (ref_ctx_of ri) (ri_config ri) (rs_alloc st) = (ls, ly)"
    "vsize dst = (if ls = PLAN_OK then ri_rankSize ri * (ri_s ri * ri_topK ri) else 0)"
    "ls = PLAN_OK \<Longrightarrow> \<forall>r\<in>{0..<ri_rankSize ri}. \<forall>x\<in>{0..<ri_s ri * ri_topK ri}. cell dst (r * (ri_s ri * ri_topK ri) + x) =
      route_code (plan_ctx_of (rank_input ri r) (wss r)) (ri_config ri) (ss r) (deref (in_topkExperts (rank_input ri r))) (ri_topK ri) x"
proof -
  note pos = ValidateInput_pos [OF v]
  let ?rc = "ref_ctx_of ri" and ?R = "{0..<ri_rankSize ri}"
  have z: "0 \<in> ?R" using pos(1) by simp
  obtain st ls ly s0 where p0: "rank_part ri st ls ly 0 (outs 0) (wss 0) s0" "ref_BuildLayouts ?rc (ri_config ri) (rs_alloc st) = (ls, ly)"
    by (rule job_rank_part [OF v bspec [OF rr z] ids])
  have "\<forall>r\<in>?R. \<exists>s1. rank_part ri st ls ly r (outs r) (wss r) s1"
  proof
    fix r assume "r \<in> ?R"
    from job_rank_part [OF v bspec [OF rr this] ids] rank_part_same [OF p0]
    show "\<exists>s1. rank_part ri st ls ly r (outs r) (wss r) s1" by metis
  qed
  then obtain ss where ps: "\<forall>r\<in>?R. rank_part ri st ls ly r (outs r) (wss r) (ss r)" by metis
  have bal: "ref_balance ?rc ri = Some (st, intraRounds s0, interRounds s0)" using p0(1) unfolding rank_part_def Let_def by blast
  have rounds: "\<forall>r\<in>?R. intraRounds (ss r) = intraRounds s0 \<and> interRounds (ss r) = interRounds s0"
  proof
    fix r assume r: "r \<in> ?R"
    have "ref_balance ?rc ri = Some (st, intraRounds (ss r), interRounds (ss r))" using bspec [OF ps r] unfolding rank_part_def Let_def by blast
    then show "intraRounds (ss r) = intraRounds s0 \<and> interRounds (ss r) = interRounds s0" using bal by simp
  qed
  define dr where "dr = (if ls = PLAN_OK then ref_BuildDst ?rc ri (rs_segments st) (ly_base ly) else (ls, vec_fill 0 0))"
  have dr: "fst dr = ls \<and> vsize (snd dr) = (if ls = PLAN_OK then ri_rankSize ri * (ri_s ri * ri_topK ri) else 0)"
    and codes: "ls = PLAN_OK \<Longrightarrow> \<forall>r\<in>?R. \<forall>x\<in>{0..<ri_s ri * ri_topK ri}. cell (snd dr) (r * (ri_s ri * ri_topK ri) + x) =
      route_code (plan_ctx_of (rank_input ri r) (wss r)) (ri_config ri) (ss r) (deref (in_topkExperts (rank_input ri r))) (ri_topK ri) x"
    using ref_BuildDst_codes [of ri st ly outs wss ss] ps v by (cases "ls = PLAN_OK"; auto simp: dr_def vec_fill_def)+
  have rcf: "rc_rankSize ?rc = ri_rankSize ri" "rc_expertNum ?rc = ri_expertNum ri" by (simp_all add: ref_ctx_of_def)
  have "BuildReferencePlan ri = Some (plan_of_parts ri st ls ly (snd dr) (intraRounds s0) (interRounds s0))"
    unfolding BuildReferencePlan_def plan_of_parts_def
    by (simp only: Let_def v simp_thms if_False bal option.case prod.case p0(2) case_prod_unfold dr_def [symmetric] conjunct1 [OF dr] rcf fst_conv snd_conv)
  then show thesis using ps rounds p0(2) conjunct2 [OF dr] codes by (rule that)
qed

lemma layout_sizes_pos:
  assumes "ValidateInput ri = PLAN_OK" "ref_BuildLayouts (ref_ctx_of ri) cfg alc = (ls, ly)"
  shows "vsize (ly_remoteStats ly) \<noteq> 0" "vsize (ly_cuSeqlens ly) \<noteq> 0"
  using ref_layout_vsizes [OF assms(2)] ValidateInput_pos [OF assms(1)] by (simp_all add: ref_ctx_of_def)

lemma plan_of_parts_status:
  "ro_finalStatus (plan_of_parts ri st ls ly dst within across) = PLAN_OK \<Longrightarrow> ls = PLAN_OK \<and> fst (ref_balance_status (ref_ctx_of ri) st)"
  by (auto simp: plan_of_parts_def ref_FillStatus_def ref_balance_status_def Let_def split: if_splits)

section \<open>Equivalence of the planners\<close>

text \<open>C1: The planner that each rank runs for itself computes the plan of the reference planner: for every
  job whose input the reference planner accepts and whose ranks may run, the reference planner returns a
  plan, and the status, the status words, the group ends, the experts to copy, the remote statistics, the
  expert targets and the destinations that a rank writes are its rows of that plan.\<close>

theorem plan_refines_reference:
  assumes v: "ValidateInput ri = PLAN_OK" and rr: "\<forall>r\<in>{0..<ri_rankSize ri}. rank_ready ri r (outs r) (wss r)"
    and ids: "\<forall>i\<in>{0..<ri_rankSize ri}. cell (ri_globalRankIds ri) i \<le> INT32_MAX"
  shows "\<exists>ro. BuildReferencePlan ri = Some ro \<and>
    (\<forall>r\<in>{0..<ri_rankSize ri}. rank_agrees ri ro r (RunPlanAlgorithm (rank_input ri r) (outs r) (wss r))) \<and>
    (ro_finalStatus ro = PLAN_OK \<longrightarrow> vsize (ro_dst ro) = ri_rankSize ri * (ri_s ri * ri_topK ri))"
proof (rule ref_plan_parts [OF v rr ids])
  fix st ls ly ss dst within across
  let ?ro = "plan_of_parts ri st ls ly dst within across"
  assume plan: "BuildReferencePlan ri = Some ?ro"
    and ps: "\<forall>r\<in>{0..<ri_rankSize ri}. rank_part ri st ls ly r (outs r) (wss r) (ss r)"
    and rounds: "\<forall>r\<in>{0..<ri_rankSize ri}. intraRounds (ss r) = within \<and> interRounds (ss r) = across"
    and ly: "ref_BuildLayouts (ref_ctx_of ri) (ri_config ri) (rs_alloc st) = (ls, ly)"
    and sz: "vsize dst = (if ls = PLAN_OK then ri_rankSize ri * (ri_s ri * ri_topK ri) else 0)"
    and codes: "ls = PLAN_OK \<Longrightarrow> \<forall>r\<in>{0..<ri_rankSize ri}. \<forall>x\<in>{0..<ri_s ri * ri_topK ri}. cell dst (r * (ri_s ri * ri_topK ri) + x) =
      route_code (plan_ctx_of (rank_input ri r) (wss r)) (ri_config ri) (ss r) (deref (in_topkExperts (rank_input ri r))) (ri_topK ri) x"
  have agree: "rank_agrees ri ?ro r (RunPlanAlgorithm (rank_input ri r) (outs r) (wss r))" if r: "r \<in> {0..<ri_rankSize ri}" for r
    by (rule rank_part_agrees [OF bspec [OF ps r] v _ refl layout_sizes_pos [OF v ly]])
      (use rounds r codes sz in \<open>auto simp: plan_of_parts_def split: if_splits\<close>)
  have "ro_finalStatus ?ro = PLAN_OK \<longrightarrow> vsize (ro_dst ?ro) = ri_rankSize ri * (ri_s ri * ri_topK ri)"
  proof
    assume "ro_finalStatus ?ro = PLAN_OK"
    from plan_of_parts_status [OF this] sz have "vsize dst = ri_rankSize ri * (ri_s ri * ri_topK ri)" by simp
    then show "vsize (ro_dst ?ro) = ri_rankSize ri * (ri_s ri * ri_topK ri)" by (simp add: plan_of_parts_def ref_FillStatus_def Let_def)
  qed
  then show ?thesis using plan agree by blast
qed

definition job_ref :: ref_input where
  "job_ref = \<lparr> ri_rankSize = 2, ri_s = 1, ri_topK = 1, ri_expertNum = 2, ri_config = job_config,
     ri_globalRankIds = \<lparr> vsize = 2, cell = (\<lambda>i. i) \<rparr>, ri_topkExperts = \<lparr> vsize = 2, cell = (\<lambda>_. 0) \<rparr>,
     ri_tokensPerExpert = \<lparr> vsize = 4, cell = (\<lambda>i. if i mod 2 = 0 then 1 else 0) \<rparr> \<rparr>"

lemma job_ref_valid: "ValidateInput job_ref = PLAN_OK"
  by code_simp

lemma job_ref_rank0: "Validate (rank_input job_ref 0) job_output job_workspace = PLAN_OK"
  by code_simp

lemma job_ref_rank1: "Validate (rank_input job_ref 1) job_output job_workspace = PLAN_OK"
  by code_simp

lemma job_ref_ready: "\<forall>r\<in>{0..<ri_rankSize job_ref}. rank_ready job_ref r job_output job_workspace"
proof
  fix r assume "r \<in> {0..<ri_rankSize job_ref}"
  then have "r = 0 \<or> r = 1" by (auto simp: job_ref_def)
  then show "rank_ready job_ref r job_output job_workspace"
    using job_ref_rank0 job_ref_rank1 by (auto simp: rank_ready_def) (simp_all add: job_ref_def job_workspace_def)
qed

theorem plan_refines_reference_witness:
  "\<exists>ro. BuildReferencePlan job_ref = Some ro \<and>
    rank_agrees job_ref ro 0 (RunPlanAlgorithm (rank_input job_ref 0) job_output job_workspace) \<and>
    rank_agrees job_ref ro 1 (RunPlanAlgorithm (rank_input job_ref 1) job_output job_workspace)"
proof -
  have "\<forall>i\<in>{0..<ri_rankSize job_ref}. cell (ri_globalRankIds job_ref) i \<le> INT32_MAX" by (simp add: job_ref_def INT32_MAX_def)
  from plan_refines_reference [OF job_ref_valid job_ref_ready this] show ?thesis by (auto simp: job_ref_def)
qed

end
