(* ===== verification/PlanCheck.thy ===== *)
theory PlanCheck
  imports PlanReference
begin

text \<open>
  The invariant checker of the reference planner (\<open>CheckReferencePlanInvariants\<close>).  The checker
  returns at the first check that fails and hands out a message; here \<open>Some message\<close> is a
  rejected plan and \<open>None\<close> an accepted one.  The loops that only test are \<open>first_error\<close>; the loops
  that also collect return the collected values or the message.
\<close>

unbundle bit_operations_syntax

section \<open>Shapes and status\<close>

primrec first_error :: "('a \<Rightarrow> string option) \<Rightarrow> 'a list \<Rightarrow> string option" where
  "first_error check [] = None"
| "first_error check (x # xs) = (case check x of None \<Rightarrow> first_error check xs | Some e \<Rightarrow> Some e)"

definition check_target_shapes :: "ref_input \<Rightarrow> ref_output \<Rightarrow> string option" where
  "check_target_shapes inp out =
    (if vsize (ro_expertsToCopy out) \<noteq> ri_rankSize inp * prefetchSlots (ri_config inp)
     then Some ''expertsToCopy shape mismatch''
     else if vsize (ro_expertTargets out) \<noteq> ri_expertNum inp * ((ri_rankSize inp + 63) div 64)
     then Some ''expertTargets shape mismatch''
     else if vsize (ro_statusByRank out) \<noteq> ri_rankSize inp * kPlanStatusWords
     then Some ''statusByRank shape mismatch'' else None)"

definition check_status :: "ref_input \<Rightarrow> ref_output \<Rightarrow> string option" where
  "check_status inp out =
    (let agreedStatus = cell (ro_statusByRank out) 0
     in if list_ex (\<lambda>rank. cell (ro_statusByRank out) (rank * kPlanStatusWords) \<noteq> agreedStatus) [1..ri_rankSize inp - 1]
        then Some ''status[0] consensus mismatch''
        else if agreedStatus \<noteq> status_code (ro_finalStatus out)
        then Some ''status[0] does not match final status'' else None)"

definition check_output_shapes :: "ref_input \<Rightarrow> ref_output \<Rightarrow> string option" where
  "check_output_shapes inp out =
    (if vsize (ro_alloc out) \<noteq> ri_rankSize inp * ri_expertNum inp \<or> vsize (ro_rankLoad out) \<noteq> ri_rankSize inp \<or>
        vsize (ro_dst out) \<noteq> ri_rankSize inp * rankTokenCapacity (ri_config inp) \<or>
        vsize (ro_cuSeqlens out) \<noteq> ri_rankSize inp * (ri_expertNum inp + prefetchSlots (ri_config inp)) \<or>
        vsize (ro_remoteStats out) \<noteq> ri_rankSize inp * 2
     then Some ''output shape mismatch'' else None)"

section \<open>Allocations and loads\<close>

definition check_expert :: "ref_input \<Rightarrow> ref_output \<Rightarrow> int \<Rightarrow> string option" where
  "check_expert inp out expert =
    (let ranks = [0..ri_rankSize inp - 1]; index = (\<lambda>rank. rank * ri_expertNum inp + expert)
     in if list_ex (\<lambda>rank. cell (ro_alloc out) (index rank) < 0) ranks then Some ''negative allocation''
        else if sum_list (map (\<lambda>rank. cell (ro_alloc out) (index rank)) ranks) \<noteq>
                sum_list (map (\<lambda>rank. cell (ri_tokensPerExpert inp) (index rank)) ranks)
        then Some ''expert conservation failed'' else None)"

definition check_rank_load :: "ref_input \<Rightarrow> ref_output \<Rightarrow> int \<Rightarrow> string option" where
  "check_rank_load inp out rank =
    (let load = sum_list (map (\<lambda>expert. cell (ro_alloc out) (rank * ri_expertNum inp + expert)) [0..ri_expertNum inp - 1])
     in if load \<noteq> cell (ro_rankLoad out) rank then Some ''rank load does not match allocation''
        else if ro_finalStatus out = PLAN_OK \<and> load \<noteq> rankTokenCapacity (ri_config inp)
        then Some ''PLAN_OK rank capacity violated'' else None)"

section \<open>Remote experts\<close>

text \<open>One remote expert: the statistics of its home and its bit in the target table.\<close>

definition expect_remote :: "ref_input \<Rightarrow> int \<Rightarrow> int \<Rightarrow> int vec \<times> nat vec \<Rightarrow> int vec \<times> nat vec" where
  "expect_remote inp rank expert = (\<lambda>(stats, targets).
    let expertsPerRank = ri_expertNum inp div ri_rankSize inp; targetWords = (ri_rankSize inp + 63) div 64;
        i = HomeRank expert expertsPerRank * 2 + 1; j = expert * targetWords + rank div 64
    in (vec_set stats i (cell stats i + 1), vec_set targets j (cell targets j OR push_bit (nat (rank mod 64)) 1)))"

definition check_copies :: "ref_input \<Rightarrow> ref_output \<Rightarrow> int \<Rightarrow> int list \<Rightarrow> string option" where
  "check_copies inp out rank remote =
    (let b = prefetchSlots (ri_config inp)
     in if ro_finalStatus out = PLAN_OK \<and>
           list_ex (\<lambda>slot. cell (ro_expertsToCopy out) (rank * b + slot) \<noteq>
                          (if slot < int (length remote) then remote ! nat slot else -1)) [0..b - 1]
        then Some ''expertsToCopy content mismatch'' else None)"

fun expect_rows :: "ref_input \<Rightarrow> ref_output \<Rightarrow> int list \<Rightarrow> int vec \<times> nat vec \<Rightarrow> string + int vec \<times> nat vec" where
  "expect_rows inp out [] acc = Inr acc"
| "expect_rows inp out (rank # ranks) acc =
    (let remote = ref_remote (ref_ctx_of inp) (cell (ro_alloc out)) rank;
         (stats, targets) = acc;
         acc1 = fold (expect_remote inp rank) remote (vec_set stats (rank * 2) (int (length remote)), targets)
     in case check_copies inp out rank remote of Some e \<Rightarrow> Inl e | None \<Rightarrow> expect_rows inp out ranks acc1)"

definition check_remote :: "ref_input \<Rightarrow> ref_output \<Rightarrow> string option" where
  "check_remote inp out =
    (case expect_rows inp out [0..ri_rankSize inp - 1]
            (vec_fill (ri_rankSize inp * 2) 0, vec_fill (ri_expertNum inp * ((ri_rankSize inp + 63) div 64)) 0) of
       Inl e \<Rightarrow> Some e
     | Inr (stats, targets) \<Rightarrow>
         if ro_finalStatus out = PLAN_OK \<and> \<not> vec_eq (ro_remoteStats out) stats then Some ''remoteStats mismatch''
         else if ro_finalStatus out = PLAN_OK \<and> \<not> vec_eq (ro_expertTargets out) targets
         then Some ''expertTargets content mismatch'' else None)"

section \<open>Segments\<close>

definition check_segment :: "ref_input \<Rightarrow> token_segment_move \<Rightarrow> string option" where
  "check_segment inp m =
    (if expertId m < 0 \<or> expertId m \<ge> ri_expertNum inp \<or> srcRank m < 0 \<or> srcRank m \<ge> ri_rankSize inp \<or>
        dstRank m < 0 \<or> dstRank m \<ge> ri_rankSize inp \<or> srcExpertBegin m < 0 \<or> dstExpertBegin m < 0 \<or> tokenCount m \<le> 0
     then Some ''invalid token segment'' else None)"

definition ranges_at :: "ref_input \<Rightarrow> (token_segment_move \<Rightarrow> int) \<Rightarrow> (token_segment_move \<Rightarrow> int) \<Rightarrow>
    token_segment_move list \<Rightarrow> int \<Rightarrow> (int \<times> int) list" where
  "ranges_at inp rank bgn segs i =
    map (\<lambda>m. (bgn m, tokenCount m)) (filter (\<lambda>m. rank m * ri_expertNum inp + expertId m = i) segs)"

fun ranges_contiguous :: "(int \<times> int) list \<Rightarrow> int \<Rightarrow> bool" where
  "ranges_contiguous [] cursor = True"
| "ranges_contiguous ((first, cnt) # ranges) cursor = (first = cursor \<and> ranges_contiguous ranges (cursor + cnt))"

definition pair_before :: "int \<times> int \<Rightarrow> int \<times> int \<Rightarrow> bool" where
  "pair_before x y = (fst x < fst y \<or> fst x = fst y \<and> snd x < snd y)"

definition check_ranges :: "ref_input \<Rightarrow> ref_output \<Rightarrow> int \<Rightarrow> string option" where
  "check_ranges inp out i =
    (let source = ranges_at inp srcRank srcExpertBegin (ro_segments out) i;
         destination = ranges_at inp dstRank dstExpertBegin (ro_segments out) i
     in if sum_list (map snd source) \<noteq> cell (ri_tokensPerExpert inp) i then Some ''source/expert segment conservation failed''
        else if sum_list (map snd destination) \<noteq> cell (ro_alloc out) i then Some ''destination/expert segment conservation failed''
        else if \<not> ranges_contiguous (std_sort pair_before source) 0
        then Some ''source/expert segment ranges are not contiguous''
        else if \<not> ranges_contiguous (std_sort pair_before destination) 0
        then Some ''destination/expert segment ranges are not contiguous'' else None)"

section \<open>Groups\<close>

fun check_groups :: "ref_input \<Rightarrow> ref_output \<Rightarrow> int \<Rightarrow> int list \<Rightarrow> int list \<Rightarrow> int \<Rightarrow> string option" where
  "check_groups inp out rank remote [] previous = None"
| "check_groups inp out rank remote (grp # grps) previous =
    (let config = ri_config inp; expertNum = ri_expertNum inp;
         fin = cell (ro_cuSeqlens out) (rank * (expertNum + prefetchSlots config) + grp);
         slot = grp - expertNum;
         realCount = (if grp < expertNum
                      then if slot_of_expert remote grp < 0 then cell (ro_alloc out) (rank * expertNum + grp) else 0
                      else if slot < int (length remote) then cell (ro_alloc out) (rank * expertNum + remote ! nat slot) else 0);
         (alignOk, padded) = (if realCount = 0 then (True, 0) else AlignUp realCount (tokenPadding config))
     in if fin < previous \<or> fin > nvS config then Some ''cuSeqlens is not monotonic or exceeds NvS''
        else if \<not> alignOk \<or> padded > nvS config - previous then Some ''group payload exceeds layout capacity''
        else if ro_finalStatus out = PLAN_OK \<and> fin \<noteq> previous + padded then Some ''cuSeqlens does not match group payload''
        else check_groups inp out rank remote grps fin)"

definition check_rank_layout :: "ref_input \<Rightarrow> ref_output \<Rightarrow> int \<Rightarrow> string option" where
  "check_rank_layout inp out rank =
    (if cell (ro_remoteStats out) (rank * 2) > prefetchSlots (ri_config inp) then Some ''remote expert count exceeds B''
     else check_groups inp out rank (ref_remote (ref_ctx_of inp) (cell (ro_alloc out)) rank)
            [0..ri_expertNum inp + prefetchSlots (ri_config inp) - 1] 0)"

section \<open>Destinations\<close>

fun check_token :: "ref_input \<Rightarrow> ref_output \<Rightarrow> int \<Rightarrow> int \<Rightarrow> int list \<Rightarrow> int set \<Rightarrow> int set \<Rightarrow> int set \<Rightarrow> string + int set" where
  "check_token inp out src token [] rawSlots positiveRanks seenRanks =
    (if positiveRanks \<noteq> seenRanks then Inl ''dedup positive route count mismatch'' else Inr rawSlots)"
| "check_token inp out src token (k # ks) rawSlots positiveRanks seenRanks =
    (let encoded = cell (ro_dst out) (src * rankTokenCapacity (ri_config inp) + token * ri_topK inp + k);
         raw = (if encoded \<ge> 0 then encoded else NOT encoded);
         dst = raw div nvS (ri_config inp);
         isFirst = dst \<notin> seenRanks
     in if raw < 0 \<or> raw \<ge> ri_rankSize inp * nvS (ri_config inp) then Inl ''dst is not decodable''
        else if raw \<in> rawSlots then Inl ''two routes share one destination slot''
        else if isFirst \<and> encoded < 0 then Inl ''first route to rank is negative''
        else if \<not> isFirst \<and> encoded \<ge> 0 then Inl ''duplicate route to rank is non-negative''
        else check_token inp out src token ks (insert raw rawSlots)
               (if encoded \<ge> 0 then insert dst positiveRanks else positiveRanks) (insert dst seenRanks))"

fun check_tokens :: "ref_input \<Rightarrow> ref_output \<Rightarrow> int \<Rightarrow> int list \<Rightarrow> int set \<Rightarrow> string + int set" where
  "check_tokens inp out src [] rawSlots = Inr rawSlots"
| "check_tokens inp out src (token # tokens) rawSlots =
    (case check_token inp out src token [0..ri_topK inp - 1] rawSlots {} {} of
       Inl e \<Rightarrow> Inl e | Inr rawSlots1 \<Rightarrow> check_tokens inp out src tokens rawSlots1)"

fun check_sources :: "ref_input \<Rightarrow> ref_output \<Rightarrow> int list \<Rightarrow> int set \<Rightarrow> string option" where
  "check_sources inp out [] rawSlots = None"
| "check_sources inp out (src # srcs) rawSlots =
    (case check_tokens inp out src [0..ri_s inp - 1] rawSlots of
       Inl e \<Rightarrow> Some e | Inr rawSlots1 \<Rightarrow> check_sources inp out srcs rawSlots1)"

section \<open>The checker\<close>

definition or_else :: "string option \<Rightarrow> string option \<Rightarrow> string option" where
  "or_else a b = (case a of None \<Rightarrow> b | Some e \<Rightarrow> Some e)"

definition CheckReferencePlanInvariants :: "ref_input \<Rightarrow> ref_output \<Rightarrow> string option" where
  "CheckReferencePlanInvariants inp out =
    (if ValidateInput inp \<noteq> PLAN_OK then Some ''input validation failed''
     else or_else (check_target_shapes inp out)
       (or_else (check_status inp out)
       (or_else (check_output_shapes inp out)
       (or_else (first_error (check_expert inp out) [0..ri_expertNum inp - 1])
       (or_else (first_error (check_rank_load inp out) [0..ri_rankSize inp - 1])
       (or_else (check_remote inp out)
       (or_else (first_error (check_segment inp) (ro_segments out))
       (or_else (first_error (check_ranges inp out) [0..ri_rankSize inp * ri_expertNum inp - 1])
       (or_else (first_error (check_rank_layout inp out) [0..ri_rankSize inp - 1])
         (check_sources inp out [0..ri_rankSize inp - 1] {}))))))))))"

end
