(* ===== verification/PlanCheckLayout.thy ===== *)
theory PlanCheckLayout
  imports PlanEquivalence PlanCheck
begin

text \<open>
  The checks of \<open>CheckReferencePlanInvariants\<close> on the tables of the reference layout.
\<close>

lemma first_error_None: "(first_error check xs = None) = (\<forall>x\<in>set xs. check x = None)"
  by (induction xs) (auto split: option.splits)

lemma or_else_None: "(or_else a b = None) = (a = None \<and> b = None)"
  by (simp add: or_else_def split: option.splits)

section \<open>Remote experts\<close>

lemma expect_remote_fold:
  assumes "rc = ref_ctx_of inp"
  shows "fold (expect_remote inp rank) row (ly_remoteStats ly, ly_expertTargets ly) =
    (let ly1 = fold (ref_place_remote rc rank) (zip [k..k + int (length row) - 1] row) ly in (ly_remoteStats ly1, ly_expertTargets ly1))"
proof (induction row arbitrary: k ly)
  case (Cons e row)
  have up: "[k..k + int (length (e # row)) - 1] = k # [k + 1..k + 1 + int (length row) - 1]"
    using upto_rec1 [of k "k + int (length (e # row)) - 1"] by (simp add: algebra_simps)
  have "expect_remote inp rank e (ly_remoteStats ly, ly_expertTargets ly) =
      (ly_remoteStats (ref_place_remote rc rank (k, e) ly), ly_expertTargets (ref_place_remote rc rank (k, e) ly))"
    by (simp add: expect_remote_def ref_place_remote_def Let_def assms ref_ctx_of_def)
  then show ?case unfolding up using Cons.IH [of "ref_place_remote rc rank (k, e) ly" "k + 1"] by (simp add: Let_def)
qed simp

lemma expect_rows_layout:
  assumes rc: "rc = ref_ctx_of inp" and alc: "cell (ro_alloc out) = alc"
    and copies: "\<forall>d\<in>set ds. check_copies inp out d (ref_remote rc alc d) = None"
  shows "ref_layout_rows rc alc ds ly = (True, ly') \<Longrightarrow>
    expect_rows inp out ds (ly_remoteStats ly, ly_expertTargets ly) = Inr (ly_remoteStats ly', ly_expertTargets ly')"
  using copies
proof (induction ds arbitrary: ly)
  case (Cons d ds)
  define row where "row = ref_remote rc alc d"
  define ly0 where "ly0 = ly\<lparr> ly_remoteStats := vec_set (ly_remoteStats ly) (d * 2) (int (length row)) \<rparr>"
  define ly1 where "ly1 = fold (ref_place_remote rc d) (zip [0..int (length row) - 1] row) ly0"
  have rest: "ref_layout_rows rc alc ds ly1 = (True, ly')"
    using Cons.prems(1) by (auto simp: Let_def row_def [symmetric] ly0_def [symmetric] ly1_def [symmetric] split: if_splits)
  have f: "fold (expect_remote inp d) row (vec_set (ly_remoteStats ly) (d * 2) (int (length row)), ly_expertTargets ly) =
      (ly_remoteStats ly1, ly_expertTargets ly1)"
    using expect_remote_fold [OF rc, of d row ly0 0] by (simp add: ly1_def Let_def) (simp add: ly0_def)
  show ?case using Cons.IH [OF rest] Cons.prems(2)
    by (simp add: Let_def alc rc [symmetric] row_def [symmetric] f)
qed simp

lemma place_copies:
  "cell (ly_expertsToCopy (fold (ref_place_remote rc dst) (zip [k..k + int (length row) - 1] row) ly)) =
    store_row (cell (ly_expertsToCopy ly)) (dst * rc_prefetchSlots rc + k) row"
proof (induction row arbitrary: k ly)
  case Nil
  show ?case by (simp add: store_row_def fun_eq_iff)
next
  case (Cons e row)
  have up: "[k..k + int (length (e # row)) - 1] = k # [k + 1..k + 1 + int (length row) - 1]"
    using upto_rec1 [of k "k + int (length (e # row)) - 1"] by (simp add: algebra_simps)
  have "cell (ly_expertsToCopy (ref_place_remote rc dst (k, e) ly)) = (cell (ly_expertsToCopy ly))(dst * rc_prefetchSlots rc + k := e)"
    by (simp add: ref_place_remote_def Let_def vec_set_def)
  then show ?case unfolding up store_row_Cons using Cons.IH [of "k + 1" "ref_place_remote rc dst (k, e) ly"]
    by (simp add: add.assoc del: fun_upd_apply)
qed

lemma rows_copies:
  "\<lbrakk>ref_layout_rows rc alc ds ly = (True, ly'); distinct ds; 0 \<le> slot; slot < rc_prefetchSlots rc\<rbrakk> \<Longrightarrow>
    cell (ly_expertsToCopy ly') (d * rc_prefetchSlots rc + slot) =
      (if d \<in> set ds \<and> slot < int (length (ref_remote rc alc d)) then ref_remote rc alc d ! nat slot
       else cell (ly_expertsToCopy ly) (d * rc_prefetchSlots rc + slot))"
proof (induction ds arbitrary: ly)
  case (Cons x ds)
  define row where "row = ref_remote rc alc x"
  define ly0 where "ly0 = ly\<lparr> ly_remoteStats := vec_set (ly_remoteStats ly) (x * 2) (int (length row)) \<rparr>"
  define ly1 where "ly1 = fold (ref_place_remote rc x) (zip [0..int (length row) - 1] row) ly0"
  have rest: "ref_layout_rows rc alc ds ly1 = (True, ly')" and len: "int (length row) \<le> rc_prefetchSlots rc"
    using Cons.prems(1) by (auto simp: Let_def row_def [symmetric] ly0_def [symmetric] ly1_def [symmetric] split: if_splits)
  have "cell (ly_expertsToCopy ly1) (d * rc_prefetchSlots rc + slot) =
      (if x = d \<and> slot < int (length row) then row ! nat slot else cell (ly_expertsToCopy ly) (d * rc_prefetchSlots rc + slot))"
    using place_copies [of rc x 0 row ly0] store_row_view [OF len Cons.prems(3,4), of "cell (ly_expertsToCopy ly0)" x d]
    by (simp add: ly1_def) (simp add: ly0_def)
  then show ?case using Cons.IH [OF rest] Cons.prems by (auto simp: row_def)
qed simp

lemma rows_counts:
  "\<lbrakk>ref_layout_rows rc alc ds ly = (True, ly'); d \<in> set ds\<rbrakk> \<Longrightarrow> int (length (ref_remote rc alc d)) \<le> rc_prefetchSlots rc"
  by (induction ds arbitrary: ly) (auto simp: Let_def split: if_splits)


lemma rows_stats:
  assumes "ref_ctx_sim rc c"
  shows "\<lbrakk>ref_layout_rows rc alc ds ly = (True, ly'); distinct ds\<rbrakk> \<Longrightarrow>
    cell (ly_remoteStats ly') (d * 2) = (if d \<in> set ds then int (length (ref_remote rc alc d)) else cell (ly_remoteStats ly) (d * 2))"
proof (induction ds arbitrary: ly)
  case (Cons x ds)
  define row where "row = ref_remote rc alc x"
  define ly0 where "ly0 = ly\<lparr> ly_remoteStats := vec_set (ly_remoteStats ly) (x * 2) (int (length row)) \<rparr>"
  define ly1 where "ly1 = fold (ref_place_remote rc x) (zip [0..int (length row) - 1] row) ly0"
  have rest: "ref_layout_rows rc alc ds ly1 = (True, ly')"
    using Cons.prems(1) by (auto simp: Let_def row_def [symmetric] ly0_def [symmetric] ly1_def [symmetric] split: if_splits)
  have "cell (ly_remoteStats ly1) (d * 2) = cell (ly_remoteStats ly0) (d * 2)"
    using place_row [OF assms, of x 0 row ly0] by (simp add: row_placed_def ly1_def)
  then show ?case using Cons.IH [OF rest] Cons.prems by (auto simp: row_def ly0_def vec_set_def)
qed simp

section \<open>Groups\<close>

lemma AlignUp_nonneg: "AlignUp v n = (True, p) \<Longrightarrow> 0 \<le> p"
  by (auto simp: AlignUp_def Let_def pos_imp_zdiv_nonneg_iff split: if_splits)

definition group_tables :: "ref_ctx \<Rightarrow> int \<Rightarrow> int list \<Rightarrow> ref_layout \<Rightarrow> ref_layout \<Rightarrow> bool" where
  "group_tables rc dst gs ly ly' = (ly_expertsToCopy ly' = ly_expertsToCopy ly \<and> ly_remoteStats ly' = ly_remoteStats ly \<and>
    ly_expertTargets ly' = ly_expertTargets ly \<and>
    (\<forall>i. i \<notin> (\<lambda>g. dst * (rc_expertNum rc + rc_prefetchSlots rc) + g) ` set gs \<longrightarrow> cell (ly_cuSeqlens ly') i = cell (ly_cuSeqlens ly) i))"

lemma group_tables_step:
  "group_tables rc dst gs (ly\<lparr> ly_base := b, ly_cuSeqlens := vec_set (ly_cuSeqlens ly) (dst * (rc_expertNum rc + rc_prefetchSlots rc) + g) x \<rparr>) ly' \<Longrightarrow>
   group_tables rc dst (g # gs) ly ly'"
  by (simp add: group_tables_def vec_set_def)

lemma groups_tables: "group_tables rc dst gs ly (snd (ref_layout_groups rc cfg alc dst row slots gs prev ly))"
proof (induction gs arbitrary: prev ly)
  case (Cons g gs)
  have cond: "group_tables rc dst (g # gs) ly (snd x) \<Longrightarrow> group_tables rc dst (g # gs) ly (snd y) \<Longrightarrow>
      group_tables rc dst (g # gs) ly (snd (if P then x else y))" for P and x y :: "bool \<times> ref_layout" by simp
  have failed: "group_tables rc dst (g # gs) ly (snd (False, ly\<lparr> ly_base := b \<rparr>))" for b by (simp add: group_tables_def)
  show ?case unfolding ref_layout_groups.simps Let_def split_def
    by (rule cond [OF failed group_tables_step [OF Cons.IH]])
qed (simp add: group_tables_def)

definition group_load :: "ref_input \<Rightarrow> int arr \<Rightarrow> int \<Rightarrow> int list \<Rightarrow> int \<Rightarrow> int" where
  "group_load inp alc dst row g =
    (if g < ri_expertNum inp then if slot_of_expert row g < 0 then alc (dst * ri_expertNum inp + g) else 0
     else if g - ri_expertNum inp < int (length row) then alc (dst * ri_expertNum inp + row ! nat (g - ri_expertNum inp)) else 0)"

definition group_pad :: "ref_input \<Rightarrow> int arr \<Rightarrow> int \<Rightarrow> int list \<Rightarrow> int \<Rightarrow> bool \<times> int" where
  "group_pad inp alc dst row g =
    (let cnt = group_load inp alc dst row g in if cnt = 0 then (True, 0) else AlignUp cnt (tokenPadding (ri_config inp)))"

lemma groups_step:
  assumes rc: "rc = ref_ctx_of inp" and al: "group_pad inp alc dst row g = (ok, pd)"
  obtains b where "ref_layout_groups rc (ri_config inp) alc dst row (slot_of_expert row) (g # gs) prev ly =
      (if \<not> ok \<or> pd > nvS (ri_config inp) - prev then (False, ly\<lparr> ly_base := b \<rparr>)
       else ref_layout_groups rc (ri_config inp) alc dst row (slot_of_expert row) gs (prev + pd)
         (ly\<lparr> ly_base := b, ly_cuSeqlens := vec_set (ly_cuSeqlens ly) (dst * (rc_expertNum rc + rc_prefetchSlots rc) + g) (prev + pd) \<rparr>))"
proof -
  have rf: "rc_expertNum rc = ri_expertNum inp" by (simp add: rc ref_ctx_of_def)
  let ?p = "if g < ri_expertNum inp
      then if slot_of_expert row g < 0 then (alc (ReIndex dst g (ri_expertNum inp)), (ly_base ly)(ReIndex dst g (ri_expertNum inp) := prev))
           else (0, ly_base ly)
      else if g - ri_expertNum inp < int (length row)
           then (alc (ReIndex dst (row ! nat (g - ri_expertNum inp)) (ri_expertNum inp)),
                 (ly_base ly)(ReIndex dst (row ! nat (g - ri_expertNum inp)) (ri_expertNum inp) := prev))
           else (0, ly_base ly)"
  have e: "?p = (group_load inp alc dst row g, snd ?p)" by (simp add: group_load_def ReIndex_def)
  show thesis by (rule that [of "snd ?p"]) (subst ref_layout_groups.simps, simp only: Let_def rf, subst e,
      simp only: prod.case al [unfolded group_pad_def Let_def])
qed

lemma groups_check:
  assumes rc: "rc = ref_ctx_of inp" and alc: "cell (ro_alloc out) = alc"
  defines "G \<equiv> rc_expertNum rc + rc_prefetchSlots rc"
  shows "\<lbrakk>ref_layout_groups rc (ri_config inp) alc dst row (slot_of_expert row) gs prev ly = (True, ly'); distinct gs;
      \<forall>g\<in>set gs. cell (ro_cuSeqlens out) (dst * G + g) = cell (ly_cuSeqlens ly') (dst * G + g); prev \<le> nvS (ri_config inp)\<rbrakk> \<Longrightarrow>
    check_groups inp out dst row gs prev = None"
proof (induction gs arbitrary: prev ly)
  case (Cons g gs)
  have G: "ri_expertNum inp + prefetchSlots (ri_config inp) = G" by (simp add: G_def rc ref_ctx_of_def)
  obtain ok pd where al: "group_pad inp alc dst row g = (ok, pd)" by fastforce
  obtain b where step: "ref_layout_groups rc (ri_config inp) alc dst row (slot_of_expert row) (g # gs) prev ly =
      (if \<not> ok \<or> pd > nvS (ri_config inp) - prev then (False, ly\<lparr> ly_base := b \<rparr>)
       else ref_layout_groups rc (ri_config inp) alc dst row (slot_of_expert row) gs (prev + pd)
         (ly\<lparr> ly_base := b, ly_cuSeqlens := vec_set (ly_cuSeqlens ly) (dst * G + g) (prev + pd) \<rparr>))"
    by (rule groups_step [OF rc al, folded G_def])
  define ly1 where "ly1 = ly\<lparr> ly_base := b, ly_cuSeqlens := vec_set (ly_cuSeqlens ly) (dst * G + g) (prev + pd) \<rparr>"
  have fit: "ok" "pd \<le> nvS (ri_config inp) - prev"
    and rest: "ref_layout_groups rc (ri_config inp) alc dst row (slot_of_expert row) gs (prev + pd) ly1 = (True, ly')"
    using Cons.prems(1) unfolding step by (auto simp: ly1_def split: if_splits)
  have nn: "0 \<le> pd" using al fit(1) AlignUp_nonneg by (auto simp: group_pad_def Let_def split: if_splits)
  have "dst * G + g \<notin> (\<lambda>g. dst * G + g) ` set gs" using Cons.prems(2) by auto
  then have "cell (ly_cuSeqlens ly') (dst * G + g) = cell (ly_cuSeqlens ly1) (dst * G + g)"
    using groups_tables [of rc dst gs ly1 "ri_config inp" alc row "slot_of_expert row" "prev + pd"]
    unfolding rest snd_conv group_tables_def G_def [symmetric] by blast
  then have fin: "cell (ro_cuSeqlens out) (dst * G + g) = prev + pd" using Cons.prems(3) by (simp add: ly1_def vec_set_def)
  have ih: "check_groups inp out dst row gs (prev + pd) = None"
    by (rule Cons.IH [OF rest]) (use Cons.prems fit in auto)
  have "check_groups inp out dst row (g # gs) prev = (if prev + pd < prev \<or> prev + pd > nvS (ri_config inp) then Some ''cuSeqlens is not monotonic or exceeds NvS''
        else if \<not> ok \<or> pd > nvS (ri_config inp) - prev then Some ''group payload exceeds layout capacity''
        else if ro_finalStatus out = PLAN_OK \<and> prev + pd \<noteq> prev + pd then Some ''cuSeqlens does not match group payload''
        else check_groups inp out dst row gs (prev + pd))"
    by (simp only: check_groups.simps Let_def alc group_load_def [symmetric] al [unfolded group_pad_def Let_def] prod.case fin G)
  then show ?case using ih fit nn by simp
qed simp

definition base_tables :: "ref_layout \<Rightarrow> ref_layout \<Rightarrow> bool" where
  "base_tables ly ly' = (ly_expertsToCopy ly' = ly_expertsToCopy ly \<and> ly_remoteStats ly' = ly_remoteStats ly \<and>
    ly_expertTargets ly' = ly_expertTargets ly)"

lemma bases_check:
  assumes rc: "rc = ref_ctx_of inp" and alc: "cell (ro_alloc out) = alc" and nv: "0 \<le> nvS (ri_config inp)"
  defines "G \<equiv> rc_expertNum rc + rc_prefetchSlots rc"
  shows "\<lbrakk>ref_layout_bases rc (ri_config inp) alc ds ly = (True, ly'); distinct ds\<rbrakk> \<Longrightarrow>
    base_tables ly ly' \<and>
    (\<forall>d g. d \<notin> set ds \<longrightarrow> g \<in> {0..<G} \<longrightarrow> cell (ly_cuSeqlens ly') (d * G + g) = cell (ly_cuSeqlens ly) (d * G + g)) \<and>
    (cell (ro_cuSeqlens out) = cell (ly_cuSeqlens ly') \<longrightarrow>
      (\<forall>d\<in>set ds. check_groups inp out d (ref_remote rc alc d) [0..G - 1] 0 = None))"
proof (induction ds arbitrary: ly)
  case (Cons d ds)
  let ?row = "ref_remote rc alc d"
  obtain ly1 where g: "ref_layout_groups rc (ri_config inp) alc d ?row (slot_of_expert ?row) [0..G - 1] 0 ly = (True, ly1)"
    and rest: "ref_layout_bases rc (ri_config inp) alc ds ly1 = (True, ly')"
    using Cons.prems(1) by (auto simp: Let_def G_def split: prod.splits if_splits)
  have ds: "d \<notin> set ds" "distinct ds" using Cons.prems(2) by simp_all
  note ih = Cons.IH [OF rest ds(2)]
  have tab: "group_tables rc d [0..G - 1] ly ly1" using groups_tables g by (metis snd_conv)
  have other: "cell (ly_cuSeqlens ly1) (x * G + k) = cell (ly_cuSeqlens ly) (x * G + k)" if "x \<noteq> d" "k \<in> {0..<G}" for x k
  proof -
    have "x * G + k \<notin> (\<lambda>g. d * G + g) ` set [0..G - 1]"
    proof
      assume "x * G + k \<in> (\<lambda>g. d * G + g) ` set [0..G - 1]"
      then obtain j where "j \<in> set [0..G - 1]" "x * G + k = d * G + j" by (rule imageE) blast
      then show False using flat_index_inj [of k G j x d] that by simp
    qed
    then show ?thesis using tab unfolding group_tables_def G_def [symmetric] by blast
  qed
  have "base_tables ly ly'" using tab ih by (simp add: base_tables_def group_tables_def)
  moreover have "cell (ly_cuSeqlens ly') (x * G + k) = cell (ly_cuSeqlens ly) (x * G + k)" if "x \<notin> set (d # ds)" "k \<in> {0..<G}" for x k
    using ih other [of x k] that by simp
  moreover have "check_groups inp out d ?row [0..G - 1] 0 = None" if "cell (ro_cuSeqlens out) = cell (ly_cuSeqlens ly')"
    by (rule groups_check [OF rc alc g]) (use that ih ds nv in \<open>auto simp: G_def\<close>)
  ultimately show ?case using ih by simp
qed (simp add: base_tables_def)

text \<open>The tables of a layout that fits pass the checks on them.\<close>

lemma layout_checks:
  assumes rc: "rc = ref_ctx_of inp" and alc: "cell (ro_alloc out) = alc" and nv: "0 \<le> nvS (ri_config inp)"
    and ly: "ref_BuildLayouts rc (ri_config inp) alc = (PLAN_OK, ly)"
    and out: "ro_cuSeqlens out = ly_cuSeqlens ly" "ro_remoteStats out = ly_remoteStats ly" "ro_expertTargets out = ly_expertTargets ly"
      "ro_expertsToCopy out = ly_expertsToCopy ly"
    and per: "ri_rankSize inp * (ri_expertNum inp div ri_rankSize inp) = ri_expertNum inp"
    and cs: "ref_ctx_sim rc c"
  shows "check_remote inp out = None \<and> (\<forall>d\<in>{0..<ri_rankSize inp}. check_rank_layout inp out d = None)"
proof -
  let ?ds = "[0..rc_rankSize rc - 1]"
  have rf: "rc_rankSize rc = ri_rankSize inp" "rc_expertNum rc = ri_expertNum inp" "rc_prefetchSlots rc = prefetchSlots (ri_config inp)"
    "rc_expertsPerRank rc = ri_expertNum inp div ri_rankSize inp" by (simp_all add: rc ref_ctx_of_def)
  obtain ly1 where rows: "ref_layout_rows rc alc ?ds (ref_layout_init rc) = (True, ly1)"
    and bases: "ref_layout_bases rc (ri_config inp) alc ?ds ly1 = (True, ly)"
    using ly by (auto simp: ref_BuildLayouts_def Let_def split: prod.splits if_splits)
  note bc = bases_check [OF rc alc nv bases distinct_upto]
  have keep: "ly_expertsToCopy ly = ly_expertsToCopy ly1" "ly_remoteStats ly = ly_remoteStats ly1" "ly_expertTargets ly = ly_expertTargets ly1"
    using bc by (simp_all add: base_tables_def)
  have copies: "check_copies inp out d (ref_remote rc alc d) = None" if "d \<in> set ?ds" for d
  proof -
    have "cell (ro_expertsToCopy out) (d * prefetchSlots (ri_config inp) + slot) =
        (if slot < int (length (ref_remote rc alc d)) then ref_remote rc alc d ! nat slot else -1)"
      if "slot \<in> set [0..prefetchSlots (ri_config inp) - 1]" for slot
      using rows_copies [OF rows distinct_upto, of slot d] that \<open>d \<in> set ?ds\<close> by (simp add: out keep rf ref_layout_init_def Let_def vec_fill_def)
    then show ?thesis by (auto simp: check_copies_def Let_def list_ex_iff)
  qed
  have "expect_rows inp out ?ds (ly_remoteStats (ref_layout_init rc), ly_expertTargets (ref_layout_init rc)) = Inr (ly_remoteStats ly1, ly_expertTargets ly1)"
    by (rule expect_rows_layout [OF rc alc _ rows]) (use copies in blast)
  then have "check_remote inp out = None"
    by (simp add: check_remote_def ref_layout_init_def Let_def rf per out keep vec_eq_def list_all_iff)
  moreover have "check_rank_layout inp out d = None" if d: "d \<in> {0..<ri_rankSize inp}" for d
  proof -
    have st: "cell (ro_remoteStats out) (d * 2) \<le> prefetchSlots (ri_config inp)"
      using rows_stats [OF cs rows distinct_upto, of d] rows_counts [OF rows, of d] d by (simp add: out keep rf)
    have "check_groups inp out d (ref_remote rc alc d) [0..ri_expertNum inp + prefetchSlots (ri_config inp) - 1] 0 = None"
      using bc d by (simp add: rf out)
    then show ?thesis using st by (simp add: check_rank_layout_def rc [symmetric] alc)
  qed
  ultimately show ?thesis by blast
qed
end
