(* ===== verification/PlanCheckCodes.thy ===== *)
theory PlanCheckCodes
  imports PlanCheckLayout
begin

text \<open>
  The destinations that \<open>CheckReferencePlanInvariants\<close> accepts.
\<close>

section \<open>Destinations\<close>

definition code_at :: "ref_input \<Rightarrow> ref_output \<Rightarrow> int \<Rightarrow> int \<Rightarrow> int \<Rightarrow> int" where
  "code_at inp out src token k = cell (ro_dst out) (src * rankTokenCapacity (ri_config inp) + token * ri_topK inp + k)"

abbreviation raw_at :: "ref_input \<Rightarrow> ref_output \<Rightarrow> int \<Rightarrow> int \<Rightarrow> int \<Rightarrow> int" where
  "raw_at inp out src token k \<equiv> raw_of (code_at inp out src token k)"

abbreviation rank_at :: "ref_input \<Rightarrow> ref_output \<Rightarrow> int \<Rightarrow> int \<Rightarrow> int \<Rightarrow> int" where
  "rank_at inp out src token k \<equiv> raw_at inp out src token k div nvS (ri_config inp)"

definition token_ok :: "ref_input \<Rightarrow> ref_output \<Rightarrow> int \<Rightarrow> int \<Rightarrow> int list \<Rightarrow> int set \<Rightarrow> bool" where
  "token_ok inp out src token ks seen =
    ((\<forall>k\<in>set ks. 0 \<le> raw_at inp out src token k \<and> raw_at inp out src token k < ri_rankSize inp * nvS (ri_config inp)) \<and>
     (\<forall>as k bs. ks = as @ k # bs \<longrightarrow>
       (0 \<le> code_at inp out src token k) = (rank_at inp out src token k \<notin> seen \<union> rank_at inp out src token ` set as)))"

lemma all_splits_Cons:
  "(\<forall>as k bs. x # xs = as @ k # bs \<longrightarrow> P as k) = (P [] x \<and> (\<forall>as k bs. xs = as @ k # bs \<longrightarrow> P (x # as) k))"
proof (intro iffI conjI allI impI)
  fix as k bs assume h: "P [] x \<and> (\<forall>as k bs. xs = as @ k # bs \<longrightarrow> P (x # as) k)" "x # xs = as @ k # bs"
  then show "P as k" by (cases as) auto
qed (force+)

text \<open>Values that are pairwise different and not in a set.\<close>

definition fresh :: "int set \<Rightarrow> int list \<Rightarrow> bool" where
  "fresh R xs = (distinct xs \<and> set xs \<inter> R = {})"

lemma fresh_Nil [simp]: "fresh R []"
  by (simp add: fresh_def)

lemma fresh_Cons: "fresh R (x # xs) = (x \<notin> R \<and> fresh (insert x R) xs)"
  by (auto simp: fresh_def)

lemma fresh_append: "fresh R (xs @ ys) = (fresh R xs \<and> fresh (R \<union> set xs) ys)"
  by (auto simp: fresh_def)

lemma token_ok_Cons:
  "token_ok inp out src token (k # ks) seen =
    (0 \<le> raw_at inp out src token k \<and> raw_at inp out src token k < ri_rankSize inp * nvS (ri_config inp) \<and>
     (0 \<le> code_at inp out src token k) = (rank_at inp out src token k \<notin> seen) \<and>
     token_ok inp out src token ks (insert (rank_at inp out src token k) seen))"
  unfolding token_ok_def all_splits_Cons list.set(2) ball_simps image_insert Un_insert_left [symmetric] Un_insert_right
  by (simp only: list.set(1) image_empty Un_empty_right conj_assoc conj_left_commute conj_commute)

lemma check_token_iff:
  "(check_token inp out src token ks raws seen seen = Inr raws') =
    (token_ok inp out src token ks seen \<and> fresh raws (map (raw_at inp out src token) ks) \<and>
     raws' = raws \<union> raw_at inp out src token ` set ks)"
proof (induction ks arbitrary: raws seen)
  case Nil
  show ?case by (auto simp: token_ok_def)
next
  case (Cons k ks)
  let ?e = "code_at inp out src token k" and ?r = "raw_at inp out src token k" and ?d = "rank_at inp out src token k"
  have step: "check_token inp out src token (k # ks) raws seen seen =
      (if ?r < 0 \<or> ?r \<ge> ri_rankSize inp * nvS (ri_config inp) then Inl ''dst is not decodable''
       else if ?r \<in> raws then Inl ''two routes share one destination slot''
       else if ?d \<notin> seen \<and> ?e < 0 then Inl ''first route to rank is negative''
       else if \<not> ?d \<notin> seen \<and> ?e \<ge> 0 then Inl ''duplicate route to rank is non-negative''
       else check_token inp out src token ks (insert ?r raws) (if ?e \<ge> 0 then insert ?d seen else seen) (insert ?d seen))"
    by (simp only: check_token.simps Let_def code_at_def [symmetric] raw_of_def [symmetric])
  show ?case
  proof (cases "0 \<le> ?r \<and> ?r < ri_rankSize inp * nvS (ri_config inp) \<and> ?r \<notin> raws \<and> (0 \<le> ?e) = (?d \<notin> seen)")
    case True
    then have "(if ?e \<ge> 0 then insert ?d seen else seen) = insert ?d seen" by auto
    then have "check_token inp out src token (k # ks) raws seen seen = check_token inp out src token ks (insert ?r raws) (insert ?d seen) (insert ?d seen)"
      unfolding step using True by auto
    then show ?thesis unfolding token_ok_Cons list.map(2) fresh_Cons using True Cons.IH [of "insert ?r raws" "insert ?d seen"] by auto
  next
    case False
    then have "\<nexists>r. check_token inp out src token (k # ks) raws seen seen = Inr r" unfolding step by auto
    then show ?thesis unfolding token_ok_Cons list.map(2) fresh_Cons using False by auto
  qed
qed

definition token_raws :: "ref_input \<Rightarrow> ref_output \<Rightarrow> int \<Rightarrow> int \<Rightarrow> int list" where
  "token_raws inp out src token = map (raw_at inp out src token) [0..ri_topK inp - 1]"

definition source_raws :: "ref_input \<Rightarrow> ref_output \<Rightarrow> int list \<Rightarrow> int \<Rightarrow> int list" where
  "source_raws inp out tokens src = concat (map (token_raws inp out src) tokens)"

lemma check_token_raws:
  "(check_token inp out src token [0..ri_topK inp - 1] raws {} {} = Inr raws') =
    (token_ok inp out src token [0..ri_topK inp - 1] {} \<and> fresh raws (token_raws inp out src token) \<and> raws' = raws \<union> set (token_raws inp out src token))"
  by (simp only: check_token_iff token_raws_def set_map)

lemma check_tokens_iff:
  "(check_tokens inp out src tokens raws = Inr raws') =
    ((\<forall>token\<in>set tokens. token_ok inp out src token [0..ri_topK inp - 1] {}) \<and>
     fresh raws (source_raws inp out tokens src) \<and> raws' = raws \<union> set (source_raws inp out tokens src))"
proof (induction tokens arbitrary: raws)
  case Nil
  show ?case by (auto simp: source_raws_def)
next
  case (Cons token tokens)
  let ?ks = "[0..ri_topK inp - 1]"
  have rs: "source_raws inp out (token # tokens) src = token_raws inp out src token @ source_raws inp out tokens src" by (simp add: source_raws_def)
  note it = check_token_raws [of inp out src token raws]
  show ?case
  proof (cases "check_token inp out src token ?ks raws {} {}")
    case (Inl e)
    then have "\<not> (token_ok inp out src token ?ks {} \<and> fresh raws (token_raws inp out src token))" using it by fastforce
    then show ?thesis using Inl unfolding rs fresh_append by auto
  next
    case (Inr raws1)
    then have "token_ok inp out src token ?ks {}" "fresh raws (token_raws inp out src token)" "raws1 = raws \<union> set (token_raws inp out src token)"
      using it by blast+
    then show ?thesis using Inr Cons.IH [of raws1] unfolding rs fresh_append by (simp only: check_tokens.simps sum.case set_append Un_assoc) simp
  qed
qed

lemma check_sources_iff:
  "(check_sources inp out srcs raws = None) =
    ((\<forall>src\<in>set srcs. \<forall>token\<in>set [0..ri_s inp - 1]. token_ok inp out src token [0..ri_topK inp - 1] {}) \<and>
     fresh raws (concat (map (source_raws inp out [0..ri_s inp - 1]) srcs)))"
proof (induction srcs arbitrary: raws)
  case (Cons src srcs)
  let ?ts = "[0..ri_s inp - 1]"
  note it = check_tokens_iff [of inp out src ?ts raws]
  show ?case
  proof (cases "check_tokens inp out src ?ts raws")
    case (Inl e)
    then have "\<not> ((\<forall>token\<in>set ?ts. token_ok inp out src token [0..ri_topK inp - 1] {}) \<and> fresh raws (source_raws inp out ?ts src))" using it by fastforce
    then show ?thesis using Inl unfolding list.map(2) concat.simps(2) fresh_append by auto
  next
    case (Inr raws1)
    then have "\<forall>token\<in>set ?ts. token_ok inp out src token [0..ri_topK inp - 1] {}" "fresh raws (source_raws inp out ?ts src)"
        "raws1 = raws \<union> set (source_raws inp out ?ts src)"
      using it by blast+
    then show ?thesis using Inr Cons.IH [of raws1] unfolding list.map(2) concat.simps(2) fresh_append by (simp only: check_sources.simps sum.case) simp
  qed
qed simp

text \<open>What an accepted table of destinations is: every code names a place in the window of a rank, no
  two routes of the job share a place, and a code is complemented exactly when an earlier route of
  its token goes to the same rank.\<close>

definition codes_ok :: "ref_input \<Rightarrow> ref_output \<Rightarrow> bool" where
  "codes_ok inp out =
    ((\<forall>src\<in>{0..<ri_rankSize inp}. \<forall>token\<in>{0..<ri_s inp}. \<forall>k\<in>{0..<ri_topK inp}.
        0 \<le> raw_at inp out src token k \<and> raw_at inp out src token k < ri_rankSize inp * nvS (ri_config inp) \<and>
        (0 \<le> code_at inp out src token k) = (rank_at inp out src token k \<notin> rank_at inp out src token ` {0..<k})) \<and>
     inj_on (\<lambda>(src, token, k). raw_at inp out src token k) ({0..<ri_rankSize inp} \<times> {0..<ri_s inp} \<times> {0..<ri_topK inp}))"

lemma set_upto_below: "set [0..n - 1] = {0..<n}"
  by auto

lemma upto_splits: "([0..n - 1] = as @ k # bs) = (k \<in> {0..<n} \<and> as = [0..k - 1] \<and> bs = [k + 1..n - 1])"
proof -
  have split: "[0..n - 1] = [0..k - 1] @ k # [k + 1..n - 1]" if "k \<in> {0..<n}" using upto_split3 [of 0 k "n - 1"] that by simp
  have k: "k \<in> {0..<n}" if "[0..n - 1] = as @ k # bs" using arg_cong [OF that, of set] unfolding set_upto_below by auto
  have "([0..n - 1] = as @ k # bs) = (as = [0..k - 1] \<and> bs = [k + 1..n - 1])" if r: "k \<in> {0..<n}"
    unfolding split [OF r] using append_Cons_eq_iff [of k "[0..k - 1]" "[k + 1..n - 1]" as bs] by auto
  then show ?thesis using k by blast
qed

lemma token_ok_upto:
  "token_ok inp out src token [0..n - 1] {} = (\<forall>k\<in>{0..<n}. 0 \<le> raw_at inp out src token k \<and>
     raw_at inp out src token k < ri_rankSize inp * nvS (ri_config inp) \<and>
     (0 \<le> code_at inp out src token k) = (rank_at inp out src token k \<notin> rank_at inp out src token ` {0..<k}))"
  unfolding token_ok_def upto_splits by auto

lemma codes_check: "(check_sources inp out [0..ri_rankSize inp - 1] {} = None) = codes_ok inp out"
proof -
  have c: "concat (map (source_raws inp out [0..ri_s inp - 1]) [0..ri_rankSize inp - 1]) =
      map (\<lambda>(src, token, k). raw_at inp out src token k)
        (List.product [0..ri_rankSize inp - 1] (List.product [0..ri_s inp - 1] [0..ri_topK inp - 1]))"
    by (simp add: product_concat_map source_raws_def [abs_def] token_raws_def [abs_def] map_concat comp_def)
  have "distinct (List.product [0..ri_rankSize inp - 1] (List.product [0..ri_s inp - 1] [0..ri_topK inp - 1]))"
    by (intro distinct_product) simp_all
  moreover have "set (List.product [0..ri_rankSize inp - 1] (List.product [0..ri_s inp - 1] [0..ri_topK inp - 1])) =
      {0..<ri_rankSize inp} \<times> {0..<ri_s inp} \<times> {0..<ri_topK inp}" by auto
  ultimately have "fresh {} (concat (map (source_raws inp out [0..ri_s inp - 1]) [0..ri_rankSize inp - 1])) =
      inj_on (\<lambda>(src, token, k). raw_at inp out src token k) ({0..<ri_rankSize inp} \<times> {0..<ri_s inp} \<times> {0..<ri_topK inp})"
    unfolding c fresh_def distinct_map by simp
  then show ?thesis unfolding check_sources_iff token_ok_upto codes_ok_def set_upto_below by blast
qed

end
