(* ===== verification/PlanCheckSegments.thy ===== *)
theory PlanCheckSegments
  imports PlanCheckLayout
begin

text \<open>
  The segments that \<open>CheckReferencePlanInvariants\<close> accepts.
\<close>

definition in_range :: "int \<Rightarrow> int \<times> int \<Rightarrow> bool" where
  "in_range n r = (fst r \<le> n \<and> n < fst r + snd r)"

lemma in_range_pair [simp]: "in_range n (b, k) = (b \<le> n \<and> n < b + k)"
  by (simp add: in_range_def)

lemma contiguous_after: "ranges_contiguous rs lo \<Longrightarrow> \<forall>r\<in>set rs. 0 < snd r \<Longrightarrow> n < lo \<Longrightarrow> filter (in_range n) rs = []"
proof (induction rs arbitrary: lo)
  case (Cons r rs)
  obtain b k where r: "r = (b, k)" by fastforce
  have "filter (in_range n) rs = []" using Cons.IH [of "lo + k"] Cons.prems r by simp
  then show ?case using Cons.prems r by simp
qed simp

lemma contiguous_cover:
  "\<lbrakk>ranges_contiguous rs lo; \<forall>r\<in>set rs. 0 < snd r\<rbrakk> \<Longrightarrow>
    length (filter (in_range n) rs) = (if lo \<le> n \<and> n < lo + sum_list (map snd rs) then 1 else 0)"
proof (induction rs arbitrary: lo)
  case (Cons r rs)
  obtain b k where r: "r = (b, k)" by fastforce
  have h: "b = lo" "ranges_contiguous rs (lo + k)" "0 < k" "\<forall>r\<in>set rs. 0 < snd r" using Cons.prems r by simp_all
  have nn: "0 \<le> sum_list (map snd rs)" by (rule sum_list_nonneg) (use h(4) in auto)
  show ?case
  proof (cases "n < lo + k")
    case True
    then have "filter (in_range n) rs = []" by (rule contiguous_after [OF h(2,4)])
    then show ?thesis using True h(1,3) nn by (simp add: r)
  next
    case False
    then show ?thesis using Cons.IH [OF h(2,4)] h(1,3) by (simp add: r algebra_simps)
  qed
qed simp

lemma length_filter_std_sort: "length (filter P (std_sort lt xs)) = length (filter P xs)"
  using mset_std_sort [of lt xs] by (metis mset_filter size_mset)

lemma sum_list_std_sort: "sum_list (map f (std_sort lt xs)) = sum_list (map f xs)" for f :: "'a \<Rightarrow> int"
  using mset_std_sort [of lt xs] by (metis mset_map sum_mset_sum_list)

text \<open>The segments of a rank and an expert cut the tokens into intervals: every token is in exactly one
  of them.\<close>

definition cuts :: "(token_segment_move \<Rightarrow> int) \<Rightarrow> token_segment_move list \<Rightarrow> int \<Rightarrow> bool" where
  "cuts bgn ms amount = (\<forall>n. length (filter (\<lambda>m. bgn m \<le> n \<and> n < bgn m + tokenCount m) ms) = (if 0 \<le> n \<and> n < amount then 1 else 0))"

lemma ranges_cuts:
  assumes "ranges_contiguous (std_sort pair_before (map (\<lambda>m. (bgn m, tokenCount m)) ms)) 0" "\<forall>m\<in>set ms. 0 < tokenCount m"
  shows "cuts bgn ms (sum_list (map tokenCount ms))"
proof -
  let ?rs = "map (\<lambda>m. (bgn m, tokenCount m)) ms"
  have pos: "\<forall>r\<in>set (std_sort pair_before ?rs). 0 < snd r" using assms(2) by (auto simp: set_std_sort)
  have f: "length (filter (in_range n) ?rs) = length (filter (\<lambda>m. bgn m \<le> n \<and> n < bgn m + tokenCount m) ms)" for n
    by (simp add: filter_map comp_def in_range_def)
  have s: "sum_list (map snd ?rs) = sum_list (map tokenCount ms)" by (simp add: comp_def)
  show ?thesis unfolding cuts_def
    using contiguous_cover [OF assms(1) pos] unfolding length_filter_std_sort sum_list_std_sort f s by simp
qed

lemma std_sort_chained:
  "chained bgn lo ms hi \<Longrightarrow> std_sort pair_before (map (\<lambda>m. (bgn m, tokenCount m)) ms) = map (\<lambda>m. (bgn m, tokenCount m)) ms \<and>
    ranges_contiguous (map (\<lambda>m. (bgn m, tokenCount m)) ms) lo"
proof (induction ms arbitrary: lo)
  case Nil
  show ?case by (simp add: std_sort_def)
next
  case (Cons m ms)
  have h: "bgn m = lo" "0 < tokenCount m" "chained bgn (lo + tokenCount m) ms hi" using Cons.prems by simp_all
  let ?p = "\<lambda>m. (bgn m, tokenCount m)"
  have "insert_by pair_before (?p m) (map ?p ms) = ?p m # map ?p ms"
    using h by (cases ms) (auto simp: pair_before_def)
  then show ?case using Cons.IH [OF h(3)] h(1) by (simp add: std_sort_def)
qed

section \<open>Segments of a plan\<close>

lemma ranges_at_segs:
  assumes "\<forall>m\<in>set segs. 0 \<le> expertId m \<and> expertId m < ri_expertNum inp" "0 \<le> e" "e < ri_expertNum inp"
  shows "ranges_at inp rank bgn segs (r * ri_expertNum inp + e) =
    map (\<lambda>m. (bgn m, tokenCount m)) (filter (\<lambda>m. rank m = r \<and> expertId m = e) segs)"
proof -
  have "filter (\<lambda>m. rank m * ri_expertNum inp + expertId m = r * ri_expertNum inp + e) segs =
      filter (\<lambda>m. rank m = r \<and> expertId m = e) segs"
  proof (rule filter_cong [OF refl])
    fix m assume "m \<in> set segs"
    then have "0 \<le> expertId m" "expertId m < ri_expertNum inp" using assms(1) by blast+
    from flat_index_inj [OF this assms(2,3), of "rank m" r]
    show "(rank m * ri_expertNum inp + expertId m = r * ri_expertNum inp + e) = (rank m = r \<and> expertId m = e)" .
  qed
  then show ?thesis by (simp only: ranges_at_def)
qed

definition segments_ok :: "ref_input \<Rightarrow> ref_output \<Rightarrow> bool" where
  "segments_ok inp out = (\<forall>r\<in>{0..<ri_rankSize inp}. \<forall>e\<in>{0..<ri_expertNum inp}.
     cuts srcExpertBegin (filter (\<lambda>m. srcRank m = r \<and> expertId m = e) (ro_segments out)) (cell (ri_tokensPerExpert inp) (r * ri_expertNum inp + e)) \<and>
     cuts dstExpertBegin (filter (\<lambda>m. dstRank m = r \<and> expertId m = e) (ro_segments out)) (cell (ro_alloc out) (r * ri_expertNum inp + e)))"

lemma segment_valid:
  "(check_segment inp m = None) = (expertId m \<in> {0..<ri_expertNum inp} \<and> srcRank m \<in> {0..<ri_rankSize inp} \<and> dstRank m \<in> {0..<ri_rankSize inp} \<and>
     0 \<le> srcExpertBegin m \<and> 0 \<le> dstExpertBegin m \<and> 0 < tokenCount m)"
  by (auto simp: check_segment_def)

lemma segments_sound:
  assumes seg: "first_error (check_segment inp) (ro_segments out) = None"
    and rg: "first_error (check_ranges inp out) [0..ri_rankSize inp * ri_expertNum inp - 1] = None"
  shows "segments_ok inp out"
  unfolding segments_ok_def
proof (intro ballI)
  fix r e assume r: "r \<in> {0..<ri_rankSize inp}" and e: "e \<in> {0..<ri_expertNum inp}"
  let ?i = "r * ri_expertNum inp + e"
  have val: "\<forall>m\<in>set (ro_segments out). 0 \<le> expertId m \<and> expertId m < ri_expertNum inp" "\<forall>m\<in>set (ro_segments out). 0 < tokenCount m"
    using seg unfolding first_error_None segment_valid by simp_all
  have at: "ranges_at inp rank bgn (ro_segments out) ?i = map (\<lambda>m. (bgn m, tokenCount m)) (filter (\<lambda>m. rank m = r \<and> expertId m = e) (ro_segments out))"
    for rank bgn by (rule ranges_at_segs [OF val(1)]) (use e in simp_all)
  have "?i \<le> (ri_rankSize inp - 1) * ri_expertNum inp + e" using r e by (simp add: mult_right_mono)
  then have "?i \<in> set [0..ri_rankSize inp * ri_expertNum inp - 1]" using r e by (simp add: algebra_simps)
  then have "check_ranges inp out ?i = None" using rg unfolding first_error_None by blast
  then have src: "ranges_contiguous (std_sort pair_before (ranges_at inp srcRank srcExpertBegin (ro_segments out) ?i)) 0"
      "sum_list (map snd (ranges_at inp srcRank srcExpertBegin (ro_segments out) ?i)) = cell (ri_tokensPerExpert inp) ?i"
    and dst: "ranges_contiguous (std_sort pair_before (ranges_at inp dstRank dstExpertBegin (ro_segments out) ?i)) 0"
      "sum_list (map snd (ranges_at inp dstRank dstExpertBegin (ro_segments out) ?i)) = cell (ro_alloc out) ?i"
    by (simp_all add: check_ranges_def Let_def split: if_splits)
  have pos: "\<forall>m\<in>set (filter P (ro_segments out)). 0 < tokenCount m" for P using val(2) by simp
  show "cuts srcExpertBegin (filter (\<lambda>m. srcRank m = r \<and> expertId m = e) (ro_segments out)) (cell (ri_tokensPerExpert inp) ?i) \<and>
     cuts dstExpertBegin (filter (\<lambda>m. dstRank m = r \<and> expertId m = e) (ro_segments out)) (cell (ro_alloc out) ?i)"
    using ranges_cuts [OF src(1) [unfolded at] pos] ranges_cuts [OF dst(1) [unfolded at] pos] src(2) dst(2)
    by (simp add: at comp_def)
qed

text \<open>The segments of the planner.\<close>

lemma plan_full_chained:
  assumes "plan_full c tpe s" "r \<in> ranks_of c" "e \<in> experts_of c"
  shows "chained srcExpertBegin 0 (segs_from s r e) (at c tpe r e)" "chained dstExpertBegin 0 (segs_to s r e) (at c (alloc s) r e)"
proof -
  have flow: "inv_flow c tpe s" using assms(1) by (simp add: plan_full_def)
  have "chained srcExpertBegin 0 (segs_from s r e) (at c (srcExpertCursor s) r e)" "at c (srcExpertCursor s) r e + at c (remainingTpe s) r e = at c tpe r e"
      "chained dstExpertBegin 0 (segs_to s r e) (at c (dstExpertCursor s) r e)"
    using flow assms(2,3) unfolding inv_flow_def by blast+
  moreover have "at c (remainingTpe s) r e = 0" "at c (dstExpertCursor s) r e = at c (alloc s) r e"
    using assms unfolding plan_full_def by blast+
  ultimately show "chained srcExpertBegin 0 (segs_from s r e) (at c tpe r e)" "chained dstExpertBegin 0 (segs_to s r e) (at c (alloc s) r e)"
    by simp_all
qed

lemma plan_full_range:
  assumes "plan_full c tpe s" "m \<in> set (segmentLog s)"
  shows "srcRank m \<in> ranks_of c" "dstRank m \<in> ranks_of c" "expertId m \<in> experts_of c"
  using assms unfolding plan_full_def inv_flow_def by blast+

lemma segments_valid:
  assumes full: "plan_full c tpe s" and c: "c_rankSize c = ri_rankSize inp" "c_expertNum c = ri_expertNum inp"
  shows "first_error (check_segment inp) (segmentLog s) = None"
  unfolding first_error_None segment_valid
proof
  fix m assume m: "m \<in> set (segmentLog s)"
  note rng = plan_full_range [OF full m]
  have "m \<in> set (segs_from s (srcRank m) (expertId m))" "m \<in> set (segs_to s (dstRank m) (expertId m))"
    using m by (simp_all add: segs_from_def segs_to_def)
  with chained_mem [OF plan_full_chained(1) [OF full rng(1,3)]] chained_mem [OF plan_full_chained(2) [OF full rng(2,3)]] rng
  show "expertId m \<in> {0..<ri_expertNum inp} \<and> srcRank m \<in> {0..<ri_rankSize inp} \<and> dstRank m \<in> {0..<ri_rankSize inp} \<and>
      0 \<le> srcExpertBegin m \<and> 0 \<le> dstExpertBegin m \<and> 0 < tokenCount m"
    unfolding c [symmetric] by blast
qed

lemma segments_ranges:
  assumes full: "plan_full c (cell (ri_tokensPerExpert inp)) s" and c: "c_rankSize c = ri_rankSize inp" "c_expertNum c = ri_expertNum inp"
    and E: "0 < ri_expertNum inp" and out: "ro_segments out = segmentLog s" "cell (ro_alloc out) = alloc s"
  shows "first_error (check_ranges inp out) [0..ri_rankSize inp * ri_expertNum inp - 1] = None"
  unfolding first_error_None
proof
  let ?T = "cell (ri_tokensPerExpert inp)"
  fix i assume i: "i \<in> set [0..ri_rankSize inp * ri_expertNum inp - 1]"
  define r e where "r = i div ri_expertNum inp" and "e = i mod ri_expertNum inp"
  have ie: "i = r * ri_expertNum inp + e" by (simp add: r_def e_def)
  have e: "0 \<le> e" "e < ri_expertNum inp" using E by (simp_all add: e_def)
  have "r * ri_expertNum inp < ri_rankSize inp * ri_expertNum inp" using i ie e(1) unfolding set_upto atLeastAtMost_iff by linarith
  then have re: "r \<in> ranks_of c" "e \<in> experts_of c" using i E e by (simp_all add: r_def c pos_imp_zdiv_nonneg_iff)
  have val: "\<forall>m\<in>set (segmentLog s). 0 \<le> expertId m \<and> expertId m < ri_expertNum inp" using plan_full_range(3) [OF full] by (simp add: c)
  have at1: "ranges_at inp srcRank srcExpertBegin (segmentLog s) i = map (\<lambda>m. (srcExpertBegin m, tokenCount m)) (segs_from s r e)"
    "ranges_at inp dstRank dstExpertBegin (segmentLog s) i = map (\<lambda>m. (dstExpertBegin m, tokenCount m)) (segs_to s r e)"
    unfolding ie segs_from_def segs_to_def by (rule ranges_at_segs [OF val]; use re in \<open>simp add: c\<close>)+
  have at2: "at c ?T r e = ?T i" "at c (alloc s) r e = alloc s i" by (simp_all add: at_def ReIndex_def c ie)
  note ch = plan_full_chained [OF full re, unfolded at2]
  have sums: "sum_list (map snd (map (\<lambda>m. (srcExpertBegin m, tokenCount m)) (segs_from s r e))) = ?T i"
    "sum_list (map snd (map (\<lambda>m. (dstExpertBegin m, tokenCount m)) (segs_to s r e))) = alloc s i"
    using chained_total [OF ch(1)] chained_total [OF ch(2)] by (simp_all add: comp_def)
  show "check_ranges inp out i = None"
    unfolding check_ranges_def Let_def out at1 sums using std_sort_chained [OF ch(1)] std_sort_chained [OF ch(2)] by simp
qed

end
