(* ===== verification/PlanCheckPlan.thy ===== *)
theory PlanCheckPlan
  imports PlanCheckCodes PlanCheckSegments
begin

text \<open>
  The checks of \<open>CheckReferencePlanInvariants\<close> on the plan of a job.
\<close>

text \<open>The destinations of a plan whose layout fits.\<close>

lemma token_route:
  fixes token k s K :: int
  assumes "token \<in> {0..<s}" "k \<in> {0..<K}"
  shows "token * K + k \<in> {0..<s * K}" "(token * K + k) mod K = k" "(token * K + k) div K = token"
proof -
  have "token * K \<le> (s - 1) * K" using assms by (intro mult_right_mono) auto
  then show "token * K + k \<in> {0..<s * K}" using assms by (auto simp: algebra_simps)
qed (use assms in simp_all)

lemma route_code_sign:
  assumes rdy: "plan_ready c cfg tpe topk s" and r: "route \<in> {0..<c_cap c}"
  shows "(0 \<le> route_code c cfg s topk K route) = route_first s topk K route"
  using route_offset_bounds(5) [OF rdy r] by (simp add: route_code_def not_int_def)

lemma rank_part_ready:
  assumes "rank_part ri st PLAN_OK ly r out ws s"
  defines "inp \<equiv> rank_input ri r" and "c \<equiv> plan_ctx_of (rank_input ri r) ws"
  shows "plan_ready c (ri_config ri) (cell (ri_tokensPerExpert ri)) (deref (in_topkExperts inp)) s" "plan_written inp out ws"
    "\<forall>x\<in>{0..<c_cap c}. deref (out_dst (run_out (RunPlanAlgorithm inp out ws))) x =
      route_code c (ri_config ri) s (deref (in_topkExperts inp)) (ri_topK ri) x"
  using assms(1) unfolding rank_part_def Let_def dst_sim_def inp_def c_def by blast+

lemma plan_codes_ok:
  assumes v: "ValidateInput ri = PLAN_OK" and rr: "\<forall>r\<in>{0..<ri_rankSize ri}. rank_ready ri r (outs r) (wss r)"
    and ps: "\<forall>r\<in>{0..<ri_rankSize ri}. rank_part ri st PLAN_OK ly r (outs r) (wss r) (ss r)"
    and codes: "\<forall>r\<in>{0..<ri_rankSize ri}. \<forall>x\<in>{0..<ri_s ri * ri_topK ri}. cell (ro_dst out) (r * (ri_s ri * ri_topK ri) + x) =
      route_code (plan_ctx_of (rank_input ri r) (wss r)) (ri_config ri) (ss r) (deref (in_topkExperts (rank_input ri r))) (ri_topK ri) x"
  shows "codes_ok ri out"
proof -
  note pos = ValidateInput_pos [OF v]
  let ?c = "\<lambda>r. plan_ctx_of (rank_input ri r) (wss r)" and ?tk = "\<lambda>r. deref (in_topkExperts (rank_input ri r))"
  let ?run = "\<lambda>r. RunPlanAlgorithm (rank_input ri r) (outs r) (wss r)"
  have cap: "c_cap (?c r) = ri_s ri * ri_topK ri" "c_rankSize (?c r) = ri_rankSize ri" for r using pos(6) by (simp_all add: plan_ctx_of_def)
  have rdy: "plan_ready (?c r) (ri_config ri) (cell (ri_tokensPerExpert ri)) (?tk r) (ss r)" and pw: "plan_written (rank_input ri r) (outs r) (wss r)"
    and run: "\<forall>x\<in>{0..<ri_s ri * ri_topK ri}. cell (ro_dst out) (r * (ri_s ri * ri_topK ri) + x) = deref (out_dst (run_out (?run r))) x"
    if r: "r \<in> {0..<ri_rankSize ri}" for r
    using rank_part_ready [OF bspec [OF ps r]] bspec [OF codes r] unfolding cap by simp_all
  have at: "code_at ri out r token k = cell (ro_dst out) (r * (ri_s ri * ri_topK ri) + (token * ri_topK ri + k))" for r token k
    by (simp only: code_at_def pos(6) add.assoc)
  have raw: "raw_at ri out r token k = route_raw (?c r) (ri_config ri) (ss r) (?tk r) (token * ri_topK ri + k)"
    if "r \<in> {0..<ri_rankSize ri}" "token \<in> {0..<ri_s ri}" "k \<in> {0..<ri_topK ri}" for r token k
    using codes that(1) token_route(1) [OF that(2,3)] raw_of_code [OF route_offset_bounds(5) [OF rdy [OF that(1)]]] by (simp only: at cap)
  have rank: "rank_at ri out r token k = dstRank (route_segment (ss r) (?tk r) (token * ri_topK ri + k))"
    if "r \<in> {0..<ri_rankSize ri}" "token \<in> {0..<ri_s ri}" "k \<in> {0..<ri_topK ri}" for r token k
    using raw [OF that] route_offset_bounds(7) [OF rdy [OF that(1)]] token_route(1) [OF that(2,3)] by (simp only: cap)
  have inj: "r = r' \<and> token = token' \<and> k = k'"
    if h: "r \<in> {0..<ri_rankSize ri}" "token \<in> {0..<ri_s ri}" "k \<in> {0..<ri_topK ri}" "r' \<in> {0..<ri_rankSize ri}" "token' \<in> {0..<ri_s ri}"
      "k' \<in> {0..<ri_topK ri}" and eq: "raw_at ri out r token k = raw_at ri out r' token' k'" for r token k r' token' k'
  proof -
    note x = token_route [OF h(2,3)] and x' = token_route [OF h(5,6)]
    have ca: "affinity_cache_ok (?c r) (wss r)" "affinity_cache_ok (?c r') (wss r')" using rr h(1,4) by (simp_all add: rank_ready_def)
    obtain d where d: "out_dst (run_out (?run r)) = Some d" by (rule plan_written_run [OF pw [OF h(1)] ca(1)])
    obtain d' where d': "out_dst (run_out (?run r')) = Some d'" by (rule plan_written_run [OF pw [OF h(4)] ca(2)])
    have "raw_of (d (token * ri_topK ri + k)) = raw_of (d' (token' * ri_topK ri + k'))"
      using eq run [OF h(1)] run [OF h(4)] x(1) x'(1) by (simp add: at d d' deref_def)
    then have "r = r' \<and> token * ri_topK ri + k = token' * ri_topK ri + k'"
      using run_destinations_inj [OF pw [OF h(1)] pw [OF h(4)] _ _ ca d d'] x(1) x'(1) by (simp add: same_tables_def)
    then show ?thesis using x(2,3) x'(2,3) by metis
  qed
  show ?thesis unfolding codes_ok_def
  proof (intro conjI ballI)
    fix r token k assume r: "r \<in> {0..<ri_rankSize ri}" and tk: "token \<in> {0..<ri_s ri}" and k: "k \<in> {0..<ri_topK ri}"
    note x = token_route [OF tk k]
    show "0 \<le> raw_at ri out r token k" "raw_at ri out r token k < ri_rankSize ri * nvS (ri_config ri)"
      using route_offset_bounds(5,6) [OF rdy [OF r]] x(1) unfolding raw [OF r tk k] cap by blast+
    have "(0 \<le> code_at ri out r token k) = route_first (ss r) (?tk r) (ri_topK ri) (token * ri_topK ri + k)"
      using codes r x(1) route_code_sign [OF rdy [OF r]] by (simp only: at cap)
    also have "\<dots> = (\<forall>j\<in>{0..<k}. rank_at ri out r token j \<noteq> rank_at ri out r token k)"
      using k by (simp add: route_first_def x(2) rank [OF r tk])
    finally show "(0 \<le> code_at ri out r token k) = (rank_at ri out r token k \<notin> rank_at ri out r token ` {0..<k})" by (simp only: image_iff) metis
  next
    show "inj_on (\<lambda>(src, token, k). raw_at ri out src token k) ({0..<ri_rankSize ri} \<times> {0..<ri_s ri} \<times> {0..<ri_topK ri})"
      using inj by (auto simp: inj_on_def)
  qed
qed

section \<open>Shapes, status, allocations and loads\<close>

lemma plan_of_parts_fields [simp]:
  fixes ri :: ref_input and st :: ref_state and ls :: plan_status and ly :: ref_layout and dst :: "int vec" and within across :: int
  defines "ro \<equiv> plan_of_parts ri st ls ly dst within across"
  shows "ro_finalStatus ro = (if fst (ref_balance_status (ref_ctx_of ri) st) then ls else snd (ref_balance_status (ref_ctx_of ri) st))"
    "ro_dst ro = dst" "ro_cuSeqlens ro = ly_cuSeqlens ly" "ro_expertsToCopy ro = ly_expertsToCopy ly"
    "ro_expertTargets ro = ly_expertTargets ly" "ro_remoteStats ro = ly_remoteStats ly" "ro_segments ro = rs_segments st"
    "ro_rankLoad ro = \<lparr> vsize = ri_rankSize ri, cell = rs_rankLoad st \<rparr>"
    "ro_alloc ro = \<lparr> vsize = ri_rankSize ri * ri_expertNum ri, cell = rs_alloc st \<rparr>"
  by (simp_all add: ro_def plan_of_parts_def ref_FillStatus_def Let_def)

lemma word_rows_size:
  fixes f :: "int \<Rightarrow> int list"
  assumes "\<forall>r. int (length (f r)) = n"
  shows "vsize (fold (\<lambda>r v. fold (\<lambda>(i, x) v. vec_set v (r * n + i) x) (zip [0..n - 1] (f r)) v) rs v) = vsize v"
proof (induction rs arbitrary: v)
  case (Cons a rs)
  have "vsize (fold (\<lambda>(i, x) v. vec_set v (a * n + i) x) (zip [0..n - 1] (f a)) v) = vsize v"
    using set_words [of "a * n" 0 "f a" v] assms by simp
  then show ?case using Cons.IH by simp
qed simp

lemma status_rows:
  "vsize (ro_statusByRank (ref_FillStatus rc stt a b out)) = rc_rankSize rc * kPlanStatusWords"
  "r \<in> {0..<rc_rankSize rc} \<Longrightarrow> cell (ro_statusByRank (ref_FillStatus rc stt a b out)) (r * kPlanStatusWords) = status_code stt"
proof -
  define W where "W = (\<lambda>rank. [status_code stt, a, b,
      sum_list (map (\<lambda>rank. let delta = cell (ro_rankLoad out) rank - rc_cap rc in if delta < 0 then - delta else 0) [0..rc_rankSize rc - 1]),
      (if vsize (ro_remoteStats out) = 0 then 0 else fold (\<lambda>rank m. max m (cell (ro_remoteStats out) (rank * 2))) [0..rc_rankSize rc - 1] 0),
      (if vsize (ro_cuSeqlens out) = 0 then 0 else cell (ro_cuSeqlens out) ((rank + 1) * (rc_expertNum rc + rc_prefetchSlots rc) - 1)),
      int (length (ro_expertMoves out)), int (length (filter (\<lambda>m. srcRank m = rank) (ro_segments out)))])"
  have len: "\<forall>r. int (length (W r)) = kPlanStatusWords" by (simp add: W_def kPlanStatusWords_def)
  have w: "ro_statusByRank (ref_FillStatus rc stt a b out) =
      fold (\<lambda>rank v. fold (\<lambda>(i, x) v. vec_set v (rank * kPlanStatusWords + i) x) (zip [0..kPlanStatusWords - 1] (W rank)) v)
        [0..rc_rankSize rc - 1] (vec_fill (rc_rankSize rc * kPlanStatusWords) 0)"
    by (simp add: ref_FillStatus_def Let_def W_def)
  show "vsize (ro_statusByRank (ref_FillStatus rc stt a b out)) = rc_rankSize rc * kPlanStatusWords"
    unfolding w word_rows_size [OF len] by (simp add: vec_fill_def)
  assume "r \<in> {0..<rc_rankSize rc}"
  then show "cell (ro_statusByRank (ref_FillStatus rc stt a b out)) (r * kPlanStatusWords) = status_code stt"
    unfolding w using set_word_rows [OF len, of "[0..rc_rankSize rc - 1]" 0 _ r] by (simp add: W_def kPlanStatusWords_def)
qed

lemma plan_shapes:
  fixes dst :: "int vec" and within across :: int
  assumes v: "ValidateInput ri = PLAN_OK" and ly: "ref_BuildLayouts (ref_ctx_of ri) (ri_config ri) (rs_alloc st) = (ls, ly)"
    and per: "ri_rankSize ri * (ri_expertNum ri div ri_rankSize ri) = ri_expertNum ri"
  defines "ro \<equiv> plan_of_parts ri st ls ly dst within across"
  shows "check_target_shapes ri ro = None" "check_status ri ro = None"
    "(check_output_shapes ri ro = None) = (vsize dst = ri_rankSize ri * (ri_s ri * ri_topK ri))"
proof -
  note pos = ValidateInput_pos [OF v]
  let ?rc = "ref_ctx_of ri"
  have rf: "rc_rankSize ?rc = ri_rankSize ri" "rc_expertNum ?rc = ri_expertNum ri" "rc_prefetchSlots ?rc = prefetchSlots (ri_config ri)"
    "rc_expertsPerRank ?rc = ri_expertNum ri div ri_rankSize ri" by (simp_all add: ref_ctx_of_def)
  have sz: "vsize (ly_expertsToCopy ly) = ri_rankSize ri * prefetchSlots (ri_config ri)"
    "vsize (ly_expertTargets ly) = ri_expertNum ri * ((ri_rankSize ri + 63) div 64)"
    "vsize (ly_remoteStats ly) = ri_rankSize ri * 2" "vsize (ly_cuSeqlens ly) = ri_rankSize ri * (ri_expertNum ri + prefetchSlots (ri_config ri))"
    using ref_BuildLayouts_sizes [of ?rc "ri_config ri" "rs_alloc st"] per
    by (simp_all add: ly same_sizes_def ref_layout_init_def Let_def vec_fill_def rf)
  have st: "vsize (ro_statusByRank ro) = ri_rankSize ri * kPlanStatusWords"
    "\<forall>r\<in>{0..<ri_rankSize ri}. cell (ro_statusByRank ro) (r * kPlanStatusWords) = status_code (ro_finalStatus ro)"
  proof -
    obtain stt out where ro: "ro = ref_FillStatus ?rc stt within across out" unfolding ro_def plan_of_parts_def by blast
    have "ro_finalStatus ro = stt" by (simp add: ro ref_FillStatus_def Let_def)
    then show "vsize (ro_statusByRank ro) = ri_rankSize ri * kPlanStatusWords"
      "\<forall>r\<in>{0..<ri_rankSize ri}. cell (ro_statusByRank ro) (r * kPlanStatusWords) = status_code (ro_finalStatus ro)"
      using status_rows(1) [of ?rc stt within across out] status_rows(2) [of _ ?rc stt within across out] unfolding ro rf by simp_all
  qed
  show "check_target_shapes ri ro = None" using sz st(1) by (simp add: check_target_shapes_def ro_def)
  show "check_status ri ro = None"
    using st(2) pos(1) bspec [OF st(2), of 0] by (auto simp: check_status_def Let_def list_ex_iff)
  show "(check_output_shapes ri ro = None) = (vsize dst = ri_rankSize ri * (ri_s ri * ri_topK ri))"
    using sz by (auto simp: check_output_shapes_def ro_def pos(6))
qed

lemma sum_list_upto: "sum_list (map f [0..n - 1]) = sum f {0..<n}" for f :: "int \<Rightarrow> int"
  by (simp add: sum_list_distinct_conv_sum_set set_upto_below [symmetric] del: set_upto)

lemma plan_loads:
  fixes ls :: plan_status and ly :: ref_layout and dst :: "int vec" and within across :: int
  assumes tab: "plan_tables c (cell (ri_tokensPerExpert ri)) s" and c: "c_rankSize c = ri_rankSize ri" "c_expertNum c = ri_expertNum ri"
    and st: "rs_alloc st = alloc s" "rs_rankLoad st = rankLoad s" and cap: "rc_cap (ref_ctx_of ri) = rankTokenCapacity (ri_config ri)"
  defines "ro \<equiv> plan_of_parts ri st ls ly dst within across"
  shows "first_error (check_expert ri ro) [0..ri_expertNum ri - 1] = None" "first_error (check_rank_load ri ro) [0..ri_rankSize ri - 1] = None"
proof -
  have al: "cell (ro_alloc ro) (r * ri_expertNum ri + e) = at c (alloc s) r e"
    "cell (ri_tokensPerExpert ri) (r * ri_expertNum ri + e) = at c (cell (ri_tokensPerExpert ri)) r e" for r e
    by (simp_all add: ro_def st at_def ReIndex_def c)
  have t: "plan_full c (cell (ri_tokensPerExpert ri)) s" "\<forall>r\<in>ranks_of c. \<forall>e\<in>experts_of c. 0 \<le> at c (alloc s) r e"
    "\<forall>r\<in>ranks_of c. rankLoad s r = (\<Sum>e\<in>experts_of c. at c (alloc s) r e)" using tab unfolding plan_tables_def by blast+
  show "first_error (check_expert ri ro) [0..ri_expertNum ri - 1] = None" unfolding first_error_None
  proof
    fix e assume "e \<in> set [0..ri_expertNum ri - 1]"
    then have e: "e \<in> experts_of c" by (simp add: c)
    have "\<not> list_ex (\<lambda>rank. cell (ro_alloc ro) (rank * ri_expertNum ri + e) < 0) [0..ri_rankSize ri - 1]"
      using t(2) e unfolding list_ex_iff al by (force simp: c)
    then show "check_expert ri ro e = None"
      using plan_full_totals [OF t(1) e] by (simp add: check_expert_def Let_def sum_list_upto al c)
  qed
  have ok: "rankLoad s r = rankTokenCapacity (ri_config ri)" if "ro_finalStatus ro = PLAN_OK" "r \<in> set [0..ri_rankSize ri - 1]" for r
  proof -
    have "fst (ref_balance_status (ref_ctx_of ri) st)" using plan_of_parts_status that(1) unfolding ro_def by blast
    then show ?thesis using that(2) cap by (auto simp: ref_balance_status_def Let_def list_all_iff st ref_ctx_of_def)
  qed
  show "first_error (check_rank_load ri ro) [0..ri_rankSize ri - 1] = None" unfolding first_error_None
  proof
    fix r assume r: "r \<in> set [0..ri_rankSize ri - 1]"
    then have "(\<Sum>e\<in>experts_of c. at c (alloc s) r e) = rankLoad s r" "cell (ro_rankLoad ro) r = rankLoad s r"
      using t(3) by (simp_all add: c ro_def st)
    then show "check_rank_load ri ro r = None" using ok [OF _ r] by (simp add: check_rank_load_def Let_def sum_list_upto al c)
  qed
qed
end
