(* ===== verification/PlanCheckSound.thy ===== *)
theory PlanCheckSound
  imports PlanCheckPlan
begin

text \<open>
  The invariant checker of the reference planner accepts the plans of the planner, and what it accepts is correct.
\<close>

lemma ValidateInput_nvS:
  assumes "ValidateInput ri = PLAN_OK"
  shows "0 \<le> nvS (ri_config ri)"
proof -
  have "rankTokenCapacity (ri_config ri) \<le> nvS (ri_config ri)"
    using assms by (auto simp: ValidateInput_def ref_config_invalid_def CheckedProduct_def Let_def split: option.splits if_splits)
  then show ?thesis using ValidateInput_pos(4-6) [OF assms] mult_pos_pos [of "ri_s ri" "ri_topK ri"] by linarith
qed

lemma job_ref_status: "map_option ro_finalStatus (BuildReferencePlan job_ref) = Some PLAN_OK"
  by code_simp

lemma job_ref_accepted: "CheckReferencePlanInvariants job_ref (the (BuildReferencePlan job_ref)) = None"
  by code_simp

text \<open>C2: The invariant checker of the reference planner accepts exactly the plans that come with
  destinations: for every job whose input is valid and whose ranks may run, the reference planner returns a
  plan, the checker accepts it if and only if the plan has a destination for every route of the job, and
  it accepts every plan with the status \<open>PLAN_OK\<close>.\<close>

theorem checker_accepts_plan:
  assumes v: "ValidateInput ri = PLAN_OK" and rr: "\<forall>r\<in>{0..<ri_rankSize ri}. rank_ready ri r (outs r) (wss r)"
    and ids: "\<forall>i\<in>{0..<ri_rankSize ri}. cell (ri_globalRankIds ri) i \<le> INT32_MAX"
  shows "\<exists>ro. BuildReferencePlan ri = Some ro \<and>
    (CheckReferencePlanInvariants ri ro = None) = (vsize (ro_dst ro) = ri_rankSize ri * (ri_s ri * ri_topK ri)) \<and>
    (ro_finalStatus ro = PLAN_OK \<longrightarrow> CheckReferencePlanInvariants ri ro = None)"
proof (rule ref_plan_parts [OF v rr ids])
  fix st ls ly ss dst within across
  let ?ro = "plan_of_parts ri st ls ly dst within across"
  assume plan: "BuildReferencePlan ri = Some ?ro"
    and ps: "\<forall>r\<in>{0..<ri_rankSize ri}. rank_part ri st ls ly r (outs r) (wss r) (ss r)"
    and ly: "ref_BuildLayouts (ref_ctx_of ri) (ri_config ri) (rs_alloc st) = (ls, ly)"
    and sz: "vsize dst = (if ls = PLAN_OK then ri_rankSize ri * (ri_s ri * ri_topK ri) else 0)"
    and codes: "ls = PLAN_OK \<Longrightarrow> \<forall>r\<in>{0..<ri_rankSize ri}. \<forall>x\<in>{0..<ri_s ri * ri_topK ri}. cell dst (r * (ri_s ri * ri_topK ri) + x) =
      route_code (plan_ctx_of (rank_input ri r) (wss r)) (ri_config ri) (ss r) (deref (in_topkExperts (rank_input ri r))) (ri_topK ri) x"
  note pos = ValidateInput_pos [OF v]
  define c where "c = plan_ctx_of (rank_input ri 0) (wss 0)"
  have c: "c_rankSize c = ri_rankSize ri" "c_expertNum c = ri_expertNum ri" "c_expertsPerRank c = ri_expertNum ri div ri_rankSize ri"
    by (simp_all add: c_def plan_ctx_of_def)
  have "rank_part ri st ls ly 0 (outs 0) (wss 0) (ss 0)" using ps pos(1) by simp
  then have tab: "plan_tables c (cell (ri_tokensPerExpert ri)) (ss 0)" and st: "rs_alloc st = alloc (ss 0)" "rs_rankLoad st = rankLoad (ss 0)"
      "rs_segments st = segmentLog (ss 0)"
    unfolding rank_part_def Let_def c_def by blast+
  have per: "ri_rankSize ri * (ri_expertNum ri div ri_rankSize ri) = ri_expertNum ri"
    using tab by (simp add: plan_tables_def plan_ctx_ok_def c)
  have full: "plan_full c (cell (ri_tokensPerExpert ri)) (ss 0)" using tab by (simp add: plan_tables_def)
  note sh = plan_shapes [OF v ly per, of dst within across]
  have fit: "(ls = PLAN_OK) = (vsize dst = ri_rankSize ri * (ri_s ri * ri_topK ri))" using sz pos by auto
  have nv: "0 \<le> nvS (ri_config ri)" using v by (rule ValidateInput_nvS)
  have "CheckReferencePlanInvariants ri ?ro = None" if ok: "ls = PLAN_OK"
  proof -
    have cap: "rc_cap (ref_ctx_of ri) = rankTokenCapacity (ri_config ri)" by (simp add: ref_ctx_of_def)
    have lay: "check_remote ri ?ro = None \<and> (\<forall>d\<in>{0..<ri_rankSize ri}. check_rank_layout ri ?ro d = None)"
      by (rule layout_checks [OF refl _ nv ly [unfolded ok] _ _ _ _ per, of _ c]) (simp_all add: c_def)
    have "check_sources ri ?ro [0..ri_rankSize ri - 1] {} = None"
      unfolding codes_check using plan_codes_ok [OF v rr ps [unfolded ok], of ?ro] codes [OF ok] by simp
    moreover have "first_error (check_segment ri) (ro_segments ?ro) = None" using segments_valid [OF full c(1,2)] by (simp add: st)
    moreover have "first_error (check_ranges ri ?ro) [0..ri_rankSize ri * ri_expertNum ri - 1] = None"
      by (rule segments_ranges [OF full c(1,2) pos(2)]) (simp_all add: st)
    moreover have "first_error (check_rank_layout ri ?ro) [0..ri_rankSize ri - 1] = None" using lay by (simp add: first_error_None)
    ultimately show ?thesis
      using sh fit ok v lay plan_loads [OF tab c(1,2) st(1,2) cap, of ls ly dst within across]
      by (simp add: CheckReferencePlanInvariants_def or_else_None)
  qed
  moreover have "ls = PLAN_OK" if "CheckReferencePlanInvariants ri ?ro = None"
    using that sh(3) fit by (simp add: CheckReferencePlanInvariants_def or_else_None split: if_splits)
  ultimately have iff: "(CheckReferencePlanInvariants ri ?ro = None) = (ls = PLAN_OK)" by (intro iffI)
  then have exact: "(CheckReferencePlanInvariants ri ?ro = None) = (vsize (ro_dst ?ro) = ri_rankSize ri * (ri_s ri * ri_topK ri))"
    unfolding fit plan_of_parts_fields(2) .
  have "ro_finalStatus ?ro = PLAN_OK \<longrightarrow> CheckReferencePlanInvariants ri ?ro = None"
    unfolding iff by (rule impI) (rule conjunct1 [OF plan_of_parts_status])
  with plan exact show ?thesis by (intro exI conjI)
qed

theorem checker_accepts_plan_witness:
  "\<exists>ro. BuildReferencePlan job_ref = Some ro \<and> CheckReferencePlanInvariants job_ref ro = None"
proof -
  have "\<forall>i\<in>{0..<ri_rankSize job_ref}. cell (ri_globalRankIds job_ref) i \<le> INT32_MAX" by (simp add: job_ref_def INT32_MAX_def)
  from checker_accepts_plan [OF job_ref_valid job_ref_ready this] show ?thesis using job_ref_status by auto
qed

text \<open>C3: What the checker accepts is a correct plan, whoever made it: the tokens of every expert are
  conserved, loads are the sums of the allocations and equal the capacity when the status is \<open>PLAN_OK\<close>,
  all status rows carry the final status, every token of a source and an expert is in exactly one
  segment on the source and on the destination side, every destination is a place in the window of a
  rank that no other route of the job has, and it is complemented exactly when an earlier route of
  the token goes to the same rank.\<close>

theorem checker_sound:
  assumes "CheckReferencePlanInvariants ri ro = None"
  shows "(\<forall>e\<in>{0..<ri_expertNum ri}. (\<Sum>r\<in>{0..<ri_rankSize ri}. cell (ro_alloc ro) (r * ri_expertNum ri + e)) =
        (\<Sum>r\<in>{0..<ri_rankSize ri}. cell (ri_tokensPerExpert ri) (r * ri_expertNum ri + e))) \<and>
    (\<forall>r\<in>{0..<ri_rankSize ri}. cell (ro_rankLoad ro) r = (\<Sum>e\<in>{0..<ri_expertNum ri}. cell (ro_alloc ro) (r * ri_expertNum ri + e)) \<and>
        (ro_finalStatus ro = PLAN_OK \<longrightarrow> cell (ro_rankLoad ro) r = ri_s ri * ri_topK ri) \<and>
        cell (ro_statusByRank ro) (r * kPlanStatusWords) = status_code (ro_finalStatus ro)) \<and>
    segments_ok ri ro \<and> codes_ok ri ro"
proof -
  have v: "ValidateInput ri = PLAN_OK" using assms by (simp add: CheckReferencePlanInvariants_def split: if_splits)
  have stt: "check_status ri ro = None" and ex: "\<forall>e\<in>{0..<ri_expertNum ri}. check_expert ri ro e = None"
    and ld: "\<forall>r\<in>{0..<ri_rankSize ri}. check_rank_load ri ro r = None"
    and sg: "first_error (check_segment ri) (ro_segments ro) = None" "first_error (check_ranges ri ro) [0..ri_rankSize ri * ri_expertNum ri - 1] = None"
    and src: "check_sources ri ro [0..ri_rankSize ri - 1] {} = None"
    using assms v by (simp_all add: CheckReferencePlanInvariants_def or_else_None first_error_None)
  have status: "cell (ro_statusByRank ro) (r * kPlanStatusWords) = status_code (ro_finalStatus ro)" if "r \<in> {0..<ri_rankSize ri}" for r
  proof (cases "r = 0")
    case False
    then have "r \<in> set [1..ri_rankSize ri - 1]" using that by simp
    then show ?thesis using stt by (force simp: check_status_def Let_def list_ex_iff split: if_splits)
  qed (use stt in \<open>simp add: check_status_def Let_def split: if_splits\<close>)
  have total: "(\<Sum>r\<in>{0..<ri_rankSize ri}. cell (ro_alloc ro) (r * ri_expertNum ri + e)) =
      (\<Sum>r\<in>{0..<ri_rankSize ri}. cell (ri_tokensPerExpert ri) (r * ri_expertNum ri + e))" if "e \<in> {0..<ri_expertNum ri}" for e
    using bspec [OF ex that] by (simp add: check_expert_def Let_def sum_list_upto split: if_splits)
  have load: "cell (ro_rankLoad ro) r = (\<Sum>e\<in>{0..<ri_expertNum ri}. cell (ro_alloc ro) (r * ri_expertNum ri + e)) \<and>
      (ro_finalStatus ro = PLAN_OK \<longrightarrow> cell (ro_rankLoad ro) r = ri_s ri * ri_topK ri)" if "r \<in> {0..<ri_rankSize ri}" for r
    using bspec [OF ld that] ValidateInput_pos(6) [OF v] by (simp add: check_rank_load_def Let_def sum_list_upto split: if_splits)
  show ?thesis using total load status segments_sound [OF sg] src [unfolded codes_check] by blast
qed

text \<open>A plan that the checker accepts: the one that the reference planner makes for a small job.\<close>

theorem checker_sound_witness:
  "CheckReferencePlanInvariants job_ref (the (BuildReferencePlan job_ref)) = None \<and> codes_ok job_ref (the (BuildReferencePlan job_ref)) \<and>
    segments_ok job_ref (the (BuildReferencePlan job_ref))"
  using checker_sound [OF job_ref_accepted] job_ref_accepted by simp
end
