(* ===== verification/PlanRoutes.thy ===== *)
theory PlanRoutes
  imports PlanDownstream PlanCheckSound
begin

text \<open>
  The descriptors of the routes of an accepted plan.
\<close>

section \<open>Ids of routes\<close>

lemma ValidateInput_bounds:
  assumes "ValidateInput ri = PLAN_OK"
  shows "ri_s ri * ri_topK ri \<le> INT32_MAX" "ri_rankSize ri * nvS (ri_config ri) \<le> INT32_MAX" "nvS (ri_config ri) \<le> INT32_MAX"
    "ri_topK ri \<le> 32" "ri_s ri * ri_topK ri \<le> nvS (ri_config ri)"
  using assms
  by (auto simp: ValidateInput_def ref_config_invalid_def ref_shapes_invalid_def CheckedProduct_def Let_def split: option.splits if_splits)

definition route_id :: "int \<Rightarrow> int \<Rightarrow> int \<Rightarrow> int \<Rightarrow> int \<Rightarrow> nat" where
  "route_id s topK src token k = (nat src * nat s + nat token) * nat topK + nat k"

lemma route_id_less:
  assumes "src \<in> {0..<R}" "token \<in> {0..<s}" "k \<in> {0..<K}"
  shows "nat src * nat s + nat token < nat R * nat s" "route_id s K src token k < nat R * nat s * nat K"
proof -
  show 1: "nat src * nat s + nat token < nat R * nat s"
    by (rule coord_bound) (use assms in auto)
  show "route_id s K src token k < nat R * nat s * nat K"
    unfolding route_id_def by (rule coord_bound [OF 1]) (use assms in auto)
qed

lemma encode_route_id:
  assumes r: "src \<in> {0..<R}" "token \<in> {0..<s}" "k \<in> {0..<K}" and fit: "nat R * nat s * nat K \<le> UINT64_MAX"
  shows "EncodeMoonEPGlobalTokenId src token k R s K (Some g) = (PLAN_OK, Some (route_id s K src token k))"
proof -
  define b where "b = nat src * nat s + nat token"
  have id: "route_id s K src token k < UINT64_MAX" using route_id_less(2) [OF r] fit by simp
  have le: "b * nat K + nat k < UINT64_MAX" using id by (simp add: route_id_def b_def)
  have "b * 1 \<le> b * nat K" by (rule mult_le_mono2) (use r in auto)
  then have b: "b < UINT64_MAX" using le by linarith
  have lim: "UINT64_MAX < 18446744073709551616" by (simp add: UINT64_MAX_def)
  have b1: "nat src * nat s \<le> b" "nat src * nat s + nat token = b" by (simp_all add: b_def)
  have w: "u64 (nat src * nat s) = nat src * nat s" "u64 b = b" "u64 (b * nat K) = b * nat K" "u64 (b * nat K + nat k) = b * nat K + nat k"
    using b b1 le lim by (simp_all add: u64_id)
  have d: "\<not> nat src > UINT64_MAX div nat s" "\<not> b > UINT64_MAX div nat K"
    using r b b1 le by (simp_all add: not_less less_eq_div_iff_mult_less_eq)
  have s: "\<not> nat src * nat s > UINT64_MAX - nat token" "\<not> b * nat K > UINT64_MAX - nat k" using b b1 le by linarith+
  have n: "route_id s K src token k \<noteq> TILEXR_MOONEP_INVALID_GLOBAL_TOKEN_ID" using id by (simp add: TILEXR_MOONEP_INVALID_GLOBAL_TOKEN_ID_def)
  have ok: "\<not> (R \<le> 0 \<or> s \<le> 0 \<or> K \<le> 0 \<or> src < 0 \<or> R \<le> src \<or> token < 0 \<or> s \<le> token \<or> k < 0 \<or> K \<le> k)" using r by auto
  show ?thesis unfolding EncodeMoonEPGlobalTokenId_def Let_def w b1(2)
    using ok d s n by (simp add: w b1 route_id_def)
qed

lemma decode_route_id:
  assumes r: "src \<in> {0..<R}" "token \<in> {0..<s}" "k \<in> {0..<K}" and fit: "nat R * nat s * nat K \<le> UINT64_MAX"
    and small: "src \<le> INT32_MAX" "token \<le> INT32_MAX" "k \<le> INT32_MAX"
  shows "DecodeMoonEPGlobalTokenId (route_id s K src token k) R s K (Some a, Some b, Some c) = (PLAN_OK, Some src, Some token, Some k)"
proof -
  let ?b = "nat src * nat s + nat token"
  have d: "route_id s K src token k div nat K = ?b" "route_id s K src token k mod nat K = nat k" "?b div nat s = nat src" "?b mod nat s = nat token"
    using r by (simp_all add: route_id_def)
  have "route_id s K src token k < UINT64_MAX" using route_id_less(2) [OF r] fit by simp
  then have n: "route_id s K src token k \<noteq> TILEXR_MOONEP_INVALID_GLOBAL_TOKEN_ID" by (simp add: TILEXR_MOONEP_INVALID_GLOBAL_TOKEN_ID_def)
  show ?thesis unfolding DecodeMoonEPGlobalTokenId_def Let_def d using r n small by (simp add: nat_le_eq_zle not_le)
qed

section \<open>Descriptors of an accepted plan\<close>

definition descriptor_of :: "ref_input \<Rightarrow> ref_output \<Rightarrow> MoonEPRouteDescriptor \<Rightarrow> int \<times> int \<times> int \<Rightarrow> plan_status \<times> MoonEPRouteDescriptor option" where
  "descriptor_of ri ro old = (\<lambda>(src, token, k). BuildMoonEPRouteDescriptor src token k (code_at ri ro src token k)
     (ri_rankSize ri) (ri_s ri) (ri_topK ri) (nvS (ri_config ri)) (Some old))"

abbreviation routes_of :: "ref_input \<Rightarrow> (int \<times> int \<times> int) set" where
  "routes_of ri \<equiv> {0..<ri_rankSize ri} \<times> {0..<ri_s ri} \<times> {0..<ri_topK ri}"

lemma raw_div_less:
  fixes a n R :: int
  assumes "0 < n" "a < R * n"
  shows "a div n < R"
proof -
  have "a div n * n \<le> a" using assms(1) by (metis minus_mod_eq_div_mult pos_mod_sign diff_le_eq le_add_same_cancel1)
  then have "a div n * n < R * n" using assms(2) by simp
  then show ?thesis using assms(1) by simp
qed

lemma decode_code:
  assumes "0 < nvs" "nvs \<le> INT32_MAX" "0 < R" "R \<le> 128" "R * nvs \<le> INT32_MAX" "0 \<le> raw_of e" "raw_of e < R * nvs"
  shows "DecodeMoonEPDst e nvs R (Some t) = (PLAN_OK, Some \<lparr> rt_rawDst = raw_of e, rt_dstRank = raw_of e div nvs, rt_recvSlot = raw_of e mod nvs,
    rt_sendHidden = (if 0 \<le> e then 1 else 0), rt_writeRouteWeight = 1 \<rparr>)"
proof -
  have "0 \<le> raw_of e div nvs" "raw_of e div nvs < R" using assms raw_div_less by (simp_all add: pos_imp_zdiv_nonneg_iff)
  moreover have "0 \<le> raw_of e mod nvs" "raw_of e mod nvs < nvs" using assms(1) by simp_all
  ultimately show ?thesis unfolding DecodeMoonEPDst_def Let_def raw_of_def [symmetric] using assms by (simp add: not_less not_le)
qed

abbreviation slot_at :: "ref_input \<Rightarrow> ref_output \<Rightarrow> int \<Rightarrow> int \<Rightarrow> int \<Rightarrow> int" where
  "slot_at inp out src token k \<equiv> raw_at inp out src token k mod nvS (ri_config inp)"

definition plan_descriptor :: "ref_input \<Rightarrow> ref_output \<Rightarrow> int \<times> int \<times> int \<Rightarrow> MoonEPRouteDescriptor" where
  "plan_descriptor ri ro = (\<lambda>(src, token, k).
    \<lparr> rd_srcRank = src, rd_tokenId = token, rd_topKId = k, rd_globalTokenId = route_id (ri_s ri) (ri_topK ri) src token k,
      rd_rawDst = raw_at ri ro src token k, rd_dstRank = rank_at ri ro src token k, rd_recvSlot = slot_at ri ro src token k,
      rd_sendHidden = (if 0 \<le> code_at ri ro src token k then 1 else 0), rd_writeRouteWeight = 1 \<rparr>)"

lemma accepted_codes:
  assumes "CheckReferencePlanInvariants ri ro = None"
  shows "ValidateInput ri = PLAN_OK" "codes_ok ri ro"
proof -
  show "ValidateInput ri = PLAN_OK" using assms by (simp add: CheckReferencePlanInvariants_def split: if_splits)
  then show "codes_ok ri ro" using assms unfolding codes_check [symmetric] by (simp add: CheckReferencePlanInvariants_def or_else_None)
qed

lemma codes_okD:
  assumes "codes_ok ri ro" "src \<in> {0..<ri_rankSize ri}" "token \<in> {0..<ri_s ri}" "k \<in> {0..<ri_topK ri}"
  shows "0 \<le> raw_at ri ro src token k" "raw_at ri ro src token k < ri_rankSize ri * nvS (ri_config ri)"
    "(0 \<le> code_at ri ro src token k) = (rank_at ri ro src token k \<notin> rank_at ri ro src token ` {0..<k})"
  using assms unfolding codes_ok_def by blast+

lemma route_ids_fit:
  assumes "ValidateInput ri = PLAN_OK" "ri_rankSize ri \<le> 128"
  shows "nat (ri_rankSize ri) * nat (ri_s ri) * nat (ri_topK ri) \<le> UINT64_MAX" "ri_s ri \<le> INT32_MAX" "0 < nvS (ri_config ri)"
proof -
  note pos = ValidateInput_pos [OF assms(1)] and b = ValidateInput_bounds [OF assms(1)]
  have p: "0 < ri_s ri * ri_topK ri" using pos by simp
  have "nat (ri_s ri) * nat (ri_topK ri) = nat (ri_s ri * ri_topK ri)" using pos by (simp add: nat_mult_distrib)
  also have "\<dots> \<le> nat INT32_MAX" using b(1) by (rule nat_mono)
  finally have "nat (ri_rankSize ri) * (nat (ri_s ri) * nat (ri_topK ri)) \<le> 128 * nat INT32_MAX" using assms(2) by (intro mult_le_mono) simp_all
  then show "nat (ri_rankSize ri) * nat (ri_s ri) * nat (ri_topK ri) \<le> UINT64_MAX"
    by (simp add: INT32_MAX_def UINT64_MAX_def mult.assoc)
  have "ri_s ri * 1 \<le> ri_s ri * ri_topK ri" using pos by (intro mult_left_mono) auto
  then show "ri_s ri \<le> INT32_MAX" using b(1) by simp
  show "0 < nvS (ri_config ri)" using p b(5) by simp
qed

lemma accepted_descriptor:
  assumes acc: "CheckReferencePlanInvariants ri ro = None" and R: "ri_rankSize ri \<le> 128"
    and r: "src \<in> {0..<ri_rankSize ri}" "token \<in> {0..<ri_s ri}" "k \<in> {0..<ri_topK ri}"
  shows "descriptor_of ri ro old (src, token, k) = (PLAN_OK, Some (plan_descriptor ri ro (src, token, k)))"
proof -
  note v = accepted_codes [OF acc]
  note b = ValidateInput_bounds [OF v(1)] and f = route_ids_fit [OF v(1) R] and c = codes_okD [OF v(2) r]
  have dec: "DecodeMoonEPDst (code_at ri ro src token k) (nvS (ri_config ri)) (ri_rankSize ri) (Some t) =
      (PLAN_OK, Some \<lparr> rt_rawDst = raw_at ri ro src token k, rt_dstRank = rank_at ri ro src token k, rt_recvSlot = slot_at ri ro src token k,
        rt_sendHidden = (if 0 \<le> code_at ri ro src token k then 1 else 0), rt_writeRouteWeight = 1 \<rparr>)" for t
    by (rule decode_code [OF f(3) b(3) _ R b(2) c(1,2)]) (use r in simp)
  show ?thesis unfolding descriptor_of_def prod.case BuildMoonEPRouteDescriptor_def
    by (simp add: encode_route_id [OF r f(1)] dec plan_descriptor_def Let_def)
qed

text \<open>C4: Every route of a plan that the checker accepts gets its descriptor: the id of the route decodes back to
  its source rank, token and choice, the destination is a slot below \<open>nvS\<close> in the window of a rank, hidden data
  are sent exactly for the first route of a token to a rank, and no two routes have the same slot.\<close>

theorem accepted_plan_descriptors:
  fixes old :: MoonEPRouteDescriptor
  assumes acc: "CheckReferencePlanInvariants ri ro = None" and R: "ri_rankSize ri \<le> 128"
  defines "desc \<equiv> \<lambda>rt. the (snd (descriptor_of ri ro old rt))"
  shows "(\<forall>(src, token, k)\<in>routes_of ri. fst (descriptor_of ri ro old (src, token, k)) = PLAN_OK \<and>
      DecodeMoonEPGlobalTokenId (rd_globalTokenId (desc (src, token, k))) (ri_rankSize ri) (ri_s ri) (ri_topK ri) (Some x, Some y, Some z) =
        (PLAN_OK, Some src, Some token, Some k) \<and>
      rd_dstRank (desc (src, token, k)) \<in> {0..<ri_rankSize ri} \<and> rd_recvSlot (desc (src, token, k)) \<in> {0..<nvS (ri_config ri)} \<and>
      (rd_sendHidden (desc (src, token, k)) = 1) = (\<forall>j\<in>{0..<k}. rd_dstRank (desc (src, token, j)) \<noteq> rd_dstRank (desc (src, token, k)))) \<and>
    inj_on (\<lambda>rt. (rd_dstRank (desc rt), rd_recvSlot (desc rt))) (routes_of ri)"
proof -
  note v = accepted_codes [OF acc]
  note b = ValidateInput_bounds [OF v(1)] and f = route_ids_fit [OF v(1) R]
  have d: "descriptor_of ri ro old (src, token, k) = (PLAN_OK, Some (plan_descriptor ri ro (src, token, k)))" "desc (src, token, k) = plan_descriptor ri ro (src, token, k)"
    if "src \<in> {0..<ri_rankSize ri}" "token \<in> {0..<ri_s ri}" "k \<in> {0..<ri_topK ri}" for src token k
    using accepted_descriptor [OF acc R that] by (simp_all add: desc_def)
  have one: "fst (descriptor_of ri ro old (src, token, k)) = PLAN_OK \<and>
      DecodeMoonEPGlobalTokenId (rd_globalTokenId (desc (src, token, k))) (ri_rankSize ri) (ri_s ri) (ri_topK ri) (Some x, Some y, Some z) =
        (PLAN_OK, Some src, Some token, Some k) \<and>
      rd_dstRank (desc (src, token, k)) \<in> {0..<ri_rankSize ri} \<and> rd_recvSlot (desc (src, token, k)) \<in> {0..<nvS (ri_config ri)} \<and>
      (rd_sendHidden (desc (src, token, k)) = 1) = (\<forall>j\<in>{0..<k}. rd_dstRank (desc (src, token, j)) \<noteq> rd_dstRank (desc (src, token, k)))"
    if r: "src \<in> {0..<ri_rankSize ri}" "token \<in> {0..<ri_s ri}" "k \<in> {0..<ri_topK ri}" for src token k
  proof -
    have dec: "DecodeMoonEPGlobalTokenId (route_id (ri_s ri) (ri_topK ri) src token k) (ri_rankSize ri) (ri_s ri) (ri_topK ri) (Some x, Some y, Some z) =
        (PLAN_OK, Some src, Some token, Some k)"
      by (rule decode_route_id [OF r f(1)]) (use r R f(2) b(4) in \<open>auto simp: INT32_MAX_def\<close>)
    note c = codes_okD [OF v(2) r]
    have q: "0 \<le> rank_at ri ro src token k" "rank_at ri ro src token k < ri_rankSize ri"
      using c f(3) by (simp_all add: pos_imp_zdiv_nonneg_iff raw_div_less)
    have earlier: "desc (src, token, j) = plan_descriptor ri ro (src, token, j)" if "j \<in> {0..<k}" for j using d(2) [OF r(1,2), of j] r(3) that by simp
    have hid: "(rd_sendHidden (desc (src, token, k)) = 1) = (\<forall>j\<in>{0..<k}. rd_dstRank (desc (src, token, j)) \<noteq> rd_dstRank (desc (src, token, k)))"
      unfolding d(2) [OF r] using c(3) earlier by (auto simp: plan_descriptor_def image_iff)
    show ?thesis using dec q f(3) hid by (simp add: d [OF r]) (simp add: plan_descriptor_def)
  qed
  have inj: "inj_on (\<lambda>rt. (rd_dstRank (desc rt), rd_recvSlot (desc rt))) (routes_of ri)"
  proof (rule inj_onI)
    fix p q assume pq: "p \<in> routes_of ri" "q \<in> routes_of ri" "(rd_dstRank (desc p), rd_recvSlot (desc p)) = (rd_dstRank (desc q), rd_recvSlot (desc q))"
    have raw: "(case t of (src, token, k) \<Rightarrow> raw_at ri ro src token k) = rd_dstRank (desc t) * nvS (ri_config ri) + rd_recvSlot (desc t)"
      if "t \<in> routes_of ri" for t using that by (cases t) (simp add: d plan_descriptor_def)
    have "inj_on (\<lambda>(src, token, k). raw_at ri ro src token k) (routes_of ri)" using v(2) unfolding codes_ok_def by blast
    from inj_onD [OF this _ pq(1,2)] show "p = q" using raw [OF pq(1)] raw [OF pq(2)] pq(3) by simp
  qed
  show ?thesis using one inj by blast
qed

definition no_descriptor :: MoonEPRouteDescriptor where
  "no_descriptor = \<lparr> rd_srcRank = 0, rd_tokenId = 0, rd_topKId = 0, rd_globalTokenId = 0, rd_rawDst = 0, rd_dstRank = 0, rd_recvSlot = 0,
     rd_sendHidden = 0, rd_writeRouteWeight = 0 \<rparr>"

theorem accepted_plan_descriptors_witness:
  "fst (descriptor_of job_ref (the (BuildReferencePlan job_ref)) no_descriptor (1, 0, 0)) = PLAN_OK \<and>
    rd_sendHidden (the (snd (descriptor_of job_ref (the (BuildReferencePlan job_ref)) no_descriptor (1, 0, 0)))) = 1"
proof -
  have r: "ri_rankSize job_ref \<le> 128" "(1, 0, 0) \<in> routes_of job_ref" by (simp_all add: job_ref_def)
  from bspec [OF conjunct1 [OF accepted_plan_descriptors [OF job_ref_accepted r(1), of no_descriptor 0 0 0]] r(2)] show ?thesis by simp
qed

end
