(* ===== verification/PlanDuplicates.thy ===== *)
theory PlanDuplicates
  imports PlanRoutes
begin

text \<open>
  The duplicate metadata that a rank builds from the routes it receives under an accepted plan.
\<close>

section \<open>The loops over the records\<close>

text \<open>A loop that appends to an array what it selects.\<close>

lemma fold_append_array:
  "fold (\<lambda>x (f, n). if P x then (f(n := g x), n + 1) else (f, n)) xs (f, n) =
    (store_row f n (map g (filter P xs)), n + int (length (filter P xs)))"
proof (induction xs arbitrary: f n)
  case Nil
  show ?case by (simp add: store_row_def fun_eq_iff)
next
  case (Cons x xs)
  show ?case using Cons.IH [of "f(n := g x)" "n + 1"] Cons.IH [of f n] by (simp add: store_row_Cons del: fun_upd_apply)
qed

definition matching :: "MoonEPReceivedRoute arr \<Rightarrow> int \<Rightarrow> int \<Rightarrow> int \<Rightarrow> int list" where
  "matching records n src token = filter (\<lambda>i. RecordMatches (records i) src token) [0..n - 1]"

lemma copy_duplicates_eq:
  "copy_duplicates records n K src token (f, c) =
    (let xs = concat (map (\<lambda>k. map (\<lambda>i. rr_recvSlot (records i))
                 (filter (\<lambda>i. rr_topKId (records i) = k \<and> rr_isPrimary (records i) = 0) (matching records n src token))) [0..K - 1])
     in (store_row f c xs, c + int (length xs)))"
proof -
  let ?P = "\<lambda>(k, i). RecordMatches (records i) src token \<and> rr_topKId (records i) = k \<and> rr_isPrimary (records i) = 0"
  let ?L = "List.product [0..K - 1] [0..n - 1]"
  have e: "copy_duplicates records n K src token (f, c) =
      fold (\<lambda>x (f, n). if ?P x then (f(n := (\<lambda>(k, i). rr_recvSlot (records i)) x), n + 1) else (f, n)) ?L (f, c)"
    unfolding copy_duplicates_def by (rule fold_cong) (auto split: prod.splits)
  have eq: "map (\<lambda>(k, i). rr_recvSlot (records i)) (filter ?P ?L) = concat (map (\<lambda>k. map (\<lambda>i. rr_recvSlot (records i))
      (filter (\<lambda>i. rr_topKId (records i) = k \<and> rr_isPrimary (records i) = 0) (matching records n src token))) [0..K - 1])"
    by (simp add: product_concat_map filter_concat map_concat matching_def filter_map comp_def conj_ac)
  show ?thesis unfolding e fold_append_array Let_def eq [symmetric] length_map ..
qed

lemma count_records_fold:
  "fold (\<lambda>i (routeCount, primaryCount, primarySlot).
        if \<not> RecordMatches (records i) src tokenId then (routeCount, primaryCount, primarySlot)
        else if rr_isPrimary (records i) \<noteq> 0 then (routeCount + 1, primaryCount + 1, rr_recvSlot (records i))
        else (routeCount + 1, primaryCount, primarySlot)) xs (a, b, p) =
    (let ms = filter (\<lambda>i. RecordMatches (records i) src tokenId) xs; ps = filter (\<lambda>i. rr_isPrimary (records i) \<noteq> 0) ms
     in (a + int (length ms), b + int (length ps), if ps = [] then p else rr_recvSlot (records (last ps))))"
  by (induction xs arbitrary: a b p) (auto simp: Let_def)

lemma count_records_eq:
  "count_records records n src token =
    (let ms = matching records n src token; ps = filter (\<lambda>i. rr_isPrimary (records i) \<noteq> 0) ms
     in (int (length ms), int (length ps), if ps = [] then -1 else rr_recvSlot (records (last ps))))"
  unfolding count_records_def count_records_fold matching_def by (simp add: Let_def)

section \<open>The records of a rank\<close>

text \<open>The records that rank \<open>d\<close> receives under a plan, in any order.\<close>

definition route_of_record :: "MoonEPReceivedRoute \<Rightarrow> int \<times> int \<times> int" where
  "route_of_record rec = (rr_srcRank rec, rr_tokenId rec, rr_topKId rec)"

definition received_by :: "ref_input \<Rightarrow> ref_output \<Rightarrow> int \<Rightarrow> MoonEPReceivedRoute arr \<Rightarrow> int \<Rightarrow> bool" where
  "received_by ri ro d records n = (0 \<le> n \<and> inj_on (\<lambda>i. route_of_record (records i)) {0..<n} \<and>
    (\<lambda>i. route_of_record (records i)) ` {0..<n} = {(src, token, k) \<in> routes_of ri. rank_at ri ro src token k = d} \<and>
    (\<forall>i\<in>{0..<n}. case route_of_record (records i) of (src, token, k) \<Rightarrow>
      rr_recvSlot (records i) = slot_at ri ro src token k \<and> rr_isPrimary (records i) = (if 0 \<le> code_at ri ro src token k then 1 else 0)))"

text \<open>The choices of a token that go to rank \<open>d\<close>, in order.\<close>

definition choices_to :: "ref_input \<Rightarrow> ref_output \<Rightarrow> int \<Rightarrow> int \<Rightarrow> int \<Rightarrow> int list" where
  "choices_to ri ro d src token = filter (\<lambda>k. rank_at ri ro src token k = d) [0..ri_topK ri - 1]"

lemma received_byD:
  assumes "received_by ri ro d records n"
  shows "0 \<le> n" "inj_on (\<lambda>i. route_of_record (records i)) {0..<n}"
    "(\<lambda>i. route_of_record (records i)) ` {0..<n} = {(src, token, k) \<in> routes_of ri. rank_at ri ro src token k = d}"
    "\<forall>i\<in>{0..<n}. case route_of_record (records i) of (src, token, k) \<Rightarrow>
      rr_recvSlot (records i) = slot_at ri ro src token k \<and> rr_isPrimary (records i) = (if 0 \<le> code_at ri ro src token k then 1 else 0)"
  by (insert assms [unfolded received_by_def], (elim conjE, assumption)+)

lemma received_record:
  assumes "received_by ri ro d records n" "i \<in> set (matching records n src token)"
  shows "(src, token, rr_topKId (records i)) \<in> routes_of ri" "rank_at ri ro src token (rr_topKId (records i)) = d"
    "rr_recvSlot (records i) = slot_at ri ro src token (rr_topKId (records i))"
    "rr_isPrimary (records i) = (if 0 \<le> code_at ri ro src token (rr_topKId (records i)) then 1 else 0)"
    "route_of_record (records i) = (src, token, rr_topKId (records i))"
proof -
  have i: "i \<in> {0..<n}" and m: "route_of_record (records i) = (src, token, rr_topKId (records i))"
    using assms(2) by (auto simp: matching_def RecordMatches_def route_of_record_def)
  note rb = received_byD(3,4) [OF assms(1)]
  have "route_of_record (records i) \<in> {(src, token, k) \<in> routes_of ri. rank_at ri ro src token k = d}"
    unfolding rb(1) [symmetric] using i by (rule imageI)
  then show "(src, token, rr_topKId (records i)) \<in> routes_of ri" "rank_at ri ro src token (rr_topKId (records i)) = d" unfolding m by simp_all
  show "rr_recvSlot (records i) = slot_at ri ro src token (rr_topKId (records i))"
    "rr_isPrimary (records i) = (if 0 \<le> code_at ri ro src token (rr_topKId (records i)) then 1 else 0)"
    using bspec [OF rb(2) i] unfolding m prod.case by simp_all
  show "route_of_record (records i) = (src, token, rr_topKId (records i))" by (rule m)
qed

lemma matching_choices:
  assumes rb: "received_by ri ro d records n" and r: "src \<in> {0..<ri_rankSize ri}" "token \<in> {0..<ri_s ri}"
  shows "mset (map (\<lambda>i. rr_topKId (records i)) (filter (\<lambda>i. Q (rr_topKId (records i))) (matching records n src token))) =
    mset (filter Q (choices_to ri ro d src token))"
proof -
  let ?M = "matching records n src token" and ?k = "\<lambda>i. rr_topKId (records i)"
  note inj = received_byD(2) [OF rb] and img = received_byD(3) [OF rb]
  have sub: "set ?M \<subseteq> {0..<n}" by (auto simp: matching_def)
  have "inj_on ?k (set ?M)"
  proof (rule inj_onI)
    fix i j assume ij: "i \<in> set ?M" "j \<in> set ?M" "?k i = ?k j"
    have "route_of_record (records i) = route_of_record (records j)" using received_record(5) [OF rb ij(1)] received_record(5) [OF rb ij(2)] ij(3) by simp
    then show "i = j" using inj_onD [OF inj] ij(1,2) sub by blast
  qed
  then have "distinct (map ?k (filter (\<lambda>i. Q (?k i)) ?M))"
    by (auto simp: distinct_map matching_def intro: inj_on_subset)
  moreover have "distinct (filter Q (choices_to ri ro d src token))" by (simp add: choices_to_def)
  moreover have "set (map ?k (filter (\<lambda>i. Q (?k i)) ?M)) = set (filter Q (choices_to ri ro d src token))"
  proof (intro set_eqI iffI)
    fix k assume "k \<in> set (filter Q (choices_to ri ro d src token))"
    then have k: "Q k" "k \<in> {0..<ri_topK ri}" "rank_at ri ro src token k = d" by (auto simp: choices_to_def)
    then have "(src, token, k) \<in> (\<lambda>i. route_of_record (records i)) ` {0..<n}" using r unfolding img by simp
    then obtain i where i: "i \<in> {0..<n}" "(src, token, k) = route_of_record (records i)" by (rule imageE)
    then have "i \<in> set ?M" "?k i = k" by (auto simp: matching_def RecordMatches_def route_of_record_def)
    then show "k \<in> set (map ?k (filter (\<lambda>i. Q (?k i)) ?M))" using k(1) by force
  next
    fix k assume "k \<in> set (map ?k (filter (\<lambda>i. Q (?k i)) ?M))"
    then obtain i where i: "i \<in> set ?M" "k = ?k i" "Q k" by auto
    then show "k \<in> set (filter Q (choices_to ri ro d src token))" using received_record(1,2) [OF rb i(1)] by (simp add: choices_to_def)
  qed
  ultimately show ?thesis by (simp only: set_eq_iff_mset_eq_distinct [symmetric])
qed

text \<open>The first choice is the primary route, the others are duplicates.\<close>

lemma choices_codes:
  assumes co: "codes_ok ri ro" and r: "src \<in> {0..<ri_rankSize ri}" "token \<in> {0..<ri_s ri}" and ch: "choices_to ri ro d src token = k # ks"
  shows "0 \<le> code_at ri ro src token k" "\<forall>j\<in>set ks. code_at ri ro src token j < 0" "filter (\<lambda>j. 0 \<le> code_at ri ro src token j) (k # ks) = [k]"
proof -
  have srt: "sorted_wrt (<) (k # ks)" unfolding ch [symmetric] choices_to_def
    by (intro sorted_wrt_filter) (simp add: strict_sorted_iff)
  have mem: "(j \<in> set (k # ks)) = (j \<in> {0..<ri_topK ri} \<and> rank_at ri ro src token j = d)" for j
    unfolding ch [symmetric] by (auto simp: choices_to_def)
  have sign: "(0 \<le> code_at ri ro src token j) = (\<forall>i\<in>{0..<j}. rank_at ri ro src token i \<noteq> d)" if "j \<in> set (k # ks)" for j
    using codes_okD(3) [OF co r, of j] that mem [of j] by (auto simp: image_iff)
  have below: "i \<notin> {0..<k} \<or> rank_at ri ro src token i \<noteq> d" for i
  proof (rule ccontr)
    assume "\<not> (i \<notin> {0..<k} \<or> rank_at ri ro src token i \<noteq> d)"
    then have "i \<in> set (k # ks)" "i < k" using mem [of i] mem [of k] by auto
    then show False using srt by auto
  qed
  show p: "0 \<le> code_at ri ro src token k" using sign [of k] below by auto
  show n: "\<forall>j\<in>set ks. code_at ri ro src token j < 0"
  proof
    fix j assume j: "j \<in> set ks"
    then have "k \<in> {0..<j}" "rank_at ri ro src token k = d" using srt mem [of k] by auto
    then show "code_at ri ro src token j < 0" using sign [of j] j by force
  qed
  show "filter (\<lambda>j. 0 \<le> code_at ri ro src token j) (k # ks) = [k]" using p n by (auto simp: filter_empty_conv not_le)
qed

lemma mset_one: "mset xs = mset [x] \<Longrightarrow> xs = [x]"
  by simp

lemma mset_guard: "mset xs = mset (if P then [x] else []) \<Longrightarrow> xs = (if P then [x] else [])"
  by (cases P) simp_all

lemma count_received:
  assumes rb: "received_by ri ro d records n" and co: "codes_ok ri ro" and r: "src \<in> {0..<ri_rankSize ri}" "token \<in> {0..<ri_s ri}"
  defines "ch \<equiv> choices_to ri ro d src token"
  shows "count_records records n src token = (int (length ch), if ch = [] then 0 else 1, if ch = [] then -1 else slot_at ri ro src token (hd ch))"
proof -
  let ?M = "matching records n src token" and ?k = "\<lambda>i. rr_topKId (records i)"
  have "filter (\<lambda>i. rr_isPrimary (records i) \<noteq> 0) ?M = filter (\<lambda>i. 0 \<le> code_at ri ro src token (?k i)) ?M"
    by (rule filter_cong [OF refl]) (simp add: received_record(4) [OF rb])
  then have ps: "mset (map ?k (filter (\<lambda>i. rr_isPrimary (records i) \<noteq> 0) ?M)) = mset (filter (\<lambda>k. 0 \<le> code_at ri ro src token k) ch)"
    using matching_choices [OF rb r, of "\<lambda>k. 0 \<le> code_at ri ro src token k"] by (simp add: ch_def)
  have len: "length ?M = length ch" using arg_cong [OF matching_choices [OF rb r, of "\<lambda>_. True"], of size] by (simp add: ch_def)
  show ?thesis
  proof (cases ch)
    case Nil
    then show ?thesis using len by (simp add: count_records_eq Let_def)
  next
    case (Cons k ks)
    have c: "choices_to ri ro d src token = k # ks" using Cons by (simp only: ch_def)
    have "map ?k (filter (\<lambda>i. rr_isPrimary (records i) \<noteq> 0) ?M) = [k]"
      using ps unfolding Cons choices_codes(3) [OF co r c] by (rule mset_one)
    then obtain i where i: "filter (\<lambda>i. rr_isPrimary (records i) \<noteq> 0) ?M = [i]" "?k i = k" by auto
    have "i \<in> set (filter (\<lambda>i. rr_isPrimary (records i) \<noteq> 0) ?M)" unfolding i(1) by simp
    then have "i \<in> set ?M" by simp
    then show ?thesis using len i received_record(3) [OF rb] Cons by (simp add: count_records_eq Let_def)
  qed
qed

lemma copy_received:
  assumes rb: "received_by ri ro d records n" and co: "codes_ok ri ro" and r: "src \<in> {0..<ri_rankSize ri}" "token \<in> {0..<ri_s ri}"
  defines "xs \<equiv> map (slot_at ri ro src token) (tl (choices_to ri ro d src token))"
  shows "copy_duplicates records n (ri_topK ri) src token (f, c) = (store_row f c xs, c + int (length xs))"
proof -
  let ?M = "matching records n src token" and ?k = "\<lambda>i. rr_topKId (records i)" and ?ch = "choices_to ri ro d src token"
  let ?C = "\<lambda>k. rank_at ri ro src token k = d \<and> code_at ri ro src token k < 0"
  have one: "map (\<lambda>i. rr_recvSlot (records i)) (filter (\<lambda>i. ?k i = k \<and> rr_isPrimary (records i) = 0) ?M) =
      (if ?C k then [slot_at ri ro src token k] else [])" if k: "k \<in> set [0..ri_topK ri - 1]" for k
  proof -
    let ?L = "filter (\<lambda>i. ?k i = k \<and> rr_isPrimary (records i) = 0) ?M" and ?Q = "\<lambda>j. j = k \<and> code_at ri ro src token j < 0"
    have L: "?L = filter (\<lambda>i. ?Q (?k i)) ?M"
      by (rule filter_cong [OF refl]) (auto simp: received_record(4) [OF rb])
    have "filter ?Q ?ch = (if ?C k then [k] else [])"
    proof -
      have "mset (filter ?Q ?ch) = mset (if ?C k then [k] else [])"
        by (subst set_eq_iff_mset_eq_distinct [symmetric]) (use k in \<open>auto simp: choices_to_def\<close>)
      then show ?thesis by (rule mset_guard)
    qed
    then have "mset (map ?k ?L) = mset (if ?C k then [k] else [])" unfolding L using matching_choices [OF rb r, of ?Q] by (simp only:)
    then have kk: "map ?k ?L = (if ?C k then [k] else [])" by (rule mset_guard)
    have "map (\<lambda>i. rr_recvSlot (records i)) ?L = map (slot_at ri ro src token) (map ?k ?L)"
      using received_record(3) [OF rb, of _ src token] by simp
    then show ?thesis unfolding kk by simp
  qed
  have tlc: "filter (\<lambda>k. code_at ri ro src token k < 0) ?ch = tl ?ch"
  proof (cases ?ch)
    case (Cons k ks)
    then show ?thesis using choices_codes(1,2) [OF co r Cons] by (simp add: filter_id_conv)
  qed simp
  have cf: "concat (map (\<lambda>k. if ?C k then [slot_at ri ro src token k] else []) ks) = map (slot_at ri ro src token) (filter ?C ks)" for ks
    by (induction ks) simp_all
  have mc: "map (\<lambda>k. map (\<lambda>i. rr_recvSlot (records i)) (filter (\<lambda>i. ?k i = k \<and> rr_isPrimary (records i) = 0) ?M)) [0..ri_topK ri - 1] =
      map (\<lambda>k. if ?C k then [slot_at ri ro src token k] else []) [0..ri_topK ri - 1]"
    by (rule map_cong [OF refl]) (rule one)
  have "concat (map (\<lambda>k. map (\<lambda>i. rr_recvSlot (records i)) (filter (\<lambda>i. ?k i = k \<and> rr_isPrimary (records i) = 0) ?M)) [0..ri_topK ri - 1]) =
      map (slot_at ri ro src token) (filter ?C [0..ri_topK ri - 1])"
    unfolding mc cf ..
  also have "\<dots> = xs" unfolding xs_def tlc [symmetric] by (simp add: choices_to_def conj_commute)
  finally show ?thesis unfolding copy_duplicates_eq Let_def by simp
qed

section \<open>The loop over the tokens\<close>

text \<open>The metadata: for every token with several routes to rank \<open>d\<close>, the slot of its first route, the
  position of its duplicates and their number; and the slots of the duplicates, token by token.\<close>

fun group_rows :: "ref_input \<Rightarrow> ref_output \<Rightarrow> int \<Rightarrow> (int \<times> int) list \<Rightarrow> int \<Rightarrow> int list" where
  "group_rows ri ro d [] start = []"
| "group_rows ri ro d ((src, token) # keys) start =
    (let ch = choices_to ri ro d src token; dups = int (length (tl ch))
     in if length ch < 2 then group_rows ri ro d keys start
        else slot_at ri ro src token (hd ch) # start # dups # group_rows ri ro d keys (start + dups))"

definition dup_slots :: "ref_input \<Rightarrow> ref_output \<Rightarrow> int \<Rightarrow> (int \<times> int) list \<Rightarrow> int list" where
  "dup_slots ri ro d keys = concat (map (\<lambda>(src, token). map (slot_at ri ro src token) (tl (choices_to ri ro d src token))) keys)"

definition groups_in :: "ref_input \<Rightarrow> ref_output \<Rightarrow> int \<Rightarrow> (int \<times> int) list \<Rightarrow> int" where
  "groups_in ri ro d keys = int (length (filter (\<lambda>(src, token). 2 \<le> length (choices_to ri ro d src token)) keys))"

lemma store_row_append: "store_row (store_row f b xs) (b + int (length xs)) ys = store_row f b (xs @ ys)"
proof (induction xs arbitrary: f b)
  case (Cons x xs)
  show ?case using Cons.IH [of "f(b := x)" "b + 1"] by (simp add: store_row_Cons add.assoc del: fun_upd_apply)
qed (simp add: store_row_def fun_eq_iff)

lemma store_row_nil [simp]: "store_row f b [] = f"
  by (simp add: store_row_def fun_eq_iff)

lemma groups_in_le: "groups_in ri ro d keys \<le> int (length (dup_slots ri ro d keys))"
proof (induction keys)
  case (Cons key keys)
  obtain src token where "key = (src, token)" by fastforce
  then show ?case using Cons.IH by (auto simp: groups_in_def dup_slots_def)
qed (simp add: groups_in_def)

lemma dup_tokens_run:
  assumes rb: "received_by ri ro d records n" and co: "codes_ok ri ro"
  shows "\<lbrakk>set keys \<subseteq> {0..<ri_rankSize ri} \<times> {0..<ri_s ri}; gc + groups_in ri ro d keys \<le> nvs; 0 \<le> gc; 3 * (gc + groups_in ri ro d keys) \<le> INT32_MAX; dc + int (length (dup_slots ri ro d keys)) \<le> nvs\<rbrakk> \<Longrightarrow>
    dup_tokens records n (ri_topK ri) nvs keys (g, l, gc, dc) =
      (PLAN_OK, store_row g (gc * 3) (group_rows ri ro d keys dc), store_row l dc (dup_slots ri ro d keys),
       gc + groups_in ri ro d keys, dc + int (length (dup_slots ri ro d keys)))"
proof (induction keys arbitrary: g l gc dc)
  case Nil
  show ?case by (simp add: groups_in_def dup_slots_def)
next
  case (Cons key keys)
  obtain src token where key: "key = (src, token)" by fastforce
  define ch where "ch = choices_to ri ro d src token"
  have r: "src \<in> {0..<ri_rankSize ri}" "token \<in> {0..<ri_s ri}" "set keys \<subseteq> {0..<ri_rankSize ri} \<times> {0..<ri_s ri}" using Cons.prems(1) key by auto
  note cnt = count_received [OF rb co r(1,2), folded ch_def] and cp = copy_received [OF rb co r(1,2), folded ch_def]
  define xs where "xs = map (slot_at ri ro src token) (tl ch)"
  have slots: "dup_slots ri ro d (key # keys) = xs @ dup_slots ri ro d keys" by (simp add: dup_slots_def key xs_def ch_def)
  show ?case
  proof (cases "length ch < 2")
    case True
    have "tl ch = []" using True by (cases ch) auto
    then have eqs: "xs = []" "groups_in ri ro d (key # keys) = groups_in ri ro d keys" "group_rows ri ro d (key # keys) dc = group_rows ri ro d keys dc"
      using True by (simp_all add: xs_def groups_in_def key ch_def [symmetric] Let_def)
    have step: "dup_tokens records n (ri_topK ri) nvs (key # keys) (g, l, gc, dc) = dup_tokens records n (ri_topK ri) nvs keys (g, l, gc, dc)"
    proof (cases ch)
      case (Cons k ks)
      then have "ks = []" using True by simp
      then show ?thesis unfolding key by (simp add: cnt Cons)
    qed (simp add: key cnt)
    show ?thesis unfolding step slots eqs append_Nil by (rule Cons.IH [OF r(3)]) (use Cons.prems eqs slots in simp_all)
  next
    case False
    obtain k ks where ck: "ch = k # ks" "ks \<noteq> []" using False by (cases ch) auto
    have lx: "int (length xs) = int (length ch) - 1" using ck by (simp add: xs_def)
    have rest: "groups_in ri ro d (key # keys) = 1 + groups_in ri ro d keys"
      "group_rows ri ro d (key # keys) dc = [slot_at ri ro src token (hd ch), dc, int (length xs)] @ group_rows ri ro d keys (dc + int (length xs))"
      using False by (simp_all add: groups_in_def key ch_def [symmetric] Let_def xs_def)
    have nn: "0 \<le> groups_in ri ro d keys" by (simp add: groups_in_def)
    have room: "\<not> (gc \<ge> nvs \<or> dc > nvs - (int (length ch) - 1))" using Cons.prems(2,5) nn lx unfolding rest slots by simp
    have base: "i32 (gc * 3) = gc * 3" "i32 (gc * 3 + 1) = gc * 3 + 1" "i32 (gc * 3 + 2) = gc * 3 + 2"
      using Cons.prems(3,4) nn unfolding rest by (simp_all add: i32_id)
    let ?g = "g(gc * 3 := slot_at ri ro src token (hd ch), gc * 3 + 1 := dc, gc * 3 + 2 := int (length ch) - 1)"
    have step: "dup_tokens records n (ri_topK ri) nvs (key # keys) (g, l, gc, dc) =
        dup_tokens records n (ri_topK ri) nvs keys (?g, store_row l dc xs, gc + 1, dc + int (length xs))"
      unfolding key dup_tokens.simps cnt prod.case Let_def cp xs_def [symmetric] base
      using ck room by (simp del: fun_upd_apply)
    have g: "?g = store_row g (gc * 3) [slot_at ri ro src token (hd ch), dc, int (length xs)]"
      by (simp add: store_row_Cons lx del: fun_upd_apply) (simp add: algebra_simps)
    have ih: "dup_tokens records n (ri_topK ri) nvs keys (?g, store_row l dc xs, gc + 1, dc + int (length xs)) =
      (PLAN_OK, store_row ?g ((gc + 1) * 3) (group_rows ri ro d keys (dc + int (length xs))), store_row (store_row l dc xs) (dc + int (length xs)) (dup_slots ri ro d keys),
       gc + 1 + groups_in ri ro d keys, dc + int (length xs) + int (length (dup_slots ri ro d keys)))"
      by (rule Cons.IH [OF r(3)]) (use Cons.prems(2-5) rest slots in simp_all)
    have pos: "(gc + 1) * 3 = gc * 3 + int (length [slot_at ri ro src token (hd ch), dc, int (length xs)])" by simp
    show ?thesis unfolding step ih unfolding g pos store_row_append slots rest by simp
  qed
qed

section \<open>The metadata of a rank\<close>

lemma check_records_ok:
  assumes "\<forall>i\<in>set is. rr_srcRank (records i) \<in> {0..<R} \<and> rr_tokenId (records i) \<in> {0..<s} \<and> rr_topKId (records i) \<in> {0..<K} \<and>
      rr_recvSlot (records i) \<in> {0..<nvs} \<and> rr_isPrimary (records i) \<in> {0, 1} \<and>
      (\<forall>j\<in>{0..<i}. route_of_record (records j) \<noteq> route_of_record (records i))"
  shows "check_records records R s K nvs is = PLAN_OK"
  using assms
proof (induction "is")
  case (Cons i rest)
  have "\<not> list_ex (\<lambda>prior. rr_srcRank (records prior) = rr_srcRank (records i) \<and> rr_tokenId (records prior) = rr_tokenId (records i) \<and>
      rr_topKId (records prior) = rr_topKId (records i)) [0..i - 1]"
    using Cons.prems unfolding list_ex_iff set_upto_below route_of_record_def by auto
  then show ?case using Cons by (auto simp: Let_def)
qed simp

lemma slots_inj:
  assumes co: "codes_ok ri ro"
  shows "inj_on (\<lambda>(src, token, k). slot_at ri ro src token k) {(src, token, k) \<in> routes_of ri. rank_at ri ro src token k = d}"
proof (rule inj_onI)
  let ?S = "{(src, token, k) \<in> routes_of ri. rank_at ri ro src token k = d}"
  fix p q assume pq: "p \<in> ?S" "q \<in> ?S" "(case p of (src, token, k) \<Rightarrow> slot_at ri ro src token k) = (case q of (src, token, k) \<Rightarrow> slot_at ri ro src token k)"
  have raw: "(case t of (src, token, k) \<Rightarrow> raw_at ri ro src token k) = d * nvS (ri_config ri) + (case t of (src, token, k) \<Rightarrow> slot_at ri ro src token k) \<and> t \<in> routes_of ri"
    if "t \<in> ?S" for t
  proof -
    obtain src token k where t: "t = (src, token, k)" by (cases t)
    have e: "rank_at ri ro src token k = d" using that by (simp add: t)
    have "d * nvS (ri_config ri) + slot_at ri ro src token k = raw_at ri ro src token k" unfolding e [symmetric] by (rule div_mult_mod_eq)
    then show ?thesis using that by (simp add: t)
  qed
  have "inj_on (\<lambda>(src, token, k). raw_at ri ro src token k) (routes_of ri)" using co unfolding codes_ok_def by blast
  from inj_onD [OF this] show "p = q" using raw [OF pq(1)] raw [OF pq(2)] pq(3) by simp
qed

text \<open>The choices of all keys that route to a rank occupy different slots of it, so there are at most
  \<open>nvS\<close> of them; a group has at least two.\<close>

lemma choices_fit:
  assumes co: "codes_ok ri ro" and nv: "0 < nvS (ri_config ri)" and keys: "set keys \<subseteq> {0..<ri_rankSize ri} \<times> {0..<ri_s ri}" "distinct keys"
  shows "int (\<Sum>(src, token)\<leftarrow>keys. length (choices_to ri ro d src token)) \<le> nvS (ri_config ri)"
proof -
  define rts where "rts = concat (map (\<lambda>(src, token). map (\<lambda>k. (src, token, k)) (choices_to ri ro d src token)) keys)"
  let ?slot = "\<lambda>(src, token, k). slot_at ri ro src token k"
  have len: "length rts = (\<Sum>(src, token)\<leftarrow>keys. length (choices_to ri ro d src token))"
    by (simp add: rts_def length_concat comp_def case_prod_unfold)
  have sub: "set rts \<subseteq> {(src, token, k) \<in> routes_of ri. rank_at ri ro src token k = d}"
    using keys(1) unfolding rts_def choices_to_def by fastforce
  have "distinct rts" using keys(2) unfolding rts_def
  proof (induction keys)
    case (Cons key keys)
    obtain src token where key: "key = (src, token)" by fastforce
    have "distinct (map (\<lambda>k. (src, token, k)) (choices_to ri ro d src token))"
      by (simp add: distinct_map choices_to_def inj_on_def)
    then show ?case using Cons by (auto simp: key)
  qed simp
  moreover have "inj_on ?slot (set rts)" by (rule inj_on_subset [OF slots_inj [OF co, of d] sub])
  ultimately have d: "distinct (map ?slot rts)" by (simp add: distinct_map)
  have "set (map ?slot rts) \<subseteq> {0..<nvS (ri_config ri)}" using nv by auto
  then have "card (set (map ?slot rts)) \<le> card {0..<nvS (ri_config ri)}" by (rule card_mono [rotated]) simp
  then show ?thesis using nv unfolding distinct_card [OF d] by (simp add: len)
qed

lemma dup_slots_le: "length (dup_slots ri ro d keys) \<le> (\<Sum>(src, token)\<leftarrow>keys. length (choices_to ri ro d src token))"
  by (induction keys) (auto simp: dup_slots_def)

lemma groups_in_half: "2 * groups_in ri ro d keys \<le> int (\<Sum>(src, token)\<leftarrow>keys. length (choices_to ri ro d src token))"
  by (induction keys) (auto simp: groups_in_def)

text \<open>The bases of the groups fit 32 bits: with two ranks or more because \<open>rankSize * nvS\<close> does.\<close>

lemma group_bases_fit:
  assumes "codes_ok ri ro" "0 < nvS (ri_config ri)" "ri_rankSize ri * nvS (ri_config ri) \<le> INT32_MAX" "0 < ri_rankSize ri" "0 < ri_s ri"
    and small: "1 < ri_rankSize ri \<or> 3 * ri_s ri \<le> INT32_MAX"
  defines "keys \<equiv> List.product [0..ri_rankSize ri - 1] [0..ri_s ri - 1]"
  shows "3 * groups_in ri ro d keys \<le> INT32_MAX"
proof (cases "1 < ri_rankSize ri")
  case True
  have "set keys \<subseteq> {0..<ri_rankSize ri} \<times> {0..<ri_s ri}" "distinct keys" by (auto simp: keys_def intro: distinct_product)
  from choices_fit [OF assms(1,2) this, of d] have "2 * groups_in ri ro d keys \<le> nvS (ri_config ri)"
    using groups_in_half [of ri ro d keys] by linarith
  moreover have "2 * nvS (ri_config ri) \<le> ri_rankSize ri * nvS (ri_config ri)" using True assms(2) by (intro mult_right_mono) simp_all
  ultimately show ?thesis using assms(3) assms(2) by linarith
next
  case False
  have "groups_in ri ro d keys \<le> int (length keys)" by (simp add: groups_in_def)
  also have "\<dots> = ri_s ri" using False assms(4,5) by (simp add: keys_def)
  finally show ?thesis using small False by linarith
qed

lemma length_group_rows: "int (length (group_rows ri ro d keys start)) = 3 * groups_in ri ro d keys"
proof (induction keys arbitrary: start)
  case (Cons key keys)
  obtain src token where "key = (src, token)" by fastforce
  then show ?case using Cons.IH by (auto simp: groups_in_def Let_def)
qed (simp add: groups_in_def)

lemma received_records_ok:
  assumes acc: "CheckReferencePlanInvariants ri ro = None" and R: "ri_rankSize ri \<le> 128" and rb: "received_by ri ro d records n"
  shows "check_records records (ri_rankSize ri) (ri_s ri) (ri_topK ri) (nvS (ri_config ri)) [0..n - 1] = PLAN_OK"
proof (rule check_records_ok, intro ballI)
  fix i assume "i \<in> set [0..n - 1]"
  then have i: "i \<in> {0..<n}" by simp
  note nv = route_ids_fit(3) [OF accepted_codes(1) [OF acc] R] and inj = received_byD(2) [OF rb]
  have m: "i \<in> set (matching records n (rr_srcRank (records i)) (rr_tokenId (records i)))" using i by (simp add: matching_def RecordMatches_def)
  have prior: "\<forall>j\<in>{0..<i}. route_of_record (records j) \<noteq> route_of_record (records i)"
    using inj_onD [OF inj, of _ i] i by force
  show "rr_srcRank (records i) \<in> {0..<ri_rankSize ri} \<and> rr_tokenId (records i) \<in> {0..<ri_s ri} \<and> rr_topKId (records i) \<in> {0..<ri_topK ri} \<and>
      rr_recvSlot (records i) \<in> {0..<nvS (ri_config ri)} \<and> rr_isPrimary (records i) \<in> {0, 1} \<and>
      (\<forall>j\<in>{0..<i}. route_of_record (records j) \<noteq> route_of_record (records i))"
    using received_record [OF rb m] nv prior by simp
qed

lemma received_count:
  assumes v: "ValidateInput ri = PLAN_OK" and rb: "received_by ri ro d records n"
  shows "n \<le> ri_rankSize ri * ri_s ri * ri_topK ri"
proof -
  note pos = ValidateInput_pos [OF v]
  have "card {0..<n} = card ((\<lambda>i. route_of_record (records i)) ` {0..<n})" by (rule card_image [OF received_byD(2) [OF rb], symmetric])
  also have "\<dots> \<le> card (routes_of ri)" unfolding received_byD(3) [OF rb] by (rule card_mono) auto
  finally have "nat n \<le> nat (ri_rankSize ri) * (nat (ri_s ri) * nat (ri_topK ri))" by (simp add: card_cartesian_product)
  then have "int (nat n) \<le> int (nat (ri_rankSize ri) * (nat (ri_s ri) * nat (ri_topK ri)))" by (rule iffD2 [OF zle_int])
  then show ?thesis using pos received_byD(1) [OF rb] by (simp add: mult.assoc)
qed

lemma received_args_ok:
  assumes v: "ValidateInput ri = PLAN_OK" and R: "ri_rankSize ri \<le> 128" and rb: "received_by ri ro d records n"
  shows "\<not> dup_args_invalid (Some records) n (ri_rankSize ri) (ri_s ri) (ri_topK ri) (nvS (ri_config ri)) (Some g) (Some l) (Some c)"
proof -
  note pos = ValidateInput_pos [OF v] and b = ValidateInput_bounds [OF v] and f = route_ids_fit [OF v R]
  have p: "0 < ri_s ri * ri_topK ri" using pos by simp
  have "ri_rankSize ri * (ri_s ri * ri_topK ri) \<le> 128 * INT32_MAX" using R b(1) p pos(1) by (intro mult_mono) (auto simp: INT32_MAX_def)
  then have "ri_rankSize ri \<le> INT64_MAX div (ri_s ri * ri_topK ri)" "ri_s ri \<le> INT64_MAX div ri_topK ri"
    using p pos b(1) zdiv_mono1 [of "ri_rankSize ri * (ri_s ri * ri_topK ri)" INT64_MAX "ri_s ri * ri_topK ri"]
      zdiv_mono1 [of "ri_s ri * ri_topK ri" INT64_MAX "ri_topK ri"] by (simp_all add: INT64_MAX_def INT32_MAX_def)
  then show ?thesis using pos b f received_count [OF v rb] received_byD(1) [OF rb] R by (simp add: dup_args_invalid_def not_less)
qed

text \<open>C5: Whatever plan the checker accepts, and in whatever order a rank receives its routes, the receiver can always
  build its duplicate metadata: there is one group for every token with several routes to the rank, in the order of
  source ranks and tokens, with the slot of the primary route and the position and number of its duplicates, and the
  offsets are the slots of the duplicates in the order of the choices.  Neither table overflows.  The base of a group is a
  32-bit product, three times the number of groups before it: with two ranks or more it always fits, with a single rank
  it fits when three times the number of tokens does.\<close>

theorem duplicate_metadata_of_plan:
  assumes acc: "CheckReferencePlanInvariants ri ro = None" and R: "ri_rankSize ri \<le> 128" and rb: "received_by ri ro d records n"
    and small: "1 < ri_rankSize ri \<or> 3 * ri_s ri \<le> INT32_MAX"
  defines "keys \<equiv> List.product [0..ri_rankSize ri - 1] [0..ri_s ri - 1]"
  shows "\<exists>g' l' c'. BuildMoonEPDuplicateMetadata (Some records) n (ri_rankSize ri) (ri_s ri) (ri_topK ri) (nvS (ri_config ri)) (Some g) (Some l) (Some c) =
      (PLAN_OK, Some g', Some l', Some c') \<and>
    c' 0 = groups_in ri ro d keys \<and> c' 0 \<le> nvS (ri_config ri) \<and> c' 1 = int (length (dup_slots ri ro d keys)) \<and> c' 1 \<le> nvS (ri_config ri) \<and>
    map g' [0..3 * c' 0 - 1] = group_rows ri ro d keys 0 \<and> map l' [0..c' 1 - 1] = dup_slots ri ro d keys"
proof -
  note v = accepted_codes [OF acc]
  note nv = route_ids_fit(3) [OF v(1) R]
  let ?nv = "nvS (ri_config ri)" and ?ds = "dup_slots ri ro d keys" and ?gr = "group_rows ri ro d keys 0" and ?gn = "groups_in ri ro d keys"
  have keys: "set keys \<subseteq> {0..<ri_rankSize ri} \<times> {0..<ri_s ri}" "distinct keys" by (auto simp: keys_def intro: distinct_product)
  have fit: "int (length ?ds) \<le> ?nv" using choices_fit [OF v(2) nv keys, of d] dup_slots_le [of ri ro d keys] by linarith
  then have fit2: "?gn \<le> ?nv" using groups_in_le [of ri ro d keys] by linarith
  have base: "3 * ?gn \<le> INT32_MAX" unfolding keys_def by (rule group_bases_fit [OF v(2) nv _ _ _ small]) (use ValidateInput_bounds(2) [OF v(1)] ValidateInput_pos [OF v(1)] in simp_all)
  define g0 l0 c0 where "g0 = clear (?nv * 3) (-1) g" and "l0 = clear ?nv (-1) l" and "c0 = c(0 := 0, 1 := 0)"
  have run: "dup_tokens records n (ri_topK ri) ?nv keys (g0, l0, 0, 0) = (PLAN_OK, store_row g0 0 ?gr, store_row l0 0 ?ds, ?gn, int (length ?ds))"
    using dup_tokens_run [OF rb v(2) keys(1), of 0 ?nv 0 g0 l0] fit fit2 base by simp
  have "BuildMoonEPDuplicateMetadata (Some records) n (ri_rankSize ri) (ri_s ri) (ri_topK ri) ?nv (Some g) (Some l) (Some c) =
      (PLAN_OK, Some (store_row g0 0 ?gr), Some (store_row l0 0 ?ds), Some (c0(0 := ?gn, 1 := int (length ?ds))))"
    unfolding BuildMoonEPDuplicateMetadata_def Let_def
    using received_args_ok [OF v(1) R rb, of g l c] received_records_ok [OF acc R rb] run
    by (simp add: deref_def g0_def l0_def c0_def keys_def)
  moreover have "map (store_row f 0 xs) [0..int (length xs) - 1] = xs" for f :: "int arr" and xs
    by (rule nth_equalityI) (simp_all add: store_row_def nth_upto)
  from this [of g0 ?gr] this [of l0 ?ds] have "map (store_row g0 0 ?gr) [0..3 * ?gn - 1] = ?gr" "map (store_row l0 0 ?ds) [0..int (length ?ds) - 1] = ?ds"
    by (simp_all add: length_group_rows)
  ultimately show ?thesis using fit fit2 by (intro exI conjI) (assumption | simp)+
qed

text \<open>A plan in which both choices of every token go to one rank.\<close>

definition job_dup :: ref_input where
  "job_dup = \<lparr> ri_rankSize = 2, ri_s = 1, ri_topK = 2, ri_expertNum = 4,
     ri_config = job_config\<lparr> rankTokenCapacity := 2 \<rparr>,
     ri_globalRankIds = \<lparr> vsize = 2, cell = (\<lambda>i. i) \<rparr>, ri_topkExperts = \<lparr> vsize = 4, cell = (\<lambda>i. i) \<rparr>,
     ri_tokensPerExpert = \<lparr> vsize = 8, cell = (\<lambda>i. if i \<in> {0, 1, 6, 7} then 1 else 0) \<rparr> \<rparr>"

definition stay :: "int \<Rightarrow> int \<Rightarrow> token_segment_move" where
  "stay r e = \<lparr> expertId = e, srcRank = r, dstRank = r, srcExpertBegin = 0, dstExpertBegin = 0, tokenCount = 1 \<rparr>"

definition job_dup_plan :: ref_output where
  "job_dup_plan = \<lparr> ro_finalStatus = PLAN_OK, ro_dst = \<lparr> vsize = 4, cell = (\<lambda>i. if i = 0 then 0 else if i = 1 then -2 else if i = 2 then 2 else -4) \<rparr>,
     ro_cuSeqlens = \<lparr> vsize = 10, cell = (\<lambda>i. if i = 0 then 1 else if i < 5 then 2 else if i < 7 then 0 else if i = 7 then 1 else 2) \<rparr>,
     ro_expertsToCopy = vec_fill 2 (-1), ro_expertTargets = vec_fill 4 0, ro_remoteStats = vec_fill 4 0, ro_statusByRank = vec_fill 16 0,
     ro_rankLoad = vec_fill 2 2, ro_alloc = ri_tokensPerExpert job_dup,
     ro_segments = [stay 0 0, stay 0 1, stay 1 2, stay 1 3], ro_expertMoves = [] \<rparr>"

lemma job_dup_accepted: "CheckReferencePlanInvariants job_dup job_dup_plan = None"
  by code_simp

definition job_records :: "MoonEPReceivedRoute arr" where
  "job_records i = \<lparr> rr_srcRank = 0, rr_tokenId = 0, rr_topKId = 1 - i, rr_recvSlot = 1 - i, rr_isPrimary = i \<rparr>"

lemma job_dup_codes:
  "code_at job_dup job_dup_plan src token k =
    (let i = src * 2 + token * 2 + k in if i = 0 then 0 else if i = 1 then -2 else if i = 2 then 2 else -4)"
  "nvS (ri_config job_dup) = 2"
  by (simp_all add: code_at_def job_dup_def job_dup_plan_def job_config_def Let_def)

lemma job_received: "received_by job_dup job_dup_plan 0 job_records 2"
proof -
  have two: "{0..<2::int} = {0, 1}" "{0..<1::int} = {0}" by auto
  have r: "routes_of job_dup = {0, 1} \<times> {0} \<times> {0, 1}" by (simp add: job_dup_def two)
  show ?thesis unfolding received_by_def r two job_dup_codes raw_of_def
    by (auto simp: route_of_record_def job_records_def Let_def inj_on_def not_int_def)
qed

theorem duplicate_metadata_of_plan_witness:
  "\<exists>g' l' c'. BuildMoonEPDuplicateMetadata (Some job_records) 2 2 1 2 2 (Some (\<lambda>_. 0)) (Some (\<lambda>_. 0)) (Some (\<lambda>_. 0)) =
      (PLAN_OK, Some g', Some l', Some c') \<and> c' 0 = 1 \<and> map g' [0, 1, 2] = [0, 0, 1] \<and> l' 0 = 1"
proof -
  have R: "ri_rankSize job_dup \<le> 128" by (simp add: job_dup_def)
  have small: "1 < ri_rankSize job_dup \<or> 3 * ri_s job_dup \<le> INT32_MAX" by (simp add: job_dup_def)
  have args: "ri_rankSize job_dup = 2" "ri_s job_dup = 1" "ri_topK job_dup = 2" "nvS (ri_config job_dup) = 2" by (simp_all add: job_dup_def job_config_def)
  have keys: "List.product [0..ri_rankSize job_dup - 1] [0..ri_s job_dup - 1] = [(0, 0), (1, 0)]" by (simp add: args upto.simps)
  have spec: "groups_in job_dup job_dup_plan 0 [(0, 0), (1, 0)] = 1" "group_rows job_dup job_dup_plan 0 [(0, 0), (1, 0)] 0 = [0, 0, 1]"
    "dup_slots job_dup job_dup_plan 0 [(0, 0), (1, 0)] = [1]" by code_simp+
  from duplicate_metadata_of_plan [OF job_dup_accepted R job_received small, of "\<lambda>_. 0" "\<lambda>_. 0" "\<lambda>_. 0", unfolded keys, unfolded spec args]
  obtain g' l' c' where m: "BuildMoonEPDuplicateMetadata (Some job_records) 2 2 1 2 2 (Some (\<lambda>_. 0)) (Some (\<lambda>_. 0)) (Some (\<lambda>_. 0)) =
      (PLAN_OK, Some g', Some l', Some c')" "c' 0 = 1" "c' 1 = int (length [1::int])" "map g' [0..3 * c' 0 - 1] = [0, 0, 1]" "map l' [0..c' 1 - 1] = [1]"
    by (elim exE conjE) (rule that; assumption)
  have "[0..2::int] = [0, 1, 2]" by code_simp
  then have "map g' [0, 1, 2] = [0, 0, 1]" "l' 0 = 1" using m(2-5) by simp_all
  with m(1,2) show ?thesis by (intro exI conjI)
qed
end
