(* ===== verification/PlanTargets.thy ===== *)
theory PlanTargets
  imports PlanDuplicates
begin

text \<open>
  The expert targets that an owner builds from the table of copied experts of an accepted plan.
\<close>

section \<open>The table that the checker expects\<close>

lemma expect_fold_tables:
  assumes c: "target_words c = (ri_rankSize inp + 63) div 64"
  shows "cell (snd (fold (expect_remote inp rank) row acc)) = mark_all c rank row (cell (snd acc)) \<and>
    cell (fst (fold (expect_remote inp rank) row acc)) (h * 2) = cell (fst acc) (h * 2)"
proof (induction row arbitrary: acc)
  case (Cons e row)
  let ?acc = "expect_remote inp rank e acc"
  have odd: "h * 2 \<noteq> k * 2 + 1" for k :: int by presburger
  have "cell (snd ?acc) = (cell (snd acc))(e * target_words c + rank div 64 := cell (snd acc) (e * target_words c + rank div 64) OR push_bit (nat (rank mod 64)) 1)"
    "cell (fst ?acc) (h * 2) = cell (fst acc) (h * 2)"
    using odd by (simp_all add: expect_remote_def Let_def c vec_set_def case_prod_unfold)
  moreover have "mark_all c rank (e # row) T = mark_all c rank row (T(e * target_words c + rank div 64 := T (e * target_words c + rank div 64) OR push_bit (nat (rank mod 64)) 1))" for T
    by (simp only: mark_all_def fold_simps Let_def)
  ultimately show ?case using Cons.IH [of ?acc] by (simp only: fold_simps)
qed (simp add: mark_all_def)

lemma expect_rows_tables:
  fixes out :: ref_output
  assumes c: "target_words c = (ri_rankSize inp + 63) div 64"
  defines "remote \<equiv> ref_remote (ref_ctx_of inp) (cell (ro_alloc out))"
  shows "\<lbrakk>expect_rows inp out ds acc = Inr acc'; distinct ds\<rbrakk> \<Longrightarrow>
    cell (snd acc') = fold (\<lambda>d. mark_all c d (remote d)) ds (cell (snd acc)) \<and>
    (\<forall>d. cell (fst acc') (d * 2) = (if d \<in> set ds then int (length (remote d)) else cell (fst acc) (d * 2))) \<and>
    (\<forall>d\<in>set ds. check_copies inp out d (remote d) = None)"
proof (induction ds arbitrary: acc)
  case (Cons d ds)
  obtain st tg where acc: "acc = (st, tg)" by fastforce
  define acc1 where "acc1 = fold (expect_remote inp d) (remote d) (vec_set st (d * 2) (int (length (remote d))), tg)"
  have rest: "expect_rows inp out ds acc1 = Inr acc'" and cp: "check_copies inp out d (remote d) = None"
    using Cons.prems(1) by (auto simp: acc acc1_def remote_def Let_def split: option.splits)
  have "cell (snd acc1) = mark_all c d (remote d) (cell tg)"
    "cell (fst acc1) (h * 2) = (if h = d then int (length (remote d)) else cell st (h * 2))" for h
    using expect_fold_tables [OF c, of d "remote d" "(vec_set st (d * 2) (int (length (remote d))), tg)" h]
    by (auto simp: acc1_def vec_set_def)
  then show ?case using Cons.IH [OF rest] Cons.prems(2) cp by (auto simp: acc)
qed simp

section \<open>The table that the owner builds\<close>

lemma target_slots_row:
  assumes "\<forall>slot\<in>set slots. f (dst * B + slot) < E"
  shows "target_slots f E (c_expertsPerRank c) (target_words c) B (c_rank c) (map (Pair dst) slots @ rest) t =
    target_slots f E (c_expertsPerRank c) (target_words c) B (c_rank c) rest (mark_targets c dst (map (\<lambda>slot. f (dst * B + slot)) slots) t)"
  using assms
proof (induction slots arbitrary: t)
  case (Cons slot slots)
  then show ?case by (auto simp: mark_targets_def Let_def HomeRank_def)
qed (simp add: mark_targets_def)

lemma target_slots_all:
  assumes "\<forall>dst\<in>set ds. \<forall>slot\<in>set slots. f (dst * B + slot) < E"
  shows "target_slots f E (c_expertsPerRank c) (target_words c) B (c_rank c) (List.product ds slots) t =
    (PLAN_OK, fold (\<lambda>dst. mark_targets c dst (map (\<lambda>slot. f (dst * B + slot)) slots)) ds t)"
  using assms
proof (induction ds arbitrary: t)
  case (Cons dst ds)
  have "target_slots f E (c_expertsPerRank c) (target_words c) B (c_rank c) (List.product (dst # ds) slots) t =
      target_slots f E (c_expertsPerRank c) (target_words c) B (c_rank c) (List.product ds slots) (mark_targets c dst (map (\<lambda>slot. f (dst * B + slot)) slots) t)"
    using target_slots_row [of slots f dst B E c "List.product ds slots" t] Cons.prems by simp
  then show ?case using Cons by simp
qed simp

lemma mark_rows_view:
  assumes ok: "plan_ctx_ok c"
  shows "\<lbrakk>set ds \<subseteq> ranks_of c; \<forall>dst\<in>set ds. \<forall>e\<in>set (rows dst). 0 \<le> e;
      \<forall>i\<in>{0..<c_expertsPerRank c * target_words c}. T (c_rank c * c_expertsPerRank c * target_words c + i) = t i\<rbrakk> \<Longrightarrow>
    \<forall>i\<in>{0..<c_expertsPerRank c * target_words c}.
      fold (\<lambda>d. mark_all c d (rows d)) ds T (c_rank c * c_expertsPerRank c * target_words c + i) =
      fold (\<lambda>d. mark_targets c d (rows d)) ds t i"
proof (induction ds arbitrary: T t)
  case (Cons d ds)
  have d: "d \<in> ranks_of c" "\<forall>e\<in>set (rows d). 0 \<le> e" and ds: "set ds \<subseteq> ranks_of c" "\<forall>dst\<in>set ds. \<forall>e\<in>set (rows dst). 0 \<le> e"
    using Cons.prems(1,2) by auto
  show ?case unfolding fold_simps comp_apply
    by (rule Cons.IH [OF ds mark_targets_view [OF ok d Cons.prems(3)]])
qed simp

definition owner_ctx :: "ref_input \<Rightarrow> int \<Rightarrow> plan_ctx" where
  "owner_ctx ri owner = \<lparr> c_rank = owner, c_rankSize = ri_rankSize ri, c_expertNum = ri_expertNum ri,
     c_expertsPerRank = ri_expertNum ri div ri_rankSize ri, c_cap = rankTokenCapacity (ri_config ri), c_b = prefetchSlots (ri_config ri),
     c_routeLimit = tokenRouteLimitPerPair (ri_config ri), c_segmentCapacity = 0, c_globalRankIds = cell (ri_globalRankIds ri) \<rparr>"

lemma owner_ctx_ok:
  assumes "ValidateInput ri = PLAN_OK"
  shows "plan_ctx_ok (owner_ctx ri owner)" "ri_expertNum ri mod ri_rankSize ri = 0"
proof -
  note pos = ValidateInput_pos [OF assms]
  have m: "ri_expertNum ri mod ri_rankSize ri = 0" "0 \<le> tokenRouteLimitPerPair (ri_config ri)"
    using assms by (auto simp: ValidateInput_def ref_config_invalid_def CheckedProduct_def Let_def split: option.splits if_splits)
  have e: "ri_expertNum ri = ri_rankSize ri * (ri_expertNum ri div ri_rankSize ri)" using mult_div_mod_eq [of "ri_rankSize ri" "ri_expertNum ri"] m(1) by simp
  then have "0 < ri_expertNum ri div ri_rankSize ri" using pos(1,2) by (metis zero_less_mult_pos)
  then show "plan_ctx_ok (owner_ctx ri owner)" using pos m e by (simp add: plan_ctx_ok_def owner_ctx_def)
  show "ri_expertNum ri mod ri_rankSize ri = 0" by (rule m(1))
qed

lemma accepted_remote:
  fixes owner :: int
  assumes acc: "CheckReferencePlanInvariants ri ro = None" and ok: "ro_finalStatus ro = PLAN_OK"
  defines "remote \<equiv> ref_remote (ref_ctx_of ri) (cell (ro_alloc ro))" and "c \<equiv> owner_ctx ri owner"
  shows "i \<in> {0..<ri_expertNum ri * target_words c} \<Longrightarrow>
      cell (ro_expertTargets ro) i = fold (\<lambda>d. mark_all c d (remote d)) [0..ri_rankSize ri - 1] (\<lambda>_. 0) i"
    "d \<in> {0..<ri_rankSize ri} \<Longrightarrow>
      map (\<lambda>slot. cell (ro_expertsToCopy ro) (d * c_b c + slot)) [0..c_b c - 1] = pad_row c (remote d) \<and> int (length (remote d)) \<le> c_b c"
proof -
  have v: "ValidateInput ri = PLAN_OK" by (rule accepted_codes(1) [OF acc])
  note pos = ValidateInput_pos [OF v]
  have tw: "target_words c = (ri_rankSize ri + 63) div 64" and b: "c_b c = prefetchSlots (ri_config ri)"
    by (simp_all add: c_def owner_ctx_def target_words_def)
  have rem: "check_remote ri ro = None" and lay: "\<forall>d\<in>{0..<ri_rankSize ri}. check_rank_layout ri ro d = None"
    and shp: "check_target_shapes ri ro = None" "check_output_shapes ri ro = None"
    using acc v by (simp_all add: CheckReferencePlanInvariants_def or_else_None first_error_None)
  obtain st tg where rows: "expect_rows ri ro [0..ri_rankSize ri - 1] (vec_fill (ri_rankSize ri * 2) 0, vec_fill (ri_expertNum ri * target_words c) 0) = Inr (st, tg)"
    and eqs: "vec_eq (ro_remoteStats ro) st" "vec_eq (ro_expertTargets ro) tg"
    using rem ok unfolding check_remote_def tw by (auto split: sum.splits prod.splits if_splits)
  note ex = expect_rows_tables [OF tw rows distinct_upto, folded remote_def]
  have sz: "vsize (ro_expertTargets ro) = ri_expertNum ri * target_words c" "vsize (ro_remoteStats ro) = ri_rankSize ri * 2"
    using shp by (auto simp: check_target_shapes_def check_output_shapes_def tw split: if_splits)
  { assume i: "i \<in> {0..<ri_expertNum ri * target_words c}"
    then have "cell (ro_expertTargets ro) i = cell tg i" using eqs(2) sz(1) by (simp add: vec_eq_def list_all_iff)
    then show "cell (ro_expertTargets ro) i = fold (\<lambda>d. mark_all c d (remote d)) [0..ri_rankSize ri - 1] (\<lambda>_. 0) i"
      using ex by (simp add: vec_fill_def) }
  assume d: "d \<in> {0..<ri_rankSize ri}"
  have "cell (ro_remoteStats ro) (d * 2) = cell st (d * 2)" using eqs(1) sz(2) d by (simp add: vec_eq_def list_all_iff)
  also have "\<dots> = int (length (remote d))" using ex d by simp
  finally have len: "int (length (remote d)) \<le> c_b c"
    using bspec [OF lay d] by (simp add: check_rank_layout_def b split: if_splits)
  have "check_copies ri ro d (remote d) = None" using ex d by simp
  then have cp: "\<forall>slot\<in>{0..<c_b c}. cell (ro_expertsToCopy ro) (d * c_b c + slot) = (if slot < int (length (remote d)) then remote d ! nat slot else -1)"
    using ok by (auto simp: check_copies_def Let_def list_ex_iff b split: if_splits)
  have "map (\<lambda>slot. cell (ro_expertsToCopy ro) (d * c_b c + slot)) [0..c_b c - 1] = pad_row c (remote d)"
  proof (rule nth_equalityI)
    show l: "length (map (\<lambda>slot. cell (ro_expertsToCopy ro) (d * c_b c + slot)) [0..c_b c - 1]) = length (pad_row c (remote d))"
      using length_pad_row [OF len] by simp
    fix j assume "j < length (map (\<lambda>slot. cell (ro_expertsToCopy ro) (d * c_b c + slot)) [0..c_b c - 1])"
    then have j: "int j \<in> {0..<c_b c}" "j < nat (c_b c)" by auto
    then show "map (\<lambda>slot. cell (ro_expertsToCopy ro) (d * c_b c + slot)) [0..c_b c - 1] ! j = pad_row c (remote d) ! j"
      using bspec [OF cp j(1)] pad_row_nth [of "int j" c "remote d"] by (simp add: nth_upto)
  qed
  then show "map (\<lambda>slot. cell (ro_expertsToCopy ro) (d * c_b c + slot)) [0..c_b c - 1] = pad_row c (remote d) \<and> int (length (remote d)) \<le> c_b c"
    using len by blast
qed

lemma remote_range: "\<forall>e\<in>set (ref_remote (ref_ctx_of ri) alc d). 0 \<le> e \<and> e < ri_expertNum ri"
  by (auto simp: ref_remote_def ref_ctx_of_def set_std_sort)

text \<open>The slots of an accepted plan mark its remote experts.\<close>

lemma owner_slots:
  fixes owner :: int
  assumes acc: "CheckReferencePlanInvariants ri ro = None" and ok: "ro_finalStatus ro = PLAN_OK"
  defines "c \<equiv> owner_ctx ri owner" and "remote \<equiv> ref_remote (ref_ctx_of ri) (cell (ro_alloc ro))"
  shows "target_slots (cell (ro_expertsToCopy ro)) (c_expertNum c) (c_expertsPerRank c) (target_words c) (c_b c) (c_rank c)
      (List.product [0..c_rankSize c - 1] [0..c_b c - 1]) t = (PLAN_OK, fold (\<lambda>d. mark_targets c d (remote d)) [0..c_rankSize c - 1] t)"
proof -
  let ?ds = "[0..c_rankSize c - 1]" and ?f = "cell (ro_expertsToCopy ro)" and ?B = "c_b c"
  have R: "c_rankSize c = ri_rankSize ri" "c_expertNum c = ri_expertNum ri" by (simp_all add: c_def owner_ctx_def)
  note rem = accepted_remote(2) [OF acc ok, of _ owner, folded c_def remote_def]
  have E: "0 < ri_expertNum ri" by (rule ValidateInput_pos(2) [OF accepted_codes(1) [OF acc]])
  have row: "map (\<lambda>slot. ?f (d * ?B + slot)) [0..?B - 1] = pad_row c (remote d)" if "d \<in> set ?ds" for d using rem [of d] that by (simp add: R)
  have small: "\<forall>d\<in>set ?ds. \<forall>slot\<in>set [0..?B - 1]. ?f (d * ?B + slot) < c_expertNum c"
  proof (intro ballI)
    fix d slot assume d: "d \<in> set ?ds" and s: "slot \<in> set [0..?B - 1]"
    have "?f (d * ?B + slot) \<in> set (pad_row c (remote d))" unfolding row [OF d, symmetric] using s by simp
    then show "?f (d * ?B + slot) < c_expertNum c"
      using remote_range [of ri "cell (ro_alloc ro)" d] E by (auto simp: pad_row_def remote_def R)
  qed
  have "fold (\<lambda>d. mark_targets c d (map (\<lambda>slot. ?f (d * ?B + slot)) [0..?B - 1])) ?ds t = fold (\<lambda>d. mark_targets c d (remote d)) ?ds t"
    by (rule fold_cong [OF refl refl]) (simp add: row mark_targets_pad fun_eq_iff)
  then show ?thesis using target_slots_all [OF small, of c t] by simp
qed

text \<open>C6: From the table of copied experts of an accepted successful plan, every owner builds exactly its part of
  the plan's expert targets: the bits of the ranks that hold a copy of each of its experts.\<close>

theorem expert_targets_of_plan:
  assumes acc: "CheckReferencePlanInvariants ri ro = None" and ok: "ro_finalStatus ro = PLAN_OK" and R: "ri_rankSize ri \<le> 128"
    and owner: "owner \<in> {0..<ri_rankSize ri}"
  defines "per \<equiv> ri_expertNum ri div ri_rankSize ri" and "words \<equiv> (ri_rankSize ri + 63) div 64"
  shows "\<exists>t'. BuildMoonEPExpertTargets (Some (cell (ro_expertsToCopy ro))) (ri_rankSize ri) (ri_expertNum ri) (prefetchSlots (ri_config ri)) owner
      (Some t) (nat (per * words)) = (PLAN_OK, Some t') \<and>
    (\<forall>i\<in>{0..<per * words}. t' i = cell (ro_expertTargets ro) (owner * per * words + i))"
proof -
  have v: "ValidateInput ri = PLAN_OK" by (rule accepted_codes(1) [OF acc])
  note pos = ValidateInput_pos [OF v]
  define c where "c = owner_ctx ri owner"
  define remote where "remote = ref_remote (ref_ctx_of ri) (cell (ro_alloc ro))"
  have cf: "c_rank c = owner" "c_rankSize c = ri_rankSize ri" "c_expertsPerRank c = per" "c_b c = prefetchSlots (ri_config ri)" "target_words c = words"
    "c_expertNum c = ri_expertNum ri"
    by (simp_all add: c_def owner_ctx_def per_def words_def target_words_def)
  have cok: "plan_ctx_ok c" unfolding c_def by (rule owner_ctx_ok(1) [OF v])
  note rem = accepted_remote [OF acc ok, of _ owner, folded c_def remote_def, unfolded cf]
  have mem: "\<forall>e\<in>set (remote d). 0 \<le> e \<and> e < ri_expertNum ri" for d unfolding remote_def by (rule remote_range)
  define t0 where "t0 = clear (per * words) 0 t"
  let ?ds = "[0..ri_rankSize ri - 1]" and ?f = "cell (ro_expertsToCopy ro)" and ?B = "prefetchSlots (ri_config ri)"
  have run: "target_slots ?f (ri_expertNum ri) per words ?B owner (List.product ?ds [0..?B - 1]) t0 =
      (PLAN_OK, fold (\<lambda>d. mark_targets c d (remote d)) ?ds t0)"
    using owner_slots [OF acc ok, of owner t0, folded c_def remote_def, unfolded cf] .
  have pw: "0 < per * words" using cok pos by (simp add: plan_ctx_ok_def cf words_def)
  have build: "BuildMoonEPExpertTargets (Some ?f) (ri_rankSize ri) (ri_expertNum ri) ?B owner (Some t) (nat (per * words)) =
      (PLAN_OK, Some (fold (\<lambda>d. mark_targets c d (remote d)) ?ds t0))"
    unfolding BuildMoonEPExpertTargets_def Let_def per_def [symmetric] words_def [symmetric]
    using pos R owner owner_ctx_ok(2) [OF v] pw run by (simp add: deref_def t0_def)
  have blk: "owner * per * words + i \<in> {0..<ri_expertNum ri * words}" if i: "i \<in> {0..<per * words}" for i
  proof -
    have "ri_expertNum ri = ri_rankSize ri * per" using cok by (simp add: plan_ctx_ok_def cf)
    moreover have "owner * (per * words) \<le> (ri_rankSize ri - 1) * (per * words)" using owner pw by (intro mult_right_mono) auto
    moreover have "0 \<le> owner * (per * words)" using owner pw by simp
    ultimately show ?thesis using i by (simp add: algebra_simps)
  qed
  have z: "\<forall>i\<in>{0..<c_expertsPerRank c * target_words c}. (\<lambda>_. 0) (c_rank c * c_expertsPerRank c * target_words c + i) = t0 i"
    by (simp add: t0_def clear_def cf)
  have sub: "set ?ds \<subseteq> ranks_of c" by (auto simp: cf)
  have rows: "\<forall>d\<in>set ?ds. \<forall>e\<in>set (remote d). 0 \<le> e" using mem by simp
  have "\<forall>i\<in>{0..<per * words}. fold (\<lambda>d. mark_targets c d (remote d)) ?ds t0 i = cell (ro_expertTargets ro) (owner * per * words + i)"
    using mark_rows_view [OF cok sub rows z, unfolded cf] rem(1) [OF blk] by simp
  with build show ?thesis by (intro exI conjI)
qed

lemma job_ref_targets: "cell (ro_expertTargets (the (BuildReferencePlan job_ref))) 0 = 2"
  by code_simp

lemma job_ref_final: "ro_finalStatus (the (BuildReferencePlan job_ref)) = PLAN_OK"
  using job_ref_status by auto

theorem expert_targets_of_plan_witness:
  "\<exists>t'. BuildMoonEPExpertTargets (Some (cell (ro_expertsToCopy (the (BuildReferencePlan job_ref))))) 2 2 1 0 (Some (\<lambda>_. 7)) 1 =
    (PLAN_OK, Some t') \<and> t' 0 = 2"
proof -
  have args: "ri_rankSize job_ref = 2" "ri_expertNum job_ref = 2" "prefetchSlots (ri_config job_ref) = 1" by (simp_all add: job_ref_def job_config_def)
  have r: "ri_rankSize job_ref \<le> 128" "0 \<in> {0..<ri_rankSize job_ref}" by (simp_all add: args)
  from expert_targets_of_plan [OF job_ref_accepted job_ref_final r, of "\<lambda>_. 7"] show ?thesis
    using job_ref_targets by (auto simp: args)
qed
end
