(* ===== verification/Spec2Isabelle.thy ===== *)
theory Spec2Isabelle
  imports CombineReceive CombineGroups CombineWqe DispatchPeers DispatchWqe PlanTargets
begin

text \<open>
  A verification library for the device-independent core of TileXR's expert-parallel communication
  (MoonEP): the planner that decides which rank computes which token, the helpers that consume a
  plan, and the transfer schedules and queue arithmetic of the combine and dispatch stages.

  \<^bold>\<open>The program.\<close>  In a step of a mixture-of-experts model every rank has \<open>s\<close> tokens with \<open>topK\<close> expert
  choices each.  The planner balances the load: it copies experts to other ranks and moves
  intervals of tokens (segments) to them, and gives every route (token and choice) a destination, a
  slot in the receive window of a rank.  Every rank runs the planner for itself on the same
  tables and must get the same plan.  Dispatch then writes the tokens to the slots and combine
  brings the results back; both walk over all peers in a fixed schedule, post work-queue entries,
  and read completion-queue entries.

  \<^bold>\<open>Conventions.\<close>  \<open>uint32_t\<close> and \<open>uint64_t\<close> values are \<open>nat\<close>, with \<open>u32\<close> and \<open>u64\<close> written wherever
  the C++ code wraps (\<open>TX_Prelude\<close>).  \<open>int32_t\<close> and \<open>int64_t\<close> values are \<open>int\<close> (see Bounds).  Arrays behind pointers
  are functions from \<open>int\<close> (\<open>arr\<close>), null pointers are \<open>None\<close>, \<open>std::vector\<close> is the record \<open>vec\<close> of a size
  and cells, and \<open>std::sort\<close> is \<open>std_sort\<close>.  Statuses are the values of \<open>plan_status\<close>.  Loops are
  recursion over the list of the indices they visit.  Names follow the source; a loop or a block of a
  long function has its own definition.

  \<^bold>\<open>Planner of a rank\<close> (\<open>src/moonep/planner_v2/common/ep_plan_algorithm_impl.h\<close>).  \<open>PlanSort\<close> has the
  orders and sorts, \<open>PlanState\<close> the inputs, outputs and workspace as records, \<open>Validate\<close>, the affinity order
  and \<open>ApplyExpertMove\<close>, \<open>PlanRounds\<close> the balancing rounds \<open>RunIntra\<close> and \<open>RunInter\<close> and the remainders,
  \<open>PlanLayout\<close> \<open>BuildLayouts\<close>, \<open>BuildDst\<close>, \<open>FillStatus\<close> and \<open>RunPlanAlgorithm\<close>.  The state has one ghost field,
  \<open>segmentLog\<close>, the segments of all ranks, of which a rank stores its own.  The rounds are total functions:
  the termination proofs use the excess load (\<open>overload\<close>), which every round with a move lowers.  The locale
  \<open>insertion_order\<close> (\<open>PlanSort\<close>) proves that the sorts return the sorted permutation, once for all orders of the planner;
  \<open>move_closed\<close> (\<open>PlanInvariant\<close>) and \<open>move_kept\<close> (\<open>PlanRun\<close>) carry a property of \<open>ApplyExpertMove\<close>
  through all rounds.  \<open>PlanMove\<close> and \<open>PlanInvariant\<close> show the invariant of the rounds (adjacent segments, consistent loads and
  allocations, exact remote slots, route limits); \<open>PlanPlacement\<close> that a layout that fits puts the experts in disjoint intervals;
  \<open>PlanBalance\<close> the initial state; \<open>PlanDst\<close> the closed form of the destination of a route; \<open>PlanAgree\<close> and \<open>PlanRun\<close> that
  ranks with the same tables compute the same plan; \<open>PlanCapacity\<close> that one segment record per route is enough.
  \<open>PlanTheorems\<close> has the properties: distinct destinations, balance, outcomes, invariant, a bound on the rounds,
  no overflow, the meaning of a destination.

  \<^bold>\<open>Reference planner\<close> (\<open>src/moonep/planner_v2/reference/ep_plan_reference.cpp\<close>).  \<open>PlanReference\<close> models it
  as a whole, with its loops as partial functions (\<open>None\<close> is a loop that does not end), and \<open>PlanCheck\<close> its invariant checker
  \<open>CheckReferencePlanInvariants\<close> (\<open>None\<close> is an accepted plan).  \<open>PlanSimulate\<close>, \<open>PlanSimRounds\<close>, \<open>PlanSimBalance\<close>, \<open>PlanSimLayout\<close>,
  \<open>PlanSimDst\<close> and \<open>PlanSimJob\<close> are a simulation of the reference planner by the planner of a rank, step by step; \<open>PlanEquivalence\<close>
  concludes that the reference planner ends and that every rank computes its rows of the reference plan.
  \<open>PlanCheckLayout\<close>, \<open>PlanCheckCodes\<close>, \<open>PlanCheckSegments\<close> and \<open>PlanCheckPlan\<close> analyse the checks one by one;
  \<open>PlanCheckSound\<close> concludes that the checker accepts exactly the plans that have destinations and that
  whatever it accepts is a correct plan.

  \<^bold>\<open>Consumers of a plan\<close> (\<open>src/moonep/planner_v2/common/ep_plan_downstream.cpp\<close>).  \<open>PlanDownstream\<close> is the model.  For a plan
  that the checker accepts, \<open>PlanRoutes\<close> shows that every route gets a descriptor that decodes back, \<open>PlanDuplicates\<close> that a receiver
  builds its duplicate metadata for any order of arrival, and \<open>PlanTargets\<close> that an owner rebuilds its expert targets.
  These hold for at most 128 ranks, the limit in the source.

  \<^bold>\<open>Schedules\<close> (\<open>src/moonep/common/moonep_combine_schedule.h\<close>, \<open>src/moonep/dispatch/urma/common\<close>).  \<open>CombineSchedule\<close>, \<open>CombineCredits\<close>,
  \<open>DispatchCommon\<close> and \<open>DispatchSchedule\<close> are the models.  The locale \<open>transfer_schedule\<close> (\<open>TransferSchedule\<close>) states what a schedule promises,
  a bijection between slots and peers; it is interpreted on the combine schedules (\<open>CombinePeers\<close>, \<open>CombineReceive\<close>), the
  128-rank groups (\<open>CombineGroups\<close>) and the dispatch groups (\<open>DispatchPeers\<close>).  The properties: every rank is reached exactly once,
  both sides of a transfer agree on its step and core, credits go to the ranks that send next, tokens,
  guards and credit words are unambiguous, and credit slots are disjoint.

  \<^bold>\<open>Queues\<close> (\<open>combine_v2_wqe_batch.h\<close>, \<open>dispatch_wqe_batch.h\<close>).  \<open>CombineWqe\<close> and \<open>DispatchWqe\<close> interpret \<open>sq_ring\<close> (a completion
  advances the tail by the right number of entries) and \<open>qp_split\<close> (two queue pairs share the rows of a batch), both in
  \<open>WqeRing\<close>.

  \<^bold>\<open>Bounds.\<close>  No definition has fuel.  The products of \<open>int32_t\<close> values in the planners are exact in the model.
  The validation keeps \<open>s * topK\<close> and \<open>rankSize * nvS\<close> within \<open>INT32_MAX\<close>, so destinations never overflow, but it does not bound
  \<open>rankSize * expertNum\<close> or \<open>rankSize * prefetchSlots\<close>: for tables with more than \<open>INT32_MAX\<close> entries the model and the code differ.  Likewise the token loop of
  \<open>BuildMoonEPDuplicateMetadata\<close> counts in 32 bits up to a 64-bit \<open>s\<close>; for accepted plans \<open>s\<close> is within \<open>INT32_MAX\<close>.
  The base of a duplicate group, three times the number of groups before it, is another product that an accepted plan can
  overflow; it is kept at 32 bits (\<open>i32\<close>), and the theorem on the metadata assumes two ranks or more, where it always fits, or
  \<open>3 * s\<close> within \<open>INT32_MAX\<close>.
  The equivalence of the planners assumes rank ids that fit \<open>int32_t\<close>, their type in the source.

  \<^bold>\<open>Not modelled.\<close>  The AscendC and CCE kernels (vector pipes, event flags and global-memory intrinsics of the device, whose
  semantics is not in the sources), the communicator, socket, UDMA and SDMA code (runtime, driver and firmware calls), the
  host launchers and the window and workspace layouts of the stages, the plain EP path, the collectives, the offline
  checker tool, and the Python integrations, benchmarks and simulator.  Of the modelled functions, the checks for a null
  output pointer of \<open>BuildReferencePlan\<close> and \<open>DispatchDecodeDestination\<close> are left out, as their models return the outputs;
  \<open>SortRanks\<close> takes a list, so a negative count, which no caller passes, cannot occur, and what it leaves in the array when it
  fails is dropped, as its callers then stop with the internal-invariant error.
\<close>

end
